(* ===== verification/JS_Prelude.thy ===== *)
theory JS_Prelude
  imports Main "HOL-Library.Sublist"
begin

text \<open>
  Shared vocabulary of the development: JavaScript strings and the string methods the
  front end uses (trim, includes, split, join, startsWith, endsWith, decimal digits).

  A JavaScript string is modelled by its UTF-8 byte sequence, a \<^typ>\<open>string\<close> of Isabelle.
  Every string operation of the modelled code cuts and compares at ASCII characters, which
  never occur inside a multi-byte sequence, so it acts on the bytes as it acts on the code
  units. The white space that \<open>trim\<close> removes is the full set of ECMAScript (WhiteSpace and
  LineTerminator), multi-byte characters included.
\<close>

named_theorems trim_simps "facts that evaluate trim on strings with visible ends"

text \<open>A computation that ends without an error, with a property of its result.\<close>

lemma ok_result: "(case r of Inl e \<Rightarrow> False | Inr x \<Rightarrow> P x) \<longleftrightarrow> (\<exists>x. r = Inr x \<and> P x)"
  by (cases r) auto

section \<open>White space and trim\<close>

text \<open>Tab, LF, VT, FF, CR, space.\<close>

definition is_ws1 :: "char \<Rightarrow> bool" where
  "is_ws1 a \<longleftrightarrow> a \<in> {CHR 0x09, CHR 0x0A, CHR 0x0B, CHR 0x0C, CHR 0x0D, CHR 0x20}"

text \<open>U+00A0.\<close>

definition is_ws2 :: "char \<Rightarrow> char \<Rightarrow> bool" where
  "is_ws2 a b \<longleftrightarrow> a = CHR 0xC2 \<and> b = CHR 0xA0"

text \<open>U+1680, U+2000 to U+200A, U+2028, U+2029, U+202F, U+205F, U+3000, U+FEFF.\<close>

definition is_ws3 :: "char \<Rightarrow> char \<Rightarrow> char \<Rightarrow> bool" where
  "is_ws3 a b c \<longleftrightarrow>
     (a = CHR 0xE1 \<and> b = CHR 0x9A \<and> c = CHR 0x80)
   \<or> (a = CHR 0xE2 \<and> b = CHR 0x80 \<and>
        c \<in> {CHR 0x80, CHR 0x81, CHR 0x82, CHR 0x83, CHR 0x84, CHR 0x85, CHR 0x86, CHR 0x87,
             CHR 0x88, CHR 0x89, CHR 0x8A, CHR 0xA8, CHR 0xA9, CHR 0xAF})
   \<or> (a = CHR 0xE2 \<and> b = CHR 0x81 \<and> c = CHR 0x9F)
   \<or> (a = CHR 0xE3 \<and> b = CHR 0x80 \<and> c = CHR 0x80)
   \<or> (a = CHR 0xEF \<and> b = CHR 0xBB \<and> c = CHR 0xBF)"

text \<open>Number of bytes of the white space character a string starts with, 0 if none.\<close>

fun ws_len :: "string \<Rightarrow> nat" where
  "ws_len [] = 0"
| "ws_len [a] = (if is_ws1 a then 1 else 0)"
| "ws_len [a, b] = (if is_ws1 a then 1 else if is_ws2 a b then 2 else 0)"
| "ws_len (a # b # c # s) =
     (if is_ws1 a then 1 else if is_ws2 a b then 2 else if is_ws3 a b c then 3 else 0)"

text \<open>The same for the end of a string, read backwards.\<close>

fun ws_len_rev :: "string \<Rightarrow> nat" where
  "ws_len_rev [] = 0"
| "ws_len_rev [a] = (if is_ws1 a then 1 else 0)"
| "ws_len_rev [b, a] = (if is_ws1 b then 1 else if is_ws2 a b then 2 else 0)"
| "ws_len_rev (c # b # a # s) =
     (if is_ws1 c then 1 else if is_ws2 b c then 2 else if is_ws3 a b c then 3 else 0)"

function strip_by :: "(string \<Rightarrow> nat) \<Rightarrow> string \<Rightarrow> string" where
  "strip_by f s = (if f s = 0 \<or> s = [] then s else strip_by f (drop (f s) s))"
  by pat_completeness auto
termination
  by (relation "measure (\<lambda>(f, s). length s)") auto

declare strip_by.simps [simp del]

definition trim :: "string \<Rightarrow> string" where
  "trim s = rev (strip_by ws_len_rev (rev (strip_by ws_len s)))"

text \<open>Printable ASCII other than the space: never white space, whatever stands beside it.\<close>

definition visible :: "char \<Rightarrow> bool" where
  "visible c \<longleftrightarrow> 33 \<le> (of_char c :: nat) \<and> (of_char c :: nat) \<le> 126"

lemma visible_not_ws [simp]:
  assumes "visible c"
  shows "\<not> is_ws1 c" "\<not> is_ws2 c x" "\<not> is_ws2 x c"
    "\<not> is_ws3 c x y" "\<not> is_ws3 x y c"
  using assms by (auto simp: visible_def is_ws1_def is_ws2_def is_ws3_def)

lemma ws_len_visible [simp]: "visible c \<Longrightarrow> ws_len (c # s) = 0"
  by (cases "c # s" rule: ws_len.cases) auto

lemma ws_len_rev_visible [simp]: "visible c \<Longrightarrow> ws_len_rev (c # s) = 0"
  by (cases "c # s" rule: ws_len_rev.cases) auto

lemma strip_by_Nil [simp]: "strip_by f [] = []"
  by (simp add: strip_by.simps)

lemma strip_by_stop: "f s = 0 \<Longrightarrow> strip_by f s = s"
  by (simp add: strip_by.simps)

lemma strip_by_zero: "f [] = 0 \<Longrightarrow> f (strip_by f s) = 0"
proof (induction f s rule: strip_by.induct)
  case (1 f s)
  then show ?case by (cases "f s = 0 \<or> s = []") (auto simp: strip_by.simps [of f s])
qed

lemma strip_by_suffix: "suffix (strip_by f s) s"
proof (induction f s rule: strip_by.induct)
  case (1 f s)
  show ?case
  proof (cases "f s = 0 \<or> s = []")
    case True
    then show ?thesis by (auto simp: strip_by.simps [of f s])
  next
    case False
    with "1.IH" have "suffix (strip_by f (drop (f s) s)) (drop (f s) s)" by simp
    then have "suffix (strip_by f (drop (f s) s)) s"
      using suffix_drop suffix_order.trans by blast
    with False show ?thesis by (simp add: strip_by.simps [of f s])
  qed
qed

lemma ws_len_prefix: "prefix p s \<Longrightarrow> ws_len s = 0 \<Longrightarrow> ws_len p = 0"
  by (cases p rule: ws_len.cases; cases s rule: ws_len.cases) (auto split: if_splits)

lemma trim_Nil [simp]: "trim [] = []"
  by (simp add: trim_def)

lemma trim_visible [trim_simps]:
  assumes "s \<noteq> []" "visible (hd s)" "visible (last s)"
  shows "trim s = s"
proof -
  from assms have "ws_len s = 0" by (cases s) auto
  moreover from assms have "ws_len_rev (rev s) = 0"
    by (cases s rule: rev_cases) auto
  ultimately show ?thesis by (simp add: trim_def strip_by_stop)
qed

lemma trim_idem [simp]: "trim (trim s) = trim s"
proof -
  define a where "a = strip_by ws_len s"
  have a0: "ws_len a = 0" unfolding a_def by (rule strip_by_zero) simp
  define b where "b = strip_by ws_len_rev (rev a)"
  have b0: "ws_len_rev b = 0" unfolding b_def by (rule strip_by_zero) simp
  have "prefix (rev b) a"
    using strip_by_suffix [of ws_len_rev "rev a"] by (simp add: b_def suffix_to_prefix)
  then have "ws_len (rev b) = 0" using a0 by (rule ws_len_prefix)
  with b0 have "trim (rev b) = rev b" by (simp add: trim_def strip_by_stop)
  then show ?thesis by (simp add: trim_def a_def b_def)
qed

lemma set_trim: "set (trim s) \<subseteq> set s"
proof -
  have "set (trim s) \<subseteq> set (strip_by ws_len s)"
    using set_mono_suffix [OF strip_by_suffix, of ws_len_rev "rev (strip_by ws_len s)"]
    by (simp add: trim_def)
  also have "\<dots> \<subseteq> set s" by (rule set_mono_suffix [OF strip_by_suffix])
  finally show ?thesis .
qed

section \<open>Searching, splitting, joining\<close>

fun js_includes :: "string \<Rightarrow> string \<Rightarrow> bool" where
  "js_includes [] p = (p = [])"
| "js_includes (c # s) p = (prefix p (c # s) \<or> js_includes s p)"

lemma js_includes_sublist: "js_includes s p \<longleftrightarrow> sublist p s"
  by (induction s p rule: js_includes.induct) (auto simp: sublist_Cons_right)

text \<open>The rest of a string after a literal prefix, if it has that prefix.\<close>

fun strip_prefix :: "string \<Rightarrow> string \<Rightarrow> string option" where
  "strip_prefix [] s = Some s"
| "strip_prefix (p # ps) [] = None"
| "strip_prefix (p # ps) (c # s) = (if p = c then strip_prefix ps s else None)"

lemma strip_prefix_append [simp]: "strip_prefix p (p @ s) = Some s"
  by (induction p) auto

lemma strip_prefix_Some: "strip_prefix p s = Some r \<longleftrightarrow> s = p @ r"
  by (induction p s rule: strip_prefix.induct) auto

lemma strip_prefix_self [simp]: "strip_prefix p p = Some []"
  by (induction p) auto

definition strip_suffix :: "string \<Rightarrow> string \<Rightarrow> string option" where
  "strip_suffix p s = map_option rev (strip_prefix (rev p) (rev s))"

lemma strip_suffix_append [simp]: "strip_suffix p (s @ p) = Some s"
  by (simp add: strip_suffix_def)

lemma strip_suffix_Some: "strip_suffix p s = Some r \<longleftrightarrow> s = r @ p"
  by (auto simp: strip_suffix_def strip_prefix_Some) (metis rev_append rev_rev_ident)

fun split_char :: "char \<Rightarrow> string \<Rightarrow> string list" where
  "split_char c [] = [[]]"
| "split_char c (x # xs) =
     (if x = c then [] # split_char c xs
      else (case split_char c xs of [] \<Rightarrow> [[x]] | y # ys \<Rightarrow> (x # y) # ys))"

fun js_join :: "string \<Rightarrow> string list \<Rightarrow> string" where
  "js_join sep [] = []"
| "js_join sep [x] = x"
| "js_join sep (x # y # zs) = x @ sep @ js_join sep (y # zs)"

lemma js_join_Cons: "xs \<noteq> [] \<Longrightarrow> js_join sep (x # xs) = x @ sep @ js_join sep xs"
  by (cases xs) auto

lemma split_char_nonempty [simp]: "split_char c s \<noteq> []"
  by (induction s) (auto split: list.splits)

lemma split_char_free: "c \<notin> set x \<Longrightarrow> split_char c x = [x]"
  by (induction x) auto

lemma split_char_append: "c \<notin> set x \<Longrightarrow> split_char c (x @ c # s) = x # split_char c s"
  by (induction x) auto

lemma split_char_join:
  "xs \<noteq> [] \<Longrightarrow> \<forall>x \<in> set xs. c \<notin> set x \<Longrightarrow> split_char c (js_join [c] xs) = xs"
  by (induction "[c]" xs rule: js_join.induct) (auto simp: split_char_free split_char_append)

lemma set_js_join: "set (js_join sep xs) \<subseteq> set sep \<union> (\<Union>x \<in> set xs. set x)"
  by (induction sep xs rule: js_join.induct) auto

text \<open>Reading up to the first occurrence of a character.\<close>

lemma takeWhile_until: "q \<notin> set a \<Longrightarrow> takeWhile (\<lambda>c. c \<noteq> q) (a @ q # r) = a"
  by (induction a) auto

lemma dropWhile_until: "q \<notin> set a \<Longrightarrow> dropWhile (\<lambda>c. c \<noteq> q) (a @ q # r) = q # r"
  by (induction a) auto

section \<open>Arrays\<close>

text \<open>\<open>xs.slice(a, b)\<close>: a negative bound counts from the end, bounds are clamped to the array.\<close>

definition slice_bound :: "nat \<Rightarrow> int \<Rightarrow> nat" where
  "slice_bound n i = nat (if i < 0 then max 0 (int n + i) else min i (int n))"

definition js_slice :: "int \<Rightarrow> int \<Rightarrow> 'a list \<Rightarrow> 'a list" where
  "js_slice a b xs =
     (let i = slice_bound (length xs) a; j = slice_bound (length xs) b in take (j - i) (drop i xs))"

text \<open>\<open>Array.from(new Set(xs))\<close>: the first occurrence of each element.\<close>

definition uniq :: "'a list \<Rightarrow> 'a list" where
  "uniq xs = rev (remdups (rev xs))"

lemma set_uniq [simp]: "set (uniq xs) = set xs"
  by (simp add: uniq_def)

lemma distinct_uniq [simp]: "distinct (uniq xs)"
  by (simp add: uniq_def)

lemma uniq_snoc: "uniq (xs @ [x]) = (if x \<in> set xs then uniq xs else uniq xs @ [x])"
  by (simp add: uniq_def)

lemma uniq_distinct: "distinct xs \<Longrightarrow> uniq xs = xs"
  by (simp add: uniq_def distinct_remdups_id)

text \<open>A stable sort by a comparator: \<open>le x y\<close> when the comparator of \<open>x\<close> and \<open>y\<close> is not positive.\<close>

fun insort_by :: "('a \<Rightarrow> 'a \<Rightarrow> bool) \<Rightarrow> 'a \<Rightarrow> 'a list \<Rightarrow> 'a list" where
  "insort_by le x [] = [x]"
| "insort_by le x (y # ys) = (if le x y then x # y # ys else y # insort_by le x ys)"

definition sort_by :: "('a \<Rightarrow> 'a \<Rightarrow> bool) \<Rightarrow> 'a list \<Rightarrow> 'a list" where
  "sort_by le xs = foldr (insort_by le) xs []"

lemma set_insort_by [simp]: "set (insort_by le x xs) = insert x (set xs)"
  by (induction xs) auto

lemma set_sort_by [simp]: "set (sort_by le xs) = set xs"
  by (induction xs) (simp_all add: sort_by_def)

lemma distinct_map_insort_by:
  "distinct (map f (insort_by le x xs)) \<longleftrightarrow> f x \<notin> f ` set xs \<and> distinct (map f xs)"
  by (induction xs) auto

lemma distinct_map_sort_by [simp]: "distinct (map f (sort_by le xs)) \<longleftrightarrow> distinct (map f xs)"
proof (induction xs)
  case (Cons x xs)
  have "sort_by le (x # xs) = insort_by le x (sort_by le xs)" by (simp add: sort_by_def)
  with Cons show ?case by (simp add: distinct_map_insort_by)
qed (simp add: sort_by_def)

section \<open>Length and prefix in UTF-16 code units\<close>

text \<open>The number of code units a byte stands for: a continuation byte none, the lead of a four byte sequence two.\<close>

definition byte_units :: "char \<Rightarrow> nat" where
  "byte_units c = (let n = (of_char c :: nat) in if 128 \<le> n \<and> n < 192 then 0 else if 240 \<le> n then 2 else 1)"

definition js_length :: "string \<Rightarrow> nat" where
  "js_length s = sum_list (map byte_units s)"

text \<open>
  \<open>s.slice(0, n)\<close>: the characters that fit into \<open>n\<close> code units. Where the source cuts a
  surrogate pair in two, the whole character is left out.
\<close>

fun js_take :: "nat \<Rightarrow> string \<Rightarrow> string" where
  "js_take n [] = []"
| "js_take n (c # s) = (if byte_units c \<le> n then c # js_take (n - byte_units c) s else [])"

section \<open>Decimal digits\<close>

definition is_digit :: "char \<Rightarrow> bool" where
  "is_digit c \<longleftrightarrow> 48 \<le> (of_char c :: nat) \<and> (of_char c :: nat) \<le> 57"

definition digit_val :: "char \<Rightarrow> nat" where
  "digit_val c = of_char c - 48"

definition digit_char :: "nat \<Rightarrow> char" where
  "digit_char d = char_of (48 + d)"

text \<open>\<open>/^\d+$/\<close>.\<close>

definition all_digits :: "string \<Rightarrow> bool" where
  "all_digits s \<longleftrightarrow> s \<noteq> [] \<and> list_all is_digit s"

definition parse_nat :: "string \<Rightarrow> nat" where
  "parse_nat s = foldl (\<lambda>n c. n * 10 + digit_val c) 0 s"

fun show_nat :: "nat \<Rightarrow> string" where
  "show_nat n = (if n < 10 then [digit_char n] else show_nat (n div 10) @ [digit_char (n mod 10)])"

declare show_nat.simps [simp del]

lemma digit_char_props [simp]:
  assumes "d < 10"
  shows "is_digit (digit_char d)" "digit_val (digit_char d) = d"
  using assms by (simp_all add: is_digit_def digit_val_def digit_char_def)

lemma is_digit_visible [simp]: "is_digit c \<Longrightarrow> visible c"
  by (simp add: is_digit_def visible_def)

lemma show_nat_digits: "list_all is_digit (show_nat n)"
proof (induction n rule: show_nat.induct)
  case (1 n)
  then show ?case by (cases "n < 10") (auto simp: show_nat.simps [of n])
qed

lemma show_nat_nonempty [simp]: "show_nat n \<noteq> []"
  by (simp add: show_nat.simps [of n])

lemma all_digits_show_nat [simp]: "all_digits (show_nat n)"
  by (simp add: all_digits_def show_nat_digits)

lemma parse_nat_snoc: "parse_nat (s @ [c]) = parse_nat s * 10 + digit_val c"
  by (simp add: parse_nat_def)

lemma parse_show_nat [simp]: "parse_nat (show_nat n) = n"
proof (induction n rule: show_nat.induct)
  case (1 n)
  show ?case
  proof (cases "n < 10")
    case True
    then show ?thesis by (simp add: show_nat.simps [of n] parse_nat_def)
  next
    case False
    with 1 show ?thesis
      by (simp add: show_nat.simps [of n] parse_nat_snoc)
  qed
qed

lemma digits_free:
  assumes "all_digits s" "\<not> is_digit c"
  shows "c \<notin> set s"
  using assms by (auto simp: all_digits_def list_all_iff)

lemma show_nat_free: "\<not> is_digit c \<Longrightarrow> c \<notin> set (show_nat n)"
  by (rule digits_free) auto

lemma not_digit_chars [simp]:
  "\<not> is_digit CHR ''-''" "\<not> is_digit CHR '',''" "\<not> is_digit CHR '' ''"
  by (simp_all add: is_digit_def)

lemma trim_all_digits [trim_simps]: "all_digits s \<Longrightarrow> trim s = s"
  by (rule trim_visible) (auto simp: all_digits_def list_all_iff)

section \<open>Array.prototype.findIndex\<close>

definition find_index :: "('a \<Rightarrow> bool) \<Rightarrow> 'a list \<Rightarrow> nat option" where
  "find_index P xs = (let i = length (takeWhile (\<lambda>x. \<not> P x) xs) in if i < length xs then Some i else None)"

lemma find_index_unique:
  assumes "k < length xs" "P (xs ! k)" "\<And>i. i < k \<Longrightarrow> \<not> P (xs ! i)"
  shows "find_index P xs = Some k"
proof -
  have "takeWhile (\<lambda>x. \<not> P x) xs = take k xs" using assms by (intro takeWhile_eq_take_P_nth) auto
  with assms(1) show ?thesis by (simp add: find_index_def)
qed

end
