(* ===== verification/JS_Interfaces.thy ===== *)
theory JS_Interfaces
  imports Main
begin

text \<open>
  The contracts several components of the front end share, stated once:
  a normaliser that computes a canonical form (status code ranges, trimmed rule groups)
  and a printer with its parser (status code tokens, request rule conditions, JSON text).
\<close>

section \<open>Canonical forms\<close>

text \<open>
  \<open>canon\<close> maps a valid representation to the normal form with the same meaning, and a
  meaning has one normal form only.
\<close>

locale canonicaliser =
  fixes valid :: "'a \<Rightarrow> bool"
    and nf :: "'a \<Rightarrow> bool"
    and canon :: "'a \<Rightarrow> 'a"
    and meaning :: "'a \<Rightarrow> 's"
  assumes canon_nf: "valid x \<Longrightarrow> nf (canon x)"
    and canon_meaning: "valid x \<Longrightarrow> meaning (canon x) = meaning x"
    and nf_valid: "nf x \<Longrightarrow> valid x"
    and nf_unique: "nf x \<Longrightarrow> nf y \<Longrightarrow> meaning x = meaning y \<Longrightarrow> x = y"
begin

lemma canon_of_nf: "nf x \<Longrightarrow> canon x = x"
  by (rule nf_unique) (auto intro: canon_nf canon_meaning nf_valid)

lemma canon_idem: "valid x \<Longrightarrow> canon (canon x) = canon x"
  by (rule canon_of_nf) (rule canon_nf)

lemma canon_eq_iff: "valid x \<Longrightarrow> valid y \<Longrightarrow> canon x = canon y \<longleftrightarrow> meaning x = meaning y"
  using canon_meaning canon_nf nf_unique by metis

end

section \<open>Printing and parsing\<close>

text \<open>\<open>parse\<close> reads back what \<open>print\<close> writes, on the printable values.\<close>

locale print_parse =
  fixes printable :: "'a \<Rightarrow> bool"
    and print :: "'a \<Rightarrow> 't"
    and parse :: "'t \<Rightarrow> 'a option"
  assumes parse_print: "printable x \<Longrightarrow> parse (print x) = Some x"
begin

lemma print_inj: "printable x \<Longrightarrow> printable y \<Longrightarrow> print x = print y \<longleftrightarrow> x = y"
  using parse_print by (metis option.inject)

lemma parse_print_list:
  "list_all printable xs \<Longrightarrow> List.map_filter parse (map print xs) = xs"
  by (induction xs) (auto simp: List.map_filter_def parse_print)

lemma parse_print_all:
  "list_all printable xs \<Longrightarrow> list_all (\<lambda>t. parse t \<noteq> None) (map print xs)"
  by (induction xs) (auto simp: parse_print)

end

section \<open>Stores addressed by a key\<close>

text \<open>
  \<open>put\<close> and \<open>del\<close> change the place of their key and no other; \<open>room\<close> tells which keys have a place.
  Objects are stores of properties, the option objects are stores of (option, model) places.
\<close>

locale keyed_store =
  fixes room :: "'s \<Rightarrow> 'k \<Rightarrow> bool"
    and look :: "'s \<Rightarrow> 'k \<Rightarrow> 'v option"
    and put :: "'k \<Rightarrow> 'v \<Rightarrow> 's \<Rightarrow> 's"
    and del :: "'k \<Rightarrow> 's \<Rightarrow> 's"
  assumes look_put: "room s k \<Longrightarrow> look (put k v s) j = (if j = k then Some v else look s j)"
    and look_del: "look (del k s) j = (if j = k then None else look s j)"
    and room_put: "room (put k v s) j \<longleftrightarrow> room s j"
    and room_del: "room (del k s) j \<longleftrightarrow> room s j"
begin

lemma look_dels: "look (foldl (\<lambda>s k. del k s) s ks) j = (if j \<in> set ks then None else look s j)"
  by (induction ks arbitrary: s) (auto simp: look_del)

lemma room_dels: "room (foldl (\<lambda>s k. del k s) s ks) j \<longleftrightarrow> room s j"
  by (induction ks arbitrary: s) (simp_all add: room_del)

lemma room_puts: "room (foldl (\<lambda>s (k, v). put k v s) s kvs) j \<longleftrightarrow> room s j"
  by (induction kvs arbitrary: s) (simp_all add: room_put case_prod_unfold)

lemma look_puts:
  "distinct (map fst kvs) \<Longrightarrow> (\<And>k. k \<in> fst ` set kvs \<Longrightarrow> room s k) \<Longrightarrow>
   look (foldl (\<lambda>s (k, v). put k v s) s kvs) j = (case map_of kvs j of Some v \<Rightarrow> Some v | None \<Rightarrow> look s j)"
proof (induction kvs arbitrary: s)
  case (Cons kv kvs)
  obtain k v where kv: "kv = (k, v)" by fastforce
  have "map_of kvs k = None" using Cons.prems(1) kv by (simp add: map_of_eq_None_iff)
  then show ?case using Cons kv by (auto simp: look_put room_put split: option.split)
qed simp

end

section \<open>Numbered requests\<close>

text \<open>
  Requests carry the number of a counter that only grows. An answer that comes when the counter has
  moved on changes nothing of what is shown; then no superseded answer ever does.
\<close>

locale numbered_requests =
  fixes step :: "'w \<Rightarrow> 'w \<Rightarrow> bool"
    and counter :: "'w \<Rightarrow> nat"
    and deliver :: "nat \<Rightarrow> 'a \<Rightarrow> 'w \<Rightarrow> 'w"
    and shown :: "'w \<Rightarrow> 'v"
  assumes counter_grows: "step w w' \<Longrightarrow> counter w \<le> counter w'"
    and stale_ignored: "n < counter w \<Longrightarrow> shown (deliver n a w) = shown w"
begin

lemma counter_grows_steps: "step\<^sup>*\<^sup>* w w' \<Longrightarrow> counter w \<le> counter w'"
  by (induction rule: rtranclp_induct) (use counter_grows le_trans in blast)+

lemma superseded: "n < counter w \<Longrightarrow> step\<^sup>*\<^sup>* w w' \<Longrightarrow> shown (deliver n a w') = shown w'"
  using counter_grows_steps stale_ignored less_le_trans by metis

end

end
