(* ===== verification/Status_Codes.thy ===== *)
theory Status_Codes
  imports JS_Prelude JS_Interfaces
begin

text \<open>
  The HTTP status code rules of the monitoring settings
  (\<open>src/web/src/helpers/statusCodeRules.js\<close>): a text such as \<open>401, 403, 500-599\<close> is
  parsed into ranges, which are sorted, merged and printed back.
\<close>

section \<open>Ranges and their order\<close>

datatype code_range = Range (start_code: nat) (end_code: nat)

text \<open>The comparator that \<open>mergeRanges\<close> passes to \<open>sort\<close>.\<close>

definition range_le :: "code_range \<Rightarrow> code_range \<Rightarrow> bool" where
  "range_le a b \<longleftrightarrow>
     (if start_code a \<noteq> start_code b then start_code a < start_code b
      else end_code a \<le> end_code b)"

instantiation code_range :: linorder
begin

definition less_eq_code_range :: "code_range \<Rightarrow> code_range \<Rightarrow> bool" where
  "less_eq_code_range a b \<longleftrightarrow> range_le a b"

definition less_code_range :: "code_range \<Rightarrow> code_range \<Rightarrow> bool" where
  "less_code_range a b \<longleftrightarrow> a \<le> b \<and> \<not> b \<le> (a :: code_range)"

instance
  by standard
    (auto simp: less_eq_code_range_def range_le_def less_code_range_def code_range.expand split: if_splits)

end

section \<open>Operations\<close>

text \<open>
  \<open>Number.parseInt\<close> on a string of digits is \<^const>\<open>parse_nat\<close>; a double loses digits, or
  becomes infinite, only far above 599, where both tests reject the code anyway.
\<close>

definition parseToken :: "string \<Rightarrow> code_range option" where
  "parseToken token =
     (let cleaned = filter (\<lambda>c. c \<noteq> CHR '' '') (trim token) in
      if cleaned = [] then None
      else if CHR ''-'' \<in> set cleaned then
        (case split_char CHR ''-'' cleaned of
           [a, b] \<Rightarrow>
             (if \<not> all_digits a \<or> \<not> all_digits b then None
              else
                let s = parse_nat a; e = parse_nat b in
                if s > e then None
                else if s < 100 \<or> e > 599 then None
                else Some (Range s e))
         | _ \<Rightarrow> None)
      else if \<not> all_digits cleaned then None
      else
        let code = parse_nat cleaned in
        if code < 100 \<or> code > 599 then None else Some (Range code code))"

text \<open>The loop of \<open>mergeRanges\<close>; the list of merged ranges is kept last element first.\<close>

fun merge_loop :: "code_range list \<Rightarrow> code_range list \<Rightarrow> code_range list" where
  "merge_loop merged [] = merged"
| "merge_loop [] (current # rest) = merge_loop [current] rest"
| "merge_loop (lst # merged) (current # rest) =
     (if start_code current \<le> end_code lst + 1
      then merge_loop (Range (start_code lst) (max (end_code lst) (end_code current)) # merged) rest
      else merge_loop (current # lst # merged) rest)"

definition mergeRanges :: "code_range list \<Rightarrow> code_range list" where
  "mergeRanges ranges =
     (case sort ranges of
        [] \<Rightarrow> []
      | first # rest \<Rightarrow> rev (merge_loop [first] rest))"

definition range_token :: "code_range \<Rightarrow> string" where
  "range_token r =
     (if start_code r = end_code r then show_nat (start_code r)
      else show_nat (start_code r) @ ''-'' @ show_nat (end_code r))"

text \<open>Replaces every full-width comma (U+FF0C) by an ASCII comma.\<close>

fun replace_fullwidth_comma :: "string \<Rightarrow> string" where
  "replace_fullwidth_comma (a # b # c # s) =
     (if a = CHR 0xEF \<and> b = CHR 0xBC \<and> c = CHR 0x8C then CHR '','' # replace_fullwidth_comma s
      else a # replace_fullwidth_comma (b # c # s))"
| "replace_fullwidth_comma s = s"

fun scan_segments ::
  "string list \<Rightarrow> code_range list \<Rightarrow> string list \<Rightarrow> code_range list \<times> string list" where
  "scan_segments [] ranges invalidTokens = (ranges, invalidTokens)"
| "scan_segments (segment # segments) ranges invalidTokens =
     (let trimmed = trim segment in
      if trimmed = [] then scan_segments segments ranges invalidTokens
      else (case parseToken trimmed of
              None \<Rightarrow> scan_segments segments ranges (invalidTokens @ [trimmed])
            | Some parsed \<Rightarrow> scan_segments segments (ranges @ [parsed]) invalidTokens))"

record rules_result =
  rules_ok :: bool
  rules_ranges :: "code_range list"
  rules_tokens :: "string list"
  rules_normalized :: string
  rules_invalidTokens :: "string list"

definition parseHttpStatusCodeRules :: "string option \<Rightarrow> rules_result" where
  "parseHttpStatusCodeRules input =
     (let raw = trim (case input of None \<Rightarrow> [] | Some s \<Rightarrow> s) in
      if length raw = 0
      then \<lparr>rules_ok = True, rules_ranges = [], rules_tokens = [], rules_normalized = [], rules_invalidTokens = []\<rparr>
      else
        let (rs, invalid) = scan_segments (split_char CHR '','' (replace_fullwidth_comma raw)) [] []
        in if length invalid > 0
           then \<lparr>rules_ok = False, rules_ranges = [], rules_tokens = [], rules_normalized = raw, rules_invalidTokens = invalid\<rparr>
           else
             let merged = mergeRanges rs; toks = map range_token merged in
             \<lparr>rules_ok = True, rules_ranges = merged, rules_tokens = toks, rules_normalized = js_join '','' toks,
              rules_invalidTokens = []\<rparr>)"

section \<open>Specification: sets of codes and their normal form\<close>

definition range_codes :: "code_range \<Rightarrow> nat set" where
  "range_codes r = {start_code r .. end_code r}"

definition codes :: "code_range list \<Rightarrow> nat set" where
  "codes rs = (\<Union>r \<in> set rs. range_codes r)"

definition valid_ranges :: "code_range list \<Rightarrow> bool" where
  "valid_ranges rs \<longleftrightarrow> list_all (\<lambda>r. start_code r \<le> end_code r) rs"

text \<open>Ascending ranges with at least one code missing between two neighbours.\<close>

fun separated :: "code_range list \<Rightarrow> bool" where
  "separated [] = True"
| "separated [r] = (start_code r \<le> end_code r)"
| "separated (r # s # rs) =
     (start_code r \<le> end_code r \<and> end_code r + 1 < start_code s \<and> separated (s # rs))"

section \<open>Merging computes the normal form\<close>

lemma codes_simps [simp]:
  "codes [] = {}" "codes (r # rs) = range_codes r \<union> codes rs"
  by (auto simp: codes_def)

text \<open>The loop without its accumulator.\<close>

fun merge_from :: "code_range \<Rightarrow> code_range list \<Rightarrow> code_range list" where
  "merge_from l [] = [l]"
| "merge_from l (c # cs) =
     (if start_code c \<le> end_code l + 1
      then merge_from (Range (start_code l) (max (end_code l) (end_code c))) cs
      else l # merge_from c cs)"

lemma merge_loop_from: "rev (merge_loop (l # ms) cs) = rev ms @ merge_from l cs"
  by (induction cs arbitrary: l ms) auto

lemma mergeRanges_from:
  "mergeRanges rs = (case sort rs of [] \<Rightarrow> [] | r # rest \<Rightarrow> merge_from r rest)"
  by (simp add: mergeRanges_def merge_loop_from split: list.split)

lemma sorted_start:
  "sorted (l # cs) \<Longrightarrow> c \<in> set cs \<Longrightarrow> start_code l \<le> start_code c"
  by (force simp: less_eq_code_range_def range_le_def split: if_splits)

lemma start_merge_from: "start_code (hd (merge_from l cs)) = start_code l"
  by (induction l cs rule: merge_from.induct) auto

lemma merge_from_nonempty [simp]: "merge_from l cs \<noteq> []"
  by (induction l cs rule: merge_from.induct) auto

lemma codes_merge_from:
  assumes "sorted (map start_code (l # cs))" "valid_ranges (l # cs)"
  shows "codes (merge_from l cs) = codes (l # cs)"
  using assms
proof (induction l cs rule: merge_from.induct)
  case (2 l c cs)
  show ?case
  proof (cases "start_code c \<le> end_code l + 1")
    case True
    let ?m = "Range (start_code l) (max (end_code l) (end_code c))"
    have "codes (merge_from ?m cs) = codes (?m # cs)"
      using 2 True by (auto simp: valid_ranges_def)
    moreover have "range_codes ?m = range_codes l \<union> range_codes c"
      using 2 True by (auto simp: range_codes_def valid_ranges_def)
    ultimately show ?thesis using True by auto
  next
    case False
    with 2 show ?thesis by (auto simp: valid_ranges_def)
  qed
qed auto

lemma separated_Cons:
  "separated (r # rs) \<longleftrightarrow>
     start_code r \<le> end_code r \<and> separated rs \<and> (rs \<noteq> [] \<longrightarrow> end_code r + 1 < start_code (hd rs))"
  by (cases rs) auto

lemma separated_merge_from: "valid_ranges (l # cs) \<Longrightarrow> separated (merge_from l cs)"
  by (induction l cs rule: merge_from.induct)
    (auto simp: valid_ranges_def separated_Cons start_merge_from)

lemma sorted_starts: "sorted rs \<Longrightarrow> sorted (map start_code rs)"
  by (induction rs) (auto simp: less_eq_code_range_def range_le_def split: if_splits)

lemma valid_ranges_sort [simp]: "valid_ranges (sort rs) = valid_ranges rs"
  by (simp add: valid_ranges_def list_all_iff)

lemma codes_sort [simp]: "codes (sort rs) = codes rs"
  by (simp add: codes_def)

lemma mergeRanges_codes:
  assumes "valid_ranges rs"
  shows "codes (mergeRanges rs) = codes rs"
proof (cases "sort rs")
  case Nil
  then show ?thesis using codes_sort [of rs] by (simp add: mergeRanges_from)
next
  case (Cons r rest)
  have "codes (merge_from r rest) = codes (r # rest)"
  proof (rule codes_merge_from)
    show "sorted (map start_code (r # rest))"
      using sorted_starts [OF sorted_sort, of rs] Cons by simp
    show "valid_ranges (r # rest)"
      using assms valid_ranges_sort [of rs] Cons by simp
  qed
  with Cons show ?thesis using codes_sort [of rs] by (simp add: mergeRanges_from)
qed

lemma mergeRanges_separated: "valid_ranges rs \<Longrightarrow> separated (mergeRanges rs)"
  using separated_merge_from
  by (cases "sort rs") (auto simp: mergeRanges_from simp flip: valid_ranges_sort [of rs])

section \<open>A set of codes has one normal form\<close>

lemma separated_valid: "separated rs \<Longrightarrow> valid_ranges rs"
  by (induction rs rule: separated.induct) (auto simp: valid_ranges_def)

lemma separated_above:
  assumes "separated (r # rs)" "x \<in> codes rs"
  shows "end_code r + 1 < x"
  using assms
proof (induction rs arbitrary: r)
  case (Cons s rs)
  then show ?case
    by (cases "x \<in> range_codes s") (fastforce simp: range_codes_def separated_Cons)+
qed simp

lemma separated_head:
  assumes "separated (r # rs)"
  shows "Least (\<lambda>x. x \<in> codes (r # rs)) = start_code r"
    and "end_code r + 1 \<notin> codes (r # rs)"
    and "codes rs = {x \<in> codes (r # rs). end_code r < x}"
  using assms separated_above [OF assms]
  by (auto simp: range_codes_def separated_Cons intro!: Least_equality) fastforce+

lemma separated_head_end:
  assumes "separated (r # rs)" "separated (s # ss)" "codes (r # rs) = codes (s # ss)"
  shows "r = s"
proof -
  have st: "start_code r = start_code s"
    using separated_head(1) [OF assms(1)] separated_head(1) [OF assms(2)]
    unfolding assms(3) by simp
  have le: "end_code a \<le> end_code b"
    if "separated (a # as)" "separated (b # bs)" "codes (a # as) = codes (b # bs)"
      "start_code a = start_code b" for a as b bs
  proof (rule ccontr)
    assume "\<not> end_code a \<le> end_code b"
    then have "end_code b + 1 \<in> range_codes a"
      using that by (auto simp: range_codes_def separated_Cons)
    then show False using separated_head(2) [OF that(2)] that(3) by auto
  qed
  have "end_code r = end_code s"
    using le [OF assms st] le [OF assms(2,1) assms(3) [symmetric] st [symmetric]] by simp
  with st show ?thesis by (simp add: code_range.expand)
qed

lemma separated_nonempty_codes: "separated (r # rs) \<Longrightarrow> codes (r # rs) \<noteq> {}"
  by (auto simp: range_codes_def separated_Cons)

lemma separated_unique:
  "separated rs \<Longrightarrow> separated ss \<Longrightarrow> codes rs = codes ss \<Longrightarrow> rs = ss"
proof (induction rs arbitrary: ss)
  case Nil
  then show ?case using separated_nonempty_codes by (cases ss) force+
next
  case (Cons r rs)
  then obtain s ss' where ss: "ss = s # ss'"
    using separated_nonempty_codes by (cases ss) auto
  with Cons.prems have rs: "r = s" using separated_head_end by blast
  then have "codes rs = codes ss'"
    using separated_head(3) [of r rs] separated_head(3) [of s ss'] Cons.prems ss by metis
  then have "rs = ss'" using Cons ss by (auto simp: separated_Cons)
  with rs ss show ?case by simp
qed

interpretation merged: canonicaliser valid_ranges separated mergeRanges codes
  by unfold_locales
    (fact mergeRanges_separated mergeRanges_codes separated_valid separated_unique)+

section \<open>Tokens are read back\<close>

definition http_range :: "code_range \<Rightarrow> bool" where
  "http_range r \<longleftrightarrow> 100 \<le> start_code r \<and> start_code r \<le> end_code r \<and> end_code r \<le> 599"

lemma parseToken_Some: "parseToken t = Some r \<Longrightarrow> http_range r"
  by (auto simp: parseToken_def http_range_def Let_def split: if_splits list.splits)

lemma filter_no_space: "CHR '' '' \<notin> set s \<Longrightarrow> filter (\<lambda>c. c \<noteq> CHR '' '') s = s"
  by (auto simp: filter_id_conv)

lemma range_token_ends:
  "range_token r \<noteq> [] \<and> visible (hd (range_token r)) \<and> visible (last (range_token r))"
  using all_digits_show_nat [of "start_code r"] all_digits_show_nat [of "end_code r"]
  by (auto simp: range_token_def all_digits_def list_all_iff hd_append last_append)

lemma range_token_free:
  "\<not> is_digit c \<Longrightarrow> c \<noteq> CHR ''-'' \<Longrightarrow> c \<notin> set (range_token r)"
  by (auto simp: range_token_def dest: show_nat_free)

lemma trim_range_token [simp]: "trim (range_token r) = range_token r"
  using range_token_ends by (simp add: trim_simps)

lemma parseToken_range_token:
  assumes "http_range r"
  shows "parseToken (range_token r) = Some r"
proof -
  have clean: "filter (\<lambda>c. c \<noteq> CHR '' '') (trim (range_token r)) = range_token r"
    by (simp add: filter_no_space range_token_free)
  show ?thesis
  proof (cases "start_code r = end_code r")
    case True
    then have tok: "range_token r = show_nat (start_code r)" by (simp add: range_token_def)
    with assms True show ?thesis
      unfolding parseToken_def clean
      by (cases r) (simp add: tok Let_def http_range_def show_nat_free)
  next
    case False
    then have tok: "range_token r = show_nat (start_code r) @ CHR ''-'' # show_nat (end_code r)"
      by (simp add: range_token_def)
    have "split_char CHR ''-'' (range_token r) = [show_nat (start_code r), show_nat (end_code r)]"
      by (simp add: tok split_char_append split_char_free show_nat_free)
    moreover have "CHR ''-'' \<in> set (range_token r)" "range_token r \<noteq> []" by (simp_all add: tok)
    ultimately show ?thesis
      using assms unfolding parseToken_def clean
      by (cases r) (simp add: Let_def http_range_def)
  qed
qed

interpretation token: print_parse http_range range_token parseToken
  by unfold_locales (rule parseToken_range_token)

section \<open>Scanning the segments\<close>

definition segments :: "string \<Rightarrow> string list" where
  "segments raw =
     filter (\<lambda>t. t \<noteq> []) (map trim (split_char CHR '','' (replace_fullwidth_comma raw)))"

lemma scan_segments_eq:
  "scan_segments segs rs bad =
     (let ts = filter (\<lambda>t. t \<noteq> []) (map trim segs)
      in (rs @ List.map_filter parseToken ts, bad @ filter (\<lambda>t. parseToken t = None) ts))"
  by (induction segs rs bad rule: scan_segments.induct)
    (auto simp: Let_def List.map_filter_simps split: option.splits)

lemma parse_rules_unfold:
  "parseHttpStatusCodeRules input =
     (let raw = trim (case input of None \<Rightarrow> [] | Some s \<Rightarrow> s);
          bad = filter (\<lambda>t. parseToken t = None) (segments raw);
          merged = mergeRanges (List.map_filter parseToken (segments raw))
      in if bad = []
         then \<lparr>rules_ok = True, rules_ranges = merged, rules_tokens = map range_token merged,
               rules_normalized = js_join '','' (map range_token merged), rules_invalidTokens = []\<rparr>
         else \<lparr>rules_ok = False, rules_ranges = [], rules_tokens = [], rules_normalized = raw,
               rules_invalidTokens = bad\<rparr>)"
proof -
  have "segments [] = []" by (simp add: segments_def)
  moreover have "mergeRanges [] = []" by (simp add: mergeRanges_def)
  ultimately show ?thesis
    by (auto simp: parseHttpStatusCodeRules_def scan_segments_eq Let_def segments_def
        List.map_filter_simps filter_empty_conv)
qed

lemma parsed_valid: "valid_ranges (List.map_filter parseToken ts)"
  by (induction ts)
    (auto simp: valid_ranges_def List.map_filter_simps http_range_def
      dest: parseToken_Some split: option.splits)

lemma codes_parsed: "codes (List.map_filter parseToken ts) =
    {c. \<exists>t \<in> set ts. \<exists>r. parseToken t = Some r \<and> c \<in> range_codes r}"
  by (induction ts) (auto simp: List.map_filter_simps split: option.splits)

lemma codes_parsed_http: "codes (List.map_filter parseToken ts) \<subseteq> {100..599}"
  unfolding codes_parsed
  by (auto simp: range_codes_def http_range_def dest!: parseToken_Some)

lemma merge_http:
  assumes "valid_ranges rs" "codes rs \<subseteq> {100..599}"
  shows "list_all http_range (mergeRanges rs)"
  unfolding list_all_iff
proof
  fix r assume r: "r \<in> set (mergeRanges rs)"
  have le: "start_code r \<le> end_code r"
    using separated_valid [OF mergeRanges_separated [OF assms(1)]] r
    by (auto simp: valid_ranges_def list_all_iff)
  then have "{start_code r, end_code r} \<subseteq> codes (mergeRanges rs)"
    using r by (auto simp: codes_def range_codes_def)
  then have "{start_code r, end_code r} \<subseteq> {100..599}"
    using mergeRanges_codes [OF assms(1)] assms(2) by blast
  with le show "http_range r" by (simp add: http_range_def)
qed

section \<open>The printed form is parsed to itself\<close>

lemma no_fullwidth: "CHR 0xEF \<notin> set s \<Longrightarrow> replace_fullwidth_comma s = s"
  by (induction s rule: replace_fullwidth_comma.induct) auto

lemma join_tokens_ends:
  assumes "rs \<noteq> []"
  shows "js_join '','' (map range_token rs) \<noteq> []"
    and "hd (js_join '','' (map range_token rs)) = hd (range_token (hd rs))"
    and "last (js_join '','' (map range_token rs)) = last (range_token (last rs))"
  using assms range_token_ends
  by (induction rs rule: induct_list012) (auto simp: js_join_Cons)

lemma trim_join_tokens: "trim (js_join '','' (map range_token rs)) = js_join '','' (map range_token rs)"
  using join_tokens_ends [of rs] range_token_ends
  by (cases "rs = []") (auto intro!: trim_visible)

lemma segments_tokens: "segments (js_join '','' (map range_token rs)) = map range_token rs"
proof (cases "rs = []")
  case True
  then show ?thesis by (simp add: segments_def)
next
  case False
  have "CHR 0xEF \<notin> set (js_join '','' (map range_token rs))"
    using set_js_join [of "'',''" "map range_token rs"]
    by (auto dest!: subsetD simp: range_token_free is_digit_def)
  moreover have "split_char CHR '','' (js_join '','' (map range_token rs)) = map range_token rs"
    using False by (intro split_char_join) (auto simp: range_token_free)
  moreover have "filter (\<lambda>t. t \<noteq> []) (map range_token rs) = map range_token rs"
    using range_token_ends by (auto simp: filter_id_conv)
  ultimately show ?thesis
    by (simp add: segments_def no_fullwidth map_idI comp_def)
qed

section \<open>Properties of the parser\<close>

lemma rules_okD:
  assumes "rules_ok (parseHttpStatusCodeRules input)"
  shows "rules_ranges (parseHttpStatusCodeRules input) =
      mergeRanges (List.map_filter parseToken (segments (trim (case input of None \<Rightarrow> [] | Some s \<Rightarrow> s))))"
    and "rules_normalized (parseHttpStatusCodeRules input) =
      js_join '','' (map range_token (rules_ranges (parseHttpStatusCodeRules input)))"
  using assms by (auto simp: parse_rules_unfold Let_def split: if_splits)

lemma rules_ranges_props:
  "separated (rules_ranges (parseHttpStatusCodeRules input))"
  "list_all http_range (rules_ranges (parseHttpStatusCodeRules input))"
  by (simp_all add: parse_rules_unfold Let_def mergeRanges_separated parsed_valid merge_http
      codes_parsed_http)

lemma parse_printed_rules:
  assumes "separated rs" "list_all http_range rs"
  shows "parseHttpStatusCodeRules (Some (js_join '','' (map range_token rs))) =
    \<lparr>rules_ok = True, rules_ranges = rs, rules_tokens = map range_token rs,
     rules_normalized = js_join '','' (map range_token rs), rules_invalidTokens = []\<rparr>"
  using assms token.parse_print_list [OF assms(2)] token.parse_print_all [OF assms(2)]
    merged.canon_of_nf [OF assms(1)]
  by (simp add: parse_rules_unfold trim_join_tokens segments_tokens list_all_iff filter_empty_conv)

abbreviation rules_input :: "string option \<Rightarrow> string" where
  "rules_input input \<equiv> trim (case input of None \<Rightarrow> [] | Some s \<Rightarrow> s)"

text \<open>
  C16: when the rule text is accepted, the ranges it returns contain exactly the codes that
  some comma-separated segment denotes, lie within 100 to 599, and are ascending with a gap
  between neighbours (merging loses no code and adds none).
\<close>

theorem status_rules_meaning:
  assumes "rules_ok (parseHttpStatusCodeRules input)"
  shows "codes (rules_ranges (parseHttpStatusCodeRules input)) =
      {c. \<exists>t \<in> set (segments (rules_input input)). \<exists>r. parseToken t = Some r \<and> c \<in> range_codes r}
    \<and> separated (rules_ranges (parseHttpStatusCodeRules input))
    \<and> list_all http_range (rules_ranges (parseHttpStatusCodeRules input))"
  using rules_ranges_props [of input]
  by (simp add: rules_okD(1) [OF assms] mergeRanges_codes parsed_valid codes_parsed)

text \<open>
  C35: two accepted rule texts have the same normalised text exactly when they denote the same
  set of status codes.
\<close>

theorem status_rules_canonical:
  assumes "rules_ok (parseHttpStatusCodeRules a)" "rules_ok (parseHttpStatusCodeRules b)"
  shows "rules_normalized (parseHttpStatusCodeRules a) = rules_normalized (parseHttpStatusCodeRules b)
    \<longleftrightarrow> codes (rules_ranges (parseHttpStatusCodeRules a)) = codes (rules_ranges (parseHttpStatusCodeRules b))"
    (is "?n a = ?n b \<longleftrightarrow> _")
proof
  assume "?n a = ?n b"
  then have "segments (?n a) = segments (?n b)" by simp
  then have "map range_token (rules_ranges (parseHttpStatusCodeRules a)) =
      map range_token (rules_ranges (parseHttpStatusCodeRules b))"
    by (simp add: rules_okD(2) [OF assms(1)] rules_okD(2) [OF assms(2)] segments_tokens)
  then have "rules_ranges (parseHttpStatusCodeRules a) = rules_ranges (parseHttpStatusCodeRules b)"
    using token.parse_print_list rules_ranges_props(2) by metis
  then show "codes (rules_ranges (parseHttpStatusCodeRules a)) =
      codes (rules_ranges (parseHttpStatusCodeRules b))" by simp
next
  assume "codes (rules_ranges (parseHttpStatusCodeRules a)) =
      codes (rules_ranges (parseHttpStatusCodeRules b))"
  then have "rules_ranges (parseHttpStatusCodeRules a) = rules_ranges (parseHttpStatusCodeRules b)"
    by (intro separated_unique rules_ranges_props)
  then show "?n a = ?n b" by (simp add: rules_okD(2) assms)
qed

text \<open>
  Parsing the normalised text of an accepted input succeeds and returns the same ranges
  and the same text: normalisation is stable under save and reload.
\<close>

theorem status_rules_reparse:
  assumes "rules_ok (parseHttpStatusCodeRules input)"
  shows "parseHttpStatusCodeRules (Some (rules_normalized (parseHttpStatusCodeRules input))) =
    parseHttpStatusCodeRules input"
proof -
  let ?r = "parseHttpStatusCodeRules input"
  have "parseHttpStatusCodeRules (Some (rules_normalized ?r)) =
    \<lparr>rules_ok = True, rules_ranges = rules_ranges ?r, rules_tokens = map range_token (rules_ranges ?r),
     rules_normalized = js_join '','' (map range_token (rules_ranges ?r)), rules_invalidTokens = []\<rparr>"
    unfolding rules_okD(2) [OF assms] by (intro parse_printed_rules rules_ranges_props)
  also have "\<dots> = ?r"
    using assms by (auto simp: parse_rules_unfold Let_def split: if_splits)
  finally show ?thesis .
qed

text \<open>
  C36: the input is rejected exactly when some non-blank segment is not a code or a range
  within 100 to 599; then no range is returned, the normalised text is the trimmed input and
  the invalid tokens are reported in order.
\<close>

theorem status_rules_errors:
  "parseHttpStatusCodeRules input =
     (let bad = filter (\<lambda>t. parseToken t = None) (segments (rules_input input)) in
      if bad = [] then (parseHttpStatusCodeRules input)\<lparr>rules_ok := True, rules_invalidTokens := []\<rparr>
      else \<lparr>rules_ok = False, rules_ranges = [], rules_tokens = [],
            rules_normalized = rules_input input, rules_invalidTokens = bad\<rparr>)"
  by (simp add: parse_rules_unfold Let_def)

lemma example_rules_ok:
  "rules_ok (parseHttpStatusCodeRules (Some ''500-502, 401,503''))"
  "rules_ok (parseHttpStatusCodeRules (Some ''401,500-503''))"
  by code_simp+

theorem status_rules_meaning_witness:
  "separated (rules_ranges (parseHttpStatusCodeRules (Some ''500-502, 401,503''))) \<and>
   rules_ranges (parseHttpStatusCodeRules (Some ''500-502, 401,503'')) = [Range 401 401, Range 500 503]"
proof
  show "separated (rules_ranges (parseHttpStatusCodeRules (Some ''500-502, 401,503'')))"
    using status_rules_meaning [OF example_rules_ok(1)] by blast
qed code_simp

theorem status_rules_canonical_witness:
  "codes (rules_ranges (parseHttpStatusCodeRules (Some ''500-502, 401,503''))) =
   codes (rules_ranges (parseHttpStatusCodeRules (Some ''401,500-503'')))"
  unfolding status_rules_canonical [OF example_rules_ok, symmetric] by code_simp

theorem status_rules_reparse_witness:
  "parseHttpStatusCodeRules (Some (rules_normalized (parseHttpStatusCodeRules (Some ''500-502, 401,503'')))) =
   parseHttpStatusCodeRules (Some ''500-502, 401,503'')"
  by (rule status_rules_reparse) (rule example_rules_ok)

end
