(* ===== verification/JS_Number.thy ===== *)
theory JS_Number
  imports Complex_Main JS_Prelude
begin

text \<open>
  JavaScript numbers: IEEE 754 binary64 values as exact rationals with NaN and the
  infinities, rounding to nearest with ties to even, the conversions \<open>Number(string)\<close>,
  \<open>parseFloat\<close>, \<open>String(number)\<close> (shortest digits that read back) and \<open>toFixed\<close>.
  The two zeros are identified: they differ only as divisors, where either sign gives a
  non-finite quotient.
\<close>

datatype jsnum = NaN | PInf | NInf | Fin rat

section \<open>Decimal digits of integers\<close>

definition parse_digits :: "string \<Rightarrow> int" where
  "parse_digits s = foldl (\<lambda>n c. n * 10 + int (digit_val c)) 0 s"

function show_digits :: "int \<Rightarrow> string" where
  "show_digits n =
     (if n < 10 then [digit_char (nat n)] else show_digits (n div 10) @ [digit_char (nat (n mod 10))])"
  by pat_completeness auto
termination
  by (relation "measure nat") auto

declare show_digits.simps [simp del]

section \<open>Rounding to binary64\<close>

text \<open>Number of binary digits of a non-negative integer.\<close>

function bitlen :: "int \<Rightarrow> int" where
  "bitlen n = (if n \<le> 0 then 0 else 1 + bitlen (n div 2))"
  by pat_completeness auto
termination
  by (relation "measure nat") auto

declare bitlen.simps [simp del]

definition round_half_even :: "rat \<Rightarrow> int" where
  "round_half_even q =
     (let f = \<lfloor>q\<rfloor>; d = q - of_int f in
      if d < 1/2 then f else if 1/2 < d then f + 1 else if even f then f else f + 1)"

text \<open>The exponent \<open>e\<close> with \<open>2 ^ e \<le> q < 2 ^ (e + 1)\<close>, for positive \<open>q\<close>.\<close>

definition exp2_of :: "rat \<Rightarrow> int" where
  "exp2_of q =
     (let (a, b) = quotient_of q; k = bitlen a - bitlen b in
      if 2 powi k \<le> q then k else k - 1)"

definition ulp :: "rat \<Rightarrow> rat" where
  "ulp q = 2 powi (max (exp2_of \<bar>q\<bar>) (- 1022) - 52)"

definition to_double :: "rat \<Rightarrow> jsnum" where
  "to_double q =
     (if q = 0 then Fin 0
      else let v = of_int (round_half_even (q / ulp q)) * ulp q in
           if exp2_of \<bar>q\<bar> < 1023 then Fin v
           else if 2 ^ 1024 \<le> \<bar>v\<bar> then (if 0 < q then PInf else NInf) else Fin v)"

text \<open>The same on integers, for evaluation.\<close>

definition rhe_div :: "int \<Rightarrow> int \<Rightarrow> int" where
  "rhe_div a b =
     (let f = a div b; r = 2 * (a mod b) in
      if r < b then f else if b < r then f + 1 else if even f then f else f + 1)"

definition int_times_pow2 :: "int \<Rightarrow> int \<Rightarrow> rat" where
  "int_times_pow2 m e = (if 0 \<le> e then of_int (m * 2 ^ nat e) else Fract m (2 ^ nat (- e)))"

lemma round_half_even_Fract:
  assumes "0 < b"
  shows "round_half_even (of_int a / of_int b) = rhe_div a b"
proof -
  have f: "\<lfloor>(of_int a / of_int b :: rat)\<rfloor> = a div b" by (simp add: floor_divide_of_int_eq)
  have "a = b * (a div b) + a mod b" by simp
  then have "(of_int a :: rat) = of_int b * of_int (a div b) + of_int (a mod b)"
    by (metis of_int_add of_int_mult)
  then have d: "(of_int a / of_int b :: rat) - of_int (a div b) = of_int (a mod b) / of_int b"
    using assms by (simp add: field_simps)
  have half: "(of_int r / of_int b :: rat) < 1/2 \<longleftrightarrow> 2 * r < b"
    "1/2 < (of_int r / of_int b :: rat) \<longleftrightarrow> b < 2 * r" for r
    using assms of_int_less_iff [of "2 * r" b, where ?'a = rat]
      of_int_less_iff [of b "2 * r", where ?'a = rat]
    by (simp_all add: divide_less_eq less_divide_eq mult.commute)
  show ?thesis
    unfolding round_half_even_def rhe_div_def Let_def f d half by simp
qed

lemma powi_neg: "\<not> 0 \<le> e \<Longrightarrow> (2 :: rat) powi e = 1 / 2 ^ nat (- e)"
  by (simp add: power_int_def power_one_over)

lemma int_times_pow2: "int_times_pow2 m e = of_int m * 2 powi e"
proof (cases "0 \<le> e")
  case True
  then show ?thesis by (simp add: int_times_pow2_def power_int_def)
next
  case False
  then show ?thesis by (simp add: int_times_pow2_def powi_neg Fract_of_int_quotient)
qed

lemma to_double_code [code]:
  "to_double q =
     (let (a, b) = quotient_of q in
      if a = 0 then Fin 0
      else
        let e0 = exp2_of \<bar>q\<bar>; e = max e0 (- 1022) - 52;
            m = (if 0 \<le> e then rhe_div a (b * 2 ^ nat e) else rhe_div (a * 2 ^ nat (- e)) b);
            v = int_times_pow2 m e
        in if e0 < 1023 then Fin v
           else if 2 ^ 1024 \<le> \<bar>v\<bar> then (if 0 < a then PInf else NInf) else Fin v)"
proof -
  obtain a b where ab: "quotient_of q = (a, b)" by fastforce
  then have b: "0 < b" and q: "q = of_int a / of_int b"
    by (auto simp: quotient_of_denom_pos quotient_of_div)
  have z: "q = 0 \<longleftrightarrow> a = 0" "0 < q \<longleftrightarrow> 0 < a"
    using b by (auto simp: q zero_less_divide_iff)
  have "round_half_even (q / 2 powi e) =
      (if 0 \<le> e then rhe_div a (b * 2 ^ nat e) else rhe_div (a * 2 ^ nat (- e)) b)" for e
  proof (cases "0 \<le> e")
    case True
    with b show ?thesis
      using round_half_even_Fract [of "b * 2 ^ nat e" a] by (simp add: q power_int_def)
  next
    case False
    with b show ?thesis
      using round_half_even_Fract [of b "a * 2 ^ nat (- e)"]
      by (simp add: q powi_neg)
  qed
  then show ?thesis
    unfolding to_double_def ab z ulp_def int_times_pow2 Let_def by simp
qed

section \<open>Arithmetic and comparison\<close>

fun is_finite :: "jsnum \<Rightarrow> bool" where
  "is_finite (Fin _) = True"
| "is_finite _ = False"

fun num_sign :: "jsnum \<Rightarrow> int" where
  "num_sign PInf = 1"
| "num_sign NInf = -1"
| "num_sign (Fin q) = (if q > 0 then 1 else if q < 0 then -1 else 0)"
| "num_sign NaN = 0"

definition inf_of_sign :: "int \<Rightarrow> jsnum" where
  "inf_of_sign s = (if s > 0 then PInf else if s < 0 then NInf else NaN)"

fun num_mult :: "jsnum \<Rightarrow> jsnum \<Rightarrow> jsnum" where
  "num_mult (Fin a) (Fin b) = to_double (a * b)"
| "num_mult NaN _ = NaN"
| "num_mult _ NaN = NaN"
| "num_mult x y = inf_of_sign (num_sign x * num_sign y)"

fun num_div :: "jsnum \<Rightarrow> jsnum \<Rightarrow> jsnum" where
  "num_div (Fin a) (Fin b) =
     (if b \<noteq> 0 then to_double (a / b) else inf_of_sign (num_sign (Fin a)))"
| "num_div NaN _ = NaN"
| "num_div _ NaN = NaN"
| "num_div (Fin _) _ = Fin 0"
| "num_div x (Fin b) = inf_of_sign (num_sign x * (if b < 0 then -1 else 1))"
| "num_div _ _ = NaN"

fun num_add :: "jsnum \<Rightarrow> jsnum \<Rightarrow> jsnum" where
  "num_add (Fin a) (Fin b) = to_double (a + b)"
| "num_add NaN _ = NaN"
| "num_add _ NaN = NaN"
| "num_add PInf NInf = NaN"
| "num_add NInf PInf = NaN"
| "num_add (Fin _) y = y"
| "num_add x _ = x"

text \<open>The operator \<open><\<close>; false when an operand is NaN.\<close>

fun num_less :: "jsnum \<Rightarrow> jsnum \<Rightarrow> bool" where
  "num_less (Fin a) (Fin b) = (a < b)"
| "num_less NaN _ = False"
| "num_less _ NaN = False"
| "num_less NInf y = (y \<noteq> NInf)"
| "num_less PInf _ = False"
| "num_less (Fin _) y = (y = PInf)"

section \<open>Reading numbers\<close>

text \<open>
  The longest prefix that is a StrUnsignedDecimalLiteral without Infinity:
  digits, an optional fraction, an optional exponent.
\<close>

definition split_digits :: "string \<Rightarrow> string \<times> string" where
  "split_digits s = (takeWhile is_digit s, dropWhile is_digit s)"

definition split_fraction :: "string \<Rightarrow> string \<times> string" where
  "split_fraction s =
     (case s of c # t \<Rightarrow> if c = CHR ''.'' then split_digits t else ([], s) | [] \<Rightarrow> ([], []))"

definition exponent_digits :: "string \<Rightarrow> (int \<times> string) option" where
  "exponent_digits s =
     (let (neg, t) = (case s of
                        c # r \<Rightarrow> if c = CHR ''-'' then (True, r)
                                else if c = CHR ''+'' then (False, r) else (False, s)
                      | [] \<Rightarrow> (False, []));
          (ds, rest) = split_digits t
      in if ds = [] then None
         else Some ((if neg then - parse_digits ds else parse_digits ds), rest))"

definition split_exponent :: "string \<Rightarrow> int \<times> string" where
  "split_exponent s =
     (case s of
        c # t \<Rightarrow> if c = CHR ''e'' \<or> c = CHR ''E''
                then (case exponent_digits t of Some (e, r) \<Rightarrow> (e, r) | None \<Rightarrow> (0, s))
                else (0, s)
      | [] \<Rightarrow> (0, []))"

text \<open>Value and rest; \<open>None\<close> when no digit starts the literal.\<close>

definition unsigned_decimal :: "string \<Rightarrow> (rat \<times> string) option" where
  "unsigned_decimal s =
     (let (ip, r1) = split_digits s; (fp, r2) = split_fraction r1 in
      if ip = [] \<and> fp = [] then None
      else
        let (e, r3) = split_exponent r2 in
        Some (of_int (parse_digits (ip @ fp)) * 10 powi (e - int (length fp)), r3))"

definition split_sign :: "string \<Rightarrow> bool \<times> string" where
  "split_sign s =
     (case s of
        c # t \<Rightarrow> if c = CHR ''-'' then (True, t) else if c = CHR ''+'' then (False, t) else (False, s)
      | [] \<Rightarrow> (False, []))"

definition hex_val :: "char \<Rightarrow> nat option" where
  "hex_val c =
     (let n = (of_char c :: nat) in
      if 48 \<le> n \<and> n \<le> 57 then Some (n - 48)
      else if 97 \<le> n \<and> n \<le> 102 then Some (n - 87)
      else if 65 \<le> n \<and> n \<le> 70 then Some (n - 55)
      else None)"

fun radix_value :: "nat \<Rightarrow> int \<Rightarrow> string \<Rightarrow> int option" where
  "radix_value b acc [] = Some acc"
| "radix_value b acc (c # s) =
     (case hex_val c of
        Some d \<Rightarrow> if d < b then radix_value b (acc * int b + int d) s else None
      | None \<Rightarrow> None)"

definition radix_number :: "nat \<Rightarrow> string \<Rightarrow> jsnum" where
  "radix_number b s =
     (if s = [] then NaN
      else case radix_value b 0 s of Some n \<Rightarrow> to_double (of_int n) | None \<Rightarrow> NaN)"

text \<open>\<open>Number(s)\<close> for a string argument.\<close>

definition string_to_number :: "string \<Rightarrow> jsnum" where
  "string_to_number str =
     (let s = trim str in
      if s = [] then Fin 0
      else case s of
        a # b # t \<Rightarrow>
          if a = CHR ''0'' \<and> b \<in> {CHR ''x'', CHR ''X''} then radix_number 16 t
          else if a = CHR ''0'' \<and> b \<in> {CHR ''o'', CHR ''O''} then radix_number 8 t
          else if a = CHR ''0'' \<and> b \<in> {CHR ''b'', CHR ''B''} then radix_number 2 t
          else (let (neg, u) = split_sign s in
                if u = ''Infinity'' then (if neg then NInf else PInf)
                else case unsigned_decimal u of
                  Some (v, []) \<Rightarrow> to_double (if neg then - v else v)
                | _ \<Rightarrow> NaN)
      | _ \<Rightarrow> (case unsigned_decimal s of Some (v, []) \<Rightarrow> to_double v | _ \<Rightarrow> NaN))"

text \<open>\<open>parseFloat(s)\<close>.\<close>

definition parseFloat :: "string \<Rightarrow> jsnum" where
  "parseFloat str =
     (let (neg, u) = split_sign (strip_by ws_len str) in
      if prefix ''Infinity'' u then (if neg then NInf else PInf)
      else case unsigned_decimal u of
        Some (v, _) \<Rightarrow> to_double (if neg then - v else v)
      | None \<Rightarrow> NaN)"

text \<open>\<open>parseInt(s, 10)\<close>.\<close>

definition parse_int :: "string \<Rightarrow> jsnum" where
  "parse_int str =
     (let (neg, u) = split_sign (strip_by ws_len str); ds = takeWhile is_digit u in
      if ds = [] then NaN
      else to_double (of_int (if neg then - parse_digits ds else parse_digits ds)))"

section \<open>Writing numbers\<close>

text \<open>The position \<open>n\<close> with \<open>10 ^ (n - 1) \<le> q < 10 ^ n\<close>, for positive \<open>q\<close>.\<close>

definition exp10_of :: "rat \<Rightarrow> int" where
  "exp10_of q =
     (let (a, b) = quotient_of q;
          k = int (length (show_digits a)) - int (length (show_digits b)) in
      if 10 powi k \<le> q then k + 1 else k)"

text \<open>
  The shortest decimal significand, from \<open>k\<close> digits on, whose value rounds to \<open>q\<close>;
  17 digits always do.
\<close>

fun shortest :: "nat \<Rightarrow> nat \<Rightarrow> rat \<Rightarrow> int \<times> int" where
  "shortest 0 k q = (let e = exp10_of q - int k in (round_half_even (q / 10 powi e), e))"
| "shortest (Suc fuel) k q =
     (let e = exp10_of q - int k; s = round_half_even (q / 10 powi e) in
      if to_double (of_int s * 10 powi e) = Fin q then (s, e) else shortest fuel (Suc k) q)"

fun strip_zeros :: "nat \<Rightarrow> int \<Rightarrow> int \<Rightarrow> int \<times> int" where
  "strip_zeros 0 s e = (s, e)"
| "strip_zeros (Suc fuel) s e =
     (if s \<noteq> 0 \<and> s mod 10 = 0 then strip_zeros fuel (s div 10) (e + 1) else (s, e))"

text \<open>The layout of \<open>Number::toString\<close> for the digits \<open>ds\<close> and the point position \<open>n\<close>.\<close>

definition layout :: "string \<Rightarrow> int \<Rightarrow> string" where
  "layout ds n =
     (let k = int (length ds) in
      if k \<le> n \<and> n \<le> 21 then ds @ replicate (nat (n - k)) CHR ''0''
      else if 0 < n \<and> n \<le> 21 then take (nat n) ds @ ''.'' @ drop (nat n) ds
      else if - 6 < n \<and> n \<le> 0 then ''0.'' @ replicate (nat (- n)) CHR ''0'' @ ds
      else
        let e = n - 1; es = (if e < 0 then ''e-'' else ''e+'') @ show_digits \<bar>e\<bar> in
        (case ds of [d] \<Rightarrow> [d] @ es | d # ds' \<Rightarrow> [d] @ ''.'' @ ds' @ es | [] \<Rightarrow> es))"

definition show_pos :: "rat \<Rightarrow> string" where
  "show_pos q =
     (let (s0, e0) = shortest 16 1 q; (s, e) = strip_zeros 1 s0 e0; ds = show_digits s in
      layout ds (e + int (length ds)))"

fun number_to_string :: "jsnum \<Rightarrow> string" where
  "number_to_string NaN = ''NaN''"
| "number_to_string PInf = ''Infinity''"
| "number_to_string NInf = ''-Infinity''"
| "number_to_string (Fin q) =
     (if q = 0 then ''0'' else if q < 0 then ''-'' @ show_pos (- q) else show_pos q)"

text \<open>\<open>x.toFixed(f)\<close>.\<close>

definition fixed_digits :: "int \<Rightarrow> nat \<Rightarrow> string" where
  "fixed_digits n f =
     (let m = show_digits n in
      if f = 0 then m
      else
        let p = (if length m \<le> f then replicate (Suc f - length m) CHR ''0'' @ m else m);
            k = length p - f in
        take k p @ ''.'' @ drop k p)"

fun toFixed :: "jsnum \<Rightarrow> nat \<Rightarrow> string" where
  "toFixed (Fin q) f =
     (if 10 ^ 21 \<le> \<bar>q\<bar> then number_to_string (Fin q)
      else (if q < 0 then ''-'' else []) @ fixed_digits \<lfloor>\<bar>q\<bar> * 10 ^ f + 1/2\<rfloor> f)"
| "toFixed x f = number_to_string x"

end
