(* ===== verification/JS_Value.thy ===== *)
theory JS_Value
  imports JS_Number
begin

text \<open>
  JavaScript values as the front end meets them (data only, no functions or prototypes),
  their coercions, objects as insertion-ordered property lists, and JSON text:
  \<open>JSON.parse\<close> and \<open>JSON.stringify\<close>.
\<close>

datatype jsval =
    Undef | Null | Bool bool | Num jsnum | Str string | Arr "jsval list" | Obj "(string \<times> jsval) list"

text \<open>Exceptions: those the runtime throws and \<open>new Error(message)\<close>.\<close>

datatype js_error = SyntaxError | TypeError | Error string

section \<open>Objects\<close>

type_synonym 'v jsobj = "(string \<times> 'v) list"

text \<open>Assignment \<open>ob[k] = v\<close>: a new property goes to the end, an old one keeps its place.\<close>

fun obj_set :: "string \<Rightarrow> 'v \<Rightarrow> 'v jsobj \<Rightarrow> 'v jsobj" where
  "obj_set k v [] = [(k, v)]"
| "obj_set k v ((k', v') # ps) = (if k = k' then (k', v) # ps else (k', v') # obj_set k v ps)"

definition obj_del :: "string \<Rightarrow> 'v jsobj \<Rightarrow> 'v jsobj" where
  "obj_del k ps = filter (\<lambda>p. fst p \<noteq> k) ps"

text \<open>\<open>if (c) ob[k] = v\<close>\<close>

definition set_if :: "bool \<Rightarrow> string \<Rightarrow> 'v \<Rightarrow> 'v jsobj \<Rightarrow> 'v jsobj" where
  "set_if c k v ob = (if c then obj_set k v ob else ob)"

text \<open>\<open>{ ...a, ...b }\<close>.\<close>

definition obj_spread :: "'v jsobj \<Rightarrow> 'v jsobj \<Rightarrow> 'v jsobj" where
  "obj_spread a b = foldl (\<lambda>ob (k, v). obj_set k v ob) a b"

text \<open>
  The order of \<open>Object.entries\<close>: keys that are array indices first, ascending, then the
  other keys in the order they were added.
\<close>

definition is_index :: "string \<Rightarrow> bool" where
  "is_index k \<longleftrightarrow> all_digits k \<and> (k = ''0'' \<or> hd k \<noteq> CHR ''0'') \<and> parse_digits k < 4294967295"

definition obj_entries :: "'v jsobj \<Rightarrow> 'v jsobj" where
  "obj_entries ob = sort_key (\<lambda>p. parse_digits (fst p)) (filter (\<lambda>p. is_index (fst p)) ob)
     @ filter (\<lambda>p. \<not> is_index (fst p)) ob"

abbreviation obj_keys :: "'v jsobj \<Rightarrow> string list" where
  "obj_keys ob \<equiv> map fst (obj_entries ob)"

lemma obj_set_lookup [simp]: "map_of (obj_set k v ob) = (map_of ob)(k \<mapsto> v)"
  by (induction k v ob rule: obj_set.induct) auto

lemma obj_set_keys: "fst ` set (obj_set k v ob) = insert k (fst ` set ob)"
  by (induction k v ob rule: obj_set.induct) auto

lemma obj_set_distinct [simp]: "distinct (map fst ob) \<Longrightarrow> distinct (map fst (obj_set k v ob))"
  by (induction k v ob rule: obj_set.induct) (auto simp: obj_set_keys)

lemma set_if_lookup [simp]: "map_of (set_if c k v ob) j = (if c \<and> j = k then Some v else map_of ob j)"
  by (simp add: set_if_def)

lemma obj_set_values: "set (obj_set k v ob) \<subseteq> insert (k, v) (set ob)"
  by (induction k v ob rule: obj_set.induct) auto

lemma obj_del_lookup [simp]: "map_of (obj_del k ob) = (map_of ob)(k := None)"
  by (induction ob) (auto simp: obj_del_def)

lemma obj_del_distinct [simp]: "distinct (map fst ob) \<Longrightarrow> distinct (map fst (obj_del k ob))"
  by (simp add: obj_del_def distinct_map_filter)

lemma set_obj_entries [simp]: "set (obj_entries ob) = set ob"
  by (auto simp: obj_entries_def)

lemma obj_spread_lookup: "map_of (obj_spread a b) = map_of a ++ map_of (rev b)"
  by (induction b arbitrary: a)
    (auto simp: obj_spread_def map_add_def fun_eq_iff map_of_append split: option.splits)

section \<open>Coercions\<close>

fun truthy :: "jsval \<Rightarrow> bool" where
  "truthy Undef = False"
| "truthy Null = False"
| "truthy (Bool b) = b"
| "truthy (Num n) = (n \<noteq> NaN \<and> n \<noteq> Fin 0)"
| "truthy (Str s) = (s \<noteq> [])"
| "truthy _ = True"

text \<open>The operator \<open>===\<close> on primitive values.\<close>

fun strict_eq :: "jsval \<Rightarrow> jsval \<Rightarrow> bool" where
  "strict_eq Undef Undef = True"
| "strict_eq Null Null = True"
| "strict_eq (Bool a) (Bool b) = (a = b)"
| "strict_eq (Num a) (Num b) = (a \<noteq> NaN \<and> a = b)"
| "strict_eq (Str a) (Str b) = (a = b)"
| "strict_eq _ _ = False"

text \<open>\<open>String(v)\<close>; an array joins its elements with commas, null and undefined as empty.\<close>

fun js_String :: "jsval \<Rightarrow> string" and arr_item :: "jsval \<Rightarrow> string" where
  "js_String Undef = ''undefined''"
| "js_String Null = ''null''"
| "js_String (Bool b) = (if b then ''true'' else ''false'')"
| "js_String (Num n) = number_to_string n"
| "js_String (Str s) = s"
| "js_String (Arr xs) = js_join '','' (map arr_item xs)"
| "js_String (Obj _) = ''[object Object]''"
| "arr_item Undef = []"
| "arr_item Null = []"
| "arr_item (Bool b) = (if b then ''true'' else ''false'')"
| "arr_item (Num n) = number_to_string n"
| "arr_item (Str s) = s"
| "arr_item (Arr xs) = js_join '','' (map arr_item xs)"
| "arr_item (Obj _) = ''[object Object]''"

text \<open>\<open>Number(v)\<close>.\<close>

fun js_Number :: "jsval \<Rightarrow> jsnum" where
  "js_Number Undef = NaN"
| "js_Number Null = Fin 0"
| "js_Number (Bool b) = (if b then Fin 1 else Fin 0)"
| "js_Number (Num n) = n"
| "js_Number (Str s) = string_to_number s"
| "js_Number (Arr xs) = string_to_number (js_String (Arr xs))"
| "js_Number (Obj _) = NaN"

text \<open>\<open>v?.k\<close> on data values.\<close>

fun get_prop :: "jsval \<Rightarrow> string \<Rightarrow> jsval" where
  "get_prop (Obj ob) k = (case map_of ob k of Some v \<Rightarrow> v | None \<Rightarrow> Undef)"
| "get_prop _ k = Undef"

section \<open>Writing JSON\<close>

definition hex_digit :: "nat \<Rightarrow> char" where
  "hex_digit d = (if d < 10 then char_of (48 + d) else char_of (87 + d))"

definition escape_char :: "char \<Rightarrow> string" where
  "escape_char c =
     (if c = CHR 0x22 then [CHR 0x5C, CHR 0x22]
      else if c = CHR 0x5C then [CHR 0x5C, CHR 0x5C]
      else if c = CHR 0x08 then [CHR 0x5C, CHR ''b'']
      else if c = CHR 0x0C then [CHR 0x5C, CHR ''f'']
      else if c = CHR 0x0A then [CHR 0x5C, CHR ''n'']
      else if c = CHR 0x0D then [CHR 0x5C, CHR ''r'']
      else if c = CHR 0x09 then [CHR 0x5C, CHR ''t'']
      else if (of_char c :: nat) < 32 then
        [CHR 0x5C, CHR ''u'', CHR ''0'', CHR ''0'', hex_digit (of_char c div 16),
         hex_digit (of_char c mod 16)]
      else [c])"

definition quote_string :: "string \<Rightarrow> string" where
  "quote_string s = CHR 0x22 # concat (map escape_char s) @ [CHR 0x22]"

definition json_number :: "jsnum \<Rightarrow> string" where
  "json_number n = (if is_finite n then number_to_string n else ''null'')"

text \<open>
  \<open>JSON.stringify(v)\<close>; \<open>None\<close> for undefined, which an object leaves out and an array writes
  as null.
\<close>

fun json_stringify :: "jsval \<Rightarrow> string option" where
  "json_stringify Undef = None"
| "json_stringify Null = Some ''null''"
| "json_stringify (Bool b) = Some (if b then ''true'' else ''false'')"
| "json_stringify (Num n) = Some (json_number n)"
| "json_stringify (Str s) = Some (quote_string s)"
| "json_stringify (Arr xs) =
     Some (''['' @ js_join '','' (map (\<lambda>x. case json_stringify x of Some t \<Rightarrow> t | None \<Rightarrow> ''null'') xs) @ '']'')"
| "json_stringify (Obj ps) =
     Some (''{'' @ js_join '','' (map (\<lambda>(k, t). quote_string k @ '':'' @ the t)
        (filter (\<lambda>(k, t). t \<noteq> None) (obj_entries (map (\<lambda>(k, x). (k, json_stringify x)) ps)))) @ ''}'')"

text \<open>The own properties that \<open>...v\<close> copies; a string has one per character.\<close>

fun spread_props :: "jsval \<Rightarrow> jsval jsobj" where
  "spread_props (Obj ps) = ps"
| "spread_props (Arr xs) = zip (map show_nat [0..<length xs]) xs"
| "spread_props (Str s) = zip (map show_nat [0..<length s]) (map (\<lambda>c. Str [c]) s)"
| "spread_props _ = []"

text \<open>\<open>toBoolean\<close> of \<open>src/web/src/helpers/boolean.js\<close>; \<open>lower\<close> is \<open>toLowerCase\<close>.\<close>

definition toBoolean :: "(string \<Rightarrow> string) \<Rightarrow> jsval \<Rightarrow> bool" where
  "toBoolean lower v =
     (case v of
        Bool b \<Rightarrow> b
      | Num n \<Rightarrow> n = Fin 1
      | Str s \<Rightarrow> lower s = ''true'' \<or> lower s = ''1''
      | _ \<Rightarrow> False)"

text \<open>\<open>ITEMS_PER_PAGE\<close> of \<open>src/web/src/constants/common.constant.js\<close>.\<close>

definition ITEMS_PER_PAGE :: int where "ITEMS_PER_PAGE = 10"

section \<open>Reading JSON\<close>

definition is_json_ws :: "char \<Rightarrow> bool" where
  "is_json_ws c \<longleftrightarrow> c \<in> {CHR 0x09, CHR 0x0A, CHR 0x0D, CHR 0x20}"

definition skip_ws :: "string \<Rightarrow> string" where
  "skip_ws s = dropWhile is_json_ws s"

text \<open>UTF-8 bytes of a code point.\<close>

definition utf8 :: "nat \<Rightarrow> string" where
  "utf8 n =
     (if n < 128 then [char_of n]
      else if n < 2048 then [char_of (192 + n div 64), char_of (128 + n mod 64)]
      else if n < 65536 then
        [char_of (224 + n div 4096), char_of (128 + n div 64 mod 64), char_of (128 + n mod 64)]
      else
        [char_of (240 + n div 262144), char_of (128 + n div 4096 mod 64),
         char_of (128 + n div 64 mod 64), char_of (128 + n mod 64)])"

fun hex4 :: "string \<Rightarrow> (nat \<times> string) option" where
  "hex4 (a # b # c # d # s) =
     (case (hex_val a, hex_val b, hex_val c, hex_val d) of
        (Some w, Some x, Some y, Some z) \<Rightarrow> Some (((w * 16 + x) * 16 + y) * 16 + z, s)
      | _ \<Rightarrow> None)"
| "hex4 _ = None"

text \<open>After \<open>\u\<close>: one code unit, or a surrogate pair written as two escapes.\<close>

definition unicode_escape :: "string \<Rightarrow> (string \<times> string) option" where
  "unicode_escape s =
     (case hex4 s of
        None \<Rightarrow> None
      | Some (h, r) \<Rightarrow>
          (if 55296 \<le> h \<and> h < 56320 then
             (case strip_prefix [CHR 0x5C, CHR ''u''] r of
                Some r' \<Rightarrow>
                  (case hex4 r' of
                     Some (l, r'') \<Rightarrow>
                       if 56320 \<le> l \<and> l < 57344
                       then Some (utf8 (65536 + (h - 55296) * 1024 + (l - 56320)), r'')
                       else Some (utf8 h, r)
                   | None \<Rightarrow> Some (utf8 h, r))
              | None \<Rightarrow> Some (utf8 h, r))
           else Some (utf8 h, r)))"

definition simple_escape :: "char \<Rightarrow> char option" where
  "simple_escape c =
     (if c \<in> {CHR 0x22, CHR 0x5C, CHR 0x2F} then Some c
      else if c = CHR ''b'' then Some CHR 0x08
      else if c = CHR ''f'' then Some CHR 0x0C
      else if c = CHR ''n'' then Some CHR 0x0A
      else if c = CHR ''r'' then Some CHR 0x0D
      else if c = CHR ''t'' then Some CHR 0x09
      else None)"

text \<open>The rest of a string literal after its opening quote, with fuel for the escapes.\<close>

fun json_chars :: "nat \<Rightarrow> string \<Rightarrow> (string \<times> string) option" where
  "json_chars 0 s = None"
| "json_chars (Suc n) [] = None"
| "json_chars (Suc n) (c # s) =
     (if c = CHR 0x22 then Some ([], s)
      else if (of_char c :: nat) < 32 then None
      else if c = CHR 0x5C then
        (case s of
           [] \<Rightarrow> None
         | e # r \<Rightarrow>
             (if e = CHR ''u'' then
                (case unicode_escape r of
                   Some (u, r') \<Rightarrow> map_option (\<lambda>(t, q). (u @ t, q)) (json_chars n r')
                 | None \<Rightarrow> None)
              else (case simple_escape e of
                      Some d \<Rightarrow> map_option (\<lambda>(t, q). (d # t, q)) (json_chars n r)
                    | None \<Rightarrow> None)))
      else map_option (\<lambda>(t, q). (c # t, q)) (json_chars n s))"

definition json_string :: "string \<Rightarrow> (string \<times> string) option" where
  "json_string s = json_chars (Suc (length s)) s"

text \<open>
  A JSON number: no leading plus, no leading zeros, a digit on each side of the point.
\<close>

definition json_number_token :: "string \<Rightarrow> (jsnum \<times> string) option" where
  "json_number_token s =
     (let (neg, u) = (case s of c # t \<Rightarrow> if c = CHR ''-'' then (True, t) else (False, s) | [] \<Rightarrow> (False, []));
          (ip, r1) = split_digits u;
          bad_int = (ip = [] \<or> (hd ip = CHR ''0'' \<and> length ip \<noteq> 1));
          bad_frac = (prefix ''.'' r1 \<and> fst (split_fraction r1) = []);
          (fp, r2) = split_fraction r1;
          bad_exp = ((prefix ''e'' r2 \<or> prefix ''E'' r2) \<and> exponent_digits (tl r2) = None);
          (e, r3) = split_exponent r2;
          v = of_int (parse_digits (ip @ fp)) * 10 powi (e - int (length fp))
      in if bad_int \<or> bad_frac \<or> bad_exp then None
         else Some (to_double (if neg then - v else v), r3))"

text \<open>The words null, true, false, or a number.\<close>

definition json_scalar :: "string \<Rightarrow> (jsval \<times> string) option" where
  "json_scalar s =
     (case strip_prefix ''null'' s of
        Some q \<Rightarrow> Some (Null, q)
      | None \<Rightarrow>
          (case strip_prefix ''true'' s of
             Some q \<Rightarrow> Some (Bool True, q)
           | None \<Rightarrow>
               (case strip_prefix ''false'' s of
                  Some q \<Rightarrow> Some (Bool False, q)
                | None \<Rightarrow> map_option (\<lambda>(x, q). (Num x, q)) (json_number_token s))))"

fun json_value :: "nat \<Rightarrow> string \<Rightarrow> (jsval \<times> string) option"
  and json_elems :: "nat \<Rightarrow> jsval list \<Rightarrow> string \<Rightarrow> (jsval \<times> string) option"
  and json_members :: "nat \<Rightarrow> (string \<times> jsval) list \<Rightarrow> string \<Rightarrow> (jsval \<times> string) option" where
  "json_value 0 s = None"
| "json_value (Suc n) s =
     (case skip_ws s of
        [] \<Rightarrow> None
      | c # r \<Rightarrow>
          if c = CHR 0x22 then map_option (\<lambda>(t, q). (Str t, q)) (json_string r)
          else if c = CHR ''['' then
            (case skip_ws r of
               [] \<Rightarrow> None
             | d # q \<Rightarrow> if d = CHR '']'' then Some (Arr [], q) else json_elems n [] r)
          else if c = CHR ''{'' then
            (case skip_ws r of
               [] \<Rightarrow> None
             | d # q \<Rightarrow> if d = CHR ''}'' then Some (Obj [], q) else json_members n [] r)
          else json_scalar (c # r))"
| "json_elems 0 acc s = None"
| "json_elems (Suc n) acc s =
     (case json_value n s of
        None \<Rightarrow> None
      | Some (v, r) \<Rightarrow>
          (case skip_ws r of
             [] \<Rightarrow> None
           | d # q \<Rightarrow> if d = CHR '']'' then Some (Arr (acc @ [v]), q)
                     else if d = CHR '','' then json_elems n (acc @ [v]) q else None))"
| "json_members 0 acc s = None"
| "json_members (Suc n) acc s =
     (case skip_ws s of
        [] \<Rightarrow> None
      | c # r \<Rightarrow>
          (if c \<noteq> CHR 0x22 then None
           else
             (case json_string r of
                None \<Rightarrow> None
              | Some (k, r1) \<Rightarrow>
                  (case skip_ws r1 of
                     [] \<Rightarrow> None
                   | d # q \<Rightarrow>
                       (if d \<noteq> CHR '':'' then None
                        else
                          (case json_value n q of
                             None \<Rightarrow> None
                           | Some (v, r2) \<Rightarrow>
                               (case skip_ws r2 of
                                  [] \<Rightarrow> None
                                | e # p \<Rightarrow>
                                    (if e = CHR ''}'' then Some (Obj (obj_set k v acc), p)
                                     else if e = CHR '','' then json_members n (obj_set k v acc) p
                                     else None))))))))"

text \<open>
  \<open>JSON.parse(s)\<close>; \<open>None\<close> is the SyntaxError it throws. Every two nested calls consume a
  character, so twice the length of the text is enough fuel (\<open>json_fuel\<close> below).
\<close>

definition json_parse :: "string \<Rightarrow> jsval option" where
  "json_parse s =
     (case json_value (2 * length s + 2) s of
        Some (v, r) \<Rightarrow> if skip_ws r = [] then Some v else None
      | None \<Rightarrow> None)"

section \<open>String literals are read back\<close>

lemma hex_val_digit [simp]: "d < 16 \<Longrightarrow> hex_val (hex_digit d) = Some d"
  by (auto simp: hex_val_def hex_digit_def Let_def)

lemma unicode_escape_control:
  assumes "(of_char c :: nat) < 32"
  shows "unicode_escape (CHR ''0'' # CHR ''0'' # hex_digit (of_char c div 16)
      # hex_digit (of_char c mod 16) # s) = Some ([c], s)"
proof -
  have "hex_val CHR ''0'' = Some 0" by (simp add: hex_val_def)
  moreover have "of_char c div 16 < (16 :: nat)" "of_char c mod 16 < (16 :: nat)"
    using assms by auto
  ultimately have "hex4 (CHR ''0'' # CHR ''0'' # hex_digit (of_char c div 16)
      # hex_digit (of_char c mod 16) # s) = Some (of_char c, s)"
    by simp
  with assms show ?thesis by (simp add: unicode_escape_def utf8_def)
qed

lemma json_chars_escape:
  "json_chars (Suc n) (escape_char c @ s) = map_option (\<lambda>(t, q). (c # t, q)) (json_chars n s)"
  by (auto simp: escape_char_def simple_escape_def unicode_escape_control)

lemma json_chars_quoted:
  "json_chars (Suc (length s) + n) (concat (map escape_char s) @ CHR 0x22 # r) = Some (s, r)"
  by (induction s) (auto simp: json_chars_escape)

lemma length_escape_char: "1 \<le> length (escape_char c)"
  by (simp add: escape_char_def)

lemma length_escaped: "length s \<le> length (concat (map escape_char s))"
proof (induction s)
  case (Cons c s)
  with length_escape_char [of c] show ?case by simp
qed simp

lemma json_string_quoted:
  "json_string (concat (map escape_char s) @ CHR 0x22 # r) = Some (s, r)"
proof -
  let ?t = "concat (map escape_char s) @ CHR 0x22 # r"
  obtain n where n: "Suc (length ?t) = Suc (length s) + n"
    using length_escaped [of s] by (metis add_Suc le_iff_add length_append nat_add_left_cancel_le
        trans_le_add1)
  show ?thesis unfolding json_string_def n by (rule json_chars_quoted)
qed

lemma skip_ws_quote [simp]: "skip_ws (CHR 0x22 # s) = CHR 0x22 # s"
  by (simp add: skip_ws_def is_json_ws_def)

lemma json_parse_quote_string: "json_parse (quote_string s) = Some (Str s)"
  by (simp add: json_parse_def quote_string_def json_string_quoted)
    (simp add: skip_ws_def)

text \<open>Characters that JSON writes as themselves.\<close>

definition json_plain :: "char \<Rightarrow> bool" where
  "json_plain c \<longleftrightarrow> 32 \<le> (of_char c :: nat) \<and> c \<noteq> CHR 0x22 \<and> c \<noteq> CHR 0x5C"

lemma escape_char_plain [simp]: "json_plain c \<Longrightarrow> escape_char c = [c]"
  by (auto simp: json_plain_def escape_char_def)

lemma quote_string_plain: "list_all json_plain s \<Longrightarrow> quote_string s = CHR 0x22 # s @ [CHR 0x22]"
  by (induction s) (auto simp: quote_string_def)

section \<open>Enough fuel for the JSON parser\<close>

lemma length_skip_ws: "length (skip_ws s) \<le> length s"
  by (simp add: skip_ws_def length_dropWhile_le)

lemma skip_ws_ConsD: "skip_ws s = c # r \<Longrightarrow> length r < length s"
  using length_skip_ws [of s] by simp

lemma hex4_length: "hex4 s = Some (n, r) \<Longrightarrow> length r \<le> length s"
  by (induction s rule: hex4.induct) (auto split: option.splits)

lemma unicode_escape_length: "unicode_escape s = Some (u, r) \<Longrightarrow> length r \<le> length s"
  by (auto simp: unicode_escape_def strip_prefix_Some dest!: hex4_length split: option.splits if_splits)

lemma json_chars_length: "json_chars n s = Some (t, r) \<Longrightarrow> length r < length s"
proof (induction n s arbitrary: t r rule: json_chars.induct)
  case (3 n c s)
  then show ?case
    by (auto split: if_splits list.splits option.splits dest!: unicode_escape_length) fastforce+
qed auto

lemma json_string_length: "json_string s = Some (t, r) \<Longrightarrow> length r < length s"
  unfolding json_string_def by (rule json_chars_length)

lemma split_digits_length: "split_digits s = (a, r) \<Longrightarrow> length r \<le> length s"
  by (auto simp: split_digits_def length_dropWhile_le)

lemma split_digits_length_less:
  assumes "split_digits s = (a, r)" "a \<noteq> []"
  shows "length r < length s"
proof -
  have "length s = length a + length r"
    using assms(1) by (metis length_append prod.inject split_digits_def takeWhile_dropWhile_id)
  with assms(2) show ?thesis by simp
qed

lemma split_fraction_length: "split_fraction s = (a, r) \<Longrightarrow> length r \<le> length s"
  by (auto simp: split_fraction_def dest!: split_digits_length split: list.splits if_splits)

lemma exponent_digits_length: "exponent_digits s = Some (e, r) \<Longrightarrow> length r \<le> length s"
  by (auto simp: exponent_digits_def Let_def dest!: split_digits_length
      split: list.splits if_splits prod.splits)

lemma split_exponent_length: "split_exponent s = (e, r) \<Longrightarrow> length r \<le> length s"
  by (auto simp: split_exponent_def dest!: exponent_digits_length
      split: list.splits if_splits option.splits)

lemma json_number_token_length:
  assumes "json_number_token s = Some (x, r)"
  shows "length r < length s"
proof -
  obtain neg u where u: "(case s of c # t \<Rightarrow> if c = CHR ''-'' then (True, t) else (False, s) | [] \<Rightarrow> (False, []))
      = (neg, u)" by fastforce
  obtain ip r1 where r1: "split_digits u = (ip, r1)" by fastforce
  obtain fp r2 where r2: "split_fraction r1 = (fp, r2)" by fastforce
  obtain e r3 where r3: "split_exponent r2 = (e, r3)" by fastforce
  have "ip \<noteq> []" "r = r3"
    using assms unfolding json_number_token_def u prod.case Let_def r1 r2 r3
    by (auto split: if_splits)
  moreover have "length u \<le> length s" using u by (auto split: list.splits if_splits)
  ultimately show ?thesis
    using split_digits_length_less [OF r1] split_fraction_length [OF r2]
      split_exponent_length [OF r3] by simp
qed

lemma json_scalar_length: "json_scalar s = Some (v, r) \<Longrightarrow> length r < length s"
  by (auto simp: json_scalar_def strip_prefix_Some dest: json_number_token_length
      split: option.splits)

lemma json_lengths:
  "json_value n s = Some (v, r) \<Longrightarrow> length r < length s"
  "json_elems n acc s = Some (v, r) \<Longrightarrow> length r < length s"
  "json_members n ps s = Some (v, r) \<Longrightarrow> length r < length s"
proof (induction n s and n acc s and n ps s arbitrary: v r and v r and v r
    rule: json_value_json_elems_json_members.induct)
  case (2 n s)
  then obtain c q where q: "skip_ws s = c # q" by (auto split: list.splits)
  then have "length q < length s" by (rule skip_ws_ConsD)
  moreover have "length r < length (c # q)"
    using 2 q
    by (auto split: list.splits if_splits
        dest: skip_ws_ConsD json_string_length json_scalar_length) (meson less_SucI skip_ws_ConsD)+
  moreover have "length (c # q) \<le> length s" using length_skip_ws [of s] q by simp
  ultimately show ?case by simp
next
  case (4 n acc s)
  then obtain x q where q: "json_value n s = Some (x, q)" by (auto split: option.splits)
  then have "length q < length s" by (rule "4.IH"(1))
  moreover obtain d p where p: "skip_ws q = d # p" using "4.prems" q by (auto split: list.splits)
  then have "length p < length q" by (rule skip_ws_ConsD)
  moreover have "length r \<le> length p"
    using "4.prems" "4.IH"(2) [OF q _ p] q p by (fastforce split: if_splits)
  ultimately show ?case by simp
next
  case (6 n acc s)
  then obtain c q where q: "skip_ws s = c # q" "c = CHR 0x22"
    by (auto split: list.splits if_splits)
  then have l1: "length q < length s" by (blast dest: skip_ws_ConsD)
  obtain k r1 where k: "json_string q = Some (k, r1)"
    using "6.prems" q by (auto split: option.splits)
  then have l2: "length r1 < length q" by (rule json_string_length)
  obtain d q1 where d: "skip_ws r1 = d # q1" "d = CHR '':''"
    using "6.prems" q k by (auto split: list.splits if_splits)
  then have l3: "length q1 < length r1" by (blast dest: skip_ws_ConsD)
  obtain x r2 where x: "json_value n q1 = Some (x, r2)"
    using "6.prems" q k d by (auto split: option.splits)
  then have l4: "length r2 < length q1" using "6.IH"(1) q k d by blast
  obtain e p where e: "skip_ws r2 = e # p"
    using "6.prems" q k d x by (auto split: list.splits)
  then have l5: "length p < length r2" by (rule skip_ws_ConsD)
  have "length r \<le> length p"
    using "6.prems" "6.IH"(2) q k d x e by (fastforce split: if_splits)
  with l1 l2 l3 l4 l5 show ?case by simp
qed simp_all

lemma json_fuel_indep:
  "\<forall>m s acc ps.
     (2 * length s + 1 \<le> n \<and> 2 * length s + 1 \<le> m \<longrightarrow> json_value n s = json_value m s) \<and>
     (2 * length s + 2 \<le> n \<and> 2 * length s + 2 \<le> m \<longrightarrow> json_elems n acc s = json_elems m acc s) \<and>
     (2 * length s + 2 \<le> n \<and> 2 * length s + 2 \<le> m \<longrightarrow> json_members n ps s = json_members m ps s)"
proof (induction n)
  case (Suc n)
  have V: "json_value n s = json_value m s"
    if "2 * length s + 1 \<le> n" "2 * length s + 1 \<le> m" for s m using Suc that by blast
  have E: "json_elems n acc s = json_elems m acc s"
    if "2 * length s + 2 \<le> n" "2 * length s + 2 \<le> m" for s m acc using Suc that by blast
  have M: "json_members n ps s = json_members m ps s"
    if "2 * length s + 2 \<le> n" "2 * length s + 2 \<le> m" for s m ps using Suc that by blast
  have "json_value (Suc n) s = json_value m s"
    if b: "2 * length s + 1 \<le> Suc n" "2 * length s + 1 \<le> m" for s m
  proof -
    obtain m' where m: "m = Suc m'" using b by (cases m) auto
    show ?thesis
    proof (cases "skip_ws s")
      case (Cons c r)
      have l: "2 * length r + 2 \<le> n" "2 * length r + 2 \<le> m'"
        using skip_ws_ConsD [OF Cons] b m by auto
      show ?thesis
        unfolding m json_value.simps Cons list.case E [OF l] M [OF l] ..
    qed (simp add: m)
  qed
  moreover have "json_elems (Suc n) acc s = json_elems m acc s"
    if b: "2 * length s + 2 \<le> Suc n" "2 * length s + 2 \<le> m" for s m acc
  proof -
    obtain m' where m: "m = Suc m'" using b by (cases m) auto
    have v: "json_value n s = json_value m' s" by (rule V) (use b m in simp_all)
    show ?thesis
    proof (cases "json_value m' s")
      case (Some vr)
      obtain x r where vr: "vr = (x, r)" by fastforce
      then have "length r < length s" using Some json_lengths(1) by blast
      then have "json_elems n ac q = json_elems m' ac q" if "skip_ws r = d # q" for d q ac
        using skip_ws_ConsD [OF that] b m by (intro E) auto
      then show ?thesis by (simp add: m v Some vr split: list.split)
    qed (simp add: m v)
  qed
  moreover have "json_members (Suc n) ps s = json_members m ps s"
    if b: "2 * length s + 2 \<le> Suc n" "2 * length s + 2 \<le> m" for s m ps
  proof -
    obtain m' where m: "m = Suc m'" using b by (cases m) auto
    have v: "json_value n q = json_value m' q" if "length q < length s" for q
      by (rule V) (use that b m in simp_all)
    have w: "json_members n as q = json_members m' as q" if "length q < length s" for q as
      by (rule M) (use that b m in simp_all)
    show ?thesis
      unfolding m json_members.simps
      by (intro list.case_cong option.case_cong if_cong prod.case_cong refl v w)
        (auto dest!: skip_ws_ConsD json_string_length json_lengths(1))
  qed
  ultimately show ?case by blast
qed simp

text \<open>Any more fuel gives the same result: running out is never the reason for a rejection.\<close>

lemma json_fuel:
  assumes "2 * length s + 2 \<le> n"
  shows "json_value n s = json_value (2 * length s + 2) s"
proof -
  from json_fuel_indep [of n] have
    "2 * length s + 1 \<le> n \<and> 2 * length s + 1 \<le> 2 * length s + 2 \<longrightarrow>
       json_value n s = json_value (2 * length s + 2) s" by blast
  with assms show ?thesis by (simp del: json_value.simps)
qed

end
