(* ===== verification/Status_Code_Risk.thy ===== *)
theory Status_Code_Risk
  imports JS_Value "HOL-Library.Char_ord" "HOL-Library.List_Lexorder"
begin

text \<open>
  The guard against risky status code redirects of a channel
  (\<open>src/web/src/components/table/channels/modals/statusCodeRiskGuard.js\<close>): the status
  code mapping is a JSON object from codes to codes; redirecting 504 or 524 needs an explicit
  confirmation, and only the redirects that an edit adds are asked for.
\<close>

section \<open>Operations\<close>

definition NON_REDIRECTABLE_STATUS_CODES :: "int list" where
  "NON_REDIRECTABLE_STATUS_CODES = [504, 524]"

text \<open>\<open>/^[1-5]\d{2}$/\<close>.\<close>

fun is_code_text :: "string \<Rightarrow> bool" where
  "is_code_text [a, b, c] = (a \<in> {CHR ''1'', CHR ''2'', CHR ''3'', CHR ''4'', CHR ''5''} \<and> is_digit b \<and> is_digit c)"
| "is_code_text _ = False"

definition parseStatusCodeKey :: "string \<Rightarrow> int option" where
  "parseStatusCodeKey rawKey =
     (let normalized = trim rawKey in
      if \<not> is_code_text normalized then None else Some (parse_digits normalized))"

fun parseStatusCodeMappingTarget :: "jsval \<Rightarrow> int option" where
  "parseStatusCodeMappingTarget (Num (Fin q)) =
     (if q = of_int \<lfloor>q\<rfloor> then (if q \<ge> 100 \<and> q \<le> 599 then Some \<lfloor>q\<rfloor> else None) else None)"
| "parseStatusCodeMappingTarget (Str s) =
     (let normalized = trim s in
      if \<not> is_code_text normalized then None
      else
        let code = parse_digits normalized in
        if code \<ge> 100 \<and> code \<le> 599 then Some code else None)"
| "parseStatusCodeMappingTarget _ = None"

text \<open>
  The common prologue of the two collectors: the own entries of the parsed mapping, or
  \<open>None\<close> where they return the empty list early (not a string, blank, not JSON, not an
  object).
\<close>

definition mapping_entries :: "jsval \<Rightarrow> (string \<times> jsval) list option" where
  "mapping_entries m =
     (case m of
        Str s \<Rightarrow>
          (if trim s = [] then None
           else (case json_parse s of Some (Obj ps) \<Rightarrow> Some (obj_entries ps) | _ \<Rightarrow> None))
      | _ \<Rightarrow> None)"

definition collectInvalidStatusCodeEntries :: "jsval \<Rightarrow> string list" where
  "collectInvalidStatusCodeEntries m =
     (case mapping_entries m of
        None \<Rightarrow> []
      | Some es \<Rightarrow>
          map (\<lambda>(rawKey, rawValue).
                 rawKey @ [CHR '' '', CHR 0xE2, CHR 0x86, CHR 0x92, CHR '' ''] @ js_String rawValue)
            (filter (\<lambda>(rawKey, rawValue). parseStatusCodeKey rawKey = None
                \<or> parseStatusCodeMappingTarget rawValue = None) es))"

definition risky_mapping :: "string \<times> jsval \<Rightarrow> string option" where
  "risky_mapping = (\<lambda>(rawFrom, rawTo).
     (case (parseStatusCodeKey rawFrom, parseStatusCodeMappingTarget rawTo) of
        (Some fromCode, Some toCode) \<Rightarrow>
          (if fromCode \<notin> set NON_REDIRECTABLE_STATUS_CODES then None
           else if fromCode = toCode then None
           else Some (show_digits fromCode @ '' -> '' @ show_digits toCode))
      | _ \<Rightarrow> None))"

text \<open>\<open>Array.from(new Set(xs))\<close>.\<close>

definition js_dedup :: "'a list \<Rightarrow> 'a list" where
  "js_dedup xs = rev (remdups (rev xs))"

definition collectDisallowedStatusCodeRedirects :: "jsval \<Rightarrow> string list" where
  "collectDisallowedStatusCodeRedirects m =
     (case mapping_entries m of
        None \<Rightarrow> []
      | Some es \<Rightarrow> sort (js_dedup (List.map_filter risky_mapping es)))"

definition collectNewDisallowedStatusCodeRedirects :: "jsval \<Rightarrow> jsval \<Rightarrow> string list" where
  "collectNewDisallowedStatusCodeRedirects original current =
     (let currentRisky = collectDisallowedStatusCodeRedirects current in
      if length currentRisky = 0 then []
      else filter (\<lambda>x. x \<notin> set (collectDisallowedStatusCodeRedirects original)) currentRisky)"

section \<open>Properties\<close>

lemma set_js_dedup [simp]: "set (js_dedup xs) = set xs"
  by (simp add: js_dedup_def)

lemma distinct_js_dedup [simp]: "distinct (js_dedup xs)"
  by (simp add: js_dedup_def)

lemma set_map_filter: "set (List.map_filter f xs) = {y. \<exists>x \<in> set xs. f x = Some y}"
  by (induction xs) (auto simp: List.map_filter_simps split: option.splits)

lemma risky_mapping_Some:
  "risky_mapping (k, v) = Some r \<longleftrightarrow>
     (\<exists>f t. parseStatusCodeKey k = Some f \<and> parseStatusCodeMappingTarget v = Some t \<and>
        f \<in> {504, 524} \<and> f \<noteq> t \<and> r = show_digits f @ '' -> '' @ show_digits t)"
  by (auto simp: risky_mapping_def NON_REDIRECTABLE_STATUS_CODES_def split: option.splits)

lemma target_bounds:
  "parseStatusCodeMappingTarget v = Some t \<Longrightarrow> 100 \<le> t \<and> t \<le> 599"
  by (induction v rule: parseStatusCodeMappingTarget.induct)
    (auto simp: Let_def le_floor_iff floor_le_iff split: if_splits)

text \<open>The redirects a mapping defines, invalid entries left out.\<close>

definition redirects :: "jsval \<Rightarrow> (int \<times> int) set" where
  "redirects m = {(f, t). \<exists>es k v. mapping_entries m = Some es \<and> (k, v) \<in> set es \<and>
     parseStatusCodeKey k = Some f \<and> parseStatusCodeMappingTarget v = Some t}"

definition risky :: "jsval \<Rightarrow> string set" where
  "risky m = {show_digits f @ '' -> '' @ show_digits t | f t.
     (f, t) \<in> redirects m \<and> f \<in> {504, 524} \<and> f \<noteq> t}"

lemma set_disallowed: "set (collectDisallowedStatusCodeRedirects m) = risky m"
  by (cases "mapping_entries m")
    (auto simp: collectDisallowedStatusCodeRedirects_def set_map_filter risky_def redirects_def
      risky_mapping_Some Bex_def)

lemma disallowed_sorted:
  "sorted (collectDisallowedStatusCodeRedirects m)"
  "distinct (collectDisallowedStatusCodeRedirects m)"
  by (simp_all add: collectDisallowedStatusCodeRedirects_def split: option.split)

lemma new_disallowed_filter:
  "collectNewDisallowedStatusCodeRedirects original current =
     filter (\<lambda>x. x \<notin> risky original) (collectDisallowedStatusCodeRedirects current)"
  by (simp add: collectNewDisallowedStatusCodeRedirects_def Let_def set_disallowed)

text \<open>
  The confirmation list of an edited mapping holds, sorted and without repetition,
  exactly the redirects of 504 or 524 to another code that the new mapping has and the old
  one had not; every target of a redirect lies between 100 and 599.
\<close>

theorem new_risky_redirects:
  "set (collectNewDisallowedStatusCodeRedirects original current) = risky current - risky original \<and>
   sorted (collectNewDisallowedStatusCodeRedirects original current) \<and>
   distinct (collectNewDisallowedStatusCodeRedirects original current) \<and>
   snd ` redirects current \<subseteq> {100..599}"
proof -
  have "snd ` redirects current \<subseteq> {100..599}"
    by (auto simp: redirects_def dest: target_bounds)
  then show ?thesis
    using disallowed_sorted [of current] sorted_filter [of id]
    by (auto simp: new_disallowed_filter set_disallowed)
qed

text \<open>
  A mapping that parses to an object is reported without invalid entries exactly when
  every entry has a three-digit key and a target code between 100 and 599.
\<close>

theorem no_invalid_entries:
  assumes "mapping_entries m = Some es"
  shows "collectInvalidStatusCodeEntries m = [] \<longleftrightarrow>
    list_all (\<lambda>(k, v). is_code_text (trim k) \<and>
      (\<exists>t \<in> {100..599}. parseStatusCodeMappingTarget v = Some t)) es"
  using assms target_bounds
  by (fastforce simp: collectInvalidStatusCodeEntries_def filter_empty_conv list_all_iff
      parseStatusCodeKey_def Let_def split: if_splits)

theorem no_invalid_entries_witness:
  "mapping_entries (Str ''{\"504\":\"500\"}'') = Some [(''504'', Str ''500'')] \<and>
   collectInvalidStatusCodeEntries (Str ''{\"504\":\"500\"}'') = []"
proof -
  have e: "mapping_entries (Str ''{\"504\":\"500\"}'') = Some [(''504'', Str ''500'')]"
    by code_simp
  have "parseStatusCodeMappingTarget (Str ''500'') = Some 500" "is_code_text (trim ''504'')"
    by code_simp+
  with no_invalid_entries [OF e] e show ?thesis by simp
qed

end
