(* ===== verification/Request_Rules.thy ===== *)
theory Request_Rules
  imports JS_Value JS_Interfaces
begin

text \<open>
  Request rules of the billing expressions
  (\<open>src/web/src/pages/Setting/Ratio/components/requestRuleExpr.js\<close>): groups of conditions on
  the request (body parameters, headers, time) with a price multiplier are printed as factors
  \<open>(cond && cond ? m : 1)\<close> joined by \<open>*\<close>, appended to the base billing expression, and parsed
  back into groups.

  A condition object is a record with optional string fields, \<open>None\<close> where the property is
  undefined: the editor's inputs, the presets and the parser only put strings there. A regular
  expression of the source is a matcher on the string; where it repeats a class, the character
  that follows is outside the class, so the match is unique. \<open>JSON.parse\<close> outside a try block
  throws: the value \<open>Inl SyntaxError\<close>.
\<close>

section \<open>Constants\<close>

definition SOURCE_PARAM :: string where "SOURCE_PARAM = ''param''"
definition SOURCE_HEADER :: string where "SOURCE_HEADER = ''header''"
definition SOURCE_TIME :: string where "SOURCE_TIME = ''time''"
definition MATCH_EQ :: string where "MATCH_EQ = ''eq''"
definition MATCH_CONTAINS :: string where "MATCH_CONTAINS = ''contains''"
definition MATCH_GT :: string where "MATCH_GT = ''gt''"
definition MATCH_GTE :: string where "MATCH_GTE = ''gte''"
definition MATCH_LT :: string where "MATCH_LT = ''lt''"
definition MATCH_LTE :: string where "MATCH_LTE = ''lte''"
definition MATCH_EXISTS :: string where "MATCH_EXISTS = ''exists''"
definition MATCH_RANGE :: string where "MATCH_RANGE = ''range''"
definition TIME_FUNCS :: "string list" where
  "TIME_FUNCS = [''hour'', ''minute'', ''weekday'', ''month'', ''day'']"

lemmas rule_consts = SOURCE_PARAM_def SOURCE_HEADER_def SOURCE_TIME_def MATCH_EQ_def
  MATCH_CONTAINS_def MATCH_GT_def MATCH_GTE_def MATCH_LT_def MATCH_LTE_def MATCH_EXISTS_def
  MATCH_RANGE_def

section \<open>Conditions and groups\<close>

record rule_cond =
  source :: "string option"
  path :: "string option"
  timeFunc :: "string option"
  timezone :: "string option"
  match_mode :: "string option"
  match_value :: "string option"
  rangeStart :: "string option"
  rangeEnd :: "string option"

record rule_group =
  conditions :: "rule_cond list"
  multiplier :: "string option"

definition request_cond :: "string \<Rightarrow> string \<Rightarrow> string \<Rightarrow> string \<Rightarrow> rule_cond" where
  "request_cond src p m v =
     \<lparr>source = Some src, path = Some p, timeFunc = None, timezone = None, match_mode = Some m,
      match_value = Some v, rangeStart = None, rangeEnd = None\<rparr>"

definition time_cond ::
  "string \<Rightarrow> string \<Rightarrow> string \<Rightarrow> string \<Rightarrow> string \<Rightarrow> string \<Rightarrow> rule_cond" where
  "time_cond fn tz m v rs re =
     \<lparr>source = Some SOURCE_TIME, path = None, timeFunc = Some fn, timezone = Some tz,
      match_mode = Some m, match_value = Some v, rangeStart = Some rs, rangeEnd = Some re\<rparr>"

definition createEmptyCondition :: rule_cond where
  "createEmptyCondition = request_cond SOURCE_PARAM [] MATCH_EQ []"

definition createEmptyTimeCondition :: rule_cond where
  "createEmptyTimeCondition = time_cond ''hour'' ''Asia/Shanghai'' MATCH_GTE [] [] []"

definition createEmptyRuleGroup :: rule_group where
  "createEmptyRuleGroup = \<lparr>conditions = [createEmptyCondition], multiplier = Some []\<rparr>"

definition createEmptyTimeRuleGroup :: rule_group where
  "createEmptyTimeRuleGroup = \<lparr>conditions = [createEmptyTimeCondition], multiplier = Some []\<rparr>"

text \<open>The values of the options; their labels are display text.\<close>

definition getRequestRuleMatchOptions :: "string \<Rightarrow> string list" where
  "getRequestRuleMatchOptions src =
     (if src = SOURCE_TIME then [MATCH_EQ, MATCH_GTE, MATCH_LT, MATCH_RANGE]
      else if src = SOURCE_HEADER then [MATCH_EQ, MATCH_CONTAINS, MATCH_EXISTS]
      else [MATCH_EQ, MATCH_CONTAINS, MATCH_EXISTS, MATCH_GT, MATCH_GTE, MATCH_LT, MATCH_LTE])"

text \<open>\<open>x || d\<close> for an optional string, and \<open>x == null ? '' : String(x)\<close>.\<close>

definition or_default :: "string option \<Rightarrow> string \<Rightarrow> string" where
  "or_default x d = (case x of None \<Rightarrow> d | Some s \<Rightarrow> if s = [] then d else s)"

definition or_empty :: "string option \<Rightarrow> string" where
  "or_empty x = (case x of None \<Rightarrow> [] | Some s \<Rightarrow> s)"

definition pick :: "string option \<Rightarrow> string list \<Rightarrow> string \<Rightarrow> string" where
  "pick x options d = (case x of Some s \<Rightarrow> if s \<in> set options then s else d | None \<Rightarrow> d)"

definition normalizeCondition :: "rule_cond \<Rightarrow> rule_cond" where
  "normalizeCondition cond =
     (let src = (if source cond = Some SOURCE_TIME then SOURCE_TIME
                 else if source cond = Some SOURCE_HEADER then SOURCE_HEADER
                 else SOURCE_PARAM) in
      if src = SOURCE_TIME then
        time_cond (pick (timeFunc cond) TIME_FUNCS ''hour'')
          (or_default (timezone cond) ''Asia/Shanghai'')
          (pick (match_mode cond) (getRequestRuleMatchOptions SOURCE_TIME) MATCH_GTE)
          (or_empty (match_value cond)) (or_empty (rangeStart cond)) (or_empty (rangeEnd cond))
      else
        request_cond src (or_default (path cond) [])
          (pick (match_mode cond) (getRequestRuleMatchOptions src) MATCH_EQ)
          (or_empty (match_value cond)))"

section \<open>Splitting at the top level\<close>

text \<open>
  The loops of \<open>splitTopLevelMultiply\<close> and \<open>splitTopLevelAnd\<close>: \<open>cur\<close> is the part since the
  last separator, reversed.
\<close>

function split_top :: "string \<Rightarrow> int \<Rightarrow> string \<Rightarrow> string \<Rightarrow> string list" where
  "split_top sep depth cur [] = [rev cur]"
| "split_top sep depth cur (c # s) =
     (let depth1 = (if c = CHR ''('' then depth + 1 else depth);
          depth2 = (if c = CHR '')'' then depth1 - 1 else depth1) in
      if depth2 = 0 \<and> prefix sep (c # s)
      then rev cur # split_top sep depth2 [] (drop (length sep - 1) s)
      else split_top sep depth2 (c # cur) s)"
  by pat_completeness auto
termination
  by (relation "measure (\<lambda>(sep, depth, cur, s). length s)") auto

definition splitTopLevelMultiply :: "string \<Rightarrow> string list" where
  "splitTopLevelMultiply expr = filter (\<lambda>p. p \<noteq> []) (map trim (split_top '' * '' 0 [] expr))"

definition splitTopLevelAnd :: "string \<Rightarrow> string list" where
  "splitTopLevelAnd expr = filter (\<lambda>p. p \<noteq> []) (map trim (split_top '' && '' 0 [] expr))"

section \<open>Literals\<close>

text \<open>\<open>NUMERIC_LITERAL_REGEX\<close>: sign, digits with an optional fraction, optional exponent.\<close>

definition numeric_exponent :: "string \<Rightarrow> bool" where
  "numeric_exponent s =
     (case s of
        [] \<Rightarrow> True
      | c # t \<Rightarrow>
          (c = CHR ''e'' \<or> c = CHR ''E'') \<and>
          (case t of
             [] \<Rightarrow> False
           | d # u \<Rightarrow> if d = CHR ''+'' \<or> d = CHR ''-'' then all_digits u else all_digits t))"

definition is_numeric_literal :: "string \<Rightarrow> bool" where
  "is_numeric_literal s =
     (let u = (case s of c # t \<Rightarrow> if c = CHR ''-'' then t else s | [] \<Rightarrow> []);
          (ip, r) = split_digits u in
      if ip \<noteq> [] then
        numeric_exponent (case r of c # t \<Rightarrow> if c = CHR ''.'' then snd (split_digits t) else r | [] \<Rightarrow> [])
      else
        (case r of
           [] \<Rightarrow> False
         | c # t \<Rightarrow> c = CHR ''.'' \<and> fst (split_digits t) \<noteq> [] \<and> numeric_exponent (snd (split_digits t))))"

text \<open>The value of a literal; \<open>Null\<close> where the source returns null.\<close>

definition parseExprLiteral :: "string \<Rightarrow> jsval" where
  "parseExprLiteral raw =
     (let text = trim raw in
      if text = ''true'' \<or> text = ''false'' then Str text
      else if is_numeric_literal text then Str text
      else (case json_parse text of Some v \<Rightarrow> v | None \<Rightarrow> Null))"

definition buildExprLiteral :: "string \<Rightarrow> string \<Rightarrow> string" where
  "buildExprLiteral mode value =
     (let text = trim value in
      if mode = MATCH_CONTAINS then quote_string text
      else if text = ''true'' \<or> text = ''false'' then text
      else if is_numeric_literal text then text
      else quote_string text)"

section \<open>Building expressions\<close>

definition time_op :: "string \<Rightarrow> string" where
  "time_op mode =
     (if mode = MATCH_EQ then ''=='' else if mode = MATCH_GTE then ''>=''
      else if mode = MATCH_LT then ''<'' else ''=='')"

definition buildTimeConditionExpr :: "rule_cond \<Rightarrow> string" where
  "buildTimeConditionExpr cond =
     (let n = normalizeCondition cond;
          mode = or_empty (match_mode n);
          fn = or_empty (timeFunc n) @ ''('' @ quote_string (or_empty (timezone n)) @ '')'' in
      if mode = MATCH_RANGE then
        (let s = trim (or_empty (rangeStart n)); e = trim (or_empty (rangeEnd n)) in
         if \<not> is_numeric_literal s \<or> \<not> is_numeric_literal e then []
         else fn @ '' >= '' @ s @ '' || '' @ fn @ '' < '' @ e)
      else
        (let v = trim (or_empty (match_value n)) in
         if \<not> is_numeric_literal v then []
         else fn @ '' '' @ time_op mode @ '' '' @ v))"

definition compare_op :: "string \<Rightarrow> string" where
  "compare_op mode =
     (if mode = MATCH_GT then ''>'' else if mode = MATCH_GTE then ''>=''
      else if mode = MATCH_LT then ''<'' else ''<='')"

definition buildRequestConditionExpr :: "rule_cond \<Rightarrow> string" where
  "buildRequestConditionExpr cond =
     (if source cond = Some SOURCE_TIME then buildTimeConditionExpr cond
      else
        let n = normalizeCondition cond;
            p = trim (or_empty (path n));
            hdr = (source n = Some SOURCE_HEADER);
            mode = or_empty (match_mode n);
            v = or_empty (match_value n) in
        if p = [] then []
        else
          let src = (if hdr then ''header('' else ''param('') @ quote_string p @ '')'' in
          if mode = MATCH_EXISTS then (if hdr then src @ '' != '' @ [CHR 0x22, CHR 0x22] else src @ '' != nil'')
          else if mode = MATCH_CONTAINS then
            (if hdr then ''has('' @ src @ '', '' @ buildExprLiteral mode v @ '')''
             else src @ '' != nil && has('' @ src @ '', '' @ buildExprLiteral mode v @ '')'')
          else if mode \<in> {MATCH_GT, MATCH_GTE, MATCH_LT, MATCH_LTE} then
            (if \<not> is_numeric_literal (trim v) then []
             else src @ '' != nil && '' @ src @ '' '' @ compare_op mode @ '' '' @ trim v)
          else src @ '' == '' @ buildExprLiteral mode v)"

definition buildRuleGroupFactor :: "rule_group \<Rightarrow> string" where
  "buildRuleGroupFactor grp =
     (let m = trim (or_empty (multiplier grp)) in
      if \<not> is_numeric_literal m then []
      else
        let condExprs = filter (\<lambda>e. e \<noteq> []) (map buildRequestConditionExpr (conditions grp)) in
        if condExprs = [] then []
        else
          let combined =
            (case condExprs of
               [e] \<Rightarrow> e
             | _ \<Rightarrow> js_join '' && ''
                 (map (\<lambda>e. if js_includes e '' || '' then ''('' @ e @ '')'' else e) condExprs)) in
          ''('' @ combined @ '' ? '' @ m @ '' : 1)'')"

definition buildRequestRuleExpr :: "rule_group list \<Rightarrow> string" where
  "buildRequestRuleExpr groups =
     js_join '' * '' (filter (\<lambda>e. e \<noteq> []) (map buildRuleGroupFactor groups))"

section \<open>Parsing expressions\<close>

text \<open>The class \<open>[\d.eE+-]\<close>.\<close>

definition is_num_char :: "char \<Rightarrow> bool" where
  "is_num_char c \<longleftrightarrow> is_digit c \<or> c \<in> {CHR ''.'', CHR ''e'', CHR ''E'', CHR ''+'', CHR ''-''}"

definition is_num_text :: "string \<Rightarrow> bool" where
  "is_num_text s \<longleftrightarrow> s \<noteq> [] \<and> list_all is_num_char s"

text \<open>\<open>name\("([^"]+)"\)\<close> at the start: the argument and the rest.\<close>

definition match_call :: "string \<Rightarrow> string \<Rightarrow> (string \<times> string) option" where
  "match_call name s =
     (case strip_prefix (name @ [CHR ''('', CHR 0x22]) s of
        None \<Rightarrow> None
      | Some r \<Rightarrow>
          (let arg = takeWhile (\<lambda>c. c \<noteq> CHR 0x22) r in
           if arg = [] then None
           else map_option (\<lambda>q. (arg, q))
             (strip_prefix [CHR 0x22, CHR '')''] (dropWhile (\<lambda>c. c \<noteq> CHR 0x22) r))))"

text \<open>The alternative \<open>(n1|n2|...)\("([^"]+)"\)\<close>: the first name that matches.\<close>

fun match_calls :: "string list \<Rightarrow> string \<Rightarrow> (string \<times> string \<times> string) option" where
  "match_calls [] s = None"
| "match_calls (n # ns) s =
     (case match_call n s of Some (a, r) \<Rightarrow> Some (n, a, r) | None \<Rightarrow> match_calls ns s)"

definition time_range_match :: "string \<Rightarrow> rule_cond option" where
  "time_range_match s =
     (case match_calls TIME_FUNCS s of
        None \<Rightarrow> None
      | Some (fn, tz, r) \<Rightarrow>
          (case strip_prefix '' >= '' r of
             None \<Rightarrow> None
           | Some r1 \<Rightarrow>
               (let a = takeWhile is_num_char r1 in
                if a = [] then None
                else
                  (case strip_prefix ('' || '' @ fn @ [CHR ''('', CHR 0x22] @ tz @ [CHR 0x22] @ '') < '')
                          (dropWhile is_num_char r1) of
                     None \<Rightarrow> None
                   | Some b \<Rightarrow>
                       (if is_num_text b then Some (time_cond fn tz MATCH_RANGE [] a b) else None)))))"

definition time_simple_match :: "string \<Rightarrow> rule_cond option" where
  "time_simple_match s =
     (case match_calls TIME_FUNCS s of
        None \<Rightarrow> None
      | Some (fn, tz, r) \<Rightarrow>
          (let found = (\<lambda>op mode. case strip_prefix ('' '' @ op @ '' '') r of
                 Some v \<Rightarrow> if is_num_text v then Some (time_cond fn tz mode v [] []) else None
               | None \<Rightarrow> None) in
           case found ''=='' MATCH_EQ of
             Some c \<Rightarrow> Some c
           | None \<Rightarrow> (case found ''>='' MATCH_GTE of
                       Some c \<Rightarrow> Some c
                     | None \<Rightarrow> found ''<'' MATCH_LT)))"

definition tryParseTimeCondition :: "string \<Rightarrow> rule_cond option" where
  "tryParseTimeCondition expr =
     (case time_range_match expr of
        Some c \<Rightarrow> Some c
      | None \<Rightarrow>
          (case (case strip_prefix ''('' expr of
                   Some r \<Rightarrow> (case strip_suffix '')'' r of Some q \<Rightarrow> time_range_match q | None \<Rightarrow> None)
                 | None \<Rightarrow> None) of
             Some c \<Rightarrow> Some c
           | None \<Rightarrow> time_simple_match expr))"

text \<open>\<open>"(?:[^"\\]|\\.)*"\<close>, the whole string; the dot excludes line terminators.\<close>

fun literal_body :: "string \<Rightarrow> bool" where
  "literal_body [] = False"
| "literal_body [c] = (c = CHR 0x22)"
| "literal_body (c # d # s) =
     (if c = CHR 0x22 then False
      else if c = CHR 0x5C then d \<noteq> CHR 0x0A \<and> d \<noteq> CHR 0x0D \<and>
        \<not> prefix [CHR 0xE2, CHR 0x80, CHR 0xA8] (d # s) \<and> \<not> prefix [CHR 0xE2, CHR 0x80, CHR 0xA9] (d # s) \<and>
        literal_body s
      else literal_body (d # s))"

definition is_string_literal :: "string \<Rightarrow> bool" where
  "is_string_literal s = (case s of c # t \<Rightarrow> c = CHR 0x22 \<and> literal_body t | [] \<Rightarrow> False)"

text \<open>A line terminator, which \<open>.\<close> does not match: LF, CR, U+2028, U+2029.\<close>

definition has_line_terminator :: "string \<Rightarrow> bool" where
  "has_line_terminator s \<longleftrightarrow> CHR 0x0A \<in> set s \<or> CHR 0x0D \<in> set s \<or>
     js_includes s [CHR 0xE2, CHR 0x80, CHR 0xA8] \<or> js_includes s [CHR 0xE2, CHR 0x80, CHR 0xA9]"

definition exists_match :: "string \<Rightarrow> rule_cond option" where
  "exists_match expr =
     (case match_call ''header'' expr of
        Some (p, r) \<Rightarrow>
          (if r = '' != '' @ [CHR 0x22, CHR 0x22] then Some (request_cond SOURCE_HEADER p MATCH_EXISTS [])
           else None)
      | None \<Rightarrow>
          (case match_call ''param'' expr of
             Some (p, r) \<Rightarrow>
               (if r = '' != nil'' then Some (request_cond SOURCE_PARAM p MATCH_EXISTS []) else None)
           | None \<Rightarrow> None))"

text \<open>\<open>, literal)\<close> at the end; \<open>JSON.parse\<close> of the literal may throw.\<close>

definition contains_tail :: "string \<Rightarrow> (js_error + string) option" where
  "contains_tail r =
     (case strip_prefix '', '' r of
        None \<Rightarrow> None
      | Some q \<Rightarrow>
          (case strip_suffix '')'' q of
             None \<Rightarrow> None
           | Some lit \<Rightarrow>
               (if is_string_literal lit
                then Some (case json_parse lit of Some v \<Rightarrow> Inr (js_String v) | None \<Rightarrow> Inl SyntaxError)
                else None)))"

definition header_contains_match :: "string \<Rightarrow> (js_error + rule_cond) option" where
  "header_contains_match expr =
     (case strip_prefix ''has('' expr of
        None \<Rightarrow> None
      | Some r \<Rightarrow>
          (case match_call ''header'' r of
             None \<Rightarrow> None
           | Some (p, q) \<Rightarrow>
               map_option (map_sum id (\<lambda>v. request_cond SOURCE_HEADER p MATCH_CONTAINS v)) (contains_tail q)))"

definition param_contains_match :: "string \<Rightarrow> (js_error + rule_cond) option" where
  "param_contains_match expr =
     (case match_call ''param'' expr of
        None \<Rightarrow> None
      | Some (p, r) \<Rightarrow>
          (case strip_prefix '' != nil && has('' r of
             None \<Rightarrow> None
           | Some q \<Rightarrow>
               (case match_call ''param'' q of
                  None \<Rightarrow> None
                | Some (p', q') \<Rightarrow>
                    (if p = p' then map_option
                       (map_sum id (\<lambda>v. request_cond SOURCE_PARAM p MATCH_CONTAINS v)) (contains_tail q')
                     else None))))"

definition param_compare_match :: "string \<Rightarrow> rule_cond option" where
  "param_compare_match expr =
     (case match_call ''param'' expr of
        None \<Rightarrow> None
      | Some (p, r) \<Rightarrow>
          (case strip_prefix '' != nil && '' r of
             None \<Rightarrow> None
           | Some q \<Rightarrow>
               (case match_call ''param'' q of
                  None \<Rightarrow> None
                | Some (p', q') \<Rightarrow>
                    (let found = (\<lambda>op mode. case strip_prefix ('' '' @ op @ '' '') q' of
                           Some v \<Rightarrow> if is_num_text v \<and> p = p'
                                     then Some (request_cond SOURCE_PARAM p mode v) else None
                         | None \<Rightarrow> None) in
                     case found ''>'' MATCH_GT of Some c \<Rightarrow> Some c
                     | None \<Rightarrow> (case found ''>='' MATCH_GTE of Some c \<Rightarrow> Some c
                     | None \<Rightarrow> (case found ''<'' MATCH_LT of Some c \<Rightarrow> Some c
                     | None \<Rightarrow> found ''<='' MATCH_LTE))))))"

definition eq_match :: "string \<Rightarrow> rule_cond option" where
  "eq_match expr =
     (case match_calls [''param'', ''header''] expr of
        None \<Rightarrow> None
      | Some (src, p, r) \<Rightarrow>
          (case strip_prefix '' == '' r of
             None \<Rightarrow> None
           | Some lit \<Rightarrow>
               (if lit = [] \<or> has_line_terminator lit then None
                else if parseExprLiteral lit = Null then None
                else Some (request_cond src p MATCH_EQ (js_String (parseExprLiteral lit))))))"

definition tryParseRequestCondition :: "string \<Rightarrow> js_error + rule_cond option" where
  "tryParseRequestCondition expr =
     (case tryParseTimeCondition expr of
        Some c \<Rightarrow> Inr (Some c)
      | None \<Rightarrow>
      (case exists_match expr of
        Some c \<Rightarrow> Inr (Some c)
      | None \<Rightarrow>
      (case header_contains_match expr of
        Some r \<Rightarrow> map_sum id Some r
      | None \<Rightarrow>
      (case param_contains_match expr of
        Some r \<Rightarrow> map_sum id Some r
      | None \<Rightarrow>
      (case param_compare_match expr of
        Some c \<Rightarrow> Inr (Some c)
      | None \<Rightarrow> Inr (eq_match expr))))))"

fun parse_conditions :: "string list \<Rightarrow> rule_cond list \<Rightarrow> js_error + rule_cond list option" where
  "parse_conditions [] acc = Inr (Some acc)"
| "parse_conditions (ap # aps) acc =
     (case tryParseRequestCondition (trim ap) of
        Inl e \<Rightarrow> Inl e
      | Inr None \<Rightarrow> Inr None
      | Inr (Some c) \<Rightarrow> parse_conditions aps (acc @ [normalizeCondition c]))"

text \<open>\<open>/^\((.+) \? ([\d.eE+-]+) : 1\)$/s\<close>: the condition and the multiplier.\<close>

definition factor_match :: "string \<Rightarrow> (string \<times> string) option" where
  "factor_match part =
     (case strip_prefix ''('' part of
        None \<Rightarrow> None
      | Some r \<Rightarrow>
          (case strip_suffix '' : 1)'' r of
             None \<Rightarrow> None
           | Some body \<Rightarrow>
               (let m = rev (takeWhile is_num_char (rev body)) in
                if m = [] then None
                else
                  (case strip_suffix '' ? '' (rev (dropWhile is_num_char (rev body))) of
                     None \<Rightarrow> None
                   | Some cond \<Rightarrow> if cond = [] then None else Some (cond, m)))))"

definition tryParseRuleGroupFactor :: "string \<Rightarrow> js_error + rule_group option" where
  "tryParseRuleGroupFactor part =
     (case factor_match part of
        None \<Rightarrow> Inr None
      | Some (conditionStr, m) \<Rightarrow>
          (case parse_conditions (splitTopLevelAnd conditionStr) [] of
             Inl e \<Rightarrow> Inl e
           | Inr None \<Rightarrow> Inr None
           | Inr (Some cs) \<Rightarrow>
               Inr (if length cs = 0 then None else Some \<lparr>conditions = cs, multiplier = Some m\<rparr>)))"

fun parse_groups :: "string list \<Rightarrow> rule_group list \<Rightarrow> js_error + rule_group list option" where
  "parse_groups [] acc = Inr (Some acc)"
| "parse_groups (part # parts) acc =
     (case tryParseRuleGroupFactor part of
        Inl e \<Rightarrow> Inl e
      | Inr None \<Rightarrow> Inr None
      | Inr (Some g) \<Rightarrow> parse_groups parts (acc @ [g]))"

definition tryParseRequestRuleExpr :: "string \<Rightarrow> js_error + rule_group list option" where
  "tryParseRequestRuleExpr expr =
     (let trimmed = trim expr in
      if trimmed = [] then Inr (Some []) else parse_groups (splitTopLevelMultiply trimmed) [])"

section \<open>Combining and splitting the billing expression\<close>

text \<open>The loop of \<open>hasFullOuterParens\<close>; \<open>None\<close> is its early \<open>return false\<close>.\<close>

fun paren_depth :: "int \<Rightarrow> string \<Rightarrow> int option" where
  "paren_depth depth [] = Some depth"
| "paren_depth depth (c # s) =
     (let depth1 = (if c = CHR ''('' then depth + 1 else depth);
          depth2 = (if c = CHR '')'' then depth1 - 1 else depth1) in
      if depth2 = 0 \<and> s \<noteq> [] then None else paren_depth depth2 s)"

definition hasFullOuterParens :: "string \<Rightarrow> bool" where
  "hasFullOuterParens expr =
     (if \<not> prefix ''('' expr \<or> \<not> suffix '')'' expr then False else paren_depth 0 expr = Some 0)"

lemma length_trim: "length (trim s) \<le> length s"
proof -
  have "length (strip_by f t) \<le> length t" for f t
    using strip_by_suffix [of f t] by (rule suffix_length_le)
  from this [of ws_len_rev "rev (strip_by ws_len s)"] this [of ws_len s] show ?thesis
    by (simp add: trim_def)
qed

text \<open>\<open>current.slice(1, -1)\<close>.\<close>

function unwrap_loop :: "string \<Rightarrow> string" where
  "unwrap_loop current =
     (if hasFullOuterParens current then unwrap_loop (trim (butlast (tl current))) else current)"
  by pat_completeness auto
termination
proof (relation "measure length")
  fix current :: string
  assume "hasFullOuterParens current"
  then have "current \<noteq> []" by (auto simp: hasFullOuterParens_def)
  moreover have "length (trim (butlast (tl current))) \<le> length (butlast (tl current))"
    by (rule length_trim)
  ultimately show "(trim (butlast (tl current)), current) \<in> measure length"
    by (cases current) (auto simp: less_Suc_eq_le intro: order.trans)
qed simp

declare unwrap_loop.simps [simp del]

definition unwrapOuterParens :: "string \<Rightarrow> string" where
  "unwrapOuterParens expr = unwrap_loop (trim expr)"

definition combineBillingExpr :: "string \<Rightarrow> string \<Rightarrow> string" where
  "combineBillingExpr baseExpr requestRuleExpr =
     (let base = trim baseExpr; rules = trim requestRuleExpr in
      if base = [] then []
      else if rules = [] then base
      else ''('' @ base @ '') * '' @ rules)"

text \<open>The two lists that the \<open>forEach\<close> fills.\<close>

fun classify_parts ::
  "string list \<Rightarrow> string list \<Rightarrow> string list \<Rightarrow> js_error + (string list \<times> string list)" where
  "classify_parts [] rules base = Inr (rules, base)"
| "classify_parts (p # ps) rules base =
     (case tryParseRequestRuleExpr p of
        Inl e \<Rightarrow> Inl e
      | Inr None \<Rightarrow> classify_parts ps rules (base @ [p])
      | Inr (Some gs) \<Rightarrow>
          (if length gs > 0 then classify_parts ps (rules @ [p]) base
           else classify_parts ps rules (base @ [p])))"

text \<open>The pair \<open>billingExpr\<close>, \<open>requestRuleExpr\<close>.\<close>

definition splitBillingExprAndRequestRules :: "string \<Rightarrow> js_error + (string \<times> string)" where
  "splitBillingExprAndRequestRules expr =
     (let trimmed = trim expr in
      if trimmed = [] then Inr ([], [])
      else
        let parts = splitTopLevelMultiply trimmed in
        if length parts \<le> 1 then Inr (trimmed, [])
        else
          (case classify_parts parts [] [] of
             Inl e \<Rightarrow> Inl e
           | Inr (ruleParts, baseParts) \<Rightarrow>
               (if length ruleParts = 0 \<or> length baseParts \<noteq> 1 then Inr (trimmed, [])
                else Inr (unwrapOuterParens (hd baseParts), js_join '' * '' ruleParts))))"

end
