(* ===== verification/Request_Rules_Roundtrip.thy ===== *)
theory Request_Rules_Roundtrip
  imports Request_Rules
begin

text \<open>
  Printing request rules and parsing them back: which groups survive the round trip through
  the expression text, which never do, and how the base expression and the rules are
  separated again.
\<close>

section \<open>Parenthesis depth\<close>

text \<open>The depth after a text, \<open>None\<close> when a parenthesis closes too early.\<close>

fun bal :: "nat \<Rightarrow> string \<Rightarrow> nat option" where
  "bal d [] = Some d"
| "bal d (c # s) =
     (if c = CHR ''('' then bal (Suc d) s
      else if c = CHR '')'' then (case d of 0 \<Rightarrow> None | Suc e \<Rightarrow> bal e s)
      else bal d s)"

text \<open>The character \<open>x\<close> does not occur outside parentheses.\<close>

fun clear_of :: "char \<Rightarrow> nat \<Rightarrow> string \<Rightarrow> bool" where
  "clear_of x d [] = True"
| "clear_of x d (c # s) =
     (if c = CHR ''('' then clear_of x (Suc d) s
      else if c = CHR '')'' then clear_of x (d - 1) s
      else (d = 0 \<longrightarrow> c \<noteq> x) \<and> clear_of x d s)"

definition flat :: "char \<Rightarrow> string \<Rightarrow> bool" where
  "flat x s \<longleftrightarrow> bal 0 s = Some 0 \<and> clear_of x 0 s"

definition paren_free :: "string \<Rightarrow> bool" where
  "paren_free s \<longleftrightarrow> CHR ''('' \<notin> set s \<and> CHR '')'' \<notin> set s"

lemma bal_append: "bal d (a @ b) = Option.bind (bal d a) (\<lambda>e. bal e b)"
  by (induction a arbitrary: d) (auto split: nat.splits)

lemma bal_free [simp]: "paren_free s \<Longrightarrow> bal d s = Some d"
  by (induction s) (auto simp: paren_free_def)

lemma clear_of_append: "bal d a = Some e \<Longrightarrow> clear_of x d (a @ b) \<longleftrightarrow> clear_of x d a \<and> clear_of x e b"
  by (induction a arbitrary: d) (auto split: if_splits nat.splits)

lemma clear_of_free: "paren_free s \<Longrightarrow> x \<notin> set s \<or> 0 < d \<Longrightarrow> clear_of x d s"
  by (induction s) (auto simp: paren_free_def)

lemma bal_shift: "bal d s = Some e \<Longrightarrow> bal (d + k) s = Some (e + k)"
proof (induction s arbitrary: d)
  case (Cons c s)
  then show ?case using Cons.IH [of "Suc d"] by (auto split: if_splits nat.splits)
qed simp

lemma clear_of_deep: "bal d s = Some e \<Longrightarrow> 0 < k \<Longrightarrow> clear_of x (d + k) s"
proof (induction s arbitrary: d)
  case (Cons c s)
  then show ?case using Cons.IH [of "Suc d"] Cons.IH [of "d - 1"] Cons.IH [of d]
    by (auto split: if_splits nat.splits)
qed simp

text \<open>A balanced text in parentheses is flat for every separator.\<close>

lemma flat_wrapped:
  assumes "bal 0 s = Some 0"
  shows "flat x (CHR ''('' # s @ [CHR '')''])"
  using bal_shift [OF assms, of 1] clear_of_deep [OF assms, of 1 x]
  by (simp add: flat_def bal_append clear_of_append)

lemma flat_append: "flat x a \<Longrightarrow> flat x b \<Longrightarrow> flat x (a @ b)"
  by (simp add: flat_def bal_append clear_of_append)

lemma flat_free: "paren_free s \<Longrightarrow> x \<notin> set s \<Longrightarrow> flat x s"
  by (simp add: flat_def clear_of_free)

lemma flat_bal: "flat x s \<Longrightarrow> bal 0 s = Some 0"
  by (simp add: flat_def)

section \<open>Splitting undoes joining\<close>

lemma split_top_flat:
  assumes "bal d s = Some e" "clear_of x d s" "rest = [] \<or> hd rest \<noteq> x"
    and sep: "sep = CHR '' '' # x # sep'" "x \<notin> {CHR ''('', CHR '')''}"
  shows "split_top sep (int d) cur (s @ rest) = split_top sep (int e) (rev s @ cur) rest"
  using assms(1,2)
proof (induction s arbitrary: d cur)
  case (Cons c s)
  define d' where "d' = (if c = CHR ''('' then Suc d else if c = CHR '')'' then d - 1 else d)"
  have b: "bal d' s = Some e" and cl: "clear_of x d' s"
    and z: "c = CHR '')'' \<longrightarrow> 0 < d"
    using Cons.prems by (auto simp: d'_def split: if_splits nat.splits)
  have no: "\<not> (d' = 0 \<and> prefix sep (c # s @ rest))"
  proof
    assume "d' = 0 \<and> prefix sep (c # s @ rest)"
    then have "s @ rest \<noteq> []" "hd (s @ rest) = x" and 0: "d' = 0" by (auto simp: sep prefix_def)
    then show False
      using assms(3) cl sep(2) by (cases s) (auto split: if_splits)
  qed
  have "split_top sep (int d) cur ((c # s) @ rest) = split_top sep (int d') (c # cur) (s @ rest)"
    using no z by (auto simp: Let_def d'_def of_nat_diff add.commute split: if_splits)
  also have "\<dots> = split_top sep (int e) (rev s @ c # cur) rest" by (rule Cons.IH [OF b cl])
  finally show ?case by simp
qed simp

lemma split_top_join:
  assumes sep: "sep = CHR '' '' # x # sep'" "x \<notin> {CHR ''('', CHR '')'', CHR '' ''}"
  shows "xs \<noteq> [] \<Longrightarrow> list_all (flat x) xs \<Longrightarrow> split_top sep 0 [] (js_join sep xs) = xs"
proof (induction xs rule: induct_list012)
  case (2 e)
  then show ?case
    using split_top_flat [of 0 e 0 x "[]" sep sep' "[]"] sep by (simp add: flat_def)
next
  case (3 e f es)
  let ?r = "js_join sep (f # es)"
  have "split_top sep 0 [] (e @ sep @ ?r) = split_top sep 0 (rev e) (sep @ ?r)"
  proof -
    have b: "bal 0 e = Some 0" and c: "clear_of x 0 e" using 3 by (simp_all add: flat_def)
    have h: "sep @ ?r = [] \<or> hd (sep @ ?r) \<noteq> x" and x: "x \<notin> {CHR ''('', CHR '')''}"
      using sep by auto
    show ?thesis using split_top_flat [OF b c h sep(1) x, of "[]"] by simp
  qed
  also have "\<dots> = e # split_top sep 0 [] ?r"
    using sep by (simp add: prefix_def)
  also have "split_top sep 0 [] ?r = f # es" using 3 by simp
  finally show ?case by (simp only: js_join.simps)
qed simp

text \<open>Parts that trimming leaves alone.\<close>

definition atom :: "char \<Rightarrow> string \<Rightarrow> bool" where
  "atom x s \<longleftrightarrow> flat x s \<and> s \<noteq> [] \<and> visible (hd s) \<and> visible (last s)"

lemma atom_trim: "atom x s \<Longrightarrow> trim s = s"
  by (simp add: atom_def trim_simps)

lemma atoms_trim: "list_all (atom x) es \<Longrightarrow> filter (\<lambda>p. p \<noteq> []) (map trim es) = es"
  by (induction es) (auto simp: atom_trim, auto simp: atom_def)

lemma atoms_flat: "list_all (atom x) es \<Longrightarrow> list_all (flat x) es"
  by (auto simp: list_all_iff atom_def)

lemma splitTopLevelAnd_join:
  "es \<noteq> [] \<Longrightarrow> list_all (atom CHR ''&'') es \<Longrightarrow> splitTopLevelAnd (js_join '' && '' es) = es"
  by (simp add: splitTopLevelAnd_def split_top_join atoms_flat atoms_trim)

lemma splitTopLevelMultiply_join:
  "es \<noteq> [] \<Longrightarrow> list_all (atom CHR ''*'') es \<Longrightarrow> splitTopLevelMultiply (js_join '' * '' es) = es"
  by (simp add: splitTopLevelMultiply_def split_top_join atoms_flat atoms_trim)

lemma join_ends:
  assumes "es \<noteq> []" "list_all (atom x) es"
  shows "js_join sep es \<noteq> [] \<and> hd (js_join sep es) = hd (hd es) \<and> last (js_join sep es) = last (last es)"
  using assms by (induction es rule: induct_list012) (auto simp: atom_def js_join_Cons)

lemma trim_join: "es \<noteq> [] \<Longrightarrow> list_all (atom x) es \<Longrightarrow> trim (js_join sep es) = js_join sep es"
  using join_ends [of es x sep]
  by (intro trim_visible) (auto simp: atom_def list_all_iff)

section \<open>Numeric literals\<close>

lemma num_char_visible [simp]: "is_num_char c \<Longrightarrow> visible c"
  by (auto simp: is_num_char_def) (auto simp: visible_def)

lemma split_digits_chars:
  "list_all is_num_char (snd (split_digits s)) \<Longrightarrow> list_all is_num_char s"
  by (induction s) (auto simp: split_digits_def is_num_char_def split: if_splits)

lemma all_digits_num: "all_digits s \<Longrightarrow> list_all is_num_char s"
  by (auto simp: all_digits_def list_all_iff is_num_char_def)

lemma numeric_exponent_chars: "numeric_exponent s \<Longrightarrow> list_all is_num_char s"
  by (auto simp: numeric_exponent_def is_num_char_def dest!: all_digits_num
      split: list.splits if_splits)

lemma numeric_literal_text: "is_numeric_literal s \<Longrightarrow> is_num_text s"
proof -
  assume n: "is_numeric_literal s"
  define u where "u = (case s of c # t \<Rightarrow> if c = CHR ''-'' then t else s | [] \<Rightarrow> [])"
  obtain ip r where ipr: "split_digits u = (ip, r)" by fastforce
  have "u = [] \<Longrightarrow> ip = [] \<and> r = []" using ipr by (auto simp: split_digits_def)
  moreover have "list_all is_num_char r \<and> (ip \<noteq> [] \<or> r \<noteq> [])"
    using n unfolding is_numeric_literal_def Let_def u_def [symmetric] ipr
    by (auto simp: is_num_char_def split: if_splits list.splits
        dest!: numeric_exponent_chars split_digits_chars)
  ultimately have "list_all is_num_char u" "u \<noteq> []"
    using split_digits_chars [of u] by (auto simp: ipr)
  then show ?thesis
    by (auto simp: u_def is_num_text_def is_num_char_def split: list.splits if_splits)
qed

lemma numeric_literal_ends:
  assumes "is_numeric_literal s"
  shows "s \<noteq> [] \<and> visible (hd s) \<and> visible (last s)"
  using numeric_literal_text [OF assms] by (auto simp: is_num_text_def list_all_iff)

lemma trim_numeric: "is_numeric_literal s \<Longrightarrow> trim s = s"
  using numeric_literal_ends by (auto intro: trim_visible)

lemma num_text_free: "is_num_text s \<Longrightarrow> \<not> is_num_char c \<Longrightarrow> c \<notin> set s"
  by (auto simp: is_num_text_def list_all_iff)

lemma not_num_chars [simp]:
  "\<not> is_num_char CHR '' ''" "\<not> is_num_char CHR ''&''" "\<not> is_num_char CHR ''|''"
  "\<not> is_num_char CHR ''(''" "\<not> is_num_char CHR '')''" "\<not> is_num_char CHR 0x22"
  "\<not> is_num_char CHR ''t''" "\<not> is_num_char CHR ''f''" "\<not> is_num_char CHR 0x0A"
  "\<not> is_num_char CHR 0x0D" "\<not> is_num_char CHR 0xE2" "\<not> is_num_char CHR ''*''"
  by (simp_all add: is_num_char_def is_digit_def)

lemma takeWhile_num [simp]:
  "is_num_text s \<Longrightarrow> takeWhile is_num_char s = s"
  "is_num_text s \<Longrightarrow> dropWhile is_num_char s = []"
  by (auto simp: is_num_text_def list_all_iff)

lemma takeWhile_num_append [simp]:
  assumes "is_num_text s" "\<not> is_num_char c"
  shows "takeWhile is_num_char (s @ c # r) = s" "dropWhile is_num_char (s @ c # r) = c # r"
  using assms by (simp_all add: is_num_text_def list_all_iff takeWhile_append2 dropWhile_append2)

section \<open>Texts that need no escape\<close>

text \<open>
  Characters that appear as themselves in a JSON string and have no meaning for the
  expression splitter.
\<close>

definition safe :: "char \<Rightarrow> bool" where
  "safe c \<longleftrightarrow> json_plain c \<and> c \<notin> {CHR ''('', CHR '')'', CHR ''&'', CHR ''|''}"

definition safe_text :: "string \<Rightarrow> bool" where
  "safe_text s \<longleftrightarrow> list_all safe s"

lemma safe_quote: "safe_text s \<Longrightarrow> quote_string s = CHR 0x22 # s @ [CHR 0x22]"
  by (rule quote_string_plain) (auto simp: safe_text_def safe_def list_all_iff)

lemma safe_text_free:
  "safe_text s \<Longrightarrow> paren_free s \<and> CHR ''&'' \<notin> set s \<and> CHR ''|'' \<notin> set s \<and> CHR 0x22 \<notin> set s
     \<and> CHR 0x0A \<notin> set s \<and> CHR 0x0D \<notin> set s"
proof -
  assume "safe_text s"
  then have "c \<notin> set s" if "\<not> safe c" for c using that by (auto simp: safe_text_def list_all_iff)
  then show ?thesis by (simp add: paren_free_def safe_def json_plain_def)
qed

lemma match_call_build:
  assumes "safe_text a" "a \<noteq> []"
  shows "match_call name (name @ CHR ''('' # quote_string a @ CHR '')'' # r) = Some (a, r)"
proof -
  have q: "CHR 0x22 \<notin> set a" using safe_text_free [OF assms(1)] by simp
  have "strip_prefix (name @ [CHR ''('', CHR 0x22])
      (name @ CHR ''('' # quote_string a @ CHR '')'' # r) = Some (a @ CHR 0x22 # CHR '')'' # r)"
    by (simp add: strip_prefix_Some safe_quote [OF assms(1)])
  then show ?thesis
    using assms(2) q by (simp add: match_call_def Let_def takeWhile_until dropWhile_until)
qed

lemmas match_header = match_call_build [of _ "''header''", simplified]
lemmas match_param = match_call_build [of _ "''param''", simplified]

text \<open>\<open>fn("tz")\<close>\<close>

definition call_text :: "string \<Rightarrow> string \<Rightarrow> string" where
  "call_text name a = name @ ''('' @ quote_string a @ '')''"

lemma match_calls_time:
  assumes "fn \<in> set TIME_FUNCS" "safe_text tz" "tz \<noteq> []"
  shows "match_calls TIME_FUNCS (call_text fn tz @ r) = Some (fn, tz, r)"
  using assms(1) match_call_build [OF assms(2,3), of fn r]
  by (auto simp: TIME_FUNCS_def call_text_def match_call_def [of "''hour''"] match_call_def [of "''minute''"]
      match_call_def [of "''weekday''"] match_call_def [of "''month''"])

section \<open>Time conditions\<close>

lemma time_range_build:
  assumes fn: "fn \<in> set TIME_FUNCS" "safe_text tz" "tz \<noteq> []" and num: "is_num_text a" "is_num_text b"
  shows "time_range_match (call_text fn tz @ '' >= '' @ a @ '' || '' @ call_text fn tz @ '' < '' @ b) =
    Some (time_cond fn tz MATCH_RANGE [] a b)"
proof -
  let ?tail = "'' || '' @ call_text fn tz @ '' < '' @ b"
  have "takeWhile is_num_char (a @ ?tail) = a" "dropWhile is_num_char (a @ ?tail) = ?tail" "a \<noteq> []"
    using num(1) by (simp_all add: is_num_text_def)
  moreover have "strip_prefix ('' || '' @ fn @ [CHR ''('', CHR 0x22] @ tz @ [CHR 0x22] @ '') < '') ?tail
      = Some b"
    by (simp add: strip_prefix_Some call_text_def safe_quote [OF fn(2)])
  moreover have "strip_prefix '' >= '' ('' >= '' @ a @ ?tail) = Some (a @ ?tail)"
    by (rule strip_prefix_append)
  ultimately show ?thesis
    unfolding time_range_match_def match_calls_time [OF fn] by (simp only: option.case prod.case Let_def num if_True if_False)
qed

lemma time_range_not_simple:
  assumes fn: "fn \<in> set TIME_FUNCS" "safe_text tz" "tz \<noteq> []" and num: "is_num_text v"
    and op: "op \<in> {''=='', ''>='', ''<''}"
  shows "time_range_match (call_text fn tz @ '' '' @ op @ '' '' @ v) = None"
  using op num unfolding time_range_match_def match_calls_time [OF fn] by auto

lemma time_simple_build:
  assumes fn: "fn \<in> set TIME_FUNCS" "safe_text tz" "tz \<noteq> []" and num: "is_num_text v"
    and op: "m \<in> {MATCH_EQ, MATCH_GTE, MATCH_LT}"
  shows "time_simple_match (call_text fn tz @ '' '' @ time_op m @ '' '' @ v) = Some (time_cond fn tz m v [] [])"
  using op num unfolding time_simple_match_def match_calls_time [OF fn]
  by (auto simp: time_op_def rule_consts)

lemma match_calls_time_paren: "match_calls TIME_FUNCS (CHR ''('' # s) = None"
  by (simp add: TIME_FUNCS_def match_call_def)

lemma call_text_Cons:
  "fn \<in> set TIME_FUNCS \<Longrightarrow> \<exists>c t. call_text fn tz = c # t \<and> visible c \<and> c \<noteq> CHR ''(''"
  by (auto simp: TIME_FUNCS_def call_text_def visible_def)

lemma tryParseTime_range:
  assumes fn: "fn \<in> set TIME_FUNCS" "safe_text tz" "tz \<noteq> []" and num: "is_num_text a" "is_num_text b"
    and e: "e = call_text fn tz @ '' >= '' @ a @ '' || '' @ call_text fn tz @ '' < '' @ b"
  shows "tryParseTimeCondition e = Some (time_cond fn tz MATCH_RANGE [] a b)"
    and "tryParseTimeCondition (''('' @ e @ '')'') = Some (time_cond fn tz MATCH_RANGE [] a b)"
proof -
  note r = time_range_build [OF fn num, folded e]
  show "tryParseTimeCondition e = Some (time_cond fn tz MATCH_RANGE [] a b)"
    unfolding tryParseTimeCondition_def r by simp
  have "time_range_match (CHR ''('' # e @ [CHR '')'']) = None"
    by (simp add: time_range_match_def match_calls_time_paren)
  then show "tryParseTimeCondition (''('' @ e @ '')'') = Some (time_cond fn tz MATCH_RANGE [] a b)"
    unfolding tryParseTimeCondition_def using r strip_suffix_append [of "'')''" e] by simp
qed

lemma tryParseTime_simple:
  assumes fn: "fn \<in> set TIME_FUNCS" "safe_text tz" "tz \<noteq> []" and num: "is_num_text v"
    and m: "m \<in> {MATCH_EQ, MATCH_GTE, MATCH_LT}"
  shows "tryParseTimeCondition (call_text fn tz @ '' '' @ time_op m @ '' '' @ v) = Some (time_cond fn tz m v [] [])"
proof -
  have op: "time_op m \<in> {''=='', ''>='', ''<''}" using m by (auto simp: time_op_def)
  obtain c t where "call_text fn tz = c # t" "c \<noteq> CHR ''(''" using call_text_Cons fn(1) by blast
  then have "strip_prefix ''('' (call_text fn tz @ '' '' @ time_op m @ '' '' @ v) = None" by simp
  then show ?thesis
    unfolding tryParseTimeCondition_def time_range_not_simple [OF fn num op] time_simple_build [OF fn num m]
    by simp
qed

section \<open>Conditions on the request\<close>

lemma not_time:
  "tryParseTimeCondition (''header('' @ s) = None"
  "tryParseTimeCondition (''param('' @ s) = None"
  "tryParseTimeCondition (''has('' @ s) = None"
  by (simp_all add: tryParseTimeCondition_def time_range_match_def time_simple_match_def
      TIME_FUNCS_def match_call_def)

lemma parse_exists:
  assumes "safe_text p" "p \<noteq> []"
  shows "tryParseRequestCondition (call_text ''header'' p @ '' != '' @ [CHR 0x22, CHR 0x22]) =
      Inr (Some (request_cond SOURCE_HEADER p MATCH_EXISTS []))"
    and "tryParseRequestCondition (call_text ''param'' p @ '' != nil'') =
      Inr (Some (request_cond SOURCE_PARAM p MATCH_EXISTS []))"
  using not_time(1,2) match_header [OF assms] match_param [OF assms]
  by (simp_all add: tryParseRequestCondition_def call_text_def exists_match_def
      match_call_def [of "''header''" "CHR ''p'' # _"])

lemma literal_body_plain:
  "CHR 0x22 \<notin> set v \<Longrightarrow> CHR 0x5C \<notin> set v \<Longrightarrow> literal_body (v @ [CHR 0x22])"
proof (induction v)
  case (Cons c v)
  then show ?case by (cases "v @ [CHR 0x22]") auto
qed simp

lemma safe_literal: "safe_text v \<Longrightarrow> is_string_literal (quote_string v)"
proof -
  assume s: "safe_text v"
  then have "CHR 0x22 \<notin> set v" "CHR 0x5C \<notin> set v"
    by (auto simp: safe_text_def safe_def json_plain_def list_all_iff)
  then show ?thesis using literal_body_plain by (simp add: safe_quote [OF s] is_string_literal_def)
qed

lemma parse_header_contains:
  assumes "safe_text p" "p \<noteq> []" "safe_text v"
  shows "tryParseRequestCondition (''has('' @ call_text ''header'' p @ '', '' @ quote_string v @ '')'') =
    Inr (Some (request_cond SOURCE_HEADER p MATCH_CONTAINS v))"
proof -
  have "exists_match (''has('' @ s) = None" for s
    by (simp add: exists_match_def match_call_def)
  moreover have "contains_tail ('', '' @ quote_string v @ '')'') = Some (Inr v)"
    using strip_suffix_append [of "'')''" "quote_string v"]
    by (simp add: contains_tail_def safe_literal [OF assms(3)] json_parse_quote_string)
  ultimately show ?thesis
    using not_time(3) match_header [OF assms(1,2)]
    by (simp add: tryParseRequestCondition_def call_text_def header_contains_match_def)
qed

lemma trim_quote [simp]: "trim (quote_string s) = quote_string s"
  by (rule trim_visible) (simp_all add: quote_string_def visible_def)

lemma quote_not_numeric [simp]: "\<not> is_numeric_literal (quote_string s)"
  by (simp add: quote_string_def is_numeric_literal_def split_digits_def is_digit_def Let_def)

lemma parse_built_literal: "parseExprLiteral (buildExprLiteral MATCH_EQ v) = Str (trim v)"
proof -
  have "quote_string t \<noteq> ''true''" "quote_string t \<noteq> ''false''" for t
    by (simp_all add: quote_string_def)
  then show ?thesis
    by (auto simp: parseExprLiteral_def buildExprLiteral_def rule_consts Let_def
        json_parse_quote_string)
qed

lemma includes_not_member: "c \<in> set p \<Longrightarrow> c \<notin> set s \<Longrightarrow> \<not> js_includes s p"
  using set_mono_sublist by (fastforce simp: js_includes_sublist)

lemma includes_quoted:
  assumes "CHR 0x22 \<notin> set p" "p \<noteq> []" "js_includes (CHR 0x22 # s @ [CHR 0x22]) p"
  shows "js_includes s p"
proof -
  obtain a b where "CHR 0x22 # s @ [CHR 0x22] = a @ p @ b"
    using assms(3) by (auto simp: js_includes_sublist sublist_def)
  with assms(1,2) have "a \<noteq> []" "b \<noteq> []"
    by (metis append_self_conv2 hd_append2 list.sel(1) list.set_sel(1),
        metis append.right_neutral last.simps last_appendR last_in_set last_snoc list.distinct(1) append_Cons)
  then obtain a' b' where "a = CHR 0x22 # a'" "b = b' @ [CHR 0x22]"
    using \<open>CHR 0x22 # s @ [CHR 0x22] = a @ p @ b\<close>
    by (cases a; cases b rule: rev_cases) auto
  then show ?thesis
    using \<open>CHR 0x22 # s @ [CHR 0x22] = a @ p @ b\<close> by (auto simp: js_includes_sublist sublist_def)
qed

lemma built_literal_line:
  assumes "safe_text (trim v)" "\<not> has_line_terminator (trim v)"
  shows "buildExprLiteral MATCH_EQ v \<noteq> [] \<and> \<not> has_line_terminator (buildExprLiteral MATCH_EQ v)"
proof (cases "trim v = ''true'' \<or> trim v = ''false'' \<or> is_numeric_literal (trim v)")
  case True
  then show ?thesis
    using assms(2) numeric_literal_ends by (auto simp: buildExprLiteral_def rule_consts Let_def)
next
  case False
  then have b: "buildExprLiteral MATCH_EQ v = CHR 0x22 # trim v @ [CHR 0x22]"
    by (simp add: buildExprLiteral_def rule_consts Let_def safe_quote [OF assms(1)])
  show ?thesis
    using assms(2) includes_quoted [of _ "trim v"]
    unfolding b has_line_terminator_def by (auto simp del: js_includes.simps)
qed

lemma parse_eq:
  assumes "safe_text p" "p \<noteq> []" "safe_text (trim v)" "\<not> has_line_terminator (trim v)"
    and src: "src = ''param'' \<or> src = ''header''"
  shows "tryParseRequestCondition (call_text src p @ '' == '' @ buildExprLiteral MATCH_EQ v) =
    Inr (Some (request_cond src p MATCH_EQ (trim v)))"
proof -
  define lit where "lit = buildExprLiteral MATCH_EQ v"
  have lit: "lit \<noteq> []" "\<not> has_line_terminator lit" "parseExprLiteral lit = Str (trim v)"
    using built_literal_line [OF assms(3,4)] parse_built_literal by (simp_all add: lit_def)
  show ?thesis
    unfolding lit_def [symmetric]
    using src lit not_time(1,2) match_header [OF assms(1,2)] match_param [OF assms(1,2)]
    by (auto simp: tryParseRequestCondition_def call_text_def exists_match_def header_contains_match_def
        param_contains_match_def param_compare_match_def eq_match_def
        match_call_def [of "''header''" "CHR ''p'' # _"] match_call_def [of "''param''" "CHR ''h'' # _"])
qed

section \<open>The canonical form of a condition\<close>

text \<open>What the round trip makes of a condition: defaults filled in, texts trimmed, fields its mode does not use cleared.\<close>

definition canonCondition :: "rule_cond \<Rightarrow> rule_cond" where
  "canonCondition c =
     (let n = normalizeCondition c; mode = or_empty (match_mode n) in
      if source n = Some SOURCE_TIME then
        (if mode = MATCH_RANGE
         then time_cond (or_empty (timeFunc n)) (or_empty (timezone n)) mode []
                (trim (or_empty (rangeStart n))) (trim (or_empty (rangeEnd n)))
         else time_cond (or_empty (timeFunc n)) (or_empty (timezone n)) mode
                (trim (or_empty (match_value n))) [] [])
      else request_cond (or_empty (source n)) (trim (or_empty (path n))) mode
             (if mode = MATCH_EXISTS then [] else trim (or_empty (match_value n))))"

text \<open>
  The conditions that survive: complete ones whose texts need no escape and contain no
  parenthesis, ampersand or bar. A body parameter is compared with \<open>eq\<close> or \<open>exists\<close> only.
\<close>

definition printable_cond :: "rule_cond \<Rightarrow> bool" where
  "printable_cond c =
     (let n = normalizeCondition c; mode = or_empty (match_mode n); v = trim (or_empty (match_value n)) in
      if source n = Some SOURCE_TIME then
        safe_text (or_empty (timezone n)) \<and>
        (if mode = MATCH_RANGE
         then is_numeric_literal (trim (or_empty (rangeStart n))) \<and> is_numeric_literal (trim (or_empty (rangeEnd n)))
         else is_numeric_literal v)
      else
        trim (or_empty (path n)) \<noteq> [] \<and> safe_text (trim (or_empty (path n))) \<and>
        (if mode = MATCH_EXISTS then True
         else if mode = MATCH_CONTAINS then source n = Some SOURCE_HEADER \<and> safe_text v
         else mode = MATCH_EQ \<and> safe_text v \<and> \<not> has_line_terminator v))"

definition parses :: "string \<Rightarrow> rule_cond \<Rightarrow> bool" where
  "parses e r \<longleftrightarrow> (\<exists>q. tryParseRequestCondition e = Inr (Some q) \<and> normalizeCondition q = r)"

text \<open>A text the factor parser reads as the condition \<open>r\<close>, alone or in a conjunction.\<close>

definition reads_as :: "string \<Rightarrow> rule_cond \<Rightarrow> bool" where
  "reads_as e r \<longleftrightarrow> atom CHR ''&'' e \<and> parses e r \<and>
     (js_includes e '' || '' \<longrightarrow> parses (''('' @ e @ '')'') r)"

lemma normalizeCondition_idem [simp]: "normalizeCondition (normalizeCondition c) = normalizeCondition c"
  by (auto simp: normalizeCondition_def time_cond_def request_cond_def rule_consts Let_def pick_def
      or_default_def or_empty_def getRequestRuleMatchOptions_def TIME_FUNCS_def split: option.splits)

lemma call_text_flat: "safe_text a \<Longrightarrow> paren_free name \<Longrightarrow> x \<notin> set name \<Longrightarrow> flat x (call_text name a)"
  using safe_text_free [of a] flat_wrapped [of "quote_string a" x] flat_append [of x name] flat_free [of name x]
  by (simp add: call_text_def safe_quote paren_free_def)

lemma num_flat: "is_num_text v \<Longrightarrow> flat CHR ''&'' v \<and> v \<noteq> [] \<and> visible (last v) \<and> CHR ''|'' \<notin> set v"
proof -
  assume "is_num_text v"
  then have "c \<notin> set v" if "\<not> is_num_char c" for c using num_text_free that by blast
  then show ?thesis using \<open>is_num_text v\<close>
    by (auto simp: is_num_text_def list_all_iff paren_free_def intro!: flat_free)
qed

lemma time_name: "fn \<in> set TIME_FUNCS \<Longrightarrow> paren_free fn \<and> CHR ''&'' \<notin> set fn \<and> CHR ''|'' \<notin> set fn"
  by (auto simp: TIME_FUNCS_def paren_free_def)

lemma no_bars:
  "CHR ''|'' \<notin> set e \<Longrightarrow> \<not> js_includes e '' || ''"
  by (rule includes_not_member) simp_all

lemma call_text_chars: "safe_text a \<Longrightarrow> CHR ''|'' \<notin> set name \<Longrightarrow> CHR ''|'' \<notin> set (call_text name a)"
  using safe_text_free by (simp add: call_text_def safe_quote)

lemma reads_as_time_simple:
  assumes fn: "fn \<in> set TIME_FUNCS" "safe_text tz" "tz \<noteq> []" and num: "is_num_text v"
    and m: "m \<in> {MATCH_EQ, MATCH_GTE, MATCH_LT}"
  shows "reads_as (call_text fn tz @ '' '' @ time_op m @ '' '' @ v) (time_cond fn tz m v [] [])"
proof -
  let ?e = "call_text fn tz @ '' '' @ time_op m @ '' '' @ v"
  obtain c t where ct: "call_text fn tz = c # t" "visible c" using call_text_Cons fn(1) by blast
  have "flat CHR ''&'' ?e"
    using call_text_flat [OF fn(2), of fn "CHR ''&''"] time_name [OF fn(1)] num_flat [OF num]
    by (intro flat_append) (simp_all add: time_op_def flat_def [of _ "_ # _"])
  then have "atom CHR ''&'' ?e" using ct num_flat [OF num] by (simp add: atom_def)
  moreover have "CHR ''|'' \<notin> set ?e"
    using call_text_chars fn time_name num_flat [OF num] by (auto simp: time_op_def)
  moreover have "normalizeCondition (time_cond fn tz m v [] []) = time_cond fn tz m v [] []"
    using fn m by (auto simp: normalizeCondition_def time_cond_def pick_def or_default_def or_empty_def
        getRequestRuleMatchOptions_def)
  ultimately show ?thesis
    using no_bars tryParseTime_simple [OF fn num m]
    by (auto simp: reads_as_def parses_def tryParseRequestCondition_def)
qed

lemma reads_as_time_range:
  assumes fn: "fn \<in> set TIME_FUNCS" "safe_text tz" "tz \<noteq> []" and num: "is_num_text a" "is_num_text b"
  shows "reads_as (call_text fn tz @ '' >= '' @ a @ '' || '' @ call_text fn tz @ '' < '' @ b)
    (time_cond fn tz MATCH_RANGE [] a b)"
proof -
  let ?e = "call_text fn tz @ '' >= '' @ a @ '' || '' @ call_text fn tz @ '' < '' @ b"
  obtain c t where ct: "call_text fn tz = c # t" "visible c" using call_text_Cons fn(1) by blast
  have "flat CHR ''&'' ?e"
    using call_text_flat [OF fn(2), of fn "CHR ''&''"] time_name [OF fn(1)] num_flat [OF num(1)] num_flat [OF num(2)]
    by (intro flat_append) (simp_all add: flat_def [of _ "_ # _"])
  then have "atom CHR ''&'' ?e" using ct num_flat [OF num(2)] by (simp add: atom_def)
  moreover have "normalizeCondition (time_cond fn tz MATCH_RANGE [] a b) = time_cond fn tz MATCH_RANGE [] a b"
    using fn by (auto simp: normalizeCondition_def time_cond_def pick_def or_default_def or_empty_def
        getRequestRuleMatchOptions_def)
  ultimately show ?thesis
    using tryParseTime_range [OF fn num refl]
    by (auto simp: reads_as_def parses_def tryParseRequestCondition_def)
qed

section \<open>Every built condition is read back\<close>

lemma pick_member: "d \<in> set options \<Longrightarrow> pick x options d \<in> set options"
  by (auto simp: pick_def split: option.splits)

lemma normalize_request:
  assumes "source c \<noteq> Some SOURCE_TIME"
  obtains src p m v where "normalizeCondition c = request_cond src p m v" "src \<in> {SOURCE_PARAM, SOURCE_HEADER}"
    "m \<in> set (getRequestRuleMatchOptions src)"
proof (rule that)
  let ?src = "if source c = Some SOURCE_HEADER then SOURCE_HEADER else SOURCE_PARAM"
  show "?src \<in> {SOURCE_PARAM, SOURCE_HEADER}" by simp
  show "pick (match_mode c) (getRequestRuleMatchOptions ?src) MATCH_EQ \<in> set (getRequestRuleMatchOptions ?src)"
    by (rule pick_member) (simp add: getRequestRuleMatchOptions_def)
  show "normalizeCondition c = request_cond ?src (or_default (path c) [])
      (pick (match_mode c) (getRequestRuleMatchOptions ?src) MATCH_EQ) (or_empty (match_value c))"
    using assms by (simp add: normalizeCondition_def rule_consts Let_def)
qed

lemma normalize_time:
  assumes "source c = Some SOURCE_TIME"
  obtains fn tz m v a b where "normalizeCondition c = time_cond fn tz m v a b" "fn \<in> set TIME_FUNCS" "tz \<noteq> []"
    "m \<in> {MATCH_EQ, MATCH_GTE, MATCH_LT, MATCH_RANGE}"
proof (rule that)
  show "pick (timeFunc c) TIME_FUNCS ''hour'' \<in> set TIME_FUNCS"
    by (rule pick_member) (simp add: TIME_FUNCS_def)
  show "or_default (timezone c) ''Asia/Shanghai'' \<noteq> []"
    by (simp add: or_default_def split: option.splits)
  show "pick (match_mode c) (getRequestRuleMatchOptions SOURCE_TIME) MATCH_GTE \<in> {MATCH_EQ, MATCH_GTE, MATCH_LT, MATCH_RANGE}"
    using pick_member [of MATCH_GTE "getRequestRuleMatchOptions SOURCE_TIME"]
    by (simp add: getRequestRuleMatchOptions_def)
qed (simp add: normalizeCondition_def assms)

text \<open>The shape of every request condition that is built, with the literal at its end.\<close>

lemma request_call: "safe_text p \<Longrightarrow> src = ''param'' \<or> src = ''header'' \<Longrightarrow>
  flat CHR ''&'' (call_text src p) \<and> CHR ''|'' \<notin> set (call_text src p) \<and>
  call_text src p \<noteq> [] \<and> visible (hd (call_text src p)) \<and> visible (last (call_text src p))"
  using call_text_flat [of p src "CHR ''&''"] call_text_chars [of p src]
  by (auto simp: paren_free_def call_text_def visible_def)

lemma built_literal_flat:
  assumes "safe_text (trim v)"
  shows "flat CHR ''&'' (buildExprLiteral m v) \<and> CHR ''|'' \<notin> set (buildExprLiteral m v) \<and>
    buildExprLiteral m v \<noteq> [] \<and> visible (last (buildExprLiteral m v))"
proof (cases "m \<noteq> MATCH_CONTAINS \<and> is_numeric_literal (trim v)")
  case True
  then show ?thesis
    using num_flat [OF numeric_literal_text, of "trim v"]
    by (auto simp: buildExprLiteral_def Let_def flat_def [of _ "_ # _"] visible_def)
next
  case False
  have "flat CHR ''&'' (CHR 0x22 # trim v @ [CHR 0x22])"
    using safe_text_free [OF assms] by (intro flat_free) (auto simp: paren_free_def)
  with False show ?thesis
    using safe_text_free [OF assms]
    by (auto simp: buildExprLiteral_def Let_def flat_def [of _ "_ # _"] visible_def safe_quote [OF assms])
qed

lemma request_cond_normal:
  "src \<in> {SOURCE_PARAM, SOURCE_HEADER} \<Longrightarrow> m \<in> set (getRequestRuleMatchOptions src) \<Longrightarrow>
   normalizeCondition (request_cond src p m v) = request_cond src p m v"
  by (auto simp: normalizeCondition_def request_cond_def Let_def pick_def or_default_def or_empty_def rule_consts)

lemma reads_as_no_bar:
  "atom CHR ''&'' e \<Longrightarrow> CHR ''|'' \<notin> set e \<Longrightarrow> tryParseRequestCondition e = Inr (Some r) \<Longrightarrow>
   normalizeCondition r = r \<Longrightarrow> reads_as e r"
  using no_bars by (auto simp: reads_as_def parses_def)

lemma reads_as_exists:
  assumes "safe_text p" "p \<noteq> []"
  shows "reads_as (call_text ''header'' p @ '' != '' @ [CHR 0x22, CHR 0x22]) (request_cond SOURCE_HEADER p MATCH_EXISTS [])"
    and "reads_as (call_text ''param'' p @ '' != nil'') (request_cond SOURCE_PARAM p MATCH_EXISTS [])"
  using request_call [OF assms(1), of "''header''"] request_call [OF assms(1), of "''param''"] parse_exists [OF assms]
  by (auto intro!: reads_as_no_bar request_cond_normal flat_append
      simp: atom_def getRequestRuleMatchOptions_def rule_consts flat_def [of _ "_ # _"] visible_def)

lemma reads_as_header_contains:
  assumes "safe_text p" "p \<noteq> []" "safe_text (trim v)"
  shows "reads_as (''has('' @ call_text ''header'' p @ '', '' @ quote_string (trim v) @ '')'')
    (request_cond SOURCE_HEADER p MATCH_CONTAINS (trim v))"
proof -
  note c = request_call [OF assms(1), of "''header''"]
  have l: "flat CHR ''&'' (quote_string (trim v)) \<and> CHR ''|'' \<notin> set (quote_string (trim v))"
    using built_literal_flat [OF assms(3), of MATCH_CONTAINS] by (simp add: buildExprLiteral_def Let_def)
  have "bal 0 (call_text ''header'' p @ '', '' @ quote_string (trim v)) = Some 0"
    using c l by (intro flat_bal [of "CHR ''&''"] flat_append) (simp_all add: flat_def [of _ "_ # _"])
  from flat_append [OF _ flat_wrapped [OF this], of "CHR ''&''" "''has''"]
  have "flat CHR ''&'' (''has('' @ call_text ''header'' p @ '', '' @ quote_string (trim v) @ '')'')"
    by (simp add: flat_def [of _ "''has''"])
  then show ?thesis
    using c l parse_header_contains [OF assms]
    by (auto intro!: reads_as_no_bar request_cond_normal
        simp: atom_def getRequestRuleMatchOptions_def rule_consts visible_def)
qed

lemma reads_as_eq:
  assumes "safe_text p" "p \<noteq> []" "safe_text (trim v)" "\<not> has_line_terminator (trim v)"
    and src: "src = ''param'' \<or> src = ''header''"
  shows "reads_as (call_text src p @ '' == '' @ buildExprLiteral MATCH_EQ v) (request_cond src p MATCH_EQ (trim v))"
proof -
  note c = request_call [OF assms(1) src] and l = built_literal_flat [OF assms(3), of MATCH_EQ]
  have "flat CHR ''&'' '' == ''" by (simp add: flat_def)
  then have "flat CHR ''&'' (call_text src p @ '' == '' @ buildExprLiteral MATCH_EQ v)"
    using c l by (intro flat_append) blast+
  then show ?thesis
    using c l parse_eq [OF assms] src
    by (intro reads_as_no_bar request_cond_normal)
      (auto simp: atom_def getRequestRuleMatchOptions_def rule_consts)
qed

lemma build_reads_as:
  assumes "printable_cond c"
  shows "reads_as (buildRequestConditionExpr c) (canonCondition c)"
proof (cases "source c = Some SOURCE_TIME")
  case True
  obtain fn tz m v a b where n: "normalizeCondition c = time_cond fn tz m v a b" "fn \<in> set TIME_FUNCS" "tz \<noteq> []"
    "m \<in> {MATCH_EQ, MATCH_GTE, MATCH_LT, MATCH_RANGE}"
    using normalize_time [OF True] .
  show ?thesis
  proof (cases "m = MATCH_RANGE")
    case r: True
    with assms n(1) have p: "safe_text tz" "is_numeric_literal (trim a)" "is_numeric_literal (trim b)"
      by (simp_all add: printable_cond_def time_cond_def or_empty_def Let_def)
    show ?thesis
      using reads_as_time_range [OF n(2) p(1) n(3) numeric_literal_text [OF p(2)] numeric_literal_text [OF p(3)]] True n(1) p r
      by (simp add: buildRequestConditionExpr_def buildTimeConditionExpr_def canonCondition_def
          time_cond_def or_empty_def Let_def call_text_def)
  next
    case r: False
    with assms n(1) have p: "safe_text tz" "is_numeric_literal (trim v)"
      by (simp_all add: printable_cond_def time_cond_def or_empty_def Let_def)
    have m: "m \<in> {MATCH_EQ, MATCH_GTE, MATCH_LT}" using r n(4) by blast
    show ?thesis
      using reads_as_time_simple [OF n(2) p(1) n(3) numeric_literal_text [OF p(2)] m] True n(1) p r
      by (simp add: buildRequestConditionExpr_def buildTimeConditionExpr_def canonCondition_def
          time_cond_def or_empty_def Let_def call_text_def)
  qed
next
  case False
  obtain src p m v where n0: "normalizeCondition c = request_cond src p m v" "src \<in> {SOURCE_PARAM, SOURCE_HEADER}"
    "m \<in> set (getRequestRuleMatchOptions src)"
    using normalize_request [OF False] .
  then have n: "normalizeCondition c = request_cond src p m v" "src = ''param'' \<or> src = ''header''"
    by (simp_all add: SOURCE_PARAM_def SOURCE_HEADER_def)
  have "trim p \<noteq> [] \<and> safe_text (trim p) \<and>
    (if m = MATCH_EXISTS then True
     else if m = MATCH_CONTAINS then src = ''header'' \<and> safe_text (trim v)
     else m = MATCH_EQ \<and> safe_text (trim v) \<and> \<not> has_line_terminator (trim v))"
    using assms n(2)
    by (elim disjE) (simp_all add: printable_cond_def n(1) request_cond_def or_empty_def Let_def
        SOURCE_TIME_def SOURCE_HEADER_def split: if_splits)
  then have pr: "trim p \<noteq> []" "safe_text (trim p)"
    and "m = MATCH_EXISTS \<or> m = MATCH_CONTAINS \<and> src = ''header'' \<and> safe_text (trim v)
      \<or> m = MATCH_EQ \<and> safe_text (trim v) \<and> \<not> has_line_terminator (trim v)"
    by (auto split: if_splits)
  then consider "m = MATCH_EXISTS" | "m = MATCH_CONTAINS" "src = ''header''" "safe_text (trim v)"
    | "m = MATCH_EQ" "safe_text (trim v)" "\<not> has_line_terminator (trim v)"
    by blast
  then show ?thesis
  proof cases
    case 1
    then show ?thesis
      using reads_as_exists [OF pr(2,1)] n False pr(1)
      by (auto simp: buildRequestConditionExpr_def canonCondition_def request_cond_def or_empty_def
          rule_consts Let_def call_text_def)
  next
    case 2
    then show ?thesis
      using reads_as_header_contains [OF pr(2,1), of v] n False pr(1)
      by (simp add: buildRequestConditionExpr_def canonCondition_def request_cond_def or_empty_def
          rule_consts Let_def call_text_def buildExprLiteral_def)
  next
    case 3
    then show ?thesis
      using reads_as_eq [OF pr(2,1), of v src] n False pr(1)
      by (elim disjE) (simp_all add: buildRequestConditionExpr_def canonCondition_def request_cond_def or_empty_def
          rule_consts Let_def call_text_def)
  qed
qed

section \<open>Groups\<close>

text \<open>Incomplete conditions and groups print nothing and are dropped; the rest is put in canonical form.\<close>

definition canonGroup :: "rule_group \<Rightarrow> rule_group" where
  "canonGroup g =
     \<lparr>conditions = map canonCondition (filter (\<lambda>c. buildRequestConditionExpr c \<noteq> []) (conditions g)),
      multiplier = Some (trim (or_empty (multiplier g)))\<rparr>"

definition canonGroups :: "rule_group list \<Rightarrow> rule_group list" where
  "canonGroups gs = map canonGroup (filter (\<lambda>g. buildRuleGroupFactor g \<noteq> []) gs)"

definition group_ok :: "rule_group \<Rightarrow> bool" where
  "group_ok g \<longleftrightarrow> list_all (\<lambda>c. buildRequestConditionExpr c = [] \<or> printable_cond c) (conditions g)"

text \<open>The conjunction \<open>buildRuleGroupFactor\<close> writes, and the factor around it.\<close>

definition wrap_or :: "string \<Rightarrow> string" where
  "wrap_or e = (if js_includes e '' || '' then ''('' @ e @ '')'' else e)"

definition conj_parts :: "string list \<Rightarrow> string list" where
  "conj_parts es = (case es of [e] \<Rightarrow> [e] | _ \<Rightarrow> map wrap_or es)"

definition factor_text :: "string \<Rightarrow> string \<Rightarrow> string" where
  "factor_text cond m = ''('' @ cond @ '' ? '' @ m @ '' : 1)''"

lemma build_factor_text:
  "buildRuleGroupFactor g \<noteq> [] \<Longrightarrow>
     (let es = filter (\<lambda>e. e \<noteq> []) (map buildRequestConditionExpr (conditions g)); m = trim (or_empty (multiplier g)) in
      es \<noteq> [] \<and> is_numeric_literal m \<and>
      buildRuleGroupFactor g = factor_text (js_join '' && '' (conj_parts es)) m)"
  unfolding wrap_or_def [abs_def] conj_parts_def
  by (auto simp: buildRuleGroupFactor_def factor_text_def Let_def split: list.splits if_splits)

lemma conj_parts_nonempty [simp]: "conj_parts es = [] \<longleftrightarrow> es = []"
  by (simp add: conj_parts_def split: list.splits)

lemma factor_match_text:
  assumes "is_num_text m" "cond \<noteq> []"
  shows "factor_match (factor_text cond m) = Some (cond, m)"
proof -
  have r: "is_num_text (rev m)" "rev m \<noteq> []" using assms(1) by (auto simp: is_num_text_def)
  have "strip_suffix '' : 1)'' ((cond @ '' ? '' @ m) @ '' : 1)'') = Some (cond @ '' ? '' @ m)"
    by (rule strip_suffix_append)
  moreover have "strip_suffix '' ? '' (cond @ '' ? '') = Some cond" by (rule strip_suffix_append)
  ultimately show ?thesis
    using r assms(2) by (simp add: factor_match_def factor_text_def Let_def)
qed

lemma bal_join: "list_all (flat x) es \<Longrightarrow> paren_free sep \<Longrightarrow> bal 0 (js_join sep es) = Some 0"
  by (induction es rule: induct_list012) (auto simp: flat_def bal_append)

lemma factor_atom:
  assumes "bal 0 cond = Some 0" "is_num_text m"
  shows "atom x (factor_text cond m)"
proof -
  have "bal 0 m = Some 0" using num_flat [OF assms(2)] flat_bal by blast
  then have "bal 0 (cond @ '' ? '' @ m @ '' : 1'') = Some 0"
    using assms(1) by (simp add: bal_append)
  from flat_wrapped [OF this, of x] show ?thesis
    by (simp add: atom_def factor_text_def visible_def)
qed

lemma parse_conditions_read:
  "list_all2 (\<lambda>e r. atom CHR ''&'' e \<and> parses e r) es rs \<Longrightarrow>
   parse_conditions (es @ rest) acc = parse_conditions rest (acc @ rs)"
  by (induction es rs arbitrary: acc rule: list_all2_induct) (auto simp: atom_trim parses_def)

lemma reads_as_wrap:
  assumes "reads_as e r"
  shows "atom CHR ''&'' (wrap_or e) \<and> parses (wrap_or e) r"
  using assms flat_wrapped [of e "CHR ''&''"]
  by (auto simp: reads_as_def wrap_or_def atom_def flat_bal visible_def)

lemma reads_as_parts:
  assumes "list_all2 reads_as es rs"
  shows "list_all2 (\<lambda>e r. atom CHR ''&'' e \<and> parses e r) (conj_parts es) rs"
proof -
  have "list_all2 (\<lambda>e r. atom CHR ''&'' e \<and> parses e r) (map wrap_or es) rs"
    using assms by (simp add: list.rel_map list.rel_mono_strong reads_as_wrap)
  moreover have "list_all2 (\<lambda>e r. atom CHR ''&'' e \<and> parses e r) es rs"
    using assms by (rule list.rel_mono_strong) (simp add: reads_as_def)
  ultimately show ?thesis by (auto simp: conj_parts_def split: list.splits)
qed

lemma group_reads_as:
  assumes "group_ok g"
  shows "list_all2 reads_as (filter (\<lambda>e. e \<noteq> []) (map buildRequestConditionExpr (conditions g)))
    (conditions (canonGroup g))"
proof -
  have "list_all2 reads_as (filter (\<lambda>e. e \<noteq> []) (map buildRequestConditionExpr cs))
      (map canonCondition (filter (\<lambda>c. buildRequestConditionExpr c \<noteq> []) cs))"
    if "list_all (\<lambda>c. buildRequestConditionExpr c = [] \<or> printable_cond c) cs" for cs
    using that by (induction cs) (auto simp: build_reads_as)
  then show ?thesis using assms by (simp add: group_ok_def canonGroup_def)
qed

lemma factor_roundtrip:
  assumes "group_ok g" "buildRuleGroupFactor g \<noteq> []"
  shows "atom CHR ''*'' (buildRuleGroupFactor g)"
    and "tryParseRuleGroupFactor (buildRuleGroupFactor g) = Inr (Some (canonGroup g))"
proof -
  define es where "es = filter (\<lambda>e. e \<noteq> []) (map buildRequestConditionExpr (conditions g))"
  define m where "m = trim (or_empty (multiplier g))"
  have f: "es \<noteq> []" "is_num_text m" "buildRuleGroupFactor g = factor_text (js_join '' && '' (conj_parts es)) m"
    using build_factor_text [OF assms(2)] numeric_literal_text by (simp_all add: es_def m_def Let_def)
  have reads: "list_all2 (\<lambda>e r. atom CHR ''&'' e \<and> parses e r) (conj_parts es) (conditions (canonGroup g))"
    using reads_as_parts [OF group_reads_as [OF assms(1)]] by (simp add: es_def)
  then have atoms: "list_all (atom CHR ''&'') (conj_parts es)"
    by (auto simp: list_all2_conv_all_nth list_all_length)
  show "atom CHR ''*'' (buildRuleGroupFactor g)"
    unfolding f(3) using bal_join [OF atoms_flat [OF atoms], of "'' && ''"] f(2)
    by (intro factor_atom) (simp_all add: paren_free_def)
  have "js_join '' && '' (conj_parts es) \<noteq> []" using join_ends [OF _ atoms, of "'' && ''"] f(1) by simp
  moreover have "conditions (canonGroup g) \<noteq> []" using reads f(1) by auto
  ultimately show "tryParseRuleGroupFactor (buildRuleGroupFactor g) = Inr (Some (canonGroup g))"
    using f(1,2) parse_conditions_read [OF reads, of "[]" "[]"] splitTopLevelAnd_join [OF _ atoms]
    by (simp add: f(3) tryParseRuleGroupFactor_def factor_match_text, simp add: canonGroup_def m_def)
qed

lemma parse_groups_read:
  "list_all2 (\<lambda>e r. tryParseRuleGroupFactor e = Inr (Some r)) es rs \<Longrightarrow>
   parse_groups (es @ rest) acc = parse_groups rest (acc @ rs)"
  by (induction es rs arbitrary: acc rule: list_all2_induct) auto

definition rule_factors :: "rule_group list \<Rightarrow> string list" where
  "rule_factors gs = filter (\<lambda>e. e \<noteq> []) (map buildRuleGroupFactor gs)"

lemma factors_read:
  assumes "list_all group_ok gs"
  shows "list_all (atom CHR ''*'') (rule_factors gs) \<and>
    list_all2 (\<lambda>e r. tryParseRuleGroupFactor e = Inr (Some r)) (rule_factors gs) (canonGroups gs)"
  using assms by (induction gs) (auto simp: rule_factors_def canonGroups_def factor_roundtrip)

lemma parse_factors:
  assumes "list_all (atom CHR ''*'') es" "es \<noteq> []"
  shows "tryParseRequestRuleExpr (js_join '' * '' es) = parse_groups es []"
  using assms join_ends [OF assms(2,1), of "'' * ''"]
  by (simp add: tryParseRequestRuleExpr_def trim_join [OF assms(2,1)] splitTopLevelMultiply_join)

lemma rules_roundtrip:
  assumes "list_all group_ok gs"
  shows "tryParseRequestRuleExpr (buildRequestRuleExpr gs) = Inr (Some (canonGroups gs))"
proof (cases "rule_factors gs = []")
  case True
  then show ?thesis
    using factors_read [OF assms]
    by (simp add: buildRequestRuleExpr_def rule_factors_def tryParseRequestRuleExpr_def)
next
  case False
  then show ?thesis
    using parse_factors factors_read [OF assms] parse_groups_read [of "rule_factors gs" "canonGroups gs" "[]" "[]"]
    by (simp add: buildRequestRuleExpr_def rule_factors_def)
qed


section \<open>Stability\<close>

lemma canon_normal [simp]: "normalizeCondition (canonCondition c) = canonCondition c"
proof (cases "source c = Some SOURCE_TIME")
  case True
  obtain fn tz m v a b where n: "normalizeCondition c = time_cond fn tz m v a b" "fn \<in> set TIME_FUNCS" "tz \<noteq> []"
    "m \<in> {MATCH_EQ, MATCH_GTE, MATCH_LT, MATCH_RANGE}"
    using normalize_time [OF True] .
  have "normalizeCondition (time_cond fn tz m x y z) = time_cond fn tz m x y z" for x y z
    using n(2-4) by (auto simp: normalizeCondition_def time_cond_def pick_def or_default_def or_empty_def
        getRequestRuleMatchOptions_def)
  then show ?thesis
    by (cases "m = MATCH_RANGE") (simp_all add: canonCondition_def n(1), simp_all add: time_cond_def or_empty_def Let_def)
next
  case False
  obtain src p m v where n: "normalizeCondition c = request_cond src p m v" "src \<in> {SOURCE_PARAM, SOURCE_HEADER}"
    "m \<in> set (getRequestRuleMatchOptions src)"
    using normalize_request [OF False] .
  have "Some src \<noteq> Some SOURCE_TIME" using n(2) by (auto simp: rule_consts)
  then show ?thesis
    using request_cond_normal [OF n(2,3)]
    by (simp add: canonCondition_def n(1)) (simp add: request_cond_def or_empty_def Let_def)
qed

lemma build_canon_condition: "buildRequestConditionExpr (canonCondition c) = buildRequestConditionExpr c"
proof (cases "source c = Some SOURCE_TIME")
  case True
  obtain fn tz m v a b where n: "normalizeCondition c = time_cond fn tz m v a b" "fn \<in> set TIME_FUNCS" "tz \<noteq> []"
    "m \<in> {MATCH_EQ, MATCH_GTE, MATCH_LT, MATCH_RANGE}"
    using normalize_time [OF True] .
  have "source (canonCondition c) = Some SOURCE_TIME"
    by (simp add: canonCondition_def n(1) time_cond_def Let_def)
  then show ?thesis
    unfolding buildRequestConditionExpr_def buildTimeConditionExpr_def canon_normal
    using True by (simp add: canonCondition_def n(1) time_cond_def or_empty_def Let_def)
next
  case False
  obtain src p m v where n: "normalizeCondition c = request_cond src p m v" "src \<in> {SOURCE_PARAM, SOURCE_HEADER}"
    "m \<in> set (getRequestRuleMatchOptions src)"
    using normalize_request [OF False] .
  have s: "src \<noteq> SOURCE_TIME" using n(2) by (auto simp: rule_consts)
  then have "source (canonCondition c) \<noteq> Some SOURCE_TIME"
    by (simp add: canonCondition_def n(1) request_cond_def or_empty_def Let_def)
  then show ?thesis
    unfolding buildRequestConditionExpr_def canon_normal
    using False s by (simp add: canonCondition_def n(1) request_cond_def or_empty_def Let_def buildExprLiteral_def)
qed

lemma build_canon_group:
  assumes "buildRuleGroupFactor g \<noteq> []"
  shows "buildRuleGroupFactor (canonGroup g) = buildRuleGroupFactor g"
proof -
  have "filter (\<lambda>e. e \<noteq> []) (map buildRequestConditionExpr (map canonCondition
      (filter (\<lambda>c. buildRequestConditionExpr c \<noteq> []) cs))) = filter (\<lambda>e. e \<noteq> []) (map buildRequestConditionExpr cs)" for cs
    by (induction cs) (auto simp: build_canon_condition)
  then have "filter (\<lambda>e. e \<noteq> []) (map buildRequestConditionExpr (conditions (canonGroup g))) =
      filter (\<lambda>e. e \<noteq> []) (map buildRequestConditionExpr (conditions g))"
    by (simp add: canonGroup_def)
  moreover have "trim (or_empty (multiplier (canonGroup g))) = trim (or_empty (multiplier g))"
    by (simp add: canonGroup_def or_empty_def)
  ultimately show ?thesis unfolding buildRuleGroupFactor_def by (simp only:)
qed

lemma build_canon_groups: "buildRequestRuleExpr (canonGroups gs) = buildRequestRuleExpr gs"
proof -
  have "rule_factors (canonGroups gs) = rule_factors gs"
    by (induction gs) (auto simp: rule_factors_def canonGroups_def build_canon_group)
  then show ?thesis by (simp add: buildRequestRuleExpr_def rule_factors_def)
qed


section \<open>Conditions that are not read back\<close>

text \<open>A complete condition that compares a body parameter, or searches it: built, but written as two conjuncts.\<close>

definition guarded_param :: "rule_cond \<Rightarrow> bool" where
  "guarded_param c =
     (source c \<noteq> Some SOURCE_TIME \<and> source c \<noteq> Some SOURCE_HEADER \<and>
      (let n = normalizeCondition c; v = trim (or_empty (match_value n)); p = trim (or_empty (path n)) in
       p \<noteq> [] \<and> safe_text p \<and>
       (match_mode c = Some MATCH_CONTAINS \<and> safe_text v \<or>
        match_mode c \<in> Some ` {MATCH_GT, MATCH_GTE, MATCH_LT, MATCH_LTE} \<and> is_numeric_literal v)))"

lemma not_read:
  assumes "safe_text p" "p \<noteq> []"
  shows "tryParseRequestCondition (''has('' @ call_text ''param'' p @ s) = Inr None"
    and "op \<in> {''>'', ''>='', ''<'', ''<=''} \<Longrightarrow> tryParseRequestCondition (call_text ''param'' p @ '' '' @ op @ '' '' @ v) = Inr None"
  using not_time(2,3) match_param [OF assms]
  by (auto simp: tryParseRequestCondition_def call_text_def exists_match_def header_contains_match_def
        param_contains_match_def param_compare_match_def eq_match_def match_call_def [of "''header''" "CHR ''p'' # _"]
        match_call_def [of _ "CHR ''h'' # _"])

lemma options_param:
  "getRequestRuleMatchOptions SOURCE_PARAM =
     [MATCH_EQ, MATCH_CONTAINS, MATCH_EXISTS, MATCH_GT, MATCH_GTE, MATCH_LT, MATCH_LTE]"
  by (simp add: getRequestRuleMatchOptions_def SOURCE_PARAM_def SOURCE_TIME_def SOURCE_HEADER_def)

lemma guarded_parts:
  assumes "guarded_param c"
  obtains a b where "buildRequestConditionExpr c = a @ '' && '' @ b" "atom CHR ''&'' a" "atom CHR ''&'' b"
    "CHR ''|'' \<notin> set (a @ b)" "\<exists>r. parses a r" "tryParseRequestCondition b = Inr None"
proof -
  define p where "p = trim (or_default (path c) [])"
  define v where "v = or_empty (match_value c)"
  define a where "a = call_text ''param'' p @ '' != nil''"
  have m: "match_mode c = Some m \<Longrightarrow> m \<in> set (getRequestRuleMatchOptions SOURCE_PARAM) \<Longrightarrow>
    normalizeCondition c = request_cond SOURCE_PARAM (or_default (path c) []) m v" for m
    using assms by (simp add: guarded_param_def normalizeCondition_def Let_def pick_def v_def SOURCE_PARAM_def SOURCE_TIME_def)
  from assms obtain m where mm: "match_mode c = Some m" "m \<in> set (getRequestRuleMatchOptions SOURCE_PARAM)"
    by (auto simp: guarded_param_def Let_def options_param)
  note n = m [OF mm]
  have g: "p \<noteq> []" "safe_text p" "m = MATCH_CONTAINS \<and> safe_text (trim v) \<or>
      m \<in> {MATCH_GT, MATCH_GTE, MATCH_LT, MATCH_LTE} \<and> is_numeric_literal (trim v)"
    and src: "source c \<noteq> Some SOURCE_TIME" "source c \<noteq> Some SOURCE_HEADER"
    using assms by (auto simp: guarded_param_def n mm(1) Let_def p_def) (simp_all add: request_cond_def or_empty_def)
  note pc = request_call [OF g(2), of "''param''"]
  have A: "atom CHR ''&'' a" "CHR ''|'' \<notin> set a" "parses a (request_cond SOURCE_PARAM p MATCH_EXISTS [])"
    using reads_as_exists(2) [OF g(2,1)] pc by (simp_all add: reads_as_def a_def)
  from g(3) show thesis
  proof (elim disjE conjE)
    assume k: "m = MATCH_CONTAINS" "safe_text (trim v)"
    let ?b = "''has('' @ call_text ''param'' p @ '', '' @ quote_string (trim v) @ '')''"
    have l: "flat CHR ''&'' (quote_string (trim v)) \<and> CHR ''|'' \<notin> set (quote_string (trim v))"
      using built_literal_flat [OF k(2), of MATCH_CONTAINS] by (simp add: buildExprLiteral_def Let_def)
    have "bal 0 (call_text ''param'' p @ '', '' @ quote_string (trim v)) = Some 0"
      using pc l by (intro flat_bal [of "CHR ''&''"] flat_append) (simp_all add: flat_def [of _ "_ # _"])
    from flat_append [OF _ flat_wrapped [OF this], of "CHR ''&''" "''has''"]
    have "atom CHR ''&'' ?b" by (simp add: flat_def [of _ "''has''"] atom_def visible_def)
    then show thesis
      using A pc l not_read(1) [OF g(2,1)] src g(1)
      by (intro that [of a ?b])
        (auto simp: buildRequestConditionExpr_def n k a_def call_text_def p_def [symmetric] Let_def
          request_cond_def or_empty_def rule_consts buildExprLiteral_def)
  next
    assume k: "m \<in> {MATCH_GT, MATCH_GTE, MATCH_LT, MATCH_LTE}" "is_numeric_literal (trim v)"
    let ?b = "call_text ''param'' p @ '' '' @ compare_op m @ '' '' @ trim v"
    note t = num_flat [OF numeric_literal_text [OF k(2)]]
    have o: "compare_op m \<in> {''>'', ''>='', ''<'', ''<=''}" by (auto simp: compare_op_def)
    then have "flat CHR ''&'' (compare_op m)" by (auto simp: flat_def)
    then have "flat CHR ''&'' ?b"
      using pc t by (intro flat_append) (simp_all add: flat_def [of _ "'' ''"])
    then have "atom CHR ''&'' ?b" using pc t by (simp add: atom_def)
    moreover have "CHR ''|'' \<notin> set ?b" using pc t o by auto
    moreover have "buildRequestConditionExpr c = a @ '' && '' @ ?b"
      using k src g(1)
      by (auto simp: buildRequestConditionExpr_def n a_def call_text_def p_def [symmetric] Let_def
          request_cond_def or_empty_def) (auto simp: rule_consts)
    ultimately show thesis
      using A not_read(2) [OF g(2,1) o] by (intro that [of a ?b]) auto
  qed
qed


lemma js_join_split:
  "js_join sep (xs @ (a @ sep @ b) # ys) = js_join sep (xs @ a # b # ys)"
proof (induction xs)
  case Nil
  then show ?case by (cases ys) simp_all
next
  case (Cons x xs)
  then show ?case using js_join_Cons [of "xs @ _ # _" sep x] by simp
qed

lemma conj_parts_middle:
  "wrap_or e = e \<Longrightarrow> conj_parts (xs @ e # ys) = map wrap_or xs @ e # map wrap_or ys"
  by (auto simp: conj_parts_def Cons_eq_append_conv append_eq_Cons_conv split: list.splits)

lemma parts_read:
  assumes "list_all (\<lambda>c. buildRequestConditionExpr c = [] \<or> printable_cond c) cs"
  shows "list_all2 (\<lambda>e r. atom CHR ''&'' e \<and> parses e r)
    (map wrap_or (filter (\<lambda>e. e \<noteq> []) (map buildRequestConditionExpr cs)))
    (conditions (canonGroup \<lparr>conditions = cs, multiplier = None\<rparr>))"
proof -
  have "list_all2 reads_as (filter (\<lambda>e. e \<noteq> []) (map buildRequestConditionExpr cs))
      (conditions (canonGroup \<lparr>conditions = cs, multiplier = None\<rparr>))"
    using group_reads_as [of "\<lparr>conditions = cs, multiplier = None\<rparr>"] assms by (simp add: group_ok_def)
  from list.rel_mono_strong [OF this, of "\<lambda>e r. atom CHR ''&'' (wrap_or e) \<and> parses (wrap_or e) r"] show ?thesis
    by (simp add: list.rel_map reads_as_wrap)
qed

lemma read_atoms: "list_all2 (\<lambda>e r. atom x e \<and> parses e r) es rs \<Longrightarrow> list_all (atom x) es"
  by (auto simp: list_all2_conv_all_nth list_all_length)

lemma guarded_factor:
  assumes g: "conditions g = cs1 @ c # cs2" "is_numeric_literal (trim (or_empty (multiplier g)))"
    and ok: "list_all (\<lambda>c. buildRequestConditionExpr c = [] \<or> printable_cond c) (cs1 @ cs2)" "guarded_param c"
  shows "atom CHR ''*'' (buildRuleGroupFactor g) \<and> tryParseRuleGroupFactor (buildRuleGroupFactor g) = Inr None"
proof -
  obtain a b where e0: "buildRequestConditionExpr c = a @ '' && '' @ b" "atom CHR ''&'' a" "atom CHR ''&'' b"
    "CHR ''|'' \<notin> set (a @ b)" "\<exists>r. parses a r" "tryParseRequestCondition b = Inr None"
    using guarded_parts [OF ok(2)] .
  then obtain r where e: "buildRequestConditionExpr c = a @ '' && '' @ b" "atom CHR ''&'' a" "atom CHR ''&'' b"
    "CHR ''|'' \<notin> set (a @ b)" "parses a r" "tryParseRequestCondition b = Inr None"
    by blast
  have w: "wrap_or (a @ '' && '' @ b) = a @ '' && '' @ b"
    using e(4) no_bars [of "a @ '' && '' @ b"] by (simp add: wrap_or_def)
  let ?f = "\<lambda>cs. map wrap_or (filter (\<lambda>e. e \<noteq> []) (map buildRequestConditionExpr cs))"
  have ok12: "list_all (\<lambda>c. buildRequestConditionExpr c = [] \<or> printable_cond c) cs1"
    "list_all (\<lambda>c. buildRequestConditionExpr c = [] \<or> printable_cond c) cs2"
    using ok(1) by simp_all
  note r1 = parts_read [OF ok12(1)] and r2 = parts_read [OF ok12(2)]
  define m where "m = trim (or_empty (multiplier g))"
  define es where "es = ?f cs1 @ a # b # ?f cs2"
  have atoms: "list_all (atom CHR ''&'') es" "es \<noteq> []"
    using read_atoms [OF r1] read_atoms [OF r2] e by (simp_all add: es_def)
  have num: "is_num_text m" using g(2) numeric_literal_text by (simp add: m_def)
  have "buildRuleGroupFactor g \<noteq> []"
    using g e(1) by (auto simp: buildRuleGroupFactor_def Let_def)
  from build_factor_text [OF this]
  have f: "buildRuleGroupFactor g = factor_text (js_join '' && '' es) m"
    using conj_parts_middle [OF w] js_join_split [of "'' && ''" "?f cs1" a b "?f cs2"]
    by (simp add: g(1) e(1) es_def m_def Let_def)
  have "js_join '' && '' es \<noteq> []" using join_ends [OF atoms(2,1)] by simp
  moreover have "parse_conditions es [] = Inr None"
    using e(2,3,5,6) unfolding es_def parse_conditions_read [OF r1] by (auto simp: parses_def atom_trim)
  ultimately show ?thesis
    using bal_join [OF atoms_flat [OF atoms(1)], of "'' && ''"] num factor_atom splitTopLevelAnd_join [OF atoms(2,1)]
    by (simp add: f tryParseRuleGroupFactor_def factor_match_text paren_free_def)
qed

lemma guarded_rules:
  assumes "list_all group_ok (gs1 @ gs2)" "conditions g = cs1 @ c # cs2"
    "is_numeric_literal (trim (or_empty (multiplier g)))" "guarded_param c"
    "list_all (\<lambda>c. buildRequestConditionExpr c = [] \<or> printable_cond c) (cs1 @ cs2)"
  shows "tryParseRequestRuleExpr (buildRequestRuleExpr (gs1 @ g # gs2)) = Inr None"
proof -
  let ?es = "rule_factors gs1 @ buildRuleGroupFactor g # rule_factors gs2"
  have g: "atom CHR ''*'' (buildRuleGroupFactor g)" "tryParseRuleGroupFactor (buildRuleGroupFactor g) = Inr None"
    using guarded_factor [OF assms(2,3,5,4)] by simp_all
  have r: "list_all (atom CHR ''*'') (rule_factors gs1)" "list_all (atom CHR ''*'') (rule_factors gs2)"
    "list_all2 (\<lambda>e r. tryParseRuleGroupFactor e = Inr (Some r)) (rule_factors gs1) (canonGroups gs1)"
    using factors_read [of gs1] factors_read [of gs2] assms(1) by simp_all
  have "buildRequestRuleExpr (gs1 @ g # gs2) = js_join '' * '' ?es"
    using g(1) by (simp add: buildRequestRuleExpr_def rule_factors_def atom_def)
  moreover have "tryParseRequestRuleExpr (js_join '' * '' ?es) = parse_groups ?es []"
    using r g(1) by (intro parse_factors) simp_all
  ultimately show ?thesis
    using g(2) by (simp add: parse_groups_read [OF r(3)])
qed

section \<open>Base expression and rules\<close>

lemma paren_depth_wrapped:
  "bal d s = Some 0 \<Longrightarrow> paren_depth (int d + 1) (s @ '')'') = Some 0"
proof (induction s arbitrary: d)
  case (Cons c s)
  then show ?case
    using Cons.IH [of "Suc d"] Cons.IH [of "d - 1"] by (auto simp: Let_def add.commute split: if_splits nat.splits)
qed simp

lemma full_parens: "bal 0 s = Some 0 \<Longrightarrow> hasFullOuterParens (''('' @ s @ '')'')"
  using paren_depth_wrapped [of 0 s] by (simp add: hasFullOuterParens_def suffix_def)

lemma unwrap_wrapped:
  "bal 0 s = Some 0 \<Longrightarrow> unwrapOuterParens (''('' @ s @ '')'') = unwrapOuterParens s"
proof -
  assume b: "bal 0 s = Some 0"
  have "trim (''('' @ s @ '')'') = ''('' @ s @ '')''" by (rule trim_visible) (simp_all add: visible_def)
  moreover have "unwrap_loop (''('' @ s @ '')'') = unwrap_loop (trim s)"
    using full_parens [OF b] unwrap_loop.simps [of "''('' @ s @ '')''"] by simp
  ultimately show ?thesis by (simp only: unwrapOuterParens_def)
qed

lemma base_not_rule:
  assumes "bal 0 base = Some 0" "\<not> suffix '' : 1'' base"
  shows "tryParseRequestRuleExpr (''('' @ base @ '')'') = Inr None"
proof -
  let ?p = "''('' @ base @ '')''"
  have "atom CHR ''*'' ?p" using flat_wrapped [OF assms(1)] by (simp add: atom_def visible_def)
  from parse_factors [of "[?p]"] this have "tryParseRequestRuleExpr ?p = parse_groups [?p] []" by simp
  moreover have "strip_suffix '' : 1)'' (base @ '')'') = None"
  proof (rule ccontr)
    assume "strip_suffix '' : 1)'' (base @ '')'') \<noteq> None"
    then obtain r where "base @ '')'' = r @ '' : 1)''" by (auto simp: strip_suffix_Some)
    then have "base @ '')'' = (r @ '' : 1'') @ '')''" by simp
    then have "base = r @ '' : 1''" by (simp only: append_same_eq)
    with assms(2) show False by (simp add: suffix_def)
  qed
  ultimately show ?thesis by (simp add: tryParseRuleGroupFactor_def factor_match_def)
qed

lemma classify_rules:
  assumes "list_all (atom CHR ''*'') es" "list_all2 (\<lambda>e r. tryParseRuleGroupFactor e = Inr (Some r)) es rs"
  shows "classify_parts es rules base = Inr (rules @ es, base)"
  using assms
proof (induction es arbitrary: rs rules)
  case (Cons e es)
  then obtain r where "tryParseRuleGroupFactor e = Inr (Some r)" by (auto simp: list_all2_Cons1)
  then have "tryParseRequestRuleExpr e = Inr (Some [r])"
    using parse_factors [of "[e]"] Cons.prems(1) by simp
  with Cons show ?case by (auto simp: list_all2_Cons1)
qed simp

lemma split_combined:
  assumes ok: "list_all group_ok gs" "buildRequestRuleExpr gs \<noteq> []"
    and base: "bal 0 (trim base) = Some 0" "trim base \<noteq> []" "\<not> suffix '' : 1'' (trim base)"
  shows "splitBillingExprAndRequestRules (combineBillingExpr base (buildRequestRuleExpr gs)) =
    Inr (unwrapOuterParens base, buildRequestRuleExpr gs)"
proof -
  let ?p = "''('' @ trim base @ '')''" and ?es = "rule_factors gs"
  have b: "buildRequestRuleExpr gs = js_join '' * '' ?es" by (simp add: buildRequestRuleExpr_def rule_factors_def)
  then have ne: "?es \<noteq> []" using ok(2) by auto
  have r: "list_all (atom CHR ''*'') ?es" "list_all2 (\<lambda>e r. tryParseRuleGroupFactor e = Inr (Some r)) ?es (canonGroups gs)"
    using factors_read [OF ok(1)] by simp_all
  have p: "atom CHR ''*'' ?p" using flat_wrapped [OF base(1)] by (simp add: atom_def visible_def)
  have c: "combineBillingExpr base (buildRequestRuleExpr gs) = js_join '' * '' (?p # ?es)"
    using base(2) ok(2) trim_join [OF ne r(1), of "'' * ''"] js_join_Cons [OF ne]
    by (simp add: combineBillingExpr_def b Let_def)
  have s: "splitTopLevelMultiply (js_join '' * '' (?p # ?es)) = ?p # ?es"
    using p r(1) by (intro splitTopLevelMultiply_join) simp_all
  have t: "trim (js_join '' * '' (?p # ?es)) = js_join '' * '' (?p # ?es)"
    using p r(1) by (intro trim_join [of _ "CHR ''*''"]) simp_all
  have "js_join '' * '' (?p # ?es) \<noteq> []" using join_ends [of "?p # ?es" "CHR ''*''"] p r(1) by simp
  moreover have "classify_parts (?p # ?es) [] [] = Inr (?es, [?p])"
    using base_not_rule [OF base(1,3)] classify_rules [OF r] by simp
  ultimately show ?thesis
    using ne unwrap_wrapped [OF base(1)]
    unfolding c splitBillingExprAndRequestRules_def t s Let_def
    by (simp add: b unwrapOuterParens_def)
qed

section \<open>The contract of the rule editor\<close>

definition parsed_rules :: "string \<Rightarrow> rule_group list option" where
  "parsed_rules e = (case tryParseRequestRuleExpr e of Inr r \<Rightarrow> r | Inl err \<Rightarrow> None)"

interpretation rules: print_parse "\<lambda>gs. list_all group_ok gs \<and> canonGroups gs = gs" buildRequestRuleExpr parsed_rules
  by unfold_locales (simp add: parsed_rules_def rules_roundtrip)

text \<open>Groups used by the witnesses: they follow the editor's presets.\<close>

definition preset_groups :: "rule_group list" where
  "preset_groups =
     [\<lparr>conditions = [request_cond SOURCE_HEADER '' anthropic-beta'' MATCH_CONTAINS ''fast-mode'',
                    time_cond ''hour'' ''Asia/Shanghai'' MATCH_RANGE [] ''21'' ''6''],
       multiplier = Some '' 0.5 ''\<rparr>,
      \<lparr>conditions = [request_cond SOURCE_PARAM ''service_tier'' MATCH_EQ ''priority'', createEmptyCondition],
       multiplier = Some ''2''\<rparr>,
      createEmptyRuleGroup]"

text \<open>
  C1: Printing rule groups and parsing the expression gives the groups back in canonical form
  (incomplete conditions and groups dropped, texts trimmed, defaults filled in), for groups whose
  complete conditions are printable: none compares a body parameter with \<open>gt\<close>, \<open>gte\<close>, \<open>lt\<close>, \<open>lte\<close>
  or \<open>contains\<close>, and no text has a parenthesis, an ampersand, a bar, a quote or an escape. Printing the
  canonical groups gives the same expression again.
\<close>

theorem request_rules_roundtrip:
  assumes "list_all group_ok gs"
  shows "tryParseRequestRuleExpr (buildRequestRuleExpr gs) = Inr (Some (canonGroups gs)) \<and>
    buildRequestRuleExpr (canonGroups gs) = buildRequestRuleExpr gs"
  using rules_roundtrip [OF assms] build_canon_groups by simp

theorem request_rules_roundtrip_witness:
  "list_all group_ok preset_groups \<and> length (canonGroups preset_groups) = 2 \<and>
   tryParseRequestRuleExpr (buildRequestRuleExpr preset_groups) = Inr (Some (canonGroups preset_groups))"
proof -
  have "list_all group_ok preset_groups" by code_simp
  moreover have "length (canonGroups preset_groups) = 2" by code_simp
  ultimately show ?thesis using request_rules_roundtrip [of preset_groups] by simp
qed

text \<open>
  Two rule sets in canonical form are printed alike only if they are the same: the
  expression determines the rules.
\<close>

theorem request_rules_injective:
  assumes "list_all group_ok gs" "canonGroups gs = gs" "list_all group_ok hs" "canonGroups hs = hs"
  shows "buildRequestRuleExpr gs = buildRequestRuleExpr hs \<longleftrightarrow> gs = hs"
  using rules.print_inj [of gs hs] assms by simp

theorem request_rules_injective_witness:
  "buildRequestRuleExpr (take 1 (canonGroups preset_groups)) \<noteq> buildRequestRuleExpr (canonGroups preset_groups)"
proof -
  let ?a = "take 1 (canonGroups preset_groups)" and ?b = "canonGroups preset_groups"
  have "list_all group_ok ?a" "list_all group_ok ?b" "canonGroups ?a = ?a" "canonGroups ?b = ?b" "?a \<noteq> ?b"
    by code_simp+
  then show ?thesis using request_rules_injective [of ?a ?b] by simp
qed

text \<open>
  C40: A rule set with a complete condition that searches a body parameter or compares it with
  a number is printed but never read back: the printed guard \<open>param("x") != nil && ...\<close> is
  split at its own conjunction, the second half matches no pattern, and the parser gives up on
  the whole expression, so that the editor shows no rule.
\<close>

theorem guarded_rules_lost:
  assumes "list_all group_ok (gs1 @ gs2)" "conditions g = cs1 @ c # cs2"
    "is_numeric_literal (trim (or_empty (multiplier g)))" "guarded_param c"
    "list_all (\<lambda>c. buildRequestConditionExpr c = [] \<or> printable_cond c) (cs1 @ cs2)"
  shows "tryParseRequestRuleExpr (buildRequestRuleExpr (gs1 @ g # gs2)) = Inr None"
  using assms by (rule guarded_rules)

theorem guarded_rules_lost_witness:
  "tryParseRequestRuleExpr (buildRequestRuleExpr
     (preset_groups @ [\<lparr>conditions = [request_cond SOURCE_PARAM ''max_tokens'' MATCH_GT ''4096''],
                        multiplier = Some ''1.5''\<rparr>])) = Inr None"
proof -
  let ?c = "request_cond SOURCE_PARAM ''max_tokens'' MATCH_GT ''4096''"
  have "list_all group_ok (preset_groups @ [])" by code_simp
  moreover have "guarded_param ?c" by code_simp
  moreover have "is_numeric_literal (trim (or_empty (Some ''1.5'')))" by code_simp
  ultimately show ?thesis
    using guarded_rules_lost [of preset_groups "[]" "\<lparr>conditions = [?c], multiplier = Some ''1.5''\<rparr>" "[]" ?c "[]"]
    by simp
qed

text \<open>
  C2: For printable rule groups (those that are read back from their text) that print to a non-empty text, and a non-empty base
  with balanced parentheses that does not end in \<open> : 1\<close>, joining the base with the printed rules and
  splitting the result gives the rules back as printed and the base with its outer parentheses removed.
\<close>

theorem billing_expr_split_combine:
  assumes "list_all group_ok gs" "buildRequestRuleExpr gs \<noteq> []"
    and "bal 0 (trim base) = Some 0" "trim base \<noteq> []" "\<not> suffix '' : 1'' (trim base)"
  shows "splitBillingExprAndRequestRules (combineBillingExpr base (buildRequestRuleExpr gs)) =
    Inr (unwrapOuterParens base, buildRequestRuleExpr gs)"
  using assms by (rule split_combined)

theorem billing_expr_split_combine_witness:
  "splitBillingExprAndRequestRules (combineBillingExpr ''(p * 3 + c * 15)'' (buildRequestRuleExpr preset_groups)) =
     Inr (''p * 3 + c * 15'', buildRequestRuleExpr preset_groups)"
proof -
  let ?b = "''(p * 3 + c * 15)''"
  have "list_all group_ok preset_groups" "buildRequestRuleExpr preset_groups \<noteq> []"
    "bal 0 (trim ?b) = Some 0" "trim ?b \<noteq> []" "\<not> suffix '' : 1'' (trim ?b)"
    "unwrapOuterParens ?b = ''p * 3 + c * 15''"
    by code_simp+
  then show ?thesis using billing_expr_split_combine [of preset_groups ?b] by simp
qed

text \<open>
  The parser of a condition throws on a well delimited string literal that is not JSON:
  the literal is handed to \<open>JSON.parse\<close> outside the parser's only try block.
\<close>

theorem condition_parser_throws:
  "tryParseRequestCondition (''has(header('' @ quote_string ''a'' @ ''), '' @
     [CHR 0x22, CHR 0x5C, CHR ''q'', CHR 0x22] @ '')'') = Inl SyntaxError"
  by code_simp

end
