(* ===== verification/Model_Pricing.thy ===== *)
theory Model_Pricing
  imports Request_Rules
begin

text \<open>
  The pricing editor's model
  (\<open>src/web/src/pages/Setting/Ratio/hooks/useModelPricingEditorState.js\<close>): the option maps of
  the server are turned into one state per model (prices instead of ratios), edited, and
  turned back into option maps.

  The translation function \<open>t\<close> only chooses display text: a warning, a summary and a table cell
  are constructors that name the message. \<open>localeCompare\<close> and \<open>toLowerCase\<close> belong to the
  runtime's Unicode tables and are parameters.
\<close>

section \<open>Numbers in input fields\<close>

definition PAGE_SIZE :: int where "PAGE_SIZE = 10"

definition hasValue :: "jsval \<Rightarrow> bool" where
  "hasValue v \<longleftrightarrow> v \<noteq> Str [] \<and> v \<noteq> Null \<and> v \<noteq> Undef \<and> v \<noteq> Bool False"

definition toNumericString :: "jsval \<Rightarrow> string" where
  "toNumericString v =
     (if \<not> hasValue v \<and> v \<noteq> Num (Fin 0) then []
      else let num = js_Number v in if is_finite num then number_to_string num else [])"

definition toNumberOrNull :: "jsval \<Rightarrow> jsnum option" where
  "toNumberOrNull v =
     (if \<not> hasValue v \<and> v \<noteq> Num (Fin 0) then None
      else let num = js_Number v in if is_finite num then Some num else None)"

definition formatNumber :: "jsval \<Rightarrow> string" where
  "formatNumber v =
     (case toNumberOrNull v of
        None \<Rightarrow> []
      | Some num \<Rightarrow> number_to_string (parseFloat (toFixed num 12)))"

definition toNormalizedNumber :: "jsval \<Rightarrow> jsnum option" where
  "toNormalizedNumber v =
     (let formatted = formatNumber v in if formatted = [] then None else Some (string_to_number formatted))"

text \<open>The properties of a parsed value: those of an object, the indices of an array.\<close>

fun own_props :: "jsval \<Rightarrow> jsval jsobj" where
  "own_props (Obj ob) = ob"
| "own_props (Arr xs) = zip (map show_nat [0..<length xs]) xs"
| "own_props _ = []"

definition parseOptionJSON :: "string option \<Rightarrow> jsval jsobj" where
  "parseOptionJSON rawValue =
     (case rawValue of
        None \<Rightarrow> []
      | Some s \<Rightarrow> if s = [] \<or> trim s = [] then []
                 else (case json_parse s of Some v \<Rightarrow> own_props v | None \<Rightarrow> []))"

abbreviation lookup :: "jsval jsobj \<Rightarrow> string \<Rightarrow> jsval" where
  "lookup ob k \<equiv> (case map_of ob k of Some v \<Rightarrow> v | None \<Rightarrow> Undef)"

definition ratioToBasePrice :: "string \<Rightarrow> string" where
  "ratioToBasePrice ratio =
     (case toNumberOrNull (Str ratio) of
        None \<Rightarrow> []
      | Some num \<Rightarrow> formatNumber (Num (num_mult num (Fin 2))))"

text \<open>The pair \<open>locked\<close>, \<open>ratio\<close>.\<close>

definition normalizeCompletionRatioMeta :: "jsval \<Rightarrow> bool \<times> string" where
  "normalizeCompletionRatioMeta rawMeta =
     (case rawMeta of
        Obj ob \<Rightarrow> (truthy (lookup ob ''locked''), toNumericString (lookup ob ''ratio''))
      | _ \<Rightarrow> (False, []))"

section \<open>The state of a model\<close>

record raw_ratios =
  modelRatio :: string
  completionRatio :: string
  cacheRatio :: string
  createCacheRatio :: string
  imageRatio :: string
  audioRatio :: string
  audioCompletionRatio :: string

record price_model =
  model_name :: string
  billingMode :: string
  fixedPrice :: string
  inputPrice :: string
  completionPrice :: string
  lockedCompletionRatio :: string
  completionRatioLocked :: bool
  cachePrice :: string
  createCachePrice :: string
  imagePrice :: string
  audioInputPrice :: string
  audioOutputPrice :: string
  billingExpr :: string
  requestRuleExpr :: string
  rawRatios :: raw_ratios
  hasConflict :: bool

definition EMPTY_RATIOS :: raw_ratios where
  "EMPTY_RATIOS =
     \<lparr>modelRatio = [], completionRatio = [], cacheRatio = [], createCacheRatio = [], imageRatio = [],
      audioRatio = [], audioCompletionRatio = []\<rparr>"

definition EMPTY_MODEL :: price_model where
  "EMPTY_MODEL =
     \<lparr>model_name = [], billingMode = ''per-token'', fixedPrice = [], inputPrice = [], completionPrice = [],
      lockedCompletionRatio = [], completionRatioLocked = False, cachePrice = [], createCachePrice = [],
      imagePrice = [], audioInputPrice = [], audioOutputPrice = [], billingExpr = [], requestRuleExpr = [],
      rawRatios = EMPTY_RATIOS, hasConflict = False\<rparr>"

text \<open>The option maps of the server.\<close>

record source_maps =
  mapModelPrice :: "jsval jsobj"
  mapModelRatio :: "jsval jsobj"
  mapCompletionRatio :: "jsval jsobj"
  mapCompletionRatioMeta :: "jsval jsobj"
  mapCacheRatio :: "jsval jsobj"
  mapCreateCacheRatio :: "jsval jsobj"
  mapImageRatio :: "jsval jsobj"
  mapAudioRatio :: "jsval jsobj"
  mapAudioCompletionRatio :: "jsval jsobj"
  mapModelBillingMode :: "jsval jsobj"
  mapModelBillingExpr :: "jsval jsobj"

text \<open>\<open>base !== null && hasValue(ratio) ? formatNumber(base * Number(ratio)) : ''\<close>\<close>

definition derivedPrice :: "jsnum option \<Rightarrow> string \<Rightarrow> string" where
  "derivedPrice base ratio =
     (case base of
        None \<Rightarrow> []
      | Some b \<Rightarrow> if hasValue (Str ratio) then formatNumber (Num (num_mult b (js_Number (Str ratio)))) else [])"

definition ratio_list :: "raw_ratios \<Rightarrow> string list" where
  "ratio_list r = [modelRatio r, completionRatio r, cacheRatio r, createCacheRatio r, imageRatio r,
     audioRatio r, audioCompletionRatio r]"

text \<open>The branch of \<open>buildModelState\<close> for prices and ratios.\<close>

definition buildRatioModel :: "string \<Rightarrow> source_maps \<Rightarrow> price_model" where
  "buildRatioModel nm src =
     (let ratios = \<lparr>modelRatio = toNumericString (lookup (mapModelRatio src) nm),
                    completionRatio = toNumericString (lookup (mapCompletionRatio src) nm),
                    cacheRatio = toNumericString (lookup (mapCacheRatio src) nm),
                    createCacheRatio = toNumericString (lookup (mapCreateCacheRatio src) nm),
                    imageRatio = toNumericString (lookup (mapImageRatio src) nm),
                    audioRatio = toNumericString (lookup (mapAudioRatio src) nm),
                    audioCompletionRatio = toNumericString (lookup (mapAudioCompletionRatio src) nm)\<rparr>;
          (locked, lockedRatio) = normalizeCompletionRatioMeta (lookup (mapCompletionRatioMeta src) nm);
          fixed = toNumericString (lookup (mapModelPrice src) nm);
          base = ratioToBasePrice (modelRatio ratios);
          inputPriceNumber = toNumberOrNull (Str base);
          audioIn = derivedPrice inputPriceNumber (audioRatio ratios) in
      EMPTY_MODEL\<lparr>
        model_name := nm,
        billingMode := (if hasValue (Str fixed) then ''per-request'' else ''per-token''),
        fixedPrice := fixed,
        inputPrice := base,
        completionRatioLocked := locked,
        lockedCompletionRatio := lockedRatio,
        completionPrice := derivedPrice inputPriceNumber (if locked then lockedRatio else completionRatio ratios),
        cachePrice := derivedPrice inputPriceNumber (cacheRatio ratios),
        createCachePrice := derivedPrice inputPriceNumber (createCacheRatio ratios),
        imagePrice := derivedPrice inputPriceNumber (imageRatio ratios),
        audioInputPrice := audioIn,
        audioOutputPrice := derivedPrice (toNumberOrNull (Str audioIn)) (audioCompletionRatio ratios),
        requestRuleExpr := [],
        rawRatios := ratios,
        hasConflict := (hasValue (Str fixed) \<and> list_ex (\<lambda>r. hasValue (Str r)) (ratio_list ratios))\<rparr>)"

text \<open>
  \<open>buildModelState\<close>. A billing expression that is neither a string nor falsy has no \<open>trim\<close>
  method: a TypeError.
\<close>

definition buildModelState :: "string \<Rightarrow> source_maps \<Rightarrow> js_error + price_model" where
  "buildModelState nm src =
     (if lookup (mapModelBillingMode src) nm = Str ''tiered_expr'' then
        (let full = lookup (mapModelBillingExpr src) nm in
         case (if truthy full then (case full of Str s \<Rightarrow> Inr s | _ \<Rightarrow> Inl TypeError) else Inr []) of
           Inl e \<Rightarrow> Inl e
         | Inr expr \<Rightarrow>
             (case splitBillingExprAndRequestRules expr of
                Inl e \<Rightarrow> Inl e
              | Inr (bexpr, rexpr) \<Rightarrow>
                  Inr (EMPTY_MODEL\<lparr>model_name := nm, billingMode := ''tiered_expr'', billingExpr := bexpr,
                         requestRuleExpr := rexpr, rawRatios := EMPTY_RATIOS, hasConflict := False\<rparr>)))
      else Inr (buildRatioModel nm src))"

section \<open>Warnings and summary\<close>

definition isBasePricingUnset :: "price_model \<Rightarrow> bool" where
  "isBasePricingUnset m \<longleftrightarrow> billingMode m \<noteq> ''tiered_expr'' \<and> \<not> hasValue (Str (fixedPrice m)) \<and>
     \<not> hasValue (Str (inputPrice m))"

datatype warning = ConflictOverwritten | RatioWithoutInput | InputPriceMissing | AudioInputMissing

definition getModelWarnings :: "price_model option \<Rightarrow> warning list" where
  "getModelWarnings mo =
     (case mo of
        None \<Rightarrow> []
      | Some m \<Rightarrow>
          if billingMode m = ''tiered_expr'' then []
          else
            let hasDerivedPricing = list_ex (\<lambda>p. hasValue (Str p))
                  [inputPrice m, completionPrice m, cachePrice m, createCachePrice m, imagePrice m,
                   audioInputPrice m, audioOutputPrice m] in
            (if hasConflict m then [ConflictOverwritten] else []) @
            (if \<not> hasValue (Str (inputPrice m)) \<and>
                list_ex (\<lambda>p. hasValue (Str p))
                  [completionRatio (rawRatios m), cacheRatio (rawRatios m), createCacheRatio (rawRatios m),
                   imageRatio (rawRatios m), audioRatio (rawRatios m), audioCompletionRatio (rawRatios m)]
             then [RatioWithoutInput] else []) @
            (if billingMode m = ''per-token'' \<and> hasDerivedPricing \<and> \<not> hasValue (Str (inputPrice m))
             then [InputPriceMissing] else []) @
            (if billingMode m = ''per-token'' \<and> hasValue (Str (audioOutputPrice m)) \<and>
                \<not> hasValue (Str (audioInputPrice m))
             then [AudioInputMissing] else []))"

text \<open>\<open>(expr.match(/tier\(/g) || []).length\<close>.\<close>

fun tierCount :: "string \<Rightarrow> nat" where
  "tierCount [] = 0"
| "tierCount (c # s) = (if prefix ''tier('' (c # s) then Suc (tierCount s) else tierCount s)"

text \<open>The summary texts; the flag says that the suffix for request rules follows.\<close>

datatype summary =
    ExprBilling bool
  | TierBilling nat bool
  | PerRequest string bool
  | InputWithExtras string nat bool
  | PriceUnset bool

definition buildSummaryText :: "price_model \<Rightarrow> summary" where
  "buildSummaryText m =
     (let suffix = (billingMode m = ''tiered_expr'' \<and> requestRuleExpr m \<noteq> []) in
      if billingMode m = ''tiered_expr'' then
        (if billingExpr m = [] then ExprBilling suffix
         else if tierCount (billingExpr m) = 0 then ExprBilling suffix
         else TierBilling (tierCount (billingExpr m)) suffix)
      else if billingMode m = ''per-request'' \<and> hasValue (Str (fixedPrice m)) then PerRequest (fixedPrice m) suffix
      else if hasValue (Str (inputPrice m)) then
        InputWithExtras (inputPrice m)
          (length (filter (\<lambda>p. hasValue (Str p))
             [completionPrice m, cachePrice m, createCachePrice m, imagePrice m, audioInputPrice m, audioOutputPrice m]))
          suffix
      else PriceUnset suffix)"

text \<open>The price fields of the form, and the toggles of the optional ones.\<close>

datatype price_field =
    FixedPrice | InputPrice | CompletionPrice | CachePrice | CreateCachePrice | ImagePrice
  | AudioInputPrice | AudioOutputPrice

type_synonym toggles = "price_field \<Rightarrow> bool option"

definition no_toggles :: toggles where "no_toggles = (\<lambda>f. None)"

definition buildOptionalFieldToggles :: "price_model \<Rightarrow> toggles" where
  "buildOptionalFieldToggles m =
     no_toggles(CompletionPrice \<mapsto> completionRatioLocked m \<or> hasValue (Str (completionPrice m)),
       CachePrice \<mapsto> hasValue (Str (cachePrice m)),
       CreateCachePrice \<mapsto> hasValue (Str (createCachePrice m)),
       ImagePrice \<mapsto> hasValue (Str (imagePrice m)),
       AudioInputPrice \<mapsto> hasValue (Str (audioInputPrice m)),
       AudioOutputPrice \<mapsto> hasValue (Str (audioOutputPrice m)))"

section \<open>From prices to ratios\<close>

record ratio_values =
  outModelPrice :: "jsnum option"
  outModelRatio :: "jsnum option"
  outCompletionRatio :: "jsnum option"
  outCacheRatio :: "jsnum option"
  outCreateCacheRatio :: "jsnum option"
  outImageRatio :: "jsnum option"
  outAudioRatio :: "jsnum option"
  outAudioCompletionRatio :: "jsnum option"

definition NO_RATIOS :: ratio_values where
  "NO_RATIOS =
     \<lparr>outModelPrice = None, outModelRatio = None, outCompletionRatio = None, outCacheRatio = None,
      outCreateCacheRatio = None, outImageRatio = None, outAudioRatio = None, outAudioCompletionRatio = None\<rparr>"

datatype serialize_error = MissingInputPrice string | MissingAudioInputPrice string

text \<open>\<open>if (hasValue(r)) result.X = toNormalizedNumber(r)\<close> and \<open>if (p !== null) result.X = toNormalizedNumber(p / base)\<close>.\<close>

definition keepRatio :: "string \<Rightarrow> jsnum option" where
  "keepRatio r = (if hasValue (Str r) then toNormalizedNumber (Str r) else None)"

definition priceRatio :: "jsnum option \<Rightarrow> jsnum \<Rightarrow> jsnum option" where
  "priceRatio price base =
     (case price of None \<Rightarrow> None | Some p \<Rightarrow> toNormalizedNumber (Num (num_div p base)))"

definition serializeModel :: "price_model \<Rightarrow> serialize_error + ratio_values" where
  "serializeModel m =
     (if billingMode m = ''per-request'' then
        Inr (NO_RATIOS\<lparr>outModelPrice := keepRatio (fixedPrice m)\<rparr>)
      else
        let inputN = toNumberOrNull (Str (inputPrice m));
            completionN = toNumberOrNull (Str (completionPrice m));
            cacheN = toNumberOrNull (Str (cachePrice m));
            createCacheN = toNumberOrNull (Str (createCachePrice m));
            imageN = toNumberOrNull (Str (imagePrice m));
            audioInN = toNumberOrNull (Str (audioInputPrice m));
            audioOutN = toNumberOrNull (Str (audioOutputPrice m));
            raw = rawRatios m in
        (case inputN of
           None \<Rightarrow>
             if list_ex (\<lambda>v. v \<noteq> None) [completionN, cacheN, createCacheN, imageN, audioInN, audioOutN]
             then Inl (MissingInputPrice (model_name m))
             else Inr (NO_RATIOS\<lparr>
               outModelRatio := keepRatio (modelRatio raw),
               outCompletionRatio := keepRatio (completionRatio raw),
               outCacheRatio := keepRatio (cacheRatio raw),
               outCreateCacheRatio := keepRatio (createCacheRatio raw),
               outImageRatio := keepRatio (imageRatio raw),
               outAudioRatio := keepRatio (audioRatio raw),
               outAudioCompletionRatio := keepRatio (audioCompletionRatio raw)\<rparr>)
         | Some base \<Rightarrow>
             let result = NO_RATIOS\<lparr>
               outModelRatio := toNormalizedNumber (Num (num_div base (Fin 2))),
               outCompletionRatio :=
                 (if \<not> completionRatioLocked m \<and> completionN \<noteq> None then priceRatio completionN base
                  else if completionRatioLocked m \<and> hasValue (Str (completionRatio raw))
                  then toNormalizedNumber (Str (completionRatio raw))
                  else None),
               outCacheRatio := priceRatio cacheN base,
               outCreateCacheRatio := priceRatio createCacheN base,
               outImageRatio := priceRatio imageN base,
               outAudioRatio := priceRatio audioInN base\<rparr> in
             (case audioOutN of
                None \<Rightarrow> Inr result
              | Some ao \<Rightarrow>
                  (case audioInN of
                     None \<Rightarrow> Inl (MissingAudioInputPrice (model_name m))
                   | Some ai \<Rightarrow>
                       if ai = Fin 0 then Inl (MissingAudioInputPrice (model_name m))
                       else Inr (result\<lparr>outAudioCompletionRatio := priceRatio audioOutN ai\<rparr>)))))"

section \<open>Preview\<close>

datatype cell = EmptyCell | TextCell string | LockedCell "string option" | TierCell nat string

definition shorten :: "string \<Rightarrow> string" where
  "shorten s = (if js_length s > 60 then js_take 60 s @ ''...'' else s)"

definition rawCell :: "string \<Rightarrow> cell" where
  "rawCell r = (if hasValue (Str r) then TextCell r else EmptyCell)"

definition ratioCell :: "jsnum option \<Rightarrow> jsnum \<Rightarrow> cell" where
  "ratioCell price base =
     (case price of None \<Rightarrow> EmptyCell | Some p \<Rightarrow> TextCell (formatNumber (Num (num_div p base))))"

text \<open>The rows as pairs of label and cell; the key of a row is determined by its label.\<close>

definition buildPreviewRows :: "price_model option \<Rightarrow> (string \<times> cell) list" where
  "buildPreviewRows mo =
     (case mo of
        None \<Rightarrow> []
      | Some m \<Rightarrow>
          let finalBillingExpr = combineBillingExpr (billingExpr m) (requestRuleExpr m) in
          if billingMode m = ''tiered_expr'' then
            (''ModelBillingMode'', TextCell ''tiered_expr'') #
            (if finalBillingExpr \<noteq> []
             then [(''ModelBillingExpr'',
                    if tierCount (billingExpr m) > 0 then TierCell (tierCount (billingExpr m)) (shorten finalBillingExpr)
                    else TextCell (shorten finalBillingExpr))]
             else [])
          else if billingMode m = ''per-request'' then [(''ModelPrice'', rawCell (fixedPrice m))]
          else
            (case toNumberOrNull (Str (inputPrice m)) of
               None \<Rightarrow>
                 [(''ModelRatio'', rawCell (modelRatio (rawRatios m))),
                  (''CompletionRatio'', rawCell (completionRatio (rawRatios m))),
                  (''CacheRatio'', rawCell (cacheRatio (rawRatios m))),
                  (''CreateCacheRatio'', rawCell (createCacheRatio (rawRatios m))),
                  (''ImageRatio'', rawCell (imageRatio (rawRatios m))),
                  (''AudioRatio'', rawCell (audioRatio (rawRatios m))),
                  (''AudioCompletionRatio'', rawCell (audioCompletionRatio (rawRatios m)))]
             | Some base \<Rightarrow>
                 let audioInN = toNumberOrNull (Str (audioInputPrice m));
                     audioOutN = toNumberOrNull (Str (audioOutputPrice m)) in
                 [(''ModelRatio'', TextCell (formatNumber (Num (num_div base (Fin 2))))),
                  (''CompletionRatio'',
                   if completionRatioLocked m
                   then LockedCell (if lockedCompletionRatio m = [] then None else Some (lockedCompletionRatio m))
                   else ratioCell (toNumberOrNull (Str (completionPrice m))) base),
                  (''CacheRatio'', ratioCell (toNumberOrNull (Str (cachePrice m))) base),
                  (''CreateCacheRatio'', ratioCell (toNumberOrNull (Str (createCachePrice m))) base),
                  (''ImageRatio'', ratioCell (toNumberOrNull (Str (imagePrice m))) base),
                  (''AudioRatio'', ratioCell audioInN base),
                  (''AudioCompletionRatio'',
                   case audioInN of
                     None \<Rightarrow> EmptyCell
                   | Some ai \<Rightarrow> if ai = Fin 0 then EmptyCell else ratioCell audioOutN ai)]))"

end
