(* ===== verification/Pricing_Editor.thy ===== *)
theory Pricing_Editor
  imports Model_Pricing
begin

text \<open>
  The state of the pricing editor and its handlers (the hook \<open>useModelPricingEditorState\<close> of
  \<open>src/web/src/pages/Setting/Ratio/hooks/useModelPricingEditorState.js\<close>): loading the option
  maps, filtering and paging, editing the selected model, batch application, and saving.

  A handler is a function on the hook's state. The two effects that follow every change of the
  visible models are the function \<open>settle\<close>; they are idempotent, so running them after every
  handler is the same as running them when React sees a changed dependency. \<open>le\<close> is the order
  of \<open>localeCompare\<close>, \<open>lower\<close> is \<open>toLowerCase\<close>, \<open>fm\<close> is the property \<open>filterMode\<close>.
\<close>

record editor =
  models :: "price_model list"
  initialVisibleModelNames :: "string list"
  selectedModelName :: string
  selectedModelNames :: "string list"
  searchText :: string
  currentPage :: int
  loading :: bool
  conflictOnly :: bool
  optionalFieldToggles :: "toggles jsobj"

definition initialEditor :: editor where
  "initialEditor =
     \<lparr>models = [], initialVisibleModelNames = [], selectedModelName = [], selectedModelNames = [],
      searchText = [], currentPage = 1, loading = False, conflictOnly = False, optionalFieldToggles = []\<rparr>"

section \<open>Loading\<close>

definition readSourceMaps :: "string jsobj \<Rightarrow> source_maps" where
  "readSourceMaps options =
     \<lparr>mapModelPrice = parseOptionJSON (map_of options ''ModelPrice''),
      mapModelRatio = parseOptionJSON (map_of options ''ModelRatio''),
      mapCompletionRatio = parseOptionJSON (map_of options ''CompletionRatio''),
      mapCompletionRatioMeta = parseOptionJSON (map_of options ''CompletionRatioMeta''),
      mapCacheRatio = parseOptionJSON (map_of options ''CacheRatio''),
      mapCreateCacheRatio = parseOptionJSON (map_of options ''CreateCacheRatio''),
      mapImageRatio = parseOptionJSON (map_of options ''ImageRatio''),
      mapAudioRatio = parseOptionJSON (map_of options ''AudioRatio''),
      mapAudioCompletionRatio = parseOptionJSON (map_of options ''AudioCompletionRatio''),
      mapModelBillingMode = parseOptionJSON (map_of options ''billing_setting.billing_mode''),
      mapModelBillingExpr = parseOptionJSON (map_of options ''billing_setting.billing_expr'')\<rparr>"

definition collectNames :: "string list \<Rightarrow> source_maps \<Rightarrow> string list" where
  "collectNames candidateModelNames src =
     uniq (candidateModelNames @ obj_keys (mapModelPrice src) @ obj_keys (mapModelRatio src) @
       obj_keys (mapCompletionRatio src) @ obj_keys (mapCompletionRatioMeta src) @
       obj_keys (mapCacheRatio src) @ obj_keys (mapCreateCacheRatio src) @ obj_keys (mapImageRatio src) @
       obj_keys (mapAudioRatio src) @ obj_keys (mapAudioCompletionRatio src) @
       obj_keys (mapModelBillingMode src) @ obj_keys (mapModelBillingExpr src))"

fun buildModelStates :: "source_maps \<Rightarrow> string list \<Rightarrow> js_error + price_model list" where
  "buildModelStates src [] = Inr []"
| "buildModelStates src (nm # nms) =
     (case buildModelState nm src of
        Inl e \<Rightarrow> Inl e
      | Inr m \<Rightarrow> (case buildModelStates src nms of Inl e \<Rightarrow> Inl e | Inr ms \<Rightarrow> Inr (m # ms)))"

definition basePricingUnsetModels :: "string \<Rightarrow> price_model list \<Rightarrow> price_model list" where
  "basePricingUnsetModels fm ms = (if fm = ''unset'' then filter isBasePricingUnset ms else ms)"

text \<open>The first effect; an exception of \<open>buildModelState\<close> leaves the hook.\<close>

definition loadModels ::
  "(string \<Rightarrow> string \<Rightarrow> bool) \<Rightarrow> string \<Rightarrow> string list \<Rightarrow> string jsobj \<Rightarrow> editor \<Rightarrow> js_error + editor" where
  "loadModels le fm candidateModelNames options st =
     (let src = readSourceMaps options in
      case buildModelStates src (collectNames candidateModelNames src) of
        Inl e \<Rightarrow> Inl e
      | Inr ms \<Rightarrow>
          let nextModels = sort_by (\<lambda>a b. le (model_name a) (model_name b)) ms;
              nextVisibleModels = basePricingUnsetModels fm nextModels in
          Inr (st\<lparr>models := nextModels,
                 initialVisibleModelNames := map model_name nextVisibleModels,
                 optionalFieldToggles :=
                   foldl (\<lambda>acc m. obj_set (model_name m) (buildOptionalFieldToggles m) acc) [] nextModels,
                 selectedModelName :=
                   (if selectedModelName st \<noteq> [] \<and> list_ex (\<lambda>m. model_name m = selectedModelName st) nextModels
                    then selectedModelName st
                    else case nextVisibleModels of [] \<Rightarrow> [] | m # _ \<Rightarrow> model_name m)\<rparr>))"

section \<open>Views\<close>

definition visibleModels :: "string \<Rightarrow> editor \<Rightarrow> price_model list" where
  "visibleModels fm st =
     (if fm = ''unset'' then filter (\<lambda>m. model_name m \<in> set (initialVisibleModelNames st)) (models st)
      else models st)"

definition filteredModels :: "(string \<Rightarrow> string) \<Rightarrow> string \<Rightarrow> editor \<Rightarrow> price_model list" where
  "filteredModels lower fm st =
     filter (\<lambda>m. let keyword = lower (trim (searchText st)) in
                 (if keyword \<noteq> [] then js_includes (lower (model_name m)) keyword else True) \<and>
                 (if conflictOnly st then hasConflict m else True)) (visibleModels fm st)"

definition pagedData :: "(string \<Rightarrow> string) \<Rightarrow> string \<Rightarrow> editor \<Rightarrow> price_model list" where
  "pagedData lower fm st =
     (let start = (currentPage st - 1) * PAGE_SIZE in
      js_slice start (start + PAGE_SIZE) (filteredModels lower fm st))"

definition selectedModel :: "string \<Rightarrow> editor \<Rightarrow> price_model option" where
  "selectedModel fm st = find (\<lambda>m. model_name m = selectedModelName st) (visibleModels fm st)"

text \<open>The effects on a change of the visible models: prune the selection, then repair the selected name.\<close>

definition pruneSelection :: "string \<Rightarrow> editor \<Rightarrow> editor" where
  "pruneSelection fm st = st\<lparr>selectedModelNames :=
     filter (\<lambda>nm. list_ex (\<lambda>m. model_name m = nm) (visibleModels fm st)) (selectedModelNames st)\<rparr>"

definition repairSelected :: "string \<Rightarrow> editor \<Rightarrow> editor" where
  "repairSelected fm st =
     (case visibleModels fm st of
        [] \<Rightarrow> st\<lparr>selectedModelName := []\<rparr>
      | v # vs \<Rightarrow>
          if list_ex (\<lambda>m. model_name m = selectedModelName st) (v # vs) then st
          else st\<lparr>selectedModelName := model_name v\<rparr>)"

definition settle :: "string \<Rightarrow> editor \<Rightarrow> editor" where
  "settle fm st = repairSelected fm (pruneSelection fm st)"

text \<open>The setters of the search row, with the effect that returns to the first page.\<close>

definition resetPage :: "editor \<Rightarrow> editor" where
  "resetPage st = st\<lparr>currentPage := 1\<rparr>"

definition changeSearchText :: "string \<Rightarrow> editor \<Rightarrow> editor" where
  "changeSearchText s st = (if s = searchText st then st else resetPage (st\<lparr>searchText := s\<rparr>))"

definition changeConflictOnly :: "bool \<Rightarrow> editor \<Rightarrow> editor" where
  "changeConflictOnly b st = (if b = conflictOnly st then st else resetPage (st\<lparr>conflictOnly := b\<rparr>))"

section \<open>Editing a model\<close>

definition upsertModel :: "string \<Rightarrow> (price_model \<Rightarrow> price_model) \<Rightarrow> editor \<Rightarrow> editor" where
  "upsertModel nm updater st = st\<lparr>models := map (\<lambda>m. if model_name m \<noteq> nm then m else updater m) (models st)\<rparr>"

definition isOptionalFieldEnabled :: "editor \<Rightarrow> price_model option \<Rightarrow> price_field \<Rightarrow> bool option" where
  "isOptionalFieldEnabled st mo field =
     (case mo of
        None \<Rightarrow> Some False
      | Some m \<Rightarrow>
          (case map_of (optionalFieldToggles st) (model_name m) of
             Some tg \<Rightarrow> (case tg field of Some b \<Rightarrow> Some b | None \<Rightarrow> buildOptionalFieldToggles m field)
           | None \<Rightarrow> buildOptionalFieldToggles m field))"

definition toggles_of :: "string \<Rightarrow> editor \<Rightarrow> toggles" where
  "toggles_of nm st = (case map_of (optionalFieldToggles st) nm of Some tg \<Rightarrow> tg | None \<Rightarrow> no_toggles)"

definition updateOptionalFieldToggle :: "string \<Rightarrow> price_field \<Rightarrow> bool \<Rightarrow> editor \<Rightarrow> editor" where
  "updateOptionalFieldToggle nm field checked st =
     st\<lparr>optionalFieldToggles := obj_set nm ((toggles_of nm st)(field \<mapsto> checked)) (optionalFieldToggles st)\<rparr>"

fun set_price :: "price_field \<Rightarrow> string \<Rightarrow> price_model \<Rightarrow> price_model" where
  "set_price FixedPrice v m = m\<lparr>fixedPrice := v\<rparr>"
| "set_price InputPrice v m = m\<lparr>inputPrice := v\<rparr>"
| "set_price CompletionPrice v m = m\<lparr>completionPrice := v\<rparr>"
| "set_price CachePrice v m = m\<lparr>cachePrice := v\<rparr>"
| "set_price CreateCachePrice v m = m\<lparr>createCachePrice := v\<rparr>"
| "set_price ImagePrice v m = m\<lparr>imagePrice := v\<rparr>"
| "set_price AudioInputPrice v m = m\<lparr>audioInputPrice := v\<rparr>"
| "set_price AudioOutputPrice v m = m\<lparr>audioOutputPrice := v\<rparr>"

definition handleOptionalFieldToggle :: "string \<Rightarrow> price_field \<Rightarrow> bool \<Rightarrow> editor \<Rightarrow> editor" where
  "handleOptionalFieldToggle fm field checked st =
     (case selectedModel fm st of
        None \<Rightarrow> st
      | Some sel \<Rightarrow>
          let nm = model_name sel; st1 = updateOptionalFieldToggle nm field checked st in
          if checked then st1
          else
            let st2 = upsertModel nm (\<lambda>m.
                  let nextModel = set_price field [] m in
                  if field = AudioInputPrice then nextModel\<lparr>audioOutputPrice := []\<rparr> else nextModel) st1 in
            if field = AudioInputPrice
            then st2\<lparr>optionalFieldToggles := obj_set nm
                   ((toggles_of nm st2)(AudioInputPrice \<mapsto> False, AudioOutputPrice \<mapsto> False))
                   (optionalFieldToggles st2)\<rparr>
            else st2)"

definition fillPrice :: "string \<Rightarrow> string \<Rightarrow> jsnum \<Rightarrow> string" where
  "fillPrice price ratio base =
     (if \<not> hasValue (Str price) \<and> hasValue (Str ratio)
      then formatNumber (Num (num_mult base (js_Number (Str ratio)))) else price)"

definition fillDerivedPricesFromBase :: "price_model \<Rightarrow> string \<Rightarrow> price_model" where
  "fillDerivedPricesFromBase m nextInputPrice =
     (case toNumberOrNull (Str nextInputPrice) of
        None \<Rightarrow> m
      | Some base \<Rightarrow>
          let raw = rawRatios m in
          m\<lparr>completionPrice :=
              (if completionRatioLocked m \<and> hasValue (Str (lockedCompletionRatio m))
               then formatNumber (Num (num_mult base (js_Number (Str (lockedCompletionRatio m)))))
               else fillPrice (completionPrice m) (completionRatio raw) base),
            cachePrice := fillPrice (cachePrice m) (cacheRatio raw) base,
            createCachePrice := fillPrice (createCachePrice m) (createCacheRatio raw) base,
            imagePrice := fillPrice (imagePrice m) (imageRatio raw) base,
            audioInputPrice := fillPrice (audioInputPrice m) (audioRatio raw) base,
            audioOutputPrice :=
              (if \<not> hasValue (Str (audioOutputPrice m)) \<and> hasValue (Str (audioRatio raw)) \<and>
                  hasValue (Str (audioCompletionRatio raw))
               then formatNumber (Num (num_mult (num_mult base (js_Number (Str (audioRatio raw))))
                      (js_Number (Str (audioCompletionRatio raw)))))
               else audioOutputPrice m)\<rparr>)"

text \<open>\<open>NUMERIC_INPUT_REGEX\<close>.\<close>

definition numeric_input :: "string \<Rightarrow> bool" where
  "numeric_input s =
     (case snd (split_digits s) of
        [] \<Rightarrow> True
      | c # r \<Rightarrow> c = CHR ''.'' \<and> list_all is_digit r)"

definition handleNumericFieldChange :: "string \<Rightarrow> price_field \<Rightarrow> string \<Rightarrow> editor \<Rightarrow> editor" where
  "handleNumericFieldChange fm field v st =
     (case selectedModel fm st of
        None \<Rightarrow> st
      | Some sel \<Rightarrow>
          if \<not> numeric_input v then st
          else upsertModel (model_name sel) (\<lambda>m.
            let updatedModel = set_price field v m in
            if field = InputPrice then fillDerivedPricesFromBase updatedModel v else updatedModel) st)"

definition handleBillingModeChange :: "string \<Rightarrow> string \<Rightarrow> editor \<Rightarrow> editor" where
  "handleBillingModeChange fm v st =
     (case selectedModel fm st of
        None \<Rightarrow> st
      | Some sel \<Rightarrow> upsertModel (model_name sel) (\<lambda>m.
          let nextModel = m\<lparr>billingMode := v\<rparr> in
          if v = ''tiered_expr'' \<and> billingExpr m = []
          then nextModel\<lparr>billingExpr := ''tier('' @ quote_string ''base'' @ '', p * 0 + c * 0)''\<rparr>
          else nextModel) st)"

definition handleBillingExprChange :: "string \<Rightarrow> string \<Rightarrow> editor \<Rightarrow> editor" where
  "handleBillingExprChange fm e st =
     (case selectedModel fm st of
        None \<Rightarrow> st
      | Some sel \<Rightarrow> upsertModel (model_name sel) (\<lambda>m. m\<lparr>billingExpr := e\<rparr>) st)"

definition handleRequestRuleExprChange :: "string \<Rightarrow> string \<Rightarrow> editor \<Rightarrow> editor" where
  "handleRequestRuleExprChange fm e st =
     (case selectedModel fm st of
        None \<Rightarrow> st
      | Some sel \<Rightarrow> upsertModel (model_name sel) (\<lambda>m. m\<lparr>requestRuleExpr := e\<rparr>) st)"

section \<open>Adding, deleting, batch application\<close>

text \<open>The handlers that return a boolean: false after an error message.\<close>

definition addModel :: "string \<Rightarrow> editor \<Rightarrow> bool \<times> editor" where
  "addModel modelName st =
     (let trimmedName = trim modelName in
      if trimmedName = [] then (False, st)
      else if list_ex (\<lambda>m. model_name m = trimmedName) (models st) then (False, st)
      else
        let nextModel = EMPTY_MODEL\<lparr>model_name := trimmedName, rawRatios := EMPTY_RATIOS\<rparr> in
        (True, st\<lparr>models := nextModel # models st,
                 optionalFieldToggles :=
                   obj_set trimmedName (buildOptionalFieldToggles nextModel) (optionalFieldToggles st),
                 selectedModelName := trimmedName, currentPage := 1\<rparr>))"

definition deleteModel :: "string \<Rightarrow> editor \<Rightarrow> editor" where
  "deleteModel nm st =
     (let nextModels = filter (\<lambda>m. model_name m \<noteq> nm) (models st) in
      st\<lparr>models := nextModels,
        optionalFieldToggles := obj_del nm (optionalFieldToggles st),
        selectedModelNames := filter (\<lambda>item. item \<noteq> nm) (selectedModelNames st),
        selectedModelName :=
          (if selectedModelName st = nm then (case nextModels of [] \<Rightarrow> [] | m # _ \<Rightarrow> model_name m)
           else selectedModelName st)\<rparr>)"

definition copyPricing :: "price_model \<Rightarrow> price_model \<Rightarrow> price_model" where
  "copyPricing sel m =
     (let nextModel = m\<lparr>billingMode := billingMode sel, fixedPrice := fixedPrice sel, inputPrice := inputPrice sel,
            completionPrice := completionPrice sel, cachePrice := cachePrice sel,
            createCachePrice := createCachePrice sel, imagePrice := imagePrice sel,
            audioInputPrice := audioInputPrice sel, audioOutputPrice := audioOutputPrice sel,
            billingExpr := billingExpr sel, requestRuleExpr := requestRuleExpr sel\<rparr> in
      if billingMode nextModel = ''per-token'' \<and> completionRatioLocked nextModel \<and>
         hasValue (Str (inputPrice nextModel)) \<and> hasValue (Str (lockedCompletionRatio nextModel))
      then nextModel\<lparr>completionPrice := formatNumber (Num (num_mult (js_Number (Str (inputPrice nextModel)))
             (js_Number (Str (lockedCompletionRatio nextModel)))))\<rparr>
      else nextModel)"

definition copyToggles :: "toggles \<Rightarrow> price_model option \<Rightarrow> toggles" where
  "copyToggles src target =
     (let on = (\<lambda>f. src f = Some True) in
      no_toggles(CompletionPrice \<mapsto>
           (case target of Some m \<Rightarrow> if completionRatioLocked m then True else on CompletionPrice
            | None \<Rightarrow> on CompletionPrice),
         CachePrice \<mapsto> on CachePrice, CreateCachePrice \<mapsto> on CreateCachePrice, ImagePrice \<mapsto> on ImagePrice,
         AudioInputPrice \<mapsto> on AudioInputPrice,
         AudioOutputPrice \<mapsto> on AudioInputPrice \<and> on AudioOutputPrice))"

definition applySelectedModelPricing :: "string \<Rightarrow> editor \<Rightarrow> bool \<times> editor" where
  "applySelectedModelPricing fm st =
     (case selectedModel fm st of
        None \<Rightarrow> (False, st)
      | Some sel \<Rightarrow>
          if length (selectedModelNames st) = 0 then (False, st)
          else
            let sourceToggles = toggles_of (model_name sel) st in
            (True, st\<lparr>models := map (\<lambda>m. if model_name m \<notin> set (selectedModelNames st) then m else copyPricing sel m)
                       (models st),
                     optionalFieldToggles := foldl (\<lambda>acc nm.
                         obj_set nm (copyToggles sourceToggles (find (\<lambda>m. model_name m = nm) (models st))) acc)
                       (optionalFieldToggles st) (selectedModelNames st)\<rparr>))"

section \<open>Saving\<close>

text \<open>The option values under construction: the objects of \<open>output\<close> and \<open>tieredOutput\<close>, in order.\<close>

type_synonym option_objects = "(string \<times> jsval jsobj) list"

definition emptyOutput :: option_objects where
  "emptyOutput = map (\<lambda>k. (k, []))
     [''ModelPrice'', ''ModelRatio'', ''CompletionRatio'', ''CacheRatio'', ''CreateCacheRatio'', ''ImageRatio'',
      ''AudioRatio'', ''AudioCompletionRatio'']"

definition emptyTieredOutput :: option_objects where
  "emptyTieredOutput = map (\<lambda>k. (k, [])) [''billing_setting.billing_mode'', ''billing_setting.billing_expr'']"

text \<open>\<open>out[key][name] = value\<close>\<close>

definition put_value :: "string \<Rightarrow> string \<Rightarrow> jsval \<Rightarrow> option_objects \<Rightarrow> option_objects" where
  "put_value key nm v out = map (\<lambda>(k, ob). (k, if k = key then obj_set nm v ob else ob)) out"

definition ratio_entries :: "ratio_values \<Rightarrow> (string \<times> jsnum option) list" where
  "ratio_entries r =
     [(''ModelPrice'', outModelPrice r), (''ModelRatio'', outModelRatio r), (''CompletionRatio'', outCompletionRatio r),
      (''CacheRatio'', outCacheRatio r), (''CreateCacheRatio'', outCreateCacheRatio r),
      (''ImageRatio'', outImageRatio r), (''AudioRatio'', outAudioRatio r),
      (''AudioCompletionRatio'', outAudioCompletionRatio r)]"

definition putRatios :: "string \<Rightarrow> ratio_values \<Rightarrow> option_objects \<Rightarrow> option_objects" where
  "putRatios nm r out =
     foldl (\<lambda>acc (key, v). case v of None \<Rightarrow> acc | Some x \<Rightarrow> put_value key nm (Num x) acc) out (ratio_entries r)"

definition putTiered :: "price_model \<Rightarrow> option_objects \<Rightarrow> option_objects" where
  "putTiered m tiered =
     (if billingMode m = ''tiered_expr'' then
        let finalBillingExpr = combineBillingExpr (billingExpr m) (requestRuleExpr m) in
        if finalBillingExpr \<noteq> []
        then put_value ''billing_setting.billing_expr'' (model_name m) (Str finalBillingExpr)
               (put_value ''billing_setting.billing_mode'' (model_name m) (Str ''tiered_expr'') tiered)
        else tiered
      else tiered)"

fun collectOptions ::
  "price_model list \<Rightarrow> option_objects \<Rightarrow> option_objects \<Rightarrow> serialize_error + option_objects \<times> option_objects" where
  "collectOptions [] out tiered = Inr (out, tiered)"
| "collectOptions (m # ms) out tiered =
     (let tiered' = putTiered m tiered in
      case serializeModel m of
        Inr r \<Rightarrow> collectOptions ms (putRatios (model_name m) r out) tiered'
      | Inl e \<Rightarrow> if billingMode m \<noteq> ''tiered_expr'' then Inl e else collectOptions ms out tiered')"

text \<open>\<open>JSON.stringify(value, null, 2)\<close> for an object of primitive values.\<close>

definition pretty_flat :: "jsval jsobj \<Rightarrow> string" where
  "pretty_flat ob =
     (if ob = [] then ''{}''
      else ''{'' @ [CHR 0x0A] @
        js_join ([CHR '','', CHR 0x0A])
          (map (\<lambda>(k, v). ''  '' @ quote_string k @ '': '' @ (case json_stringify v of Some s \<Rightarrow> s | None \<Rightarrow> []))
             (obj_entries ob)) @ [CHR 0x0A] @ ''}'')"

definition submitRequests :: "price_model list \<Rightarrow> serialize_error + (string \<times> string) list" where
  "submitRequests ms =
     (case collectOptions ms emptyOutput emptyTieredOutput of
        Inl e \<Rightarrow> Inl e
      | Inr (out, tiered) \<Rightarrow> Inr (map (\<lambda>(key, ob). (key, pretty_flat ob)) (out @ tiered)))"

text \<open>
  The end of a save: \<open>Saved\<close> is followed by \<open>refresh\<close>; the failures carry the message shown.
  The server is the argument \<open>api\<close>: the outcome of \<open>Promise.all\<close> on the requests, a rejection
  with its message or the responses.
\<close>

datatype submit_result = Saved | SerializeFailed serialize_error | ServerMessage jsval | RequestFailed string

fun checkResponses :: "jsval list \<Rightarrow> submit_result" where
  "checkResponses [] = Saved"
| "checkResponses (res # rs) =
     (if \<not> truthy (get_prop (get_prop res ''data'') ''success'')
      then ServerMessage (get_prop (get_prop res ''data'') ''message'')
      else checkResponses rs)"

definition handleSubmit ::
  "((string \<times> string) list \<Rightarrow> string + jsval list) \<Rightarrow> editor \<Rightarrow> submit_result \<times> (string \<times> string) list \<times> editor" where
  "handleSubmit api st =
     (let done = st\<lparr>loading := False\<rparr> in
      case submitRequests (models st) of
        Inl e \<Rightarrow> (SerializeFailed e, [], done)
      | Inr reqs \<Rightarrow>
          (case api reqs of
             Inl msg \<Rightarrow> (RequestFailed msg, reqs, done)
           | Inr responses \<Rightarrow> (checkResponses responses, reqs, done)))"

end
