(* ===== verification/Pricing_Proofs.thy ===== *)
theory Pricing_Proofs
  imports Pricing_Editor
begin

text \<open>
  Correctness of the pricing editor: which models can be saved, what a save stores, which
  states the editor reaches, what editing leaves alone, and what is lost.
\<close>

section \<open>Serialisation\<close>

lemma format_not_finite [simp]: "\<not> is_finite n \<Longrightarrow> toNormalizedNumber (Num n) = None"
  by (cases n) (simp_all add: toNormalizedNumber_def formatNumber_def toNumberOrNull_def hasValue_def)

lemma div_zero_infinite: "\<not> is_finite (num_div p (Fin 0))"
  by (cases p) (simp_all add: inf_of_sign_def)

lemma priceRatio_zero [simp]: "priceRatio p (Fin 0) = None"
  by (simp add: priceRatio_def div_zero_infinite split: option.splits)

text \<open>The dependent prices of a model, as numbers.\<close>

definition dependentPrices :: "price_model \<Rightarrow> jsnum option list" where
  "dependentPrices m = map (\<lambda>p. toNumberOrNull (Str p))
     [completionPrice m, cachePrice m, createCachePrice m, imagePrice m, audioInputPrice m, audioOutputPrice m]"

lemma serialize_error_iff:
  "serializeModel m = Inl e \<longleftrightarrow>
     billingMode m \<noteq> ''per-request'' \<and>
     (toNumberOrNull (Str (inputPrice m)) = None \<and> list_ex (\<lambda>v. v \<noteq> None) (dependentPrices m) \<and>
        e = MissingInputPrice (model_name m) \<or>
      toNumberOrNull (Str (inputPrice m)) \<noteq> None \<and> toNumberOrNull (Str (audioOutputPrice m)) \<noteq> None \<and>
        toNumberOrNull (Str (audioInputPrice m)) \<in> {None, Some (Fin 0)} \<and>
        e = MissingAudioInputPrice (model_name m))"
  unfolding serializeModel_def dependentPrices_def Let_def
  by (auto split: option.splits if_splits)

lemma serialize_price_or_ratios:
  "serializeModel m = Inr r \<Longrightarrow>
     (if billingMode m = ''per-request'' then r = NO_RATIOS\<lparr>outModelPrice := keepRatio (fixedPrice m)\<rparr>
      else outModelPrice r = None)"
  unfolding serializeModel_def Let_def NO_RATIOS_def by (auto split: option.splits if_splits)

section \<open>Objects under construction\<close>

definition stored :: "option_objects \<Rightarrow> string \<Rightarrow> string \<Rightarrow> jsval option" where
  "stored out key nm = Option.bind (map_of out key) (\<lambda>ob. map_of ob nm)"

lemma map_of_put_value:
  "map_of (put_value key nm v out) k = map_option (\<lambda>ob. if k = key then obj_set nm v ob else ob) (map_of out k)"
  by (induction out) (auto simp: put_value_def)

lemma stored_put_value:
  "stored (put_value key nm v out) k n =
     (if k = key \<and> n = nm \<and> k \<in> fst ` set out then Some v else stored out k n)"
proof (cases "map_of out k")
  case None
  then have "k \<notin> fst ` set out" by (simp add: map_of_eq_None_iff)
  with None show ?thesis by (simp add: stored_def map_of_put_value)
next
  case (Some ob)
  then have "k \<in> fst ` set out" by (metis map_of_eq_None_iff option.distinct(1))
  with Some show ?thesis by (simp add: stored_def map_of_put_value)
qed

lemma put_value_keys [simp]: "fst ` set (put_value key nm v out) = fst ` set out"
  by (force simp: put_value_def)

lemma putTiered_keys [simp]: "fst ` set (putTiered m tiered) = fst ` set tiered"
  by (simp add: putTiered_def Let_def)

lemma foldl_put_stored:
  assumes "distinct (map fst es)"
  shows "stored (foldl (\<lambda>acc (key, v). case v of None \<Rightarrow> acc | Some x \<Rightarrow> put_value key nm (Num x) acc) out es) k n =
      (case map_of es k of Some (Some x) \<Rightarrow> if n = nm \<and> k \<in> fst ` set out then Some (Num x) else stored out k n
       | _ \<Rightarrow> stored out k n) \<and>
    fst ` set (foldl (\<lambda>acc (key, v). case v of None \<Rightarrow> acc | Some x \<Rightarrow> put_value key nm (Num x) acc) out es) = fst ` set out"
  using assms
proof (induction es arbitrary: out)
  case (Cons e es)
  obtain key v where e: "e = (key, v)" by fastforce
  have n: "map_of es key = None" using Cons.prems e by (auto simp: map_of_eq_None_iff)
  show ?case
  proof (cases v)
    case None
    with Cons e n show ?thesis by (cases "k = key") simp_all
  next
    case (Some x)
    with n Cons e Some show ?thesis by (auto simp: stored_put_value split: option.splits)
  qed
qed (simp split: option.splits)

definition ratioKeys :: "string list" where
  "ratioKeys = [''ModelRatio'', ''CompletionRatio'', ''CacheRatio'', ''CreateCacheRatio'', ''ImageRatio'',
     ''AudioRatio'', ''AudioCompletionRatio'']"

lemma ratio_entries_distinct: "distinct (map fst (ratio_entries r))"
  by (simp add: ratio_entries_def)

lemma stored_putRatios:
  "k \<in> fst ` set out \<Longrightarrow> stored (putRatios nm r out) k n =
     (case map_of (ratio_entries r) k of Some (Some x) \<Rightarrow> if n = nm then Some (Num x) else stored out k n
      | _ \<Rightarrow> stored out k n)"
  using foldl_put_stored [OF ratio_entries_distinct, of nm out r k n]
  by (simp add: putRatios_def split: option.splits)

lemma putRatios_keys [simp]: "fst ` set (putRatios nm r out) = fst ` set out"
  using foldl_put_stored [OF ratio_entries_distinct] by (simp add: putRatios_def)

text \<open>What the loop of \<open>handleSubmit\<close> stores for the models, and when it fails.\<close>

lemma collect_other:
  assumes "collectOptions ms out tiered = Inr (out', tiered')" "nm \<notin> model_name ` set ms" "k \<in> fst ` set out"
  shows "stored out' k nm = stored out k nm"
  using assms
  by (induction ms out tiered rule: collectOptions.induct)
    (auto simp: Let_def stored_putRatios split: sum.splits if_splits option.splits)

lemma collect_stored:
  assumes "collectOptions ms out tiered = Inr (out', tiered')" "m \<in> set ms" "distinct (map model_name ms)"
    "k \<in> fst ` set out" "stored out k (model_name m) = None"
  shows "stored out' k (model_name m) =
     (case serializeModel m of Inl e \<Rightarrow> None
      | Inr r \<Rightarrow> (case map_of (ratio_entries r) k of Some (Some x) \<Rightarrow> Some (Num x) | _ \<Rightarrow> None))"
  using assms
proof (induction ms out tiered rule: collectOptions.induct)
  case (2 m' ms out tiered)
  show ?case
  proof (cases "m = m'")
    case True
    then have n: "model_name m \<notin> model_name ` set ms" using "2.prems"(3) by simp
    show ?thesis
    proof (cases "serializeModel m'")
      case (Inl e)
      with "2.prems" True collect_other [OF _ n, of out] show ?thesis by (auto simp: Let_def split: if_splits)
    next
      case (Inr r)
      let ?out = "putRatios (model_name m') r out"
      have "stored out' k (model_name m) = stored ?out k (model_name m)"
        using "2.prems"(1,4) Inr by (intro collect_other [OF _ n]) (simp_all add: Let_def)
      with Inr "2.prems"(4,5) True show ?thesis by (simp add: stored_putRatios split: option.splits)
    qed
  next
    case False
    then have m: "m \<in> set ms" "model_name m \<noteq> model_name m'"
      using "2.prems"(2,3) by (simp_all add: image_iff) metis
    show ?thesis
    proof (cases "serializeModel m'")
      case (Inl e)
      with "2.prems"(1) have "billingMode m' = ''tiered_expr''" by (simp add: Let_def split: if_splits)
      with Inl "2.prems" m "2.IH"(1) [OF refl Inl] show ?thesis by (simp add: Let_def)
    next
      case (Inr r)
      with "2.prems" m have "stored (putRatios (model_name m') r out) k (model_name m) = None"
        by (auto simp: stored_putRatios split: option.splits)
      with Inr "2.prems" m "2.IH"(2) [OF refl Inr] show ?thesis by (simp add: Let_def)
    qed
  qed
qed simp

lemma collect_error_iff:
  "(\<exists>e. collectOptions ms out tiered = Inl e) \<longleftrightarrow>
   (\<exists>m \<in> set ms. billingMode m \<noteq> ''tiered_expr'' \<and> (\<exists>e. serializeModel m = Inl e))"
  by (induction ms out tiered rule: collectOptions.induct) (auto simp: Let_def split: sum.splits)

lemma empty_keys: "fst ` set emptyOutput = set (''ModelPrice'' # ratioKeys)"
  by (auto simp: emptyOutput_def ratioKeys_def)

lemma empty_stored [simp]: "stored emptyOutput k n = None"
  by (auto simp: stored_def emptyOutput_def bind_eq_None_conv split: if_splits)


section \<open>Loading\<close>

lemma buildModelState_name: "buildModelState nm src = Inr m \<Longrightarrow> model_name m = nm"
  by (auto simp: buildModelState_def buildRatioModel_def Let_def split: if_splits sum.splits prod.splits)

lemma buildModelStates_names: "buildModelStates src nms = Inr ms \<Longrightarrow> map model_name ms = nms"
  by (induction src nms arbitrary: ms rule: buildModelStates.induct)
    (auto simp: buildModelState_name split: sum.splits)

lemma buildModelStates_member:
  "buildModelStates src nms = Inr ms \<Longrightarrow> m \<in> set ms \<Longrightarrow> buildModelState (model_name m) src = Inr m"
  by (induction src nms arbitrary: ms rule: buildModelStates.induct)
    (auto simp: buildModelState_name split: sum.splits)

lemma foldl_obj_set_keys: "fst ` set (foldl (\<lambda>acc x. obj_set (f x) (g x) acc) ob xs) = fst ` set ob \<union> f ` set xs"
  by (induction xs arbitrary: ob) (auto simp: obj_set_keys)

lemma load_models:
  assumes "loadModels le fm cands options st = Inr st'"
  shows "distinct (map model_name (models st')) \<and>
    model_name ` set (models st') = set (collectNames cands (readSourceMaps options)) \<and>
    model_name ` set (models st') \<subseteq> fst ` set (optionalFieldToggles st') \<and>
    (\<forall>m \<in> set (models st'). buildModelState (model_name m) (readSourceMaps options) = Inr m)"
proof -
  let ?src = "readSourceMaps options"
  obtain ms where ms: "buildModelStates ?src (collectNames cands ?src) = Inr ms"
    and m': "models st' = sort_by (\<lambda>a b. le (model_name a) (model_name b)) ms"
    "optionalFieldToggles st' = foldl (\<lambda>acc m. obj_set (model_name m) (buildOptionalFieldToggles m) acc) []
       (sort_by (\<lambda>a b. le (model_name a) (model_name b)) ms)"
    using assms by (auto simp: loadModels_def Let_def split: sum.splits)
  have "set (models st') = set ms" by (simp add: m')
  moreover have "model_name ` set ms = set (collectNames cands ?src)"
    using arg_cong [OF buildModelStates_names [OF ms], of set] by simp
  moreover have "distinct (map model_name (models st'))"
    using buildModelStates_names [OF ms] by (simp add: m' collectNames_def)
  ultimately show ?thesis
    using buildModelStates_member [OF ms] by (simp add: m'(2) foldl_obj_set_keys)
qed

section \<open>Selection\<close>

definition selection_ok :: "string \<Rightarrow> editor \<Rightarrow> bool" where
  "selection_ok fm st \<longleftrightarrow>
     set (selectedModelNames st) \<subseteq> model_name ` set (visibleModels fm st) \<and>
     (if visibleModels fm st = [] then selectedModelName st = []
      else selectedModelName st \<in> model_name ` set (visibleModels fm st))"

lemma settle_frame [simp]:
  "models (settle fm st) = models st" "optionalFieldToggles (settle fm st) = optionalFieldToggles st"
  "initialVisibleModelNames (settle fm st) = initialVisibleModelNames st"
  by (simp_all add: settle_def pruneSelection_def repairSelected_def split: list.splits)

lemma settle_visible [simp]: "visibleModels fm (settle fm st) = visibleModels fm st"
  by (simp add: visibleModels_def)

lemma visible_update [simp]:
  "visibleModels fm (st\<lparr>selectedModelNames := x\<rparr>) = visibleModels fm st"
  "visibleModels fm (st\<lparr>selectedModelName := y\<rparr>) = visibleModels fm st"
  by (simp_all add: visibleModels_def)

lemma settle_selection: "selection_ok fm (settle fm st)"
  by (cases "visibleModels fm st")
    (auto simp: selection_ok_def settle_def repairSelected_def pruneSelection_def list_ex_iff image_iff
      dest: sym)

lemma selected_exists:
  assumes "selection_ok fm st" "visibleModels fm st \<noteq> []"
  shows "\<exists>m \<in> set (visibleModels fm st). selectedModel fm st = Some m \<and> model_name m = selectedModelName st"
proof (cases "selectedModel fm st")
  case None
  then show ?thesis using assms by (auto simp: selectedModel_def find_None_iff selection_ok_def)
next
  case (Some m)
  then show ?thesis by (auto simp: selectedModel_def find_Some_iff)
qed

section \<open>Editing\<close>

text \<open>What the editing handlers leave alone: names, stored ratios, locks and conflict marks, in order.\<close>

definition model_core :: "price_model \<Rightarrow> string \<times> raw_ratios \<times> bool \<times> string \<times> bool" where
  "model_core m = (model_name m, rawRatios m, completionRatioLocked m, lockedCompletionRatio m, hasConflict m)"

lemma set_price_core [simp]: "model_core (set_price f v m) = model_core m"
  by (cases f) (simp_all add: model_core_def)

lemma fill_core [simp]: "model_core (fillDerivedPricesFromBase m p) = model_core m"
  by (simp add: fillDerivedPricesFromBase_def model_core_def Let_def split: option.splits)

lemma clear_audio_core [simp]:
  "model_core (m\<lparr>audioOutputPrice := v\<rparr>) = model_core m" "model_core (m\<lparr>audioInputPrice := v\<rparr>) = model_core m"
  "model_core (m\<lparr>inputPrice := v\<rparr>) = model_core m"
  by (simp_all add: model_core_def)

lemma copy_core [simp]: "model_core (copyPricing sel m) = model_core m"
  by (simp add: copyPricing_def model_core_def Let_def)

lemma upsert_core:
  "(\<And>m. model_core (u m) = model_core m) \<Longrightarrow> map model_core (models (upsertModel nm u st)) = map model_core (models st)"
  by (simp add: upsertModel_def)

text \<open>An editing step: any handler that works on the models there are, or on the view.\<close>

inductive edit_step :: "string \<Rightarrow> editor \<Rightarrow> editor \<Rightarrow> bool" for fm where
  toggle: "edit_step fm st (handleOptionalFieldToggle fm field checked st)"
| numeric: "edit_step fm st (handleNumericFieldChange fm field v st)"
| mode: "edit_step fm st (handleBillingModeChange fm v st)"
| expr: "edit_step fm st (handleBillingExprChange fm v st)"
| rule_expr: "edit_step fm st (handleRequestRuleExprChange fm v st)"
| batch: "edit_step fm st (snd (applySelectedModelPricing fm st))"
| search: "edit_step fm st (changeSearchText v st)"
| conflicts: "edit_step fm st (changeConflictOnly b st)"
| page: "edit_step fm st (st\<lparr>currentPage := n\<rparr>)"
| choose: "edit_step fm st (st\<lparr>selectedModelName := v\<rparr>)"
| tick: "edit_step fm st (st\<lparr>selectedModelNames := vs\<rparr>)"
| save: "handleSubmit api st = (res, reqs, st') \<Longrightarrow> edit_step fm st st'"

inductive editor_step :: "string \<Rightarrow> editor \<Rightarrow> editor \<Rightarrow> bool" for fm where
  edit: "edit_step fm st st' \<Longrightarrow> editor_step fm st (settle fm st')"
| add: "editor_step fm st (settle fm (snd (addModel v st)))"
| delete: "editor_step fm st (settle fm (deleteModel v st))"
| load: "loadModels le fm cands options st = Inr st' \<Longrightarrow> editor_step fm st (settle fm st')"

inductive editor_reachable :: "string \<Rightarrow> editor \<Rightarrow> bool" for fm where
  start: "editor_reachable fm (settle fm initialEditor)"
| step: "editor_reachable fm st \<Longrightarrow> editor_step fm st st' \<Longrightarrow> editor_reachable fm st'"

lemma edit_step_frame:
  "edit_step fm st st' \<Longrightarrow> map model_core (models st') = map model_core (models st) \<and>
     initialVisibleModelNames st' = initialVisibleModelNames st \<and>
     fst ` set (optionalFieldToggles st) \<subseteq> fst ` set (optionalFieldToggles st')"
proof (induction rule: edit_step.induct)
  case (toggle st field checked)
  then show ?case
    by (auto simp: handleOptionalFieldToggle_def updateOptionalFieldToggle_def upsertModel_def Let_def obj_set_keys
        split: option.splits)
next
  case (numeric st field v)
  then show ?case
    by (auto simp: handleNumericFieldChange_def upsertModel_def Let_def split: option.splits)
next
  case (mode st v)
  then show ?case
    by (auto simp: handleBillingModeChange_def upsertModel_def model_core_def Let_def split: option.splits)
next
  case (expr st v)
  then show ?case
    by (auto simp: handleBillingExprChange_def upsertModel_def model_core_def split: option.splits)
next
  case (rule_expr st v)
  then show ?case
    by (auto simp: handleRequestRuleExprChange_def upsertModel_def model_core_def split: option.splits)
next
  case (batch st)
  then show ?case
    by (auto simp: applySelectedModelPricing_def Let_def foldl_obj_set_keys split: option.splits)
next
  case (save api st res reqs st')
  then show ?case
    by (auto simp: handleSubmit_def Let_def split: sum.splits)
qed (auto simp: changeSearchText_def changeConflictOnly_def resetPage_def)

lemma core_names: "map model_core xs = map model_core ys \<Longrightarrow> map model_name xs = map model_name ys"
proof -
  assume "map model_core xs = map model_core ys"
  then have "map fst (map model_core xs) = map fst (map model_core ys)" by simp
  then show ?thesis by (simp add: comp_def model_core_def)
qed

definition editor_inv :: "string \<Rightarrow> editor \<Rightarrow> bool" where
  "editor_inv fm st \<longleftrightarrow> distinct (map model_name (models st)) \<and>
     model_name ` set (models st) \<subseteq> fst ` set (optionalFieldToggles st) \<and> selection_ok fm st"

lemma editor_step_inv:
  assumes "editor_inv fm st" "editor_step fm st st'"
  shows "editor_inv fm st'"
  using assms(2,1)
proof cases
  case (edit st'')
  then have n: "map model_name (models st'') = map model_name (models st)"
    and t: "fst ` set (optionalFieldToggles st) \<subseteq> fst ` set (optionalFieldToggles st'')"
    using edit_step_frame core_names by blast+
  have "model_name ` set (models st'') = model_name ` set (models st)"
    using arg_cong [OF n, of set] by simp
  then show ?thesis
    using assms(1) n t edit(1) settle_selection [of fm st''] by (simp add: editor_inv_def order.trans [OF _ t])
next
  case (add v)
  then show ?thesis
    using assms(1) settle_selection
    by (auto simp: editor_inv_def addModel_def Let_def obj_set_keys list_ex_iff)
next
  case (delete v)
  have "distinct (map model_name (filter p xs))" if "distinct (map model_name xs)" for p and xs :: "price_model list"
    using that by (rule distinct_map_filter)
  then show ?thesis
    using assms(1) delete settle_selection
    by (auto simp: editor_inv_def deleteModel_def Let_def obj_del_def)
next
  case (load le cands options st'')
  then show ?thesis using load_models [OF load(2)] settle_selection [of fm st''] unfolding editor_inv_def by (metis settle_frame(1,2))
qed

lemma editor_reachable_inv: "editor_reachable fm st \<Longrightarrow> editor_inv fm st"
proof (induction rule: editor_reachable.induct)
  case start
  show ?case using settle_selection by (simp add: editor_inv_def initialEditor_def)
qed (rule editor_step_inv)


section \<open>Pages\<close>

lemma concat_chunks: "concat (map (\<lambda>i. take k (drop (i * k) xs)) [0..<n]) = take (n * k) xs"
proof (induction n)
  case (Suc n)
  have "take (Suc n * k) xs = take (n * k) xs @ take k (drop (n * k) xs)"
    by (simp add: take_add [symmetric] add.commute)
  with Suc show ?case by simp
qed simp

lemma slice_page: "js_slice (int i * 10) (int i * 10 + 10) xs = take 10 (drop (i * 10) xs)"
proof -
  have b: "slice_bound n (int j) = min j n" for n j by (auto simp: slice_bound_def min_def)
  have "js_slice (int j) (int (j + 10)) xs = take 10 (drop j xs)" for j
    unfolding js_slice_def b Let_def by (cases "j \<le> length xs") (auto simp: min_def)
  from this [of "i * 10"] show ?thesis by simp
qed

lemma pages_concat:
  "concat (map (\<lambda>i. pagedData lower fm (st\<lparr>currentPage := int i + 1\<rparr>))
     [0..<(length (filteredModels lower fm st) + 9) div 10]) = filteredModels lower fm st"
proof -
  let ?xs = "filteredModels lower fm st"
  have "filteredModels lower fm (st\<lparr>currentPage := p\<rparr>) = ?xs" for p
    by (simp add: filteredModels_def visibleModels_def)
  then have "pagedData lower fm (st\<lparr>currentPage := int i + 1\<rparr>) = take 10 (drop (i * 10) ?xs)" for i
    using slice_page by (simp add: pagedData_def PAGE_SIZE_def Let_def)
  then show ?thesis using concat_chunks [of 10 ?xs "(length ?xs + 9) div 10"] by simp
qed

section \<open>What a save stores\<close>

text \<open>The option maps as the next load finds them; \<open>meta\<close> is the map the editor does not write.\<close>

definition savedMaps :: "jsval jsobj \<Rightarrow> option_objects \<Rightarrow> option_objects \<Rightarrow> source_maps" where
  "savedMaps meta out tiered =
     (let obj = (\<lambda>o' key. case map_of o' key of Some ob \<Rightarrow> ob | None \<Rightarrow> []) in
      \<lparr>mapModelPrice = obj out ''ModelPrice'', mapModelRatio = obj out ''ModelRatio'',
       mapCompletionRatio = obj out ''CompletionRatio'', mapCompletionRatioMeta = meta,
       mapCacheRatio = obj out ''CacheRatio'', mapCreateCacheRatio = obj out ''CreateCacheRatio'',
       mapImageRatio = obj out ''ImageRatio'', mapAudioRatio = obj out ''AudioRatio'',
       mapAudioCompletionRatio = obj out ''AudioCompletionRatio'',
       mapModelBillingMode = obj tiered ''billing_setting.billing_mode'',
       mapModelBillingExpr = obj tiered ''billing_setting.billing_expr''\<rparr>)"

lemma lookup_stored:
  "lookup (case map_of out key of Some ob \<Rightarrow> ob | None \<Rightarrow> []) nm =
     (case stored out key nm of Some v \<Rightarrow> v | None \<Rightarrow> Undef)"
  by (simp add: stored_def split: option.splits)

lemma numeric_undef [simp]: "toNumericString Undef = []"
  by (simp add: toNumericString_def hasValue_def)

lemma no_value_empty [simp]: "\<not> hasValue (Str [])"
  by (simp add: hasValue_def)

lemma ratio_conflict:
  "hasConflict (buildRatioModel nm src) \<longleftrightarrow>
     hasValue (Str (toNumericString (lookup (mapModelPrice src) nm))) \<and>
     list_ex (\<lambda>v. hasValue (Str (toNumericString v)))
       [lookup (mapModelRatio src) nm, lookup (mapCompletionRatio src) nm, lookup (mapCacheRatio src) nm,
        lookup (mapCreateCacheRatio src) nm, lookup (mapImageRatio src) nm, lookup (mapAudioRatio src) nm,
        lookup (mapAudioCompletionRatio src) nm]"
  by (simp add: buildRatioModel_def Let_def ratio_list_def split: prod.splits)

lemma stored_price_or_ratios:
  assumes c: "collectOptions ms emptyOutput emptyTieredOutput = Inr (out, tiered)"
    and m: "m \<in> set ms" "distinct (map model_name ms)" and p: "stored out ''ModelPrice'' (model_name m) \<noteq> None"
    and k: "k \<in> set ratioKeys"
  shows "stored out k (model_name m) = None"
proof -
  note st = collect_stored [OF c m _ empty_stored, unfolded empty_keys]
  obtain r x where r: "serializeModel m = Inr r" "outModelPrice r = Some x"
    using p st [of "''ModelPrice''"] by (auto simp: ratio_entries_def split: sum.splits option.splits)
  with serialize_price_or_ratios [OF r(1)] have "r = NO_RATIOS\<lparr>outModelPrice := keepRatio (fixedPrice m)\<rparr>"
    by (auto split: if_splits)
  then show ?thesis
    using st [of k] k r(1) by (auto simp: ratioKeys_def ratio_entries_def NO_RATIOS_def)
qed

lemma saved_no_conflict:
  assumes c: "collectOptions ms emptyOutput emptyTieredOutput = Inr (out, tiered)"
    and m: "m \<in> set ms" "distinct (map model_name ms)"
    and b: "buildModelState (model_name m) (savedMaps meta out tiered) = Inr m'"
  shows "\<not> hasConflict m'"
proof (cases "m' = buildRatioModel (model_name m) (savedMaps meta out tiered)")
  case False
  then show ?thesis using b
    by (auto simp: buildModelState_def Let_def split: if_splits sum.splits prod.splits)
next
  case True
  show ?thesis
  proof
    assume "hasConflict m'"
    then have h: "hasValue (Str (toNumericString (case stored out ''ModelPrice'' (model_name m) of Some v \<Rightarrow> v | None \<Rightarrow> Undef)))"
      "list_ex (\<lambda>k. hasValue (Str (toNumericString (case stored out k (model_name m) of Some v \<Rightarrow> v | None \<Rightarrow> Undef)))) ratioKeys"
      unfolding True ratio_conflict by (simp_all add: savedMaps_def Let_def lookup_stored ratioKeys_def)
    from h(1) have "stored out ''ModelPrice'' (model_name m) \<noteq> None" by (auto split: option.splits)
    from stored_price_or_ratios [OF c m this] h(2) show False by (auto simp: list_ex_iff)
  qed
qed

section \<open>Models with a billing expression\<close>

lemma tiered_state:
  assumes "buildModelState nm src = Inr m" "lookup (mapModelBillingMode src) nm = Str ''tiered_expr''"
  shows "serializeModel m = Inr NO_RATIOS"
proof -
  have f: "billingMode m = ''tiered_expr''" "rawRatios m = EMPTY_RATIOS" "inputPrice m = []" "completionPrice m = []"
    "cachePrice m = []" "createCachePrice m = []" "imagePrice m = []" "audioInputPrice m = []" "audioOutputPrice m = []"
    using assms by (auto simp: buildModelState_def Let_def EMPTY_MODEL_def split: if_splits sum.splits prod.splits)
  have "toNumberOrNull (Str []) = None" by (simp add: toNumberOrNull_def hasValue_def)
  then show ?thesis
    by (simp add: serializeModel_def f keepRatio_def EMPTY_RATIOS_def NO_RATIOS_def)
qed

lemma tiered_ratios_dropped:
  assumes l: "loadModels le fm cands options st0 = Inr st"
    and m: "m \<in> set (models st)" "lookup (mapModelBillingMode (readSourceMaps options)) (model_name m) = Str ''tiered_expr''"
    and c: "collectOptions (models st) emptyOutput emptyTieredOutput = Inr (out, tiered)"
    and k: "k \<in> set (''ModelPrice'' # ratioKeys)"
  shows "stored out k (model_name m) = None"
proof -
  have d: "distinct (map model_name (models st))" and b: "buildModelState (model_name m) (readSourceMaps options) = Inr m"
    using load_models [OF l] m(1) by blast+
  show ?thesis
    using collect_stored [OF c m(1) d _ empty_stored, unfolded empty_keys, OF k] tiered_state [OF b m(2)] k
    by (auto simp: ratioKeys_def ratio_entries_def NO_RATIOS_def)
qed


section \<open>The outcome of a save\<close>

lemma put_value_keys_list [simp]: "map fst (put_value key nm v out) = map fst out"
  by (induction out) (auto simp: put_value_def)

lemma putRatios_keys_list [simp]: "map fst (putRatios nm r out) = map fst out"
proof -
  have "map fst (foldl (\<lambda>acc (key, v). case v of None \<Rightarrow> acc | Some x \<Rightarrow> put_value key nm (Num x) acc) out es) = map fst out" for es
    by (induction es arbitrary: out) (auto split: option.splits)
  then show ?thesis by (simp add: putRatios_def)
qed

lemma putTiered_keys_list [simp]: "map fst (putTiered m tiered) = map fst tiered"
  by (simp add: putTiered_def Let_def)

lemma collect_keys:
  "collectOptions ms out tiered = Inr (out', tiered') \<Longrightarrow> map fst out' = map fst out \<and> map fst tiered' = map fst tiered"
  by (induction ms out tiered rule: collectOptions.induct) (auto simp: Let_def split: sum.splits if_splits)

lemma save_error_iff:
  "(\<exists>e. collectOptions ms out tiered = Inl e) \<longleftrightarrow>
   (\<exists>m \<in> set ms. billingMode m \<notin> {''tiered_expr'', ''per-request''} \<and>
        (if toNumberOrNull (Str (inputPrice m)) = None then list_ex (\<lambda>v. v \<noteq> None) (dependentPrices m)
         else toNumberOrNull (Str (audioOutputPrice m)) \<noteq> None \<and>
           toNumberOrNull (Str (audioInputPrice m)) \<in> {None, Some (Fin 0)}))"
  unfolding collect_error_iff serialize_error_iff by (rule bex_cong [OF refl]) auto

lemma check_not_serialize [simp]: "checkResponses rs \<noteq> SerializeFailed e"
  by (induction rs) auto

lemma submit_outcome:
  "(case collectOptions (models st) emptyOutput emptyTieredOutput of
      Inl e \<Rightarrow> fst (handleSubmit api st) = SerializeFailed e \<and> fst (snd (handleSubmit api st)) = []
    | Inr _ \<Rightarrow> (\<forall>e. fst (handleSubmit api st) \<noteq> SerializeFailed e) \<and>
        map fst (fst (snd (handleSubmit api st))) =
          ''ModelPrice'' # ratioKeys @ [''billing_setting.billing_mode'', ''billing_setting.billing_expr''])"
proof (cases "collectOptions (models st) emptyOutput emptyTieredOutput")
  case (Inl e)
  then show ?thesis by (simp add: handleSubmit_def submitRequests_def Let_def)
next
  case (Inr ot)
  obtain out tiered where ot: "ot = (out, tiered)" by fastforce
  let ?reqs = "map (\<lambda>(key, ob). (key, pretty_flat ob)) (out @ tiered)"
  have r: "submitRequests (models st) = Inr ?reqs" using Inr ot by (simp add: submitRequests_def)
  have "map fst ?reqs = map fst out @ map fst tiered" by (simp add: comp_def case_prod_beta)
  also have "\<dots> = ''ModelPrice'' # ratioKeys @ [''billing_setting.billing_mode'', ''billing_setting.billing_expr'']"
    using collect_keys [of "models st"] Inr ot by (simp add: emptyOutput_def emptyTieredOutput_def ratioKeys_def)
  finally show ?thesis
    using Inr ot r by (simp add: handleSubmit_def Let_def split: sum.splits)
qed

section \<open>Properties\<close>

text \<open>
  C31: In every state the editor can reach (any interleaving of edits, additions, deletions,
  batch application, saves and reloads), model names are unique, every model has its toggles,
  the ticked models are visible, and the selected model exists whenever a model is visible.
\<close>

theorem editor_reachable_invariant:
  assumes "editor_reachable fm st"
  shows "distinct (map model_name (models st)) \<and>
    model_name ` set (models st) \<subseteq> fst ` set (optionalFieldToggles st) \<and>
    set (selectedModelNames st) \<subseteq> model_name ` set (visibleModels fm st) \<and>
    (visibleModels fm st \<noteq> [] \<longrightarrow>
      (\<exists>m \<in> set (visibleModels fm st). selectedModel fm st = Some m \<and> model_name m = selectedModelName st))"
proof -
  have i: "editor_inv fm st" using assms by (rule editor_reachable_inv)
  then have s: "selection_ok fm st" by (simp add: editor_inv_def)
  show ?thesis
    using i s selected_exists [OF s] by (simp add: editor_inv_def selection_ok_def)
qed

theorem editor_reachable_invariant_witness:
  "\<exists>st. editor_reachable ''all'' st \<and> map model_name (models st) = [''gpt-4o''] \<and>
     selectedModelName st = ''gpt-4o'' \<and> distinct (map model_name (models st))"
proof -
  let ?st = "settle ''all'' (snd (addModel '' gpt-4o '' (settle ''all'' initialEditor)))"
  have r: "editor_reachable ''all'' ?st"
    by (rule editor_reachable.step [OF editor_reachable.start editor_step.add])
  moreover have "map model_name (models ?st) = [''gpt-4o'']" "selectedModelName ?st = ''gpt-4o''" by code_simp+
  ultimately show ?thesis
    using editor_reachable_invariant [OF r, THEN conjunct1] by (intro exI [of _ ?st] conjI)
qed

lemma upsert_others:
  assumes "\<And>m. model_core (u m) = model_core m"
  shows "filter (\<lambda>m. model_name m \<noteq> nm) (models (upsertModel nm u st)) = filter (\<lambda>m. model_name m \<noteq> nm) (models st)"
proof -
  have "model_name (u m) = model_name m" for m using assms [of m] by (simp add: model_core_def)
  then have "filter (\<lambda>m. model_name m \<noteq> nm) (map (\<lambda>m. if model_name m \<noteq> nm then m else u m) ms) =
      filter (\<lambda>m. model_name m \<noteq> nm) ms" for ms by (induction ms) auto
  then show ?thesis by (simp add: upsertModel_def)
qed

lemma selected_name: "selectedModel fm st = Some s \<Longrightarrow> model_name s = selectedModelName st"
  by (auto simp: selectedModel_def find_Some_iff)

lemma field_handlers_local:
  "filter (\<lambda>m. model_name m \<noteq> selectedModelName st) (models (handleNumericFieldChange fm field v st)) =
     filter (\<lambda>m. model_name m \<noteq> selectedModelName st) (models st)"
  "filter (\<lambda>m. model_name m \<noteq> selectedModelName st) (models (handleOptionalFieldToggle fm field b st)) =
     filter (\<lambda>m. model_name m \<noteq> selectedModelName st) (models st)"
  "filter (\<lambda>m. model_name m \<noteq> selectedModelName st) (models (handleBillingModeChange fm v st)) =
     filter (\<lambda>m. model_name m \<noteq> selectedModelName st) (models st)"
proof -
  have t: "models (updateOptionalFieldToggle nm f x st) = models st" for nm f x
    by (simp add: updateOptionalFieldToggle_def)
  show "filter (\<lambda>m. model_name m \<noteq> selectedModelName st) (models (handleNumericFieldChange fm field v st)) =
     filter (\<lambda>m. model_name m \<noteq> selectedModelName st) (models st)"
    by (cases "selectedModel fm st")
      (simp_all add: handleNumericFieldChange_def selected_name upsert_others Let_def)
  show "filter (\<lambda>m. model_name m \<noteq> selectedModelName st) (models (handleOptionalFieldToggle fm field b st)) =
     filter (\<lambda>m. model_name m \<noteq> selectedModelName st) (models st)"
    by (cases "selectedModel fm st")
      (simp_all add: handleOptionalFieldToggle_def selected_name upsert_others t Let_def)
  show "filter (\<lambda>m. model_name m \<noteq> selectedModelName st) (models (handleBillingModeChange fm v st)) =
     filter (\<lambda>m. model_name m \<noteq> selectedModelName st) (models st)"
    by (cases "selectedModel fm st")
      (simp_all add: handleBillingModeChange_def selected_name upsert_others model_core_def Let_def)
qed

text \<open>
  Editing never touches what was loaded beside the prices: no handler other than add,
  delete and load changes the names, the stored ratios, the locks or the conflict marks, and
  the field handlers leave every model but the selected one alone.
\<close>

theorem editing_frame:
  "(\<forall>st'. edit_step fm st st' \<longrightarrow> map model_core (models st') = map model_core (models st)) \<and>
   filter (\<lambda>m. model_name m \<noteq> selectedModelName st) (models (handleNumericFieldChange fm field v st)) =
     filter (\<lambda>m. model_name m \<noteq> selectedModelName st) (models st) \<and>
   filter (\<lambda>m. model_name m \<noteq> selectedModelName st) (models (handleOptionalFieldToggle fm field b st)) =
     filter (\<lambda>m. model_name m \<noteq> selectedModelName st) (models st) \<and>
   filter (\<lambda>m. model_name m \<noteq> selectedModelName st) (models (handleBillingModeChange fm v st)) =
     filter (\<lambda>m. model_name m \<noteq> selectedModelName st) (models st)"
  using edit_step_frame [of fm st] by (simp add: field_handlers_local)

text \<open>The handler that the witness of the frame property runs.\<close>

theorem editing_frame_witness:
  "map model_core (models (handleNumericFieldChange ''all'' InputPrice ''2.5'' (snd (addModel ''m'' initialEditor)))) =
   map model_core (models (snd (addModel ''m'' initialEditor)))"
  using editing_frame [of "''all''" "snd (addModel ''m'' initialEditor)"] edit_step.numeric by blast

text \<open>
  The pages of the table, one after the other, are the filtered models: nothing is lost,
  repeated or reordered by paging.
\<close>

theorem pages_partition:
  "concat (map (\<lambda>i. pagedData lower fm (st\<lparr>currentPage := int i + 1\<rparr>))
     [0..<(length (filteredModels lower fm st) + 9) div 10]) = filteredModels lower fm st"
  by (rule pages_concat)

text \<open>
  Saving fails before any request exactly when some model that is billed per token (or in
  an unknown mode) has a dependent price but no input price, or an audio output price with no
  or a zero audio input price; a model billed by expression never blocks the save. Otherwise
  one request per option is sent.
\<close>

theorem save_fails_iff:
  "((\<exists>e. fst (handleSubmit api st) = SerializeFailed e) \<longleftrightarrow>
     (\<exists>m \<in> set (models st). billingMode m \<notin> {''tiered_expr'', ''per-request''} \<and>
        (if toNumberOrNull (Str (inputPrice m)) = None then list_ex (\<lambda>v. v \<noteq> None) (dependentPrices m)
         else toNumberOrNull (Str (audioOutputPrice m)) \<noteq> None \<and>
           toNumberOrNull (Str (audioInputPrice m)) \<in> {None, Some (Fin 0)}))) \<and>
   (if \<exists>e. fst (handleSubmit api st) = SerializeFailed e then fst (snd (handleSubmit api st)) = []
    else map fst (fst (snd (handleSubmit api st))) =
      ''ModelPrice'' # ratioKeys @ [''billing_setting.billing_mode'', ''billing_setting.billing_expr''])"
  using submit_outcome [of api st] save_error_iff [of "models st" emptyOutput emptyTieredOutput]
  by (cases "collectOptions (models st) emptyOutput emptyTieredOutput") auto

text \<open>
  C37: After a save no model is in conflict: what was written for a model is either a price per
  request or ratios, never both, so that loading it again marks no conflict.
\<close>

theorem save_resolves_conflicts:
  assumes "collectOptions ms emptyOutput emptyTieredOutput = Inr (out, tiered)"
    and "m \<in> set ms" "distinct (map model_name ms)"
    and "buildModelState (model_name m) (savedMaps meta out tiered) = Inr m'"
  shows "\<not> hasConflict m'"
  using assms by (rule saved_no_conflict)

text \<open>
  Loading a model that is billed by expression forgets its stored ratios and price, so the
  next save writes none for it and removes the fallback values the server had.
\<close>

theorem tiered_fallback_lost:
  assumes "loadModels le fm cands options st0 = Inr st"
    and "m \<in> set (models st)" "lookup (mapModelBillingMode (readSourceMaps options)) (model_name m) = Str ''tiered_expr''"
    and "collectOptions (models st) emptyOutput emptyTieredOutput = Inr (out, tiered)"
    and "k \<in> set (''ModelPrice'' # ratioKeys)"
  shows "stored out k (model_name m) = None"
  using assms by (rule tiered_ratios_dropped)

text \<open>
  With an input price of zero every dependent price is dropped silently on save: the
  ratios would be divisions by zero, and the serialiser turns them into null.
\<close>

theorem zero_input_price_drops:
  assumes "billingMode m \<noteq> ''per-request''" "toNumberOrNull (Str (inputPrice m)) = Some (Fin 0)"
    and "completionRatioLocked m = False" "serializeModel m = Inr r"
  shows "outCompletionRatio r = None \<and> outCacheRatio r = None \<and> outCreateCacheRatio r = None \<and>
    outImageRatio r = None \<and> outAudioRatio r = None"
  using assms unfolding serializeModel_def Let_def NO_RATIOS_def
  by (auto split: option.splits if_splits)

text \<open>
  A model billed per token that shows no warning can be saved, provided each filled field
  is a number and the audio input price is not zero.
\<close>

theorem no_warning_saves:
  assumes "billingMode m = ''per-token''" "getModelWarnings (Some m) = []"
    and "\<forall>p \<in> {inputPrice m, audioInputPrice m}. p \<noteq> [] \<longrightarrow> is_finite (string_to_number p)"
    and "toNumberOrNull (Str (audioInputPrice m)) \<noteq> Some (Fin 0)"
  shows "\<exists>r. serializeModel m = Inr r"
proof (rule ccontr)
  assume "\<nexists>r. serializeModel m = Inr r"
  then obtain e where e: "serializeModel m = Inl e" by (cases "serializeModel m") auto
  have n: "toNumberOrNull (Str p) = None \<longleftrightarrow> p = [] \<or> \<not> is_finite (string_to_number p)" for p
    by (auto simp: toNumberOrNull_def hasValue_def Let_def)
  have h: "hasValue (Str p) \<longleftrightarrow> p \<noteq> []" for p by (simp add: hasValue_def)
  have w: "InputPriceMissing \<notin> set (getModelWarnings (Some m))" "AudioInputMissing \<notin> set (getModelWarnings (Some m))"
    using assms(2) by simp_all
  have i: "inputPrice m = [] \<Longrightarrow> list_all (\<lambda>v. v = None) (dependentPrices m)"
    using w(1) assms(1) by (simp add: getModelWarnings_def Let_def dependentPrices_def n h split: if_splits)
  have a: "audioInputPrice m = [] \<Longrightarrow> audioOutputPrice m = []"
    using w(2) assms(1) by (simp add: getModelWarnings_def Let_def h split: if_splits)
  show False
    using e i a assms(3,4) unfolding serialize_error_iff by (auto simp: n list_ex_iff list_all_iff)
qed

text \<open>A model for the witnesses: billed per token, with an audio price pair.\<close>

definition audio_model :: price_model where
  "audio_model = EMPTY_MODEL\<lparr>model_name := ''m'', inputPrice := ''2'', audioInputPrice := ''4'', audioOutputPrice := ''8''\<rparr>"

theorem save_resolves_conflicts_witness:
  "(case collectOptions [audio_model\<lparr>billingMode := ''per-request'', fixedPrice := ''0.5'', hasConflict := True\<rparr>]
       emptyOutput emptyTieredOutput of
      Inl e \<Rightarrow> False
    | Inr (out, tiered) \<Rightarrow>
        (case buildModelState ''m'' (savedMaps [] out tiered) of Inl e \<Rightarrow> False
         | Inr m' \<Rightarrow> fixedPrice m' = ''0.5'' \<and> \<not> hasConflict m'))"
proof -
  let ?m = "audio_model\<lparr>billingMode := ''per-request'', fixedPrice := ''0.5'', hasConflict := True\<rparr>"
  have c: "(case collectOptions [?m] emptyOutput emptyTieredOutput of Inl e \<Rightarrow> False
    | Inr (out, tiered) \<Rightarrow> (case buildModelState ''m'' (savedMaps [] out tiered) of Inl e \<Rightarrow> False
         | Inr m' \<Rightarrow> fixedPrice m' = ''0.5''))"
    by code_simp
  then obtain out tiered m' where r: "collectOptions [?m] emptyOutput emptyTieredOutput = Inr (out, tiered)"
      "buildModelState ''m'' (savedMaps [] out tiered) = Inr m'" "fixedPrice m' = ''0.5''"
    unfolding ok_result by (auto simp del: collectOptions.simps)
  have "model_name ?m = ''m''" by (simp add: audio_model_def)
  then show ?thesis
    using r save_resolves_conflicts [OF r(1), of ?m "[]" m'] by (simp del: collectOptions.simps)
qed

theorem zero_input_price_drops_witness:
  "(case serializeModel (EMPTY_MODEL\<lparr>inputPrice := ''0'', cachePrice := ''3''\<rparr>) of
      Inl e \<Rightarrow> False | Inr r \<Rightarrow> outCacheRatio r = None)"
proof -
  let ?m = "EMPTY_MODEL\<lparr>inputPrice := ''0'', cachePrice := ''3''\<rparr>"
  have "billingMode ?m \<noteq> ''per-request''" "completionRatioLocked ?m = False"
    "toNumberOrNull (Str (inputPrice ?m)) = Some (Fin 0)" by code_simp+
  moreover have "\<not> (\<exists>e. serializeModel ?m = Inl e)"
  proof -
    have "(case serializeModel ?m of Inl e \<Rightarrow> False | Inr r \<Rightarrow> True)" by code_simp
    then show ?thesis by (auto split: sum.splits)
  qed
  ultimately show ?thesis using zero_input_price_drops [of ?m] by (auto split: sum.splits)
qed

theorem no_warning_saves_witness: "\<exists>r. serializeModel audio_model = Inr r"
proof (rule no_warning_saves)
  show "billingMode audio_model = ''per-token''" "getModelWarnings (Some audio_model) = []" by code_simp+
  have "is_finite (string_to_number ''2'')" "is_finite (string_to_number ''4'')" by code_simp+
  then show "\<forall>p \<in> {inputPrice audio_model, audioInputPrice audio_model}. p \<noteq> [] \<longrightarrow> is_finite (string_to_number p)"
    by (simp add: audio_model_def)
  show "toNumberOrNull (Str (audioInputPrice audio_model)) \<noteq> Some (Fin 0)" by code_simp
qed

text \<open>Options with one model that is billed by expression and has a stored ratio.\<close>

definition tiered_options :: "string jsobj" where
  "tiered_options =
     [(''ModelRatio'', ''{'' @ quote_string ''m'' @ '': 1.5}''),
      (''billing_setting.billing_mode'', ''{'' @ quote_string ''m'' @ '':'' @ quote_string ''tiered_expr'' @ ''}''),
      (''billing_setting.billing_expr'', ''{'' @ quote_string ''m'' @ '':'' @ quote_string ''p * 3 + c * 6'' @ ''}'')]"

theorem tiered_fallback_lost_witness:
  "lookup (mapModelRatio (readSourceMaps tiered_options)) ''m'' = Num (Fin (3 / 2)) \<and>
   (case loadModels (\<lambda>a b. True) ''all'' [] tiered_options initialEditor of
      Inl e \<Rightarrow> False
    | Inr st \<Rightarrow>
        (case collectOptions (models st) emptyOutput emptyTieredOutput of Inl e \<Rightarrow> False
         | Inr (out, tiered) \<Rightarrow> stored out ''ModelRatio'' ''m'' = None))"
proof -
  have r: "lookup (mapModelRatio (readSourceMaps tiered_options)) ''m'' = Num (Fin (3 / 2))" by code_simp
  have b: "lookup (mapModelBillingMode (readSourceMaps tiered_options)) ''m'' = Str ''tiered_expr''" by code_simp
  have "(case loadModels (\<lambda>a b. True) ''all'' [] tiered_options initialEditor of Inl e \<Rightarrow> False
    | Inr st \<Rightarrow> map model_name (models st) = [''m''] \<and>
        (case collectOptions (models st) emptyOutput emptyTieredOutput of Inl e \<Rightarrow> False | Inr o' \<Rightarrow> True))"
    by code_simp
  then obtain st out tiered where st: "loadModels (\<lambda>a b. True) ''all'' [] tiered_options initialEditor = Inr st"
      "map model_name (models st) = [''m'']" "collectOptions (models st) emptyOutput emptyTieredOutput = Inr (out, tiered)"
    by (auto split: sum.splits)
  then obtain m where m: "m \<in> set (models st)" "model_name m = ''m''" by (cases "models st") auto
  show ?thesis
    using r b st m tiered_fallback_lost [OF st(1) m(1) _ st(3), of "''ModelRatio''"] by (simp add: ratioKeys_def)
qed

end
