(* ===== verification/Playground_Messages.thy ===== *)
theory Playground_Messages
  imports JS_Value JS_Interfaces
begin

text \<open>
  Messages of the playground: the helpers of \<open>src/web/src/helpers/utils.jsx\<close>, the request
  payload of \<open>src/web/src/helpers/api.js\<close>, the message actions and edits of
  \<open>src/web/src/hooks/playground/useMessageActions.jsx\<close> and \<open>useMessageEdit.jsx\<close>, and sending
  a message (\<open>src/web/src/pages/Playground/index.jsx\<close>).

  A message carries the properties the code reads. The flags \<open>isReasoningExpanded\<close> and
  \<open>hasAutoCollapsed\<close> count as false when they are absent, as every use of them does;
  \<open>isThinkingComplete\<close> is an option, because the default argument of \<open>applyAutoCollapseLogic\<close>
  tells an absent flag from a false one. Content is a text or an array; the items of an array are
  kept as the JSON values they are. A null item, whose property \<open>type\<close> cannot be read, and
  reasoning that is not a text are outside the model. The updater functions given to \<open>setMessage\<close> are functions on
  the message list. Where the code first looks for the very object (\<open>msg === target\<close>), the
  argument \<open>ref\<close> is the index of that object, \<open>None\<close> when it is no longer in the list.
\<close>

section \<open>Messages\<close>

datatype status = LOADING | INCOMPLETE | COMPLETE | ERROR

definition USER :: string where "USER = ''user''"
definition ASSISTANT :: string where "ASSISTANT = ''assistant''"
definition SYSTEM :: string where "SYSTEM = ''system''"

lemmas roles = USER_def ASSISTANT_def SYSTEM_def

datatype msg_content = Text string | Parts "jsval list"

text \<open>\<open>{ type: 'text', text }\<close> and \<open>{ type: 'image_url', image_url: { url } }\<close>\<close>

definition TextPart :: "string \<Rightarrow> jsval" where
  "TextPart s = Obj [(''type'', Str ''text''), (''text'', Str s)]"

definition ImagePart :: "string \<Rightarrow> jsval" where
  "ImagePart u = Obj [(''type'', Str ''image_url''), (''image_url'', Obj [(''url'', Str u)])]"

record message =
  role :: string
  msg_id :: string
  createAt :: int
  msg_body :: msg_content
  reasoningContent :: "string option"
  isReasoningExpanded :: bool
  isThinkingComplete :: "bool option"
  hasAutoCollapsed :: bool
  status :: "status option"
  errorCode :: jsval

text \<open>\<open>content || ''\<close> as the operand of a string concatenation.\<close>

fun body_text :: "msg_content \<Rightarrow> string" where
  "body_text (Text s) = s"
| "body_text (Parts xs) = js_String (Arr xs)"

definition reasoning_text :: "message \<Rightarrow> string" where
  "reasoning_text m = (case reasoningContent m of Some r \<Rightarrow> r | None \<Rightarrow> [])"

text \<open>\<open>item.type === 'text'\<close>, and the text of such an item: \<open>item.text || ''\<close>.\<close>

definition is_text_part :: "jsval \<Rightarrow> bool" where
  "is_text_part x \<longleftrightarrow> get_prop x ''type'' = Str ''text''"

definition part_text :: "jsval \<Rightarrow> string" where
  "part_text x = (if truthy (get_prop x ''text'') then js_String (get_prop x ''text'') else [])"

definition getTextContent :: "message \<Rightarrow> string" where
  "getTextContent m =
     (case msg_body m of
        Text s \<Rightarrow> s
      | Parts xs \<Rightarrow> (case find is_text_part xs of Some x \<Rightarrow> part_text x | None \<Rightarrow> []))"

section \<open>Think tags\<close>

text \<open>The text before and after the first occurrence of a pattern.\<close>

fun find_sub :: "string \<Rightarrow> string \<Rightarrow> (string \<times> string) option" where
  "find_sub p [] = (if p = [] then Some ([], []) else None)"
| "find_sub p (c # s) =
     (case strip_prefix p (c # s) of
        Some r \<Rightarrow> Some ([], r)
      | None \<Rightarrow> map_option (\<lambda>(a, b). (c # a, b)) (find_sub p s))"

definition THINK_OPEN :: string where "THINK_OPEN = ''<think>''"
definition THINK_CLOSE :: string where "THINK_CLOSE = ''</think>''"

lemma find_sub_Some: "find_sub p s = Some (a, b) \<Longrightarrow> s = a @ p @ b"
proof (induction p s arbitrary: a rule: find_sub.induct)
  case (2 p c s)
  then show ?case by (cases "strip_prefix p (c # s)") (auto simp: strip_prefix_Some)
qed (simp split: if_splits)

text \<open>The loop over \<open>THINK_TAG_REGEX\<close>: reply parts and thoughts.\<close>

function think_scan :: "string \<Rightarrow> string list \<times> string list" where
  "think_scan s =
     (case find_sub THINK_OPEN s of
        None \<Rightarrow> ([s], [])
      | Some (before, r) \<Rightarrow>
          (case find_sub THINK_CLOSE r of
             None \<Rightarrow> ([s], [])
           | Some (thought, rest) \<Rightarrow>
               (let (ps, ts) = think_scan rest in (before # ps, thought # ts))))"
  by pat_completeness auto
termination
proof (relation "measure length")
  fix s :: string and x before r y thought rest
  assume a: "find_sub THINK_OPEN s = Some x" "(before, r) = x" "find_sub THINK_CLOSE r = Some y" "(thought, rest) = y"
  then have "s = before @ THINK_OPEN @ r" "r = thought @ THINK_CLOSE @ rest"
    using find_sub_Some [of THINK_OPEN s before r] find_sub_Some [of THINK_CLOSE r thought rest] by auto
  then show "(rest, s) \<in> measure length" by (simp add: THINK_OPEN_def)
qed simp

declare think_scan.simps [simp del]

text \<open>\<open>replace(/<\/?think>/g, '')\<close>\<close>

function remove_tags :: "string \<Rightarrow> string" where
  "remove_tags [] = []"
| "remove_tags (c # s) =
     (case strip_prefix THINK_OPEN (c # s) of
        Some r \<Rightarrow> remove_tags r
      | None \<Rightarrow>
          (case strip_prefix THINK_CLOSE (c # s) of
             Some r \<Rightarrow> remove_tags r
           | None \<Rightarrow> c # remove_tags s))"
  by pat_completeness auto
termination
proof (relation "measure length")
  fix c :: char and s r :: string
  assume "strip_prefix THINK_OPEN (c # s) = Some r"
  then have "c # s = THINK_OPEN @ r" by (simp add: strip_prefix_Some)
  from arg_cong [OF this, of length] show "(r, c # s) \<in> measure length" by (simp add: THINK_OPEN_def)
next
  fix c :: char and s r :: string
  assume "strip_prefix THINK_CLOSE (c # s) = Some r"
  then have "c # s = THINK_CLOSE @ r" by (simp add: strip_prefix_Some)
  from arg_cong [OF this, of length] show "(r, c # s) \<in> measure length" by (simp add: THINK_CLOSE_def)
qed simp_all

text \<open>The separator between thoughts.\<close>

definition THOUGHT_SEP :: string where
  "THOUGHT_SEP = [CHR 0x0A, CHR 0x0A] @ ''---'' @ [CHR 0x0A, CHR 0x0A]"

text \<open>The pair \<open>content\<close>, \<open>reasoningContent\<close>.\<close>

definition processThinkTags :: "string \<Rightarrow> string \<Rightarrow> string \<times> string" where
  "processThinkTags body reasoning =
     (if body = [] \<or> \<not> js_includes body THINK_OPEN then (body, reasoning)
      else
        let (replyParts, thoughts) = think_scan body;
            processedContent = trim (remove_tags (js_join [] replyParts));
            thoughtsStr = js_join THOUGHT_SEP thoughts in
        (processedContent,
         if reasoning \<noteq> [] \<and> thoughtsStr \<noteq> [] then reasoning @ THOUGHT_SEP @ thoughtsStr
         else if reasoning \<noteq> [] then reasoning else thoughtsStr))"

text \<open>The text before and after the last occurrence of a pattern.\<close>

fun find_last :: "string \<Rightarrow> string \<Rightarrow> (string \<times> string) option" where
  "find_last p [] = (if p = [] then Some ([], []) else None)"
| "find_last p (c # s) =
     (case find_last p s of
        Some (a, b) \<Rightarrow> Some (c # a, b)
      | None \<Rightarrow> map_option (\<lambda>r. ([], r)) (strip_prefix p (c # s)))"

definition processIncompleteThinkTags :: "string \<Rightarrow> string \<Rightarrow> string \<times> string" where
  "processIncompleteThinkTags body reasoning =
     (if body = [] then ([], reasoning)
      else
        case find_last THINK_OPEN body of
          None \<Rightarrow> processThinkTags body reasoning
        | Some (cleanContent, after) \<Rightarrow>
            if \<not> js_includes (THINK_OPEN @ after) THINK_CLOSE then
              let unclosedThought = trim after in
              processThinkTags cleanContent
                (if unclosedThought \<noteq> []
                 then (if reasoning \<noteq> [] then reasoning @ THOUGHT_SEP @ unclosedThought else unclosedThought)
                 else reasoning)
            else processThinkTags body reasoning)"

text \<open>
  \<open>processIncompleteThinkTags(content || '', ...)\<close>: for an array, \<open>lastIndexOf\<close> and \<open>includes\<close> look
  for an item that is the tag itself; without one the array comes back as it is. With one the code
  throws, and the theorems exclude it by \<open>tag_free\<close>.
\<close>

fun tag_free :: "msg_content \<Rightarrow> bool" where
  "tag_free (Text s) = True"
| "tag_free (Parts xs) = (Str THINK_OPEN \<notin> set xs)"

fun process_incomplete :: "msg_content \<Rightarrow> string \<Rightarrow> msg_content \<times> string" where
  "process_incomplete (Text s) reasoning = (let (c, r) = processIncompleteThinkTags s reasoning in (Text c, r))"
| "process_incomplete (Parts xs) reasoning = (Parts xs, reasoning)"

section \<open>Creating messages\<close>

definition buildMessageContent :: "string \<Rightarrow> string list \<Rightarrow> bool \<Rightarrow> msg_content" where
  "buildMessageContent textContent imageUrls imageEnabled =
     (if textContent = [] \<and> imageUrls = [] then Text []
      else
        let validImageUrls = filter (\<lambda>url. url \<noteq> [] \<and> trim url \<noteq> []) imageUrls in
        if imageEnabled \<and> length validImageUrls > 0
        then Parts (TextPart textContent # map (\<lambda>url. ImagePart (trim url)) validImageUrls)
        else Text textContent)"

text \<open>The counter \<open>messageId\<close> of the module is an argument; its next value is returned.\<close>

definition generateMessageId :: "nat \<Rightarrow> string \<times> nat" where
  "generateMessageId messageId = (show_nat messageId, Suc messageId)"

definition createMessage :: "int \<Rightarrow> nat \<Rightarrow> string \<Rightarrow> msg_content \<Rightarrow> message \<times> nat" where
  "createMessage now messageId rl body =
     (let (i, messageId') = generateMessageId messageId in
      (\<lparr>role = rl, msg_id = i, createAt = now, msg_body = body, reasoningContent = None,
        isReasoningExpanded = False, isThinkingComplete = None, hasAutoCollapsed = False, status = None,
        errorCode = Undef\<rparr>, messageId'))"

definition createLoadingAssistantMessage :: "int \<Rightarrow> nat \<Rightarrow> message \<times> nat" where
  "createLoadingAssistantMessage now messageId =
     (let (m, messageId') = createMessage now messageId ASSISTANT (Text []) in
      (m\<lparr>reasoningContent := Some [], isReasoningExpanded := True, isThinkingComplete := Some False,
         hasAutoCollapsed := False, status := Some LOADING\<rparr>, messageId'))"

definition hasImageContent :: "message \<Rightarrow> bool" where
  "hasImageContent m =
     (case msg_body m of
        Text s \<Rightarrow> False
      | Parts xs \<Rightarrow> list_ex (\<lambda>x. get_prop x ''type'' = Str ''image_url'') xs)"

definition formatMessageForAPI :: "message \<Rightarrow> string \<times> msg_content" where
  "formatMessageForAPI m = (role m, msg_body m)"

definition isValidMessage :: "message \<Rightarrow> bool" where
  "isValidMessage m \<longleftrightarrow> role m \<noteq> []"

definition getLastUserMessage :: "message list \<Rightarrow> message option" where
  "getLastUserMessage ms = find (\<lambda>m. role m = USER) (rev ms)"

definition getLastAssistantMessage :: "message list \<Rightarrow> message option" where
  "getLastAssistantMessage ms = find (\<lambda>m. role m = ASSISTANT) (rev ms)"

section \<open>The request payload\<close>

fun body_value :: "msg_content \<Rightarrow> jsval" where
  "body_value (Text s) = Str s"
| "body_value (Parts xs) = Arr xs"

definition api_message :: "string \<times> msg_content \<Rightarrow> jsval" where
  "api_message rc = Obj [(''role'', Str (fst rc)), (''content'', body_value (snd rc))]"

definition PAYLOAD_PARAMS :: "string list" where
  "PAYLOAD_PARAMS = [''temperature'', ''top_p'', ''max_tokens'', ''frequency_penalty'', ''presence_penalty'', ''seed'']"

definition field_of :: "jsval jsobj \<Rightarrow> string \<Rightarrow> jsval" where
  "field_of ob k = (case map_of ob k of Some v \<Rightarrow> v | None \<Rightarrow> Undef)"

fun is_number :: "jsval \<Rightarrow> bool" where
  "is_number (Num n) = True"
| "is_number _ = False"

text \<open>The body of the \<open>forEach\<close> over the parameters.\<close>

definition addParameter :: "jsval jsobj \<Rightarrow> jsval jsobj \<Rightarrow> string \<Rightarrow> jsval jsobj \<Rightarrow> jsval jsobj" where
  "addParameter inputs parameterEnabled param payload =
     (let v = field_of inputs param in
      if \<not> truthy (field_of parameterEnabled param) then payload
      else if param = ''max_tokens'' then (if is_number v then obj_set param v payload else payload)
      else if v \<noteq> Undef \<and> v \<noteq> Null then obj_set param v payload
      else payload)"

definition buildApiPayload ::
  "message list \<Rightarrow> string option \<Rightarrow> jsval jsobj \<Rightarrow> jsval jsobj \<Rightarrow> jsval jsobj" where
  "buildApiPayload messages systemPrompt inputs parameterEnabled =
     (let processed = map formatMessageForAPI (filter isValidMessage messages);
          withSystem = (case systemPrompt of
                          None \<Rightarrow> processed
                        | Some s \<Rightarrow> if s \<noteq> [] \<and> trim s \<noteq> [] then (SYSTEM, Text (trim s)) # processed else processed);
          payload = [(''model'', field_of inputs ''model''), (''group'', field_of inputs ''group''),
                     (''messages'', Arr (map api_message withSystem)), (''stream'', field_of inputs ''stream'')] in
      foldl (\<lambda>acc param. addParameter inputs parameterEnabled param acc) payload PAYLOAD_PARAMS)"

section \<open>Actions on messages\<close>

definition target_index :: "nat option \<Rightarrow> string \<Rightarrow> message list \<Rightarrow> nat option" where
  "target_index ref i ms = (case ref of Some k \<Rightarrow> Some k | None \<Rightarrow> find_index (\<lambda>m. msg_id m = i) ms)"

text \<open>The index of the last user message before \<open>k\<close>: the while loop.\<close>

fun user_before :: "message list \<Rightarrow> nat \<Rightarrow> nat option" where
  "user_before ms 0 = None"
| "user_before ms (Suc k) = (if role (ms ! k) = USER then Some k else user_before ms k)"

text \<open>The new list, and the text that is sent again after the timeout.\<close>

definition handleMessageReset :: "nat option \<Rightarrow> message \<Rightarrow> message list \<Rightarrow> message list \<times> string option" where
  "handleMessageReset ref target ms =
     (case target_index ref (msg_id target) ms of
        None \<Rightarrow> (ms, None)
      | Some k \<Rightarrow>
          if role target = USER then (take k ms, Some (getTextContent target))
          else if role target = ASSISTANT \<or> role target = SYSTEM then
            (case user_before ms k of
               Some u \<Rightarrow> (take u ms, Some (getTextContent (ms ! u)))
             | None \<Rightarrow> (ms, None))
          else (ms, None))"

text \<open>The confirmed deletion: the new list, which is also saved; \<open>None\<close> when nothing was found.\<close>

definition remove_at :: "nat set \<Rightarrow> 'a list \<Rightarrow> 'a list" where
  "remove_at I xs = map snd (filter (\<lambda>(i, x). i \<notin> I) (zip [0..<length xs] xs))"

definition handleMessageDelete :: "nat option \<Rightarrow> message \<Rightarrow> message list \<Rightarrow> message list option" where
  "handleMessageDelete ref target ms =
     (case target_index ref (msg_id target) ms of
        None \<Rightarrow> None
      | Some k \<Rightarrow>
          Some (if role target = USER \<and> k < length ms - 1 then
                  (if role (ms ! (k + 1)) = ASSISTANT then remove_at {k, k + 1} ms
                   else filter (\<lambda>m. msg_id m \<noteq> msg_id target) ms)
                else filter (\<lambda>m. msg_id m \<noteq> msg_id target) ms))"

definition handleRoleToggle :: "message \<Rightarrow> message list \<Rightarrow> message list" where
  "handleRoleToggle target ms =
     (if \<not> (role target = ASSISTANT \<or> role target = SYSTEM) then ms
      else
        let newRole = (if role target = ASSISTANT then SYSTEM else ASSISTANT) in
        map (\<lambda>m. if msg_id m = msg_id target \<and> (role m = ASSISTANT \<or> role m = SYSTEM)
                 then m\<lparr>role := newRole\<rparr> else m) ms)"

definition toggleReasoningExpansion :: "string \<Rightarrow> message list \<Rightarrow> message list" where
  "toggleReasoningExpansion i ms =
     map (\<lambda>m. if msg_id m = i \<and> role m = ASSISTANT
              then m\<lparr>isReasoningExpanded := \<not> isReasoningExpanded m\<rparr> else m) ms"

section \<open>Editing a message\<close>

text \<open>The state of the edit form: the id, the object's index, the text.\<close>

record edit_form =
  editingMessageId :: "string option"
  editingRef :: "nat option"
  editValue :: string

definition closedForm :: edit_form where
  "closedForm = \<lparr>editingMessageId = None, editingRef = None, editValue = []\<rparr>"

definition handleMessageEdit :: "nat option \<Rightarrow> message \<Rightarrow> edit_form" where
  "handleMessageEdit ref target =
     \<lparr>editingMessageId = Some (msg_id target), editingRef = ref, editValue = getTextContent target\<rparr>"

definition handleEditCancel :: "edit_form \<Rightarrow> edit_form" where
  "handleEditCancel f = closedForm"

text \<open>\<open>item.type === 'text' ? { ...item, text: v } : item\<close>\<close>

definition edit_part :: "string \<Rightarrow> jsval \<Rightarrow> jsval" where
  "edit_part v x = (if is_text_part x then Obj (obj_set ''text'' (Str v) (spread_props x)) else x)"

fun edited_body :: "string \<Rightarrow> msg_content \<Rightarrow> msg_content" where
  "edited_body v (Parts xs) = Parts (map (edit_part v) xs)"
| "edited_body v (Text s) = Text v"

text \<open>
  The outcome of a save: nothing to do, the updated list, or a question whether to regenerate,
  with the lists of its two answers. A target that is no longer there is undefined, and reading
  its content throws.
\<close>

datatype edit_outcome =
    EditIgnored
  | EditSaved "message list"
  | EditAsk "message list" "message list"

definition handleEditSave :: "edit_form \<Rightarrow> message list \<Rightarrow> js_error + edit_outcome" where
  "handleEditSave f ms =
     (case editingMessageId f of
        None \<Rightarrow> Inr EditIgnored
      | Some i \<Rightarrow>
          if i = [] \<or> trim (editValue f) = [] then Inr EditIgnored
          else
            (case target_index (editingRef f) i ms of
               None \<Rightarrow> Inl TypeError
             | Some k \<Rightarrow>
                 let newContent = edited_body (trim (editValue f)) (msg_body (ms ! k));
                     updated = map (\<lambda>m. if msg_id m = i then m\<lparr>msg_body := newContent\<rparr> else m) ms in
                 if role (ms ! k) = USER \<and> k < length ms - 1 \<and> role (ms ! (k + 1)) = ASSISTANT
                 then Inr (EditAsk (take (k + 1) updated) updated)
                 else Inr (EditSaved updated)))"

section \<open>Sending a message\<close>

text \<open>
  What \<open>onMessageSend\<close> does: a refused custom body, or the request with its stream flag and the
  new list, which is also saved.
\<close>

datatype send_outcome =
    SendRefused
  | SendRequest jsval bool "message list"

definition onMessageSend ::
  "int \<Rightarrow> bool \<Rightarrow> string \<Rightarrow> jsval jsobj \<Rightarrow> jsval jsobj \<Rightarrow> string list \<Rightarrow> bool \<Rightarrow> string \<Rightarrow> message list \<times> nat
   \<Rightarrow> js_error + send_outcome \<times> nat" where
  "onMessageSend now customRequestMode customRequestBody inputs parameterEnabled imageUrls imageEnabled content st =
     (let (ms, id0) = st;
          (userMessage, id1) = createMessage now id0 USER (Text content);
          (loadingMessage, id2) = createLoadingAssistantMessage now id1 in
      if customRequestMode \<and> customRequestBody \<noteq> [] then
        (case json_parse customRequestBody of
           None \<Rightarrow> Inr (SendRefused, id2)
         | Some Null \<Rightarrow> Inl TypeError
         | Some customPayload \<Rightarrow>
             Inr (SendRequest customPayload (get_prop customPayload ''stream'' \<noteq> Bool False)
                    (ms @ [userMessage, loadingMessage]), id2))
      else
        let validImageUrls = filter (\<lambda>url. trim url \<noteq> []) imageUrls;
            (userMessageWithImages, id3) =
              createMessage now id2 USER (buildMessageContent content validImageUrls imageEnabled);
            newMessages = ms @ [userMessageWithImages];
            payload = buildApiPayload newMessages None inputs parameterEnabled in
        Inr (SendRequest (Obj payload) (truthy (field_of inputs ''stream'')) (newMessages @ [loadingMessage]), id3))"

end
