(* ===== verification/Playground_Messages_Proofs.thy ===== *)
theory Playground_Messages_Proofs
  imports Playground_Messages
begin

text \<open>
  Correctness of the message helpers: separating thoughts from the reply, deleting and
  regenerating messages, the request payload, sending.
\<close>

section \<open>Searching for tags\<close>

lemma strip_prefix_straddle:
  assumes "p = c # q" "c \<notin> set q" "\<not> js_includes (x # a) p"
  shows "strip_prefix p ((x # a) @ p @ r) = None"
proof (rule ccontr)
  assume "strip_prefix p ((x # a) @ p @ r) \<noteq> None"
  then obtain b where b: "(x # a) @ (p @ r) = p @ b" by (auto simp: strip_prefix_Some)
  then obtain us where "x # a = p @ us \<or> (x # a) @ us = p \<and> p @ r = us @ b"
    unfolding append_eq_append_conv2 by blast
  then show False
  proof (elim disjE conjE)
    assume "x # a = p @ us"
    then show False using assms(3) by (metis js_includes.simps(2) prefixI)
  next
    assume u: "(x # a) @ us = p" "p @ r = us @ b"
    show False
    proof (cases us)
      case Nil
      then show False using u(1) assms(3) by (auto simp: js_includes_sublist)
    next
      case (Cons y us')
      then have "y = c" using u(2) assms(1) by simp
      moreover have "y \<in> set q" using u(1) Cons assms(1) by auto
      ultimately show False using assms(2) by simp
    qed
  qed
qed

lemma find_sub_first:
  assumes p: "p = c # q" "c \<notin> set q"
  shows "\<not> js_includes a p \<Longrightarrow> find_sub p (a @ p @ r) = Some (a, r)"
proof (induction a)
  case Nil
  have "strip_prefix p (p @ r) = Some r" by simp
  then show ?case using p by (simp del: strip_prefix_append)
next
  case (Cons x a)
  then show ?case using strip_prefix_straddle [OF p Cons.prems, of r] by simp
qed

lemma find_sub_None: "\<not> js_includes s p \<Longrightarrow> find_sub p s = None"
proof (induction p s rule: find_sub.induct)
  case (2 p c s)
  then have "strip_prefix p (c # s) = None"
    by (metis js_includes.simps(2) not_None_eq prefixI strip_prefix_Some)
  with 2 show ?case by simp
qed auto

lemma find_last_None: "\<not> js_includes s p \<Longrightarrow> find_last p s = None"
proof (induction p s rule: find_last.induct)
  case (2 p c s)
  then have "strip_prefix p (c # s) = None"
    by (metis js_includes.simps(2) not_None_eq prefixI strip_prefix_Some)
  with 2 show ?case by simp
qed auto

lemma tags_shape:
  "THINK_OPEN = CHR ''<'' # ''think>''" "CHR ''<'' \<notin> set ''think>''"
  "THINK_CLOSE = CHR ''<'' # ''/think>''" "CHR ''<'' \<notin> set ''/think>''"
  by (simp_all add: THINK_OPEN_def THINK_CLOSE_def)

text \<open>Reply parts and thoughts, written out with their tags.\<close>

fun weave :: "string list \<Rightarrow> string list \<Rightarrow> string" where
  "weave (p # ps) (th # ts) = p @ THINK_OPEN @ th @ THINK_CLOSE @ weave ps ts"
| "weave (p # ps) [] = p"
| "weave [] ts = []"

lemma think_scan_weave:
  assumes "length ps = Suc (length ts)" "list_all (\<lambda>p. \<not> js_includes p THINK_OPEN) ps"
    "list_all (\<lambda>th. \<not> js_includes th THINK_CLOSE) ts"
  shows "think_scan (weave ps ts) = (ps, ts)"
  using assms
proof (induction ps ts rule: weave.induct)
  case (1 p ps th ts)
  have "find_sub THINK_OPEN (weave (p # ps) (th # ts)) = Some (p, th @ THINK_CLOSE @ weave ps ts)"
    using find_sub_first [OF tags_shape(1,2)] 1 by simp
  moreover have "find_sub THINK_CLOSE (th @ THINK_CLOSE @ weave ps ts) = Some (th, weave ps ts)"
    using find_sub_first [OF tags_shape(3,4)] 1 by simp
  ultimately show ?case using 1 by (subst think_scan.simps) simp
next
  case (2 p ps)
  then show ?case by (subst think_scan.simps) (simp add: find_sub_None)
qed simp

lemma find_last_unclosed:
  assumes "\<not> js_includes u THINK_OPEN"
  shows "find_last THINK_OPEN (a @ THINK_OPEN @ u) = Some (a, u)"
proof (induction a)
  case Nil
  have n: "\<not> js_includes (''think>'' @ u) THINK_OPEN"
    using assms by (simp add: THINK_OPEN_def)
  have "find_last THINK_OPEN (CHR ''<'' # ''think>'' @ u) =
      map_option (\<lambda>r. ([], r)) (strip_prefix THINK_OPEN (CHR ''<'' # ''think>'' @ u))"
    by (simp only: find_last.simps find_last_None [OF n] option.case)
  also have "strip_prefix THINK_OPEN (CHR ''<'' # ''think>'' @ u) = Some u" by (simp add: THINK_OPEN_def)
  finally show ?case by (simp add: THINK_OPEN_def)
next
  case (Cons x a)
  then show ?case by simp
qed

text \<open>
  Thoughts and reply are separated exactly: from parts and thoughts written with their tags,
  the thoughts come back in order as the reasoning (after any reasoning already there), and the
  reply is the parts joined, stray tags removed, trimmed.
\<close>

theorem think_tags_separated:
  assumes "length ps = Suc (length ts)" "ts \<noteq> []" "list_all (\<lambda>p. \<not> js_includes p THINK_OPEN) ps"
    "list_all (\<lambda>th. \<not> js_includes th THINK_CLOSE) ts"
  shows "processThinkTags (weave ps ts) reasoning =
    (trim (remove_tags (js_join [] ps)),
     let thoughtsStr = js_join THOUGHT_SEP ts in
     if reasoning \<noteq> [] \<and> thoughtsStr \<noteq> [] then reasoning @ THOUGHT_SEP @ thoughtsStr
     else if reasoning \<noteq> [] then reasoning else thoughtsStr)"
proof -
  obtain p ps' th ts' where s: "ps = p # ps'" "ts = th # ts'" using assms(1,2) by (cases ps; cases ts) auto
  have "js_includes (weave ps ts) THINK_OPEN"
    by (simp add: js_includes_sublist sublist_def s) blast
  then show ?thesis
    using think_scan_weave [OF assms(1,3,4)] s
    by (simp add: processThinkTags_def THINK_OPEN_def Let_def)
qed

theorem think_tags_separated_witness:
  "processThinkTags (weave [''Hi '', ''there''] [''plan'']) ''r'' = (''Hi there'', ''r'' @ THOUGHT_SEP @ ''plan'')"
proof -
  have "trim (remove_tags (js_join [] [''Hi '', ''there''])) = ''Hi there''" by code_simp
  moreover have "\<not> js_includes ''Hi '' THINK_OPEN" "\<not> js_includes ''there'' THINK_OPEN" "\<not> js_includes ''plan'' THINK_CLOSE"
    by code_simp+
  ultimately show ?thesis using think_tags_separated [of "[''Hi '', ''there'']" "[''plan'']" "''r''"] by simp
qed

text \<open>
  A thought that is still open when the reply stops goes to the reasoning and not into the
  reply: the text before its tag is the reply.
\<close>

theorem unclosed_thought_moved:
  assumes "\<not> js_includes a THINK_OPEN" "\<not> js_includes u THINK_OPEN" "\<not> js_includes u THINK_CLOSE"
  shows "processIncompleteThinkTags (a @ THINK_OPEN @ u) reasoning =
    (a, if trim u = [] then reasoning else if reasoning = [] then trim u else reasoning @ THOUGHT_SEP @ trim u)"
proof -
  have "\<not> js_includes (THINK_OPEN @ u) THINK_CLOSE"
    using assms(3) by (simp add: THINK_OPEN_def THINK_CLOSE_def)
  then show ?thesis
    using find_last_unclosed [OF assms(2), of a] assms(1)
    by (simp add: processIncompleteThinkTags_def processThinkTags_def THINK_OPEN_def Let_def)
qed

theorem unclosed_thought_moved_witness:
  "processIncompleteThinkTags (''So'' @ THINK_OPEN @ '' wait '') [] = (''So'', ''wait'')"
proof -
  have "\<not> js_includes ''So'' THINK_OPEN" "\<not> js_includes '' wait '' THINK_OPEN" "\<not> js_includes '' wait '' THINK_CLOSE"
    "trim '' wait '' = ''wait''" by code_simp+
  then show ?thesis using unclosed_thought_moved [of "''So''" "'' wait ''" "[]"] by simp
qed

section \<open>Actions\<close>

lemma user_before_Some:
  "user_before ms k = Some u \<Longrightarrow> u < k \<and> role (ms ! u) = USER \<and> (\<forall>j. u < j \<and> j < k \<longrightarrow> role (ms ! j) \<noteq> USER)"
  by (induction ms k rule: user_before.induct) (auto split: if_splits simp: less_Suc_eq)

lemma filter_id_remove_at:
  assumes "distinct (map msg_id ms)" "k < length ms"
  shows "filter (\<lambda>m. msg_id m \<noteq> msg_id (ms ! k)) ms = remove_at {k} ms"
proof -
  have "filter (\<lambda>m. msg_id m \<noteq> msg_id (ms ! k)) ms =
      map snd (filter (\<lambda>(i, m). msg_id m \<noteq> msg_id (ms ! k)) (zip [0..<length ms] ms))"
  proof -
    have "map snd (filter (\<lambda>(i, m). P m) (zip is ms)) = filter P ms" if "length is = length ms" for P and "is" :: "nat list"
      using that by (induction "is" ms rule: list_induct2) auto
    then show ?thesis by simp
  qed
  also have "filter (\<lambda>(i, m). msg_id m \<noteq> msg_id (ms ! k)) (zip [0..<length ms] ms) =
      filter (\<lambda>(i, m). i \<notin> {k}) (zip [0..<length ms] ms)"
  proof (rule filter_cong [OF refl])
    fix x assume "x \<in> set (zip [0..<length ms] ms)"
    then obtain i where i: "x = (i, ms ! i)" "i < length ms" by (auto simp: set_zip)
    then have "msg_id (ms ! i) = msg_id (ms ! k) \<longleftrightarrow> i = k"
      using assms by (metis distinct_conv_nth length_map nth_map)
    with i show "(case x of (i, m) \<Rightarrow> msg_id m \<noteq> msg_id (ms ! k)) = (case x of (i, m) \<Rightarrow> i \<notin> {k})" by simp
  qed
  finally show ?thesis by (simp add: remove_at_def)
qed

text \<open>
  With unique message ids, deleting a message removes that message, and the reply that
  follows it when it is a user message, and nothing else.
\<close>

theorem delete_exact:
  assumes "distinct (map msg_id ms)" "k < length ms" "target = ms ! k"
  shows "handleMessageDelete (Some k) target ms =
    Some (remove_at (if role target = USER \<and> k + 1 < length ms \<and> role (ms ! (k + 1)) = ASSISTANT
                     then {k, k + 1} else {k}) ms)"
  using filter_id_remove_at [OF assms(1,2)] assms(2,3)
  by (auto simp: handleMessageDelete_def target_index_def)

text \<open>A short conversation for the witnesses.\<close>

definition sample_messages :: "message list" where
  "sample_messages =
     [fst (createMessage 0 4 USER (Text ''hi'')), fst (createMessage 0 5 ASSISTANT (Text ''hello'')),
      fst (createMessage 0 6 USER (Text ''bye''))]"

theorem delete_exact_witness:
  "handleMessageDelete (Some 0) (sample_messages ! 0) sample_messages = Some [sample_messages ! 2]"
proof -
  have "distinct (map msg_id sample_messages)" "0 < length sample_messages" by code_simp+
  moreover have "remove_at (if role (sample_messages ! 0) = USER \<and> 0 + 1 < length sample_messages \<and>
      role (sample_messages ! (0 + 1)) = ASSISTANT then {0, 0 + 1} else {0}) sample_messages = [sample_messages ! 2]"
    by code_simp
  ultimately show ?thesis using delete_exact [of sample_messages 0 "sample_messages ! 0"] by simp
qed

text \<open>
  The target of a deletion is found by reference, but the list is filtered by id: every
  message that shares the id of a deleted reply disappears with it. Ids are numbered from 4 in
  every session, so that messages restored from storage and new ones do share ids.
\<close>

theorem delete_removes_same_id:
  assumes "role target \<noteq> USER" "k < length ms" "ms ! k = target"
    and "handleMessageDelete (Some k) target ms = Some ms'"
  shows "\<forall>m \<in> set ms'. msg_id m \<noteq> msg_id target"
  using assms by (auto simp: handleMessageDelete_def target_index_def)

theorem delete_removes_same_id_witness:
  "(let old = fst (createMessage 0 4 USER (Text ''kept from the last session''));
        new = fst (createMessage 1 4 ASSISTANT (Text ''new reply'')) in
    handleMessageDelete (Some 1) new [old, new] = Some [] \<and> old \<noteq> new)"
proof -
  let ?old = "fst (createMessage 0 4 USER (Text ''kept from the last session''))"
  let ?new = "fst (createMessage 1 4 ASSISTANT (Text ''new reply''))"
  have ids: "msg_id ?old = msg_id ?new" "?old \<noteq> ?new" "role ?new \<noteq> USER" by code_simp+
  obtain ms' where d: "handleMessageDelete (Some 1) ?new [?old, ?new] = Some ms'"
    by (simp add: handleMessageDelete_def target_index_def)
  have "\<forall>m \<in> set ms'. msg_id m \<noteq> msg_id ?new"
    using delete_removes_same_id [of ?new 1 "[?old, ?new]" ms'] ids(3) d by simp
  moreover have "set ms' \<subseteq> {?old, ?new}"
    using d ids(3) by (auto simp: handleMessageDelete_def target_index_def split: if_splits)
  ultimately have "ms' = []" using ids(1) by (cases ms') auto
  with d ids(2) show ?thesis by (simp add: Let_def)
qed

text \<open>
  Regenerating a reply cuts the conversation before the last user message that precedes it
  and sends the text of that message again.
\<close>

theorem reset_resends_last_user:
  assumes "k < length ms" "ms ! k = target" "role target = ASSISTANT \<or> role target = SYSTEM"
    and "handleMessageReset (Some k) target ms = (ms', Some s)"
  shows "\<exists>u < k. role (ms ! u) = USER \<and> (\<forall>j. u < j \<and> j < k \<longrightarrow> role (ms ! j) \<noteq> USER) \<and>
    ms' = take u ms \<and> s = getTextContent (ms ! u)"
proof (cases "user_before ms k")
  case None
  then show ?thesis using assms by (auto simp: handleMessageReset_def target_index_def roles)
next
  case (Some u)
  then have "ms' = take u ms" "s = getTextContent (ms ! u)"
    using assms by (auto simp: handleMessageReset_def target_index_def roles)
  then show ?thesis using user_before_Some [OF Some] by blast
qed

theorem reset_resends_last_user_witness:
  "handleMessageReset (Some 1) (sample_messages ! 1) sample_messages = ([], Some ''hi'')"
proof -
  have k: "1 < length sample_messages" "role (sample_messages ! 1) = ASSISTANT" by code_simp+
  have r: "\<exists>ms' s. handleMessageReset (Some 1) (sample_messages ! 1) sample_messages = (ms', Some s)"
    by (simp add: handleMessageReset_def target_index_def k(2) sample_messages_def createMessage_def generateMessageId_def roles)
  then obtain ms' s where h: "handleMessageReset (Some 1) (sample_messages ! 1) sample_messages = (ms', Some s)" by blast
  have "\<exists>u < 1. role (sample_messages ! u) = USER \<and> (\<forall>j. u < j \<and> j < 1 \<longrightarrow> role (sample_messages ! j) \<noteq> USER) \<and>
    ms' = take u sample_messages \<and> s = getTextContent (sample_messages ! u)"
    using reset_resends_last_user [OF k(1) refl _ h] k(2) by blast
  then have "ms' = []" "s = getTextContent (sample_messages ! 0)" by auto
  moreover have "getTextContent (sample_messages ! 0) = ''hi''" by code_simp
  ultimately show ?thesis using h by simp
qed

section \<open>The payload\<close>

lemma addParameter_other: "q \<noteq> param \<Longrightarrow> map_of (addParameter inputs en param payload) q = map_of payload q"
  by (auto simp: addParameter_def Let_def)

definition parameterSent :: "jsval jsobj \<Rightarrow> jsval jsobj \<Rightarrow> string \<Rightarrow> bool" where
  "parameterSent inputs en param \<longleftrightarrow> truthy (field_of en param) \<and>
     (if param = ''max_tokens'' then is_number (field_of inputs param)
      else field_of inputs param \<noteq> Undef \<and> field_of inputs param \<noteq> Null)"

lemma addParameter_own:
  "map_of (addParameter inputs en param payload) param =
     (if parameterSent inputs en param then Some (field_of inputs param) else map_of payload param)"
  by (simp add: addParameter_def parameterSent_def Let_def)

text \<open>
  The request carries the conversation in order, and a sampling parameter exactly when it is
  switched on and has a value (a number, for the token limit).
\<close>

theorem payload_parameters:
  assumes "param \<in> set PAYLOAD_PARAMS"
  shows "map_of (buildApiPayload ms None inputs en) param =
      (if parameterSent inputs en param then Some (field_of inputs param) else None) \<and>
    map_of (buildApiPayload ms None inputs en) ''messages'' =
      Some (Arr (map (\<lambda>m. api_message (role m, msg_body m)) (filter isValidMessage ms)))"
  using assms
  by (auto simp: buildApiPayload_def PAYLOAD_PARAMS_def addParameter_other addParameter_own Let_def comp_def
      formatMessageForAPI_def)

theorem payload_parameters_witness:
  "map_of (buildApiPayload sample_messages None [(''max_tokens'', Str ''12'')] [(''max_tokens'', Bool True)]) ''max_tokens'' = None"
proof -
  have "\<not> parameterSent [(''max_tokens'', Str ''12'')] [(''max_tokens'', Bool True)] ''max_tokens''"
    "''max_tokens'' \<in> set PAYLOAD_PARAMS" by code_simp+
  then show ?thesis using payload_parameters [of "''max_tokens''" sample_messages] by simp
qed

section \<open>Sending\<close>

lemma createMessage_fields [simp]:
  "role (fst (createMessage now n rl b)) = rl" "msg_body (fst (createMessage now n rl b)) = b"
  "msg_id (fst (createMessage now n rl b)) = show_nat n" "snd (createMessage now n rl b) = Suc n"
  by (simp_all add: createMessage_def generateMessageId_def)

lemma loading_fields [simp]:
  "role (fst (createLoadingAssistantMessage now n)) = ASSISTANT"
  "msg_id (fst (createLoadingAssistantMessage now n)) = show_nat n"
  "msg_body (fst (createLoadingAssistantMessage now n)) = Text []"
  "status (fst (createLoadingAssistantMessage now n)) = Some LOADING"
  "reasoning_text (fst (createLoadingAssistantMessage now n)) = []"
  "snd (createLoadingAssistantMessage now n) = Suc n"
  by (simp_all add: createLoadingAssistantMessage_def createMessage_def generateMessageId_def reasoning_text_def)

text \<open>
  Sending a message (without a custom body) appends the user's message and a reply in the
  loading state, with two fresh ids, and the request carries the conversation up to and with the
  user's message, not the placeholder of the reply.
\<close>

theorem send_appends:
  "\<exists>user reply. onMessageSend now False body inputs en urls imageEnabled text (ms, n) =
      Inr (SendRequest (Obj (buildApiPayload (ms @ [user]) None inputs en)) (truthy (field_of inputs ''stream''))
             (ms @ [user, reply]), n + 3) \<and>
    role user = USER \<and> getTextContent user = text \<and> role reply = ASSISTANT \<and> status reply = Some LOADING \<and>
    msg_body reply = Text [] \<and> msg_id user = show_nat (n + 2) \<and> msg_id reply = show_nat (n + 1)"
proof -
  let ?valid = "filter (\<lambda>url. trim url \<noteq> []) urls"
  let ?user = "fst (createMessage now (n + 2) USER (buildMessageContent text ?valid imageEnabled))"
  let ?reply = "fst (createLoadingAssistantMessage now (n + 1))"
  have "getTextContent ?user = text"
    by (auto simp: getTextContent_def buildMessageContent_def Let_def TextPart_def is_text_part_def part_text_def)
  moreover have "onMessageSend now False body inputs en urls imageEnabled text (ms, n) =
      Inr (SendRequest (Obj (buildApiPayload (ms @ [?user]) None inputs en)) (truthy (field_of inputs ''stream''))
             (ms @ [?user, ?reply]), n + 3)"
    by (simp add: onMessageSend_def Let_def case_prod_beta)
  ultimately show ?thesis by (intro exI [of _ ?user] exI [of _ ?reply]) simp
qed

end
