(* ===== verification/Playground_Stream.thy ===== *)
theory Playground_Stream
  imports Playground_Messages
begin

text \<open>
  Requests of the playground (\<open>src/web/src/hooks/playground/useApiRequest.jsx\<close>): the streaming
  connection with its event handlers, the plain request, and stopping. The state is the message
  list, the debug panel and the variables of the one current connection; every event of the
  connection or of the request is a function on it. Messages that are saved with a timeout of 0
  are the component \<open>savedMessages\<close>.

  The connection is the third-party \<open>sse.js\<close>: its events are the arguments of the handlers and
  may come in any order. The texts that \<open>t\<close> translates are the constructors of \<open>ui_text\<close>; the
  translation is the parameter \<open>t\<close>.
\<close>

datatype ui_text =
    RequestErrorPrefix | RequestError | ParseErrorText | Disconnected | ConnectError
  | UnreadableBody | TypeErrorText

datatype debug_tab = PREVIEW | REQUEST | RESPONSE

text \<open>The response shown in the debug panel: text, or the received text followed by an error report.\<close>

datatype debug_response = NoResponse | ResponseText string | ResponseValue jsval | ResponseError string

record playground =
  messages :: "message list"
  debugRequest :: jsval
  debugResponse :: debug_response
  sseMessages :: "string list option"
  isStreaming :: bool
  activeDebugTab :: debug_tab
  sseSourceRef :: bool
  sourceClosed :: bool
  responseData :: string
  hasReceivedFirstResponse :: bool
  isStreamComplete :: bool
  savedMessages :: "message list option"

section \<open>Updating the last message\<close>

text \<open>\<open>finished\<close> is the second argument after its default, which stands for an undefined one.\<close>

definition applyAutoCollapseLogic :: "message \<Rightarrow> bool \<Rightarrow> message \<Rightarrow> message" where
  "applyAutoCollapseLogic old finished m =
     (let shouldAutoCollapse = (finished \<and> \<not> hasAutoCollapsed old) in
      m\<lparr>isThinkingComplete := Some finished,
        hasAutoCollapsed := shouldAutoCollapse \<or> hasAutoCollapsed old,
        isReasoningExpanded := (if shouldAutoCollapse then False else isReasoningExpanded old)\<rparr>)"

text \<open>\<open>[...ms.slice(0, -1), m]\<close>\<close>

definition replace_last :: "message list \<Rightarrow> message \<Rightarrow> message list" where
  "replace_last ms m = butlast ms @ [m]"

definition generating :: "message \<Rightarrow> bool" where
  "generating m \<longleftrightarrow> status m = Some LOADING \<or> status m = Some INCOMPLETE"

definition settled :: "message \<Rightarrow> bool" where
  "settled m \<longleftrightarrow> status m = Some COMPLETE \<or> status m = Some ERROR"

text \<open>Number of occurrences of a tag; two occurrences never overlap.\<close>

fun count_tag :: "string \<Rightarrow> string \<Rightarrow> nat" where
  "count_tag p [] = 0"
| "count_tag p (c # s) = (if prefix p (c # s) then Suc (count_tag p s) else count_tag p s)"

definition appendReasoning :: "string \<Rightarrow> message \<Rightarrow> message" where
  "appendReasoning chunk m =
     m\<lparr>reasoningContent := Some (reasoning_text m @ chunk), status := Some INCOMPLETE, isThinkingComplete := Some False\<rparr>"

text \<open>The flag handed to \<open>applyAutoCollapseLogic\<close> may be undefined, and then its default \<open>true\<close> holds.\<close>

definition appendContent :: "string \<Rightarrow> message \<Rightarrow> message" where
  "appendContent chunk m =
     (let newContent = body_text (msg_body m) @ chunk;
          closedByTag = isReasoningExpanded m \<and> js_includes newContent THINK_CLOSE \<and>
            count_tag THINK_OPEN newContent > 0 \<and> count_tag THINK_CLOSE newContent > 0 \<and>
            count_tag THINK_CLOSE newContent \<ge> count_tag THINK_OPEN newContent;
          thinkingCompleteFromTags = (if closedByTag then Some True else isThinkingComplete m);
          thinkingComplete = (if reasoning_text m \<noteq> [] \<and> isThinkingComplete m \<noteq> Some True then Some True
                              else thinkingCompleteFromTags);
          finished = (case thinkingComplete of None \<Rightarrow> True | Some b \<Rightarrow> b) in
      applyAutoCollapseLogic m finished (m\<lparr>msg_body := Text newContent, status := Some INCOMPLETE\<rparr>))"

datatype chunk_type = Reasoning | Content

definition streamMessageUpdate :: "string \<Rightarrow> chunk_type \<Rightarrow> message list \<Rightarrow> message list" where
  "streamMessageUpdate chunk ty ms =
     (if ms = [] then ms
      else
        let lastMessage = last ms in
        if role lastMessage \<noteq> ASSISTANT then ms
        else if status lastMessage = Some ERROR then ms
        else if generating lastMessage then
          replace_last ms (case ty of Reasoning \<Rightarrow> appendReasoning chunk lastMessage
                                    | Content \<Rightarrow> appendContent chunk lastMessage)
        else ms)"

text \<open>The updater of \<open>completeMessage\<close>: an empty list has no last message, and reading its status throws.\<close>

definition completeUpdate :: "status \<Rightarrow> message list \<Rightarrow> message list" where
  "completeUpdate st ms =
     (let lastMessage = last ms in
      if settled lastMessage then ms
      else replace_last ms (applyAutoCollapseLogic lastMessage True (lastMessage\<lparr>status := Some st\<rparr>)))"

definition completeMessage :: "status \<Rightarrow> playground \<Rightarrow> js_error + playground" where
  "completeMessage st pg =
     (if messages pg = [] then Inl TypeError
      else
        let updated = completeUpdate st (messages pg) in
        Inr (pg\<lparr>messages := updated,
                savedMessages := (if settled (last (messages pg)) then savedMessages pg
                                  else if st = COMPLETE \<or> st = ERROR then Some updated
                                  else savedMessages pg)\<rparr>))"

section \<open>The plain request\<close>

definition startNonStream :: "jsval \<Rightarrow> playground \<Rightarrow> playground" where
  "startNonStream payload pg =
     pg\<lparr>debugRequest := payload, debugResponse := NoResponse, sseMessages := None, isStreaming := False,
        activeDebugTab := REQUEST\<rparr>"

text \<open>\<open>v?.[0]\<close>; of a text it is the first character.\<close>

fun first_item :: "jsval \<Rightarrow> jsval" where
  "first_item (Arr (x # xs)) = x"
| "first_item (Str (c # s)) = Str [c]"
| "first_item (Obj ob) = get_prop (Obj ob) ''0''"
| "first_item _ = Undef"

text \<open>\<open>a || b\<close>\<close>

definition js_or :: "jsval \<Rightarrow> jsval \<Rightarrow> jsval" where
  "js_or a b = (if truthy a then a else b)"

definition nonStreamReply :: "msg_content \<times> string \<Rightarrow> message list \<Rightarrow> message list" where
  "nonStreamReply processed ms =
     (if ms \<noteq> [] \<and> status (last ms) = Some LOADING then
        replace_last ms (applyAutoCollapseLogic (last ms) True
          ((last ms)\<lparr>msg_body := fst processed, reasoningContent := Some (snd processed),
             status := Some COMPLETE\<rparr>))
      else ms)"

definition nonStreamFailure :: "string \<Rightarrow> jsval \<Rightarrow> message list \<Rightarrow> message list" where
  "nonStreamFailure text code ms =
     (if ms \<noteq> [] \<and> status (last ms) = Some LOADING then
        replace_last ms (applyAutoCollapseLogic (last ms) True
          ((last ms)\<lparr>msg_body := Text text, errorCode := js_or code Null, status := Some ERROR\<rparr>))
      else ms)"

text \<open>The catch block: \<open>msg\<close> and \<open>code\<close> are the error's message and errorCode.\<close>

definition nonStreamCatch :: "(ui_text \<Rightarrow> string) \<Rightarrow> string \<Rightarrow> jsval \<Rightarrow> playground \<Rightarrow> playground" where
  "nonStreamCatch t msg code pg =
     pg\<lparr>debugResponse := ResponseError msg, activeDebugTab := RESPONSE,
        messages := nonStreamFailure (t RequestErrorPrefix @ msg) code (messages pg)\<rparr>"

text \<open>
  The reply of the server with status 200. Content that is absent, or falsy, counts as the empty
  text. An array has a method \<open>includes\<close>: unless one of its items is the opening tag itself (a
  regular expression then finds the tag, and the array has no \<open>substring\<close>), it becomes the content
  as it is. Any other truthy content has no \<open>includes\<close> and ends in the catch block, as a reply that
  is \<open>null\<close> does. Reasoning that is not a text is taken as its text.
\<close>

fun think_reply :: "jsval \<Rightarrow> string \<Rightarrow> (msg_content \<times> string) option" where
  "think_reply (Str c) reasoning = (let (body, r) = processThinkTags c reasoning in Some (Text body, r))"
| "think_reply (Arr xs) reasoning = (if Str THINK_OPEN \<in> set xs then None else Some (Parts xs, reasoning))"
| "think_reply _ reasoning = None"

definition nonStreamOk :: "(ui_text \<Rightarrow> string) \<Rightarrow> jsval \<Rightarrow> playground \<Rightarrow> playground" where
  "nonStreamOk t data pg =
     (if data = Null \<or> data = Undef then
        nonStreamCatch t (t TypeErrorText) Null (pg\<lparr>debugResponse := ResponseValue data, activeDebugTab := RESPONSE\<rparr>)
      else
        let pg1 = pg\<lparr>debugResponse := ResponseValue data, activeDebugTab := RESPONSE\<rparr>;
            choice = first_item (get_prop data ''choices'') in
        if \<not> truthy choice then pg1
        else
          let msg = get_prop choice ''message'';
              content = js_or (get_prop msg ''content'') (Str []);
              reasoning = js_or (js_or (get_prop msg ''reasoning_content'') (get_prop msg ''reasoning'')) (Str []) in
          (case think_reply content (js_String reasoning) of
             Some processed \<Rightarrow> pg1\<lparr>messages := nonStreamReply processed (messages pg1)\<rparr>
           | None \<Rightarrow> nonStreamCatch t (t TypeErrorText) Null pg1))"

text \<open>
  A reply with another status: \<open>body\<close> is the text of the response, \<open>None\<close> when it cannot be
  read. The error's message is that of the server's error object, if it has one. The result is the
  text for the debug panel, the message and the code.
\<close>

definition httpError :: "(ui_text \<Rightarrow> string) \<Rightarrow> nat \<Rightarrow> string option \<Rightarrow> string \<times> string \<times> jsval" where
  "httpError t code body =
     (let parsed = (case body of None \<Rightarrow> None | Some b \<Rightarrow> json_parse b);
          parsedError = (case parsed of
                           None \<Rightarrow> Null
                         | Some j \<Rightarrow> if truthy (get_prop j ''error'') then get_prop j ''error'' else Null);
          errorBody = (case body of
                         None \<Rightarrow> t UnreadableBody
                       | Some b \<Rightarrow> if parsed = None \<and> b = [] then t UnreadableBody else b);
          httpText = ''HTTP error! status: '' @ show_nat code @ '', body: '' @ errorBody in
      (httpText, js_String (js_or (get_prop parsedError ''message'') (Str httpText)), js_or (get_prop parsedError ''code'') Null))"

definition nonStreamHttpError :: "(ui_text \<Rightarrow> string) \<Rightarrow> nat \<Rightarrow> string option \<Rightarrow> playground \<Rightarrow> playground" where
  "nonStreamHttpError t code body pg =
     (let (httpText, msg, errorCode) = httpError t code body in
      nonStreamCatch t msg errorCode (pg\<lparr>debugResponse := ResponseError httpText, activeDebugTab := RESPONSE\<rparr>))"

section \<open>The streaming connection\<close>

definition startSSE :: "jsval \<Rightarrow> playground \<Rightarrow> playground" where
  "startSSE payload pg =
     pg\<lparr>debugRequest := payload, debugResponse := NoResponse, sseMessages := Some [], isStreaming := True,
        activeDebugTab := REQUEST, sseSourceRef := True, sourceClosed := False, responseData := [],
        hasReceivedFirstResponse := False, isStreamComplete := False\<rparr>"

definition add_sse :: "string \<Rightarrow> playground \<Rightarrow> playground" where
  "add_sse d pg = pg\<lparr>sseMessages := Some ((case sseMessages pg of Some xs \<Rightarrow> xs | None \<Rightarrow> []) @ [d])\<rparr>"

text \<open>The three texts of a delta, in the order they are appended.\<close>

definition delta_chunks :: "jsval \<Rightarrow> (string \<times> chunk_type) list" where
  "delta_chunks payload =
     (let delta = get_prop (first_item (get_prop payload ''choices'')) ''delta'';
          chunk = (\<lambda>key ty. if truthy (get_prop delta key) then [(js_String (get_prop delta key), ty)] else []) in
      chunk ''reasoning_content'' Reasoning @ chunk ''reasoning'' Reasoning @ chunk ''content'' Content)"

definition apply_chunks :: "(string \<times> chunk_type) list \<Rightarrow> message list \<Rightarrow> message list" where
  "apply_chunks cs ms = foldl (\<lambda>acc (c, ty). streamMessageUpdate c ty acc) ms cs"

text \<open>The listener of \<open>message\<close>. \<open>JSON.parse\<close> of the text \<open>null\<close> gives null, whose property \<open>choices\<close> throws.\<close>

definition onSseMessage :: "(ui_text \<Rightarrow> string) \<Rightarrow> string \<Rightarrow> playground \<Rightarrow> js_error + playground" where
  "onSseMessage t d pg =
     (if d = ''[DONE]'' then
        completeMessage COMPLETE
          ((add_sse d pg)\<lparr>isStreamComplete := True, sourceClosed := True, sseSourceRef := False,
             debugResponse := ResponseText (responseData pg), isStreaming := False\<rparr>)
      else
        let failed = (\<lambda>pg'. completeMessage ERROR
              ((add_sse d pg')\<lparr>debugResponse := ResponseError (responseData pg'), isStreaming := False,
                 activeDebugTab := RESPONSE,
                 messages := streamMessageUpdate (t ParseErrorText) Content (messages pg')\<rparr>)) in
        case json_parse d of
          None \<Rightarrow> failed pg
        | Some payload \<Rightarrow>
            let pg1 = pg\<lparr>responseData := responseData pg @ d @ [CHR 0x0A],
                         activeDebugTab := (if hasReceivedFirstResponse pg then activeDebugTab pg else RESPONSE),
                         hasReceivedFirstResponse := True\<rparr>;
                pg2 = add_sse d pg1 in
            if payload = Null then failed pg2
            else Inr (pg2\<lparr>messages := apply_chunks (delta_chunks payload) (messages pg2)\<rparr>))"

text \<open>The update of the listener of \<open>error\<close>: any last message that is not settled.\<close>

definition sseFailure :: "string \<Rightarrow> jsval \<Rightarrow> message list \<Rightarrow> message list" where
  "sseFailure text code ms =
     (if ms \<noteq> [] \<and> \<not> settled (last ms) then
        replace_last ms ((last ms)\<lparr>msg_body := Text (body_text (msg_body (last ms)) @ text), errorCode := code,
          status := Some ERROR\<rparr>)
      else ms)"

definition sse_error_info :: "(ui_text \<Rightarrow> string) \<Rightarrow> string \<Rightarrow> string \<times> jsval" where
  "sse_error_info t d =
     (if d = [] then (t RequestError, Null)
      else
        case json_parse d of
          None \<Rightarrow> (d, Null)
        | Some j \<Rightarrow>
            if truthy (get_prop j ''error'')
            then (js_String (js_or (get_prop (get_prop j ''error'') ''message'') (Str d)),
                  js_or (get_prop (get_prop j ''error'') ''code'') Null)
            else (d, Null))"

text \<open>The listener of \<open>error\<close>: \<open>d\<close> is \<open>e.data\<close> (empty when undefined), \<open>rs\<close> is \<open>source.readyState\<close>.\<close>

definition onSseError :: "(ui_text \<Rightarrow> string) \<Rightarrow> string \<Rightarrow> int \<Rightarrow> playground \<Rightarrow> playground" where
  "onSseError t d rs pg =
     (if \<not> isStreamComplete pg \<and> rs \<noteq> 2 then
        let (text, code) = sse_error_info t d in
        pg\<lparr>debugResponse := ResponseError (responseData pg), activeDebugTab := RESPONSE,
           messages := sseFailure text code (messages pg), sseSourceRef := False, sourceClosed := True\<rparr>
      else pg)"

text \<open>The listener of \<open>readystatechange\<close>: \<open>code\<close> is \<open>source.status\<close>, \<open>None\<close> when undefined.\<close>

definition onReadyStateChange :: "(ui_text \<Rightarrow> string) \<Rightarrow> int \<Rightarrow> nat option \<Rightarrow> playground \<Rightarrow> js_error + playground" where
  "onReadyStateChange t rs code pg =
     (if rs \<ge> 2 \<and> code \<noteq> None \<and> code \<noteq> Some 200 \<and> \<not> isStreamComplete pg then
        completeMessage ERROR
          (pg\<lparr>debugResponse := ResponseError (responseData pg), activeDebugTab := RESPONSE, sourceClosed := True,
             messages := streamMessageUpdate (t Disconnected) Content (messages pg)\<rparr>)
      else Inr pg)"

text \<open>The catch block around \<open>source.stream()\<close>.\<close>

definition sseStartFailed :: "(ui_text \<Rightarrow> string) \<Rightarrow> playground \<Rightarrow> js_error + playground" where
  "sseStartFailed t pg =
     completeMessage ERROR
       (pg\<lparr>debugResponse := ResponseError [], activeDebugTab := RESPONSE,
          messages := streamMessageUpdate (t ConnectError) Content (messages pg)\<rparr>)"

section \<open>Stopping and sending\<close>

definition stopUpdate :: "message list \<Rightarrow> message list" where
  "stopUpdate ms =
     (if ms \<noteq> [] \<and> generating (last ms) then
        let (content, reasoning) = process_incomplete (msg_body (last ms)) (reasoning_text (last ms)) in
        replace_last ms (applyAutoCollapseLogic (last ms) True
          ((last ms)\<lparr>status := Some COMPLETE, reasoningContent := (if reasoning = [] then None else Some reasoning),
             msg_body := content\<rparr>))
      else ms)"

definition onStopGenerator :: "playground \<Rightarrow> playground" where
  "onStopGenerator pg =
     (let pg1 = (if sseSourceRef pg then pg\<lparr>sourceClosed := True, sseSourceRef := False\<rparr> else pg) in
      pg1\<lparr>messages := stopUpdate (messages pg1),
          savedMessages := (if messages pg1 \<noteq> [] \<and> generating (last (messages pg1))
                            then Some (stopUpdate (messages pg1)) else savedMessages pg1)\<rparr>)"

definition sendRequest :: "jsval \<Rightarrow> bool \<Rightarrow> playground \<Rightarrow> playground" where
  "sendRequest payload isStream pg = (if isStream then startSSE payload pg else startNonStream payload pg)"

end
