(* ===== verification/Playground_Stream_Proofs.thy ===== *)
theory Playground_Stream_Proofs
  imports Playground_Stream
begin

text \<open>
  Correctness of the playground's requests. The locale \<open>last_update\<close> states what every updater of
  the message list promises; it is interpreted on each updater of the model, and the theorems on
  event sequences follow from its lemmas.
\<close>

section \<open>Updates of the last message\<close>

text \<open>
  The contract every updater of the message list shares: it changes at most the last message,
  keeps its role and identity, and leaves a settled message alone.
\<close>

locale last_update =
  fixes upd :: "message list \<Rightarrow> message list"
  assumes shape: "upd ms = ms \<or>
      (\<exists>m. ms \<noteq> [] \<and> upd ms = replace_last ms m \<and> role m = role (last ms) \<and> msg_id m = msg_id (last ms))"
    and settled_stays: "ms \<noteq> [] \<Longrightarrow> settled (last ms) \<Longrightarrow> upd ms = ms"
begin

lemma butlast_kept: "butlast (upd ms) = butlast ms"
  using shape [of ms] by (auto simp: replace_last_def)

lemma length_kept: "length (upd ms) = length ms"
  using shape [of ms] by (auto simp: replace_last_def)

lemma nonempty_kept: "upd ms = [] \<longleftrightarrow> ms = []"
  using length_kept [of ms] by (metis length_0_conv)

lemma identity_kept: "map (\<lambda>m. (msg_id m, role m)) (upd ms) = map (\<lambda>m. (msg_id m, role m)) ms"
proof (cases "upd ms = ms")
  case False
  then obtain m where m: "ms \<noteq> []" "upd ms = replace_last ms m" "role m = role (last ms)" "msg_id m = msg_id (last ms)"
    using shape [of ms] by blast
  have "map (\<lambda>m. (msg_id m, role m)) ms = map (\<lambda>m. (msg_id m, role m)) (butlast ms @ [last ms])" using m(1) by simp
  then show ?thesis using m by (simp add: replace_last_def del: append_butlast_last_id)
qed simp

end

text \<open>Updaters compose.\<close>

lemma last_update_comp:
  assumes "last_update f" "last_update g"
  shows "last_update (\<lambda>ms. g (f ms))"
proof
  fix ms :: "message list"
  show "g (f ms) = ms \<or> (\<exists>m. ms \<noteq> [] \<and> g (f ms) = replace_last ms m \<and> role m = role (last ms) \<and> msg_id m = msg_id (last ms))"
    using last_update.shape [OF assms(1), of ms] last_update.shape [OF assms(2), of "f ms"]
    by (auto simp: replace_last_def)
next
  fix ms :: "message list"
  assume "ms \<noteq> []" "settled (last ms)"
  then show "g (f ms) = ms" using assms by (simp add: last_update.settled_stays)
qed


lemma collapse_fields [simp]:
  "role (applyAutoCollapseLogic a b m) = role m" "msg_id (applyAutoCollapseLogic a b m) = msg_id m"
  "status (applyAutoCollapseLogic a b m) = status m" "msg_body (applyAutoCollapseLogic a b m) = msg_body m"
  "reasoningContent (applyAutoCollapseLogic a b m) = reasoningContent m"
  by (simp_all add: applyAutoCollapseLogic_def Let_def)

lemma append_fields [simp]:
  "role (appendReasoning c m) = role m" "msg_id (appendReasoning c m) = msg_id m"
  "status (appendReasoning c m) = Some INCOMPLETE" "msg_body (appendReasoning c m) = msg_body m"
  "reasoningContent (appendReasoning c m) = Some (reasoning_text m @ c)"
  "role (appendContent c m) = role m" "msg_id (appendContent c m) = msg_id m"
  "status (appendContent c m) = Some INCOMPLETE" "msg_body (appendContent c m) = Text (body_text (msg_body m) @ c)"
  "reasoningContent (appendContent c m) = reasoningContent m"
  by (simp_all add: appendReasoning_def appendContent_def Let_def)

lemma settled_not_generating: "settled m \<Longrightarrow> \<not> generating m"
  by (auto simp: settled_def generating_def)

interpretation stream: last_update "streamMessageUpdate c ty" for c ty
proof
  fix ms :: "message list"
  show "streamMessageUpdate c ty ms = ms \<or> (\<exists>m. ms \<noteq> [] \<and> streamMessageUpdate c ty ms = replace_last ms m \<and>
      role m = role (last ms) \<and> msg_id m = msg_id (last ms))"
    by (cases ty) (auto simp: streamMessageUpdate_def Let_def)
qed (auto simp: streamMessageUpdate_def Let_def settled_not_generating)

interpretation complete_last: last_update "\<lambda>ms. if ms = [] then ms else completeUpdate st ms" for st
  by unfold_locales (auto simp: completeUpdate_def Let_def)

interpretation reply: last_update "nonStreamReply p" for p
  by unfold_locales (auto simp: nonStreamReply_def settled_def)

interpretation failure: last_update "nonStreamFailure s c" for s c
  by unfold_locales (auto simp: nonStreamFailure_def settled_def)

interpretation sse_failure: last_update "sseFailure s c" for s c
  by unfold_locales (auto simp: sseFailure_def)

interpretation stop: last_update stopUpdate
proof
  fix ms :: "message list"
  show "stopUpdate ms = ms \<or> (\<exists>m. ms \<noteq> [] \<and> stopUpdate ms = replace_last ms m \<and>
      role m = role (last ms) \<and> msg_id m = msg_id (last ms))"
    by (auto simp: stopUpdate_def Let_def split: prod.splits)
qed (simp add: stopUpdate_def settled_not_generating)

interpretation same: last_update "\<lambda>ms. ms"
  by unfold_locales auto

lemma apply_chunks_update: "last_update (apply_chunks cs)"
proof (induction cs)
  case Nil
  have "apply_chunks [] = (\<lambda>ms. ms)" by (simp add: apply_chunks_def fun_eq_iff)
  then show ?case using same.last_update_axioms by simp
next
  case (Cons x cs)
  obtain c ty where x: "x = (c, ty)" by fastforce
  have "apply_chunks (x # cs) = (\<lambda>ms. apply_chunks cs (streamMessageUpdate c ty ms))"
    by (simp add: apply_chunks_def x fun_eq_iff)
  then show ?case using last_update_comp [OF stream.last_update_axioms Cons] by simp
qed

section \<open>Events\<close>

datatype pg_event =
    SseMessage string | SseError string int | ReadyState int "nat option" | StartFailed
  | ReplyOk jsval | ReplyHttpError nat "string option" | ReplyFailed string jsval | Stop

fun pg_step :: "(ui_text \<Rightarrow> string) \<Rightarrow> pg_event \<Rightarrow> playground \<Rightarrow> js_error + playground" where
  "pg_step t (SseMessage d) pg = onSseMessage t d pg"
| "pg_step t (SseError d rs) pg = Inr (onSseError t d rs pg)"
| "pg_step t (ReadyState rs code) pg = onReadyStateChange t rs code pg"
| "pg_step t StartFailed pg = sseStartFailed t pg"
| "pg_step t (ReplyOk data) pg = Inr (nonStreamOk t data pg)"
| "pg_step t (ReplyHttpError code body) pg = Inr (nonStreamHttpError t code body pg)"
| "pg_step t (ReplyFailed msg code) pg = Inr (nonStreamCatch t msg code pg)"
| "pg_step t Stop pg = Inr (onStopGenerator pg)"

fun pg_run :: "(ui_text \<Rightarrow> string) \<Rightarrow> pg_event list \<Rightarrow> playground \<Rightarrow> js_error + playground" where
  "pg_run t [] pg = Inr pg"
| "pg_run t (ev # evs) pg = (case pg_step t ev pg of Inl e \<Rightarrow> Inl e | Inr pg' \<Rightarrow> pg_run t evs pg')"

lemma complete_nonempty:
  "messages pg \<noteq> [] \<Longrightarrow> \<exists>pg'. completeMessage st pg = Inr pg' \<and> messages pg' = completeUpdate st (messages pg) \<and>
     (settled (last (messages pg)) \<longrightarrow> savedMessages pg' = savedMessages pg)"
  by (simp add: completeMessage_def Let_def)

lemma complete_error: "completeMessage st pg = Inr pg' \<Longrightarrow> messages pg \<noteq> [] \<and> messages pg' = completeUpdate st (messages pg)"
  by (auto simp: completeMessage_def Let_def split: if_splits)

lemma add_sse_messages [simp]: "messages (add_sse d pg) = messages pg"
  by (simp add: add_sse_def)

lemma chunk_then_complete:
  "last_update (\<lambda>ms. if streamMessageUpdate c ty ms = [] then streamMessageUpdate c ty ms
     else completeUpdate st (streamMessageUpdate c ty ms))"
  using last_update_comp [OF stream.last_update_axioms complete_last.last_update_axioms] by simp

lemma nonStreamOk_messages:
  "(\<exists>p. messages (nonStreamOk t data pg) = nonStreamReply p (messages pg)) \<or>
   (\<exists>s c. messages (nonStreamOk t data pg) = nonStreamFailure s c (messages pg)) \<or>
   messages (nonStreamOk t data pg) = messages pg"
  unfolding nonStreamOk_def nonStreamCatch_def Let_def
  by (auto split: option.split simp del: split_paired_Ex split_paired_All)

lemma pg_step_update:
  assumes "pg_step t ev pg = Inr pg'"
  shows "\<exists>upd. last_update upd \<and> messages pg' = upd (messages pg)"
proof -
  have m: "last_update f \<Longrightarrow> messages pg' = f (messages pg) \<Longrightarrow> ?thesis" for f by blast
  have cc: "completeMessage st (pg0\<lparr>messages := streamMessageUpdate c ty (messages pg)\<rparr>) = Inr pg' \<Longrightarrow> ?thesis"
    for st pg0 c ty
    using m [OF chunk_then_complete [of c ty st]] complete_error by fastforce
  show ?thesis
  proof (cases ev)
    case (SseMessage d)
    show ?thesis
    proof (cases "d = ''[DONE]''")
      case True
      have "completeMessage COMPLETE ((add_sse d pg)\<lparr>isStreamComplete := True, sourceClosed := True,
          sseSourceRef := False, debugResponse := ResponseText (responseData pg), isStreaming := False\<rparr>) = Inr pg'"
        using SseMessage assms True by (simp add: onSseMessage_def)
      from complete_error [OF this] show ?thesis
        by (intro m [OF complete_last.last_update_axioms [of COMPLETE]]) simp
    next
      case False
      show ?thesis
      proof (cases "json_parse d")
        case None
        then show ?thesis using SseMessage assms False cc by (auto simp: onSseMessage_def Let_def add_sse_def)
      next
        case (Some payload)
        then show ?thesis
          using SseMessage assms False cc m [OF apply_chunks_update [of "delta_chunks payload"]]
          by (auto simp: onSseMessage_def Let_def add_sse_def split: if_splits)
      qed
    qed
  next
    case (SseError d rs)
    then show ?thesis
      using assms m [OF sse_failure.last_update_axioms] m [OF same.last_update_axioms]
      by (auto simp: onSseError_def Let_def split: prod.splits if_splits)
  next
    case (ReadyState rs code)
    then show ?thesis
      using assms cc m [OF same.last_update_axioms] by (auto simp: onReadyStateChange_def split: if_splits)
  next
    case StartFailed
    then show ?thesis using assms cc by (auto simp: sseStartFailed_def)
  next
    case (ReplyOk data)
    then have p: "pg' = nonStreamOk t data pg" using assms by simp
    from nonStreamOk_messages [of t data pg] show ?thesis
      unfolding p [symmetric]
      using m [OF reply.last_update_axioms] m [OF failure.last_update_axioms] m [OF same.last_update_axioms]
      by (elim disjE exE)
  next
    case (ReplyHttpError code body)
    then show ?thesis using assms m [OF failure.last_update_axioms]
      by (auto simp: nonStreamHttpError_def nonStreamCatch_def case_prod_unfold Let_def)
  next
    case (ReplyFailed msg code)
    then show ?thesis using assms m [OF failure.last_update_axioms] by (auto simp: nonStreamCatch_def)
  next
    case Stop
    then show ?thesis using assms m [OF stop.last_update_axioms] by (auto simp: onStopGenerator_def Let_def)
  qed
qed


lemma pg_run_update:
  "pg_run t evs pg = Inr pg' \<Longrightarrow> \<exists>upd. last_update upd \<and> messages pg' = upd (messages pg)"
proof (induction evs arbitrary: pg)
  case Nil
  then show ?case using same.last_update_axioms by auto
next
  case (Cons ev evs)
  then obtain pg1 where p: "pg_step t ev pg = Inr pg1" "pg_run t evs pg1 = Inr pg'"
    by (auto split: sum.splits)
  obtain f g where "last_update f" "messages pg1 = f (messages pg)" "last_update g" "messages pg' = g (messages pg1)"
    using pg_step_update [OF p(1)] Cons.IH [OF p(2)] by blast
  then show ?case using last_update_comp by (metis (no_types))
qed

text \<open>With a message in the list no event throws.\<close>

lemma pg_step_total:
  assumes "messages pg \<noteq> []"
  shows "\<exists>pg'. pg_step t ev pg = Inr pg'"
proof -
  have c: "messages pg0 \<noteq> [] \<Longrightarrow> \<exists>pg'. completeMessage st pg0 = Inr pg'" for st pg0
    using complete_nonempty by blast
  have s: "streamMessageUpdate a b (messages pg) \<noteq> []" for a b using assms stream.nonempty_kept by blast
  show ?thesis
    by (cases ev)
      (auto simp: onSseMessage_def onReadyStateChange_def sseStartFailed_def assms s Let_def add_sse_def
        intro!: c split: option.splits)
qed

lemma pg_run_total:
  "messages pg \<noteq> [] \<Longrightarrow> \<exists>pg'. pg_run t evs pg = Inr pg'"
proof (induction evs arbitrary: pg)
  case (Cons ev evs)
  obtain pg1 where p: "pg_step t ev pg = Inr pg1" using pg_step_total [OF Cons.prems] by blast
  then have "messages pg1 \<noteq> []"
    using pg_step_update [OF p] Cons.prems last_update.nonempty_kept by metis
  with Cons.IH p show ?case by simp
qed simp

section \<open>Accumulating a streamed reply\<close>

definition chunk_text :: "chunk_type \<Rightarrow> (string \<times> chunk_type) list \<Rightarrow> string" where
  "chunk_text ty cs = concat (map fst (filter (\<lambda>c. snd c = ty) cs))"

lemma apply_chunks_text:
  assumes "ms \<noteq> []" "role (last ms) = ASSISTANT" "generating (last ms)"
  shows "\<exists>m. apply_chunks cs ms = replace_last ms m \<and> role m = ASSISTANT \<and> generating m \<and>
    body_text (msg_body m) = body_text (msg_body (last ms)) @ chunk_text Content cs \<and>
    reasoning_text m = reasoning_text (last ms) @ chunk_text Reasoning cs"
  using assms
proof (induction cs arbitrary: ms)
  case Nil
  then show ?case
    by (intro exI [of _ "last ms"]) (simp add: apply_chunks_def replace_last_def chunk_text_def)
next
  case (Cons x cs)
  obtain c ty where x: "x = (c, ty)" by fastforce
  let ?m = "case ty of Reasoning \<Rightarrow> appendReasoning c (last ms) | Content \<Rightarrow> appendContent c (last ms)"
  have u: "streamMessageUpdate c ty ms = replace_last ms ?m"
    using Cons.prems by (auto simp: streamMessageUpdate_def Let_def generating_def)
  have l: "last (replace_last ms ?m) = ?m" "replace_last ms ?m \<noteq> []" "replace_last (replace_last ms ?m) y = replace_last ms y" for y
    by (simp_all add: replace_last_def)
  have "role ?m = ASSISTANT" "generating ?m" using Cons.prems by (simp_all add: generating_def split: chunk_type.splits)
  from Cons.IH [OF l(2), unfolded l(1), OF this] obtain m where
    m: "apply_chunks cs (replace_last ms ?m) = replace_last ms m" "role m = ASSISTANT" "generating m"
      "body_text (msg_body m) = body_text (msg_body ?m) @ chunk_text Content cs"
      "reasoning_text m = reasoning_text ?m @ chunk_text Reasoning cs"
    unfolding l(3) by blast
  have "apply_chunks (x # cs) ms = apply_chunks cs (replace_last ms ?m)" by (simp add: apply_chunks_def x u)
  with m show ?case
    by (intro exI [of _ m]) (cases ty; simp add: x chunk_text_def reasoning_text_def)
qed

definition is_delta :: "string \<Rightarrow> bool" where
  "is_delta d \<longleftrightarrow> d \<noteq> ''[DONE]'' \<and> (case json_parse d of Some p \<Rightarrow> p \<noteq> Null | None \<Rightarrow> False)"

definition data_text :: "chunk_type \<Rightarrow> string \<Rightarrow> string" where
  "data_text ty d = (case json_parse d of Some p \<Rightarrow> chunk_text ty (delta_chunks p) | None \<Rightarrow> [])"

lemma stream_deltas:
  assumes "list_all is_delta ds" "messages pg \<noteq> []" "role (last (messages pg)) = ASSISTANT" "generating (last (messages pg))"
  shows "\<exists>pg' m. pg_run t (map SseMessage ds) pg = Inr pg' \<and> messages pg' = replace_last (messages pg) m \<and>
    role m = ASSISTANT \<and> generating m \<and>
    body_text (msg_body m) = body_text (msg_body (last (messages pg))) @ concat (map (data_text Content) ds) \<and>
    reasoning_text m = reasoning_text (last (messages pg)) @ concat (map (data_text Reasoning) ds)"
  using assms
proof (induction ds arbitrary: pg)
  case Nil
  then show ?case by (auto intro!: exI [of _ "last (messages pg)"] simp: replace_last_def)
next
  case (Cons d ds)
  then obtain p where p: "json_parse d = Some p" "p \<noteq> Null" "d \<noteq> ''[DONE]''"
    by (auto simp: is_delta_def split: option.splits)
  let ?cs = "delta_chunks p"
  obtain pg1 where s: "onSseMessage t d pg = Inr pg1" "messages pg1 = apply_chunks ?cs (messages pg)"
    using p by (simp add: onSseMessage_def Let_def add_sse_def)
  obtain m where m: "apply_chunks ?cs (messages pg) = replace_last (messages pg) m" "role m = ASSISTANT" "generating m"
      "body_text (msg_body m) = body_text (msg_body (last (messages pg))) @ chunk_text Content ?cs"
      "reasoning_text m = reasoning_text (last (messages pg)) @ chunk_text Reasoning ?cs"
    using apply_chunks_text [of "messages pg" ?cs] Cons.prems by blast
  have l: "last (messages pg1) = m" "messages pg1 \<noteq> []" "replace_last (messages pg1) y = replace_last (messages pg) y" for y
    by (simp_all add: s(2) m(1) replace_last_def)
  from Cons.IH [of pg1] obtain pg' m' where
    "pg_run t (map SseMessage ds) pg1 = Inr pg'" "messages pg' = replace_last (messages pg) m'"
    "role m' = ASSISTANT" "generating m'"
    "body_text (msg_body m') = body_text (msg_body m) @ concat (map (data_text Content) ds)"
    "reasoning_text m' = reasoning_text m @ concat (map (data_text Reasoning) ds)"
    using Cons.prems(1) m(2,3) unfolding l(1,3) by (auto simp: l(2))
  then show ?case
    using s(1) m(4,5) p(1)
    by (intro exI [of _ pg'] exI [of _ m']) (simp add: data_text_def [of _ d])
qed


section \<open>Ends of a stream\<close>

lemma complete_settles:
  "completeMessage st pg = Inr pg' \<Longrightarrow> st \<in> {COMPLETE, ERROR} \<Longrightarrow> settled (last (messages pg'))"
  by (auto simp: completeMessage_def completeUpdate_def replace_last_def Let_def split: if_splits)
    (auto simp: settled_def)

lemma failure_settles: "ms \<noteq> [] \<Longrightarrow> settled (last (sseFailure s c ms))"
  by (simp add: sseFailure_def replace_last_def) (simp add: settled_def)

lemma stop_settles: "ms \<noteq> [] \<Longrightarrow> generating (last ms) \<Longrightarrow> settled (last (stopUpdate ms))"
  by (simp add: stopUpdate_def replace_last_def Let_def split: prod.splits) (simp add: settled_def)

section \<open>Properties of requests\<close>

text \<open>
  C15: A streamed reply arrives whole: after any sequence of well-formed deltas and the final
  \<open>[DONE]\<close>, the last message is complete, its text and its reasoning are the received pieces in
  order, no other message has changed, and exactly this list is saved.
\<close>

theorem stream_accumulates:
  assumes "list_all is_delta ds" "messages pg \<noteq> []" "role (last (messages pg)) = ASSISTANT"
    "generating (last (messages pg))"
  shows "\<exists>pg' m. pg_run t (map SseMessage ds @ [SseMessage ''[DONE]'']) pg = Inr pg' \<and>
    messages pg' = butlast (messages pg) @ [m] \<and> status m = Some COMPLETE \<and>
    body_text (msg_body m) = body_text (msg_body (last (messages pg))) @ concat (map (data_text Content) ds) \<and>
    reasoning_text m = reasoning_text (last (messages pg)) @ concat (map (data_text Reasoning) ds) \<and>
    savedMessages pg' = Some (messages pg') \<and> \<not> isStreaming pg' \<and> sourceClosed pg'"
proof -
  obtain pg1 m where m: "pg_run t (map SseMessage ds) pg = Inr pg1" "messages pg1 = replace_last (messages pg) m"
    "generating m" "body_text (msg_body m) = body_text (msg_body (last (messages pg))) @ concat (map (data_text Content) ds)"
    "reasoning_text m = reasoning_text (last (messages pg)) @ concat (map (data_text Reasoning) ds)"
    using stream_deltas [OF assms] by blast
  let ?m = "applyAutoCollapseLogic m True (m\<lparr>status := Some COMPLETE\<rparr>)"
  have ns: "\<not> settled m" using m(3) settled_not_generating by blast
  obtain pg2 where p: "onSseMessage t ''[DONE]'' pg1 = Inr pg2" "messages pg2 = butlast (messages pg) @ [?m]"
    "savedMessages pg2 = Some (messages pg2)" "\<not> isStreaming pg2" "sourceClosed pg2"
    using m(2) ns by (simp add: onSseMessage_def completeMessage_def completeUpdate_def replace_last_def Let_def)
  have "pg_run t (evs @ [ev]) pg0 = (case pg_run t evs pg0 of Inl e \<Rightarrow> Inl e | Inr pg' \<Rightarrow> pg_step t ev pg')" for evs ev pg0
    by (induction evs arbitrary: pg0) (auto split: sum.splits)
  then have "pg_run t (map SseMessage ds @ [SseMessage ''[DONE]'']) pg = Inr pg2" using m(1) p(1) by simp
  with p m(4,5) show ?thesis
    by (intro exI [of _ pg2] exI [of _ ?m]) (simp add: reasoning_text_def)
qed

text \<open>A conversation with a waiting reply, and a delta as the server sends it.\<close>

definition waiting :: playground where
  "waiting = startSSE Null
     \<lparr>messages = [fst (createMessage 0 4 USER (Text ''hi'')), fst (createLoadingAssistantMessage 0 5)],
      debugRequest = Null, debugResponse = NoResponse, sseMessages = None, isStreaming = False, activeDebugTab = PREVIEW,
      sseSourceRef = False, sourceClosed = False, responseData = [], hasReceivedFirstResponse = False,
      isStreamComplete = False, savedMessages = None\<rparr>"

definition delta_json :: "string \<Rightarrow> string" where
  "delta_json s = ''{'' @ quote_string ''choices'' @ '':[{'' @ quote_string ''delta'' @ '':{'' @
     quote_string ''content'' @ '':'' @ quote_string s @ ''}}]}''"

lemma waiting_facts:
  "messages waiting \<noteq> [] \<and> role (last (messages waiting)) = ASSISTANT \<and> generating (last (messages waiting)) \<and>
   body_text (msg_body (last (messages waiting))) = [] \<and> \<not> isStreamComplete waiting"
  by code_simp

theorem stream_accumulates_witness:
  "\<exists>pg' m. pg_run (\<lambda>x. []) (map SseMessage [delta_json ''Hel'', delta_json ''lo''] @ [SseMessage ''[DONE]'']) waiting = Inr pg' \<and>
     last (messages pg') = m \<and> status m = Some COMPLETE \<and> body_text (msg_body m) = ''Hello''"
proof -
  let ?ds = "[delta_json ''Hel'', delta_json ''lo'']"
  have d: "list_all is_delta ?ds" "concat (map (data_text Content) ?ds) = ''Hello''" by code_simp+
  show ?thesis
    using stream_accumulates [OF d(1), of waiting "\<lambda>x. []"] waiting_facts unfolding d(2) by fastforce
qed

text \<open>
  Whatever events arrive, in whatever order, they never add, drop, reorder or rename a
  message, and never touch any but the last one; with a message in the list none of them throws.
\<close>

theorem events_keep_messages:
  assumes "messages pg \<noteq> []"
  shows "\<exists>pg'. pg_run t evs pg = Inr pg' \<and> butlast (messages pg') = butlast (messages pg) \<and>
    map (\<lambda>m. (msg_id m, role m)) (messages pg') = map (\<lambda>m. (msg_id m, role m)) (messages pg)"
proof -
  obtain pg' where r: "pg_run t evs pg = Inr pg'" using pg_run_total [OF assms] by blast
  then obtain upd where "last_update upd" "messages pg' = upd (messages pg)" using pg_run_update by blast
  with r show ?thesis using last_update.butlast_kept last_update.identity_kept by auto
qed

theorem events_keep_messages_witness:
  "\<exists>pg'. pg_run (\<lambda>x. ''e'') [SseMessage ''no'', Stop, ReplyOk (Obj [])] waiting = Inr pg' \<and>
     map msg_id (messages pg') = [''4'', ''5'']"
proof -
  have "map msg_id (messages waiting) = [''4'', ''5'']" by code_simp
  moreover obtain pg' where "pg_run (\<lambda>x. ''e'') [SseMessage ''no'', Stop, ReplyOk (Obj [])] waiting = Inr pg'"
    "map (\<lambda>m. (msg_id m, role m)) (messages pg') = map (\<lambda>m. (msg_id m, role m)) (messages waiting)"
    using events_keep_messages [of waiting "\<lambda>x. ''e''" "[SseMessage ''no'', Stop, ReplyOk (Obj [])]"] waiting_facts by blast
  moreover have "map msg_id xs = map fst (map (\<lambda>m. (msg_id m, role m)) xs)" for xs by simp
  ultimately show ?thesis by (metis (no_types))
qed

text \<open>
  C32: A message that is complete or failed is final: no later event of a connection or a
  request, however late it arrives, changes the conversation.
\<close>

theorem settled_is_final:
  assumes "messages pg \<noteq> []" "settled (last (messages pg))"
  shows "\<exists>pg'. pg_run t evs pg = Inr pg' \<and> messages pg' = messages pg"
proof -
  obtain pg' where r: "pg_run t evs pg = Inr pg'" using pg_run_total [OF assms(1)] by blast
  then obtain upd where "last_update upd" "messages pg' = upd (messages pg)" using pg_run_update by blast
  with r show ?thesis using last_update.settled_stays [of upd "messages pg"] assms by auto
qed

theorem settled_is_final_witness:
  "\<exists>pg'. pg_run (\<lambda>x. ''e'') [SseMessage (delta_json ''late''), Stop] (onStopGenerator waiting) = Inr pg' \<and>
     messages pg' = messages (onStopGenerator waiting)"
proof -
  have "messages (onStopGenerator waiting) \<noteq> []" "settled (last (messages (onStopGenerator waiting)))" by code_simp+
  then show ?thesis by (rule settled_is_final)
qed

text \<open>
  The events that end a stream: the end marker, data that is no JSON or null, an error event on a
  connection that is not closed, a status other than 200, a connection that cannot be opened, and
  the stop button. A connection that closes with status 200, and an error event on a closed
  connection, are not among them.
\<close>

fun ends_stream :: "pg_event \<Rightarrow> bool" where
  "ends_stream (SseMessage d) = (d = ''[DONE]'' \<or> json_parse d = None \<or> json_parse d = Some Null)"
| "ends_stream (SseError d rs) = (rs \<noteq> 2)"
| "ends_stream (ReadyState rs code) = (rs \<ge> 2 \<and> code \<noteq> None \<and> code \<noteq> Some 200)"
| "ends_stream StartFailed = True"
| "ends_stream Stop = True"
| "ends_stream _ = False"

text \<open>The events of a connection and the stop button; the others belong to a plain request.\<close>

fun stream_event :: "pg_event \<Rightarrow> bool" where
  "stream_event (ReplyOk data) = False"
| "stream_event (ReplyHttpError code body) = False"
| "stream_event (ReplyFailed msg code) = False"
| "stream_event _ = True"

lemma chunk_generating:
  "ms \<noteq> [] \<Longrightarrow> generating (last ms) \<Longrightarrow> generating (last (streamMessageUpdate c ty ms)) \<and> streamMessageUpdate c ty ms \<noteq> []"
  by (auto simp: streamMessageUpdate_def Let_def replace_last_def generating_def split: chunk_type.split)

lemma chunks_generating:
  "ms \<noteq> [] \<Longrightarrow> generating (last ms) \<Longrightarrow> generating (last (apply_chunks cs ms))"
proof (induction cs arbitrary: ms)
  case (Cons c cs)
  obtain x ty where c: "c = (x, ty)" by fastforce
  have "generating (last (apply_chunks cs (streamMessageUpdate x ty ms)))"
    using chunk_generating [OF Cons.prems] by (intro Cons.IH) auto
  then show ?case by (simp add: apply_chunks_def c)
qed (simp add: apply_chunks_def)

lemma open_event:
  assumes "messages pg \<noteq> []" "generating (last (messages pg))" "stream_event ev" "\<not> ends_stream ev" "pg_step t ev pg = Inr pg'"
  shows "generating (last (messages pg'))"
proof (cases ev)
  case (SseMessage d)
  then obtain v where "json_parse d = Some v" "v \<noteq> Null" "d \<noteq> ''[DONE]''" using assms(4) by auto
  then show ?thesis using SseMessage assms(5) chunks_generating [OF assms(1,2)]
    by (auto simp: onSseMessage_def Let_def add_sse_def)
qed (use assms in \<open>auto simp: onSseError_def onReadyStateChange_def\<close>)

lemma end_event:
  assumes "messages pg \<noteq> []" "generating (last (messages pg))" "\<not> isStreamComplete pg" "ends_stream ev" "pg_step t ev pg = Inr pg'"
  shows "settled (last (messages pg'))"
proof (cases ev)
  case (SseMessage d)
  then show ?thesis using assms(4,5) complete_settles [of ERROR] complete_settles [of COMPLETE]
    by (auto simp: onSseMessage_def Let_def split: if_splits)
next
  case (SseError d rs)
  then show ?thesis using assms(3-5) failure_settles [OF assms(1)] by (auto simp: onSseError_def Let_def split: prod.splits)
next
  case (ReadyState rs code)
  then show ?thesis using assms(3-5) complete_settles [of ERROR] by (cases code) (auto simp: onReadyStateChange_def)
next
  case StartFailed
  then show ?thesis using assms(5) complete_settles [of ERROR] by (auto simp: sseStartFailed_def)
next
  case Stop
  then show ?thesis using assms(5) stop_settles [OF assms(1,2)] by (auto simp: onStopGenerator_def Let_def)
qed (use assms(4) in auto)

text \<open>
  C33: While a message (whose content, if an array, has no item that is the tag \<open><think>\<close> itself) is
  being generated by a stream that is not complete, an event of the
  connection or the stop button settles the message exactly when it is one of the six endings (the
  end marker, data that is no JSON object to read, an error event on a connection that is not
  closed, a bad HTTP status, a connection that cannot be opened, the stop button); after every other
  event, a connection that just closes with status 200 included, the message is still being generated.
\<close>

theorem stream_end_settles:
  assumes "messages pg \<noteq> []" "generating (last (messages pg))" "tag_free (msg_body (last (messages pg)))"
    "\<not> isStreamComplete pg" "stream_event ev"
  shows "\<exists>pg'. pg_step t ev pg = Inr pg' \<and>
    (if ends_stream ev then settled (last (messages pg')) else generating (last (messages pg')))"
proof -
  obtain pg' where "pg_step t ev pg = Inr pg'" using pg_step_total [OF assms(1)] by blast
  then show ?thesis using end_event [OF assms(1,2,4)] open_event [OF assms(1,2,5)] by auto
qed

theorem stream_end_settles_witness:
  "(\<exists>pg'. pg_step (\<lambda>x. ''e'') (SseError [] 1) waiting = Inr pg' \<and> settled (last (messages pg'))) \<and>
   (\<exists>pg'. pg_step (\<lambda>x. ''e'') (ReadyState 2 (Some 200)) waiting = Inr pg' \<and> generating (last (messages pg')))"
proof -
  have "tag_free (msg_body (last (messages waiting)))" by code_simp
  with waiting_facts have "messages waiting \<noteq> []" "generating (last (messages waiting))" "tag_free (msg_body (last (messages waiting)))"
    "\<not> isStreamComplete waiting" by auto
  note ends = stream_end_settles [OF this]
  show ?thesis using ends [of "SseError [] 1" "\<lambda>x. ''e''"] ends [of "ReadyState 2 (Some 200)" "\<lambda>x. ''e''"] by simp
qed

text \<open>
  A plain reply with status 200 that carries no choice leaves the conversation as it was:
  the message that waits for the reply stays in the loading state.
\<close>

theorem reply_without_choice_hangs:
  assumes "data \<noteq> Null" "data \<noteq> Undef" "first_item (get_prop data ''choices'') = Undef"
  shows "messages (nonStreamOk t data pg) = messages pg"
  using assms by (simp add: nonStreamOk_def Let_def)

theorem reply_without_choice_hangs_witness:
  "status (last (messages (nonStreamOk (\<lambda>x. []) (Obj [(''choices'', Arr [])]) waiting))) = Some LOADING"
proof -
  have "status (last (messages waiting)) = Some LOADING" by code_simp
  then show ?thesis using reply_without_choice_hangs [of "Obj [(''choices'', Arr [])]" "\<lambda>x. []" waiting] by simp
qed

end
