(* ===== verification/Playground_Chat.thy ===== *)
theory Playground_Chat
  imports Playground_Stream_Proofs
begin

text \<open>
  What the playground promises about a reply, without connections and debug data: a reply is waited
  for, written, finished or failed, and the code of \<open>src/web/src/hooks/playground/useApiRequest.jsx\<close>
  implements this.
\<close>

section \<open>Specification\<close>

datatype reply_phase = Waiting | Writing | Finished | Failed

record chat =
  earlier :: "message list"
  reply_body :: msg_content
  reply_thought :: string
  reply_phase :: reply_phase
  stream_ended :: bool

datatype chat_event =
    ChatText string
  | ChatThought string
  | ChatEnd
  | ChatFail
  | ChatError string
  | ChatDrop string
  | ChatReply msg_content string
  | ChatNoReply string
  | ChatStop

definition reply_open :: "chat \<Rightarrow> bool" where
  "reply_open c \<longleftrightarrow> reply_phase c = Waiting \<or> reply_phase c = Writing"

text \<open>Text is added while the reply is open; every way to end it closes it; nothing changes it afterwards.\<close>

definition add_text :: "string \<Rightarrow> chat \<Rightarrow> chat" where
  "add_text s c = (if reply_open c then c\<lparr>reply_body := Text (body_text (reply_body c) @ s), reply_phase := Writing\<rparr> else c)"

definition close_reply :: "reply_phase \<Rightarrow> chat \<Rightarrow> chat" where
  "close_reply p c = (if reply_open c then c\<lparr>reply_phase := p\<rparr> else c)"

fun chat_step :: "chat_event \<Rightarrow> chat \<Rightarrow> chat" where
  "chat_step (ChatText s) c = add_text s c"
| "chat_step (ChatThought s) c =
     (if reply_open c then c\<lparr>reply_thought := reply_thought c @ s, reply_phase := Writing\<rparr> else c)"
| "chat_step ChatEnd c = (close_reply Finished c)\<lparr>stream_ended := True\<rparr>"
| "chat_step ChatFail c = close_reply Failed c"
| "chat_step (ChatError s) c = (if stream_ended c then c else close_reply Failed (add_text s c))"
| "chat_step (ChatDrop s) c = (if stream_ended c then c else close_reply Failed (add_text s c))"
| "chat_step (ChatReply b r) c =
     (if reply_phase c = Waiting then c\<lparr>reply_body := b, reply_thought := r, reply_phase := Finished\<rparr> else c)"
| "chat_step (ChatNoReply s) c =
     (if reply_phase c = Waiting then c\<lparr>reply_body := Text s, reply_phase := Failed\<rparr> else c)"
| "chat_step ChatStop c =
     (if reply_open c then
        let (b, r) = process_incomplete (reply_body c) (reply_thought c) in c\<lparr>reply_body := b, reply_thought := r, reply_phase := Finished\<rparr>
      else c)"

text \<open>What an event of the page means for the chat.\<close>

definition chunk_event :: "string \<times> chunk_type \<Rightarrow> chat_event" where
  "chunk_event p = (case p of (s, Reasoning) \<Rightarrow> ChatThought s | (s, Content) \<Rightarrow> ChatText s)"

fun chat_events :: "(ui_text \<Rightarrow> string) \<Rightarrow> pg_event \<Rightarrow> chat_event list" where
  "chat_events t (SseMessage d) =
     (if d = ''[DONE]'' then [ChatEnd]
      else case json_parse d of
             None \<Rightarrow> [ChatText (t ParseErrorText), ChatFail]
           | Some payload \<Rightarrow> if payload = Null then [ChatText (t ParseErrorText), ChatFail] else map chunk_event (delta_chunks payload))"
| "chat_events t (SseError d rs) = (if rs \<noteq> 2 then [ChatError (fst (sse_error_info t d))] else [])"
| "chat_events t (ReadyState rs code) = (if rs \<ge> 2 \<and> code \<noteq> None \<and> code \<noteq> Some 200 then [ChatDrop (t Disconnected)] else [])"
| "chat_events t StartFailed = [ChatText (t ConnectError), ChatFail]"
| "chat_events t (ReplyOk data) =
     (if data = Null \<or> data = Undef then [ChatNoReply (t RequestErrorPrefix @ t TypeErrorText)]
      else
        let choice = first_item (get_prop data ''choices''); msg = get_prop choice ''message'';
            reasoning = js_or (js_or (get_prop msg ''reasoning_content'') (get_prop msg ''reasoning'')) (Str []) in
        if \<not> truthy choice then []
        else case think_reply (js_or (get_prop msg ''content'') (Str [])) (js_String reasoning) of
               Some (b, r) \<Rightarrow> [ChatReply b r]
             | None \<Rightarrow> [ChatNoReply (t RequestErrorPrefix @ t TypeErrorText)])"
| "chat_events t (ReplyHttpError code body) = [ChatNoReply (t RequestErrorPrefix @ fst (snd (httpError t code body)))]"
| "chat_events t (ReplyFailed msg code) = [ChatNoReply (t RequestErrorPrefix @ msg)]"
| "chat_events t Stop = [ChatStop]"

section \<open>The contract of a simulation\<close>

text \<open>
  Concrete steps from states with an invariant succeed, keep it, and are seen as abstract steps; then
  so are runs.
\<close>

locale simulation =
  fixes cstep :: "'ev \<Rightarrow> 'c \<Rightarrow> 'e + 'c"
    and crun :: "'ev list \<Rightarrow> 'c \<Rightarrow> 'e + 'c"
    and astep :: "'ev \<Rightarrow> 'a \<Rightarrow> 'a"
    and inv :: "'c \<Rightarrow> bool"
    and view :: "'c \<Rightarrow> 'a"
  assumes run_Nil: "crun [] c = Inr c"
    and run_Cons: "crun (ev # evs) c = (case cstep ev c of Inl e \<Rightarrow> Inl e | Inr c' \<Rightarrow> crun evs c')"
    and step_sim: "inv c \<Longrightarrow> \<exists>c'. cstep ev c = Inr c' \<and> inv c' \<and> view c' = astep ev (view c)"
begin

lemma run_sim: "inv c \<Longrightarrow> \<exists>c'. crun evs c = Inr c' \<and> inv c' \<and> view c' = fold astep evs (view c)"
proof (induction evs arbitrary: c)
  case (Cons ev evs)
  obtain c' where c': "cstep ev c = Inr c'" "inv c'" "view c' = astep ev (view c)" using step_sim [OF Cons.prems] by blast
  with Cons.IH [OF c'(2)] show ?case by (simp add: run_Cons)
qed (simp add: run_Nil)

end

section \<open>Refinement\<close>

fun phase_of :: "status option \<Rightarrow> reply_phase" where
  "phase_of (Some LOADING) = Waiting"
| "phase_of (Some INCOMPLETE) = Writing"
| "phase_of (Some ERROR) = Failed"
| "phase_of _ = Finished"

definition has_reply :: "message list \<Rightarrow> bool" where
  "has_reply ms \<longleftrightarrow> ms \<noteq> [] \<and> role (last ms) = ASSISTANT \<and> status (last ms) \<noteq> None \<and> tag_free (msg_body (last ms))"

definition chat_view :: "message list \<Rightarrow> bool \<Rightarrow> chat" where
  "chat_view ms e = \<lparr>earlier = butlast ms, reply_body = msg_body (last ms), reply_thought = reasoning_text (last ms),
     reply_phase = phase_of (status (last ms)), stream_ended = e\<rparr>"

definition chat_of :: "playground \<Rightarrow> chat" where
  "chat_of pg = chat_view (messages pg) (isStreamComplete pg)"

lemma phase_iff [simp]:
  "phase_of s = Waiting \<longleftrightarrow> s = Some LOADING" "phase_of s = Writing \<longleftrightarrow> s = Some INCOMPLETE" "phase_of s = Failed \<longleftrightarrow> s = Some ERROR"
  by (cases s rule: phase_of.cases; simp)+

lemma reply_open_view [simp]: "reply_open (chat_view ms e) = generating (last ms)"
  by (simp add: reply_open_def chat_view_def generating_def)

lemma settled_iff: "has_reply ms \<Longrightarrow> settled (last ms) \<longleftrightarrow> \<not> generating (last ms)"
  by (cases "status (last ms)" rule: phase_of.cases) (auto simp: has_reply_def settled_def generating_def)

lemmas view_defs = chat_view_def has_reply_def replace_last_def reasoning_text_def add_text_def close_reply_def

lemma text_view:
  assumes "has_reply ms"
  shows "has_reply (streamMessageUpdate s Content ms)" "chat_view (streamMessageUpdate s Content ms) e = add_text s (chat_view ms e)"
  using assms by (auto simp: streamMessageUpdate_def Let_def view_defs generating_def reply_open_def)

lemma thought_view:
  assumes "has_reply ms"
  shows "has_reply (streamMessageUpdate s Reasoning ms)"
    "chat_view (streamMessageUpdate s Reasoning ms) e = chat_step (ChatThought s) (chat_view ms e)"
  using assms by (auto simp: streamMessageUpdate_def Let_def view_defs generating_def reply_open_def)

lemma complete_view:
  assumes "has_reply ms"
  shows "has_reply (completeUpdate st ms)" "chat_view (completeUpdate st ms) e = close_reply (phase_of (Some st)) (chat_view ms e)"
proof -
  have "settled (last ms) \<longleftrightarrow> \<not> generating (last ms)" by (rule settled_iff [OF assms])
  then show "has_reply (completeUpdate st ms)" "chat_view (completeUpdate st ms) e = close_reply (phase_of (Some st)) (chat_view ms e)"
    using assms by (auto simp: completeUpdate_def Let_def view_defs reply_open_def generating_def)
qed

lemma failure_view:
  assumes "has_reply ms"
  shows "has_reply (sseFailure s c ms)" "chat_view (sseFailure s c ms) e = close_reply Failed (add_text s (chat_view ms e))"
  using assms settled_iff [OF assms] by (auto simp: sseFailure_def view_defs reply_open_def generating_def)

lemma reply_view:
  assumes "has_reply ms"
  shows "tag_free (fst p) \<Longrightarrow> has_reply (nonStreamReply p ms)" "chat_view (nonStreamReply p ms) e = chat_step (ChatReply (fst p) (snd p)) (chat_view ms e)"
    "has_reply (nonStreamFailure s c ms)" "chat_view (nonStreamFailure s c ms) e = chat_step (ChatNoReply s) (chat_view ms e)"
  using assms by (auto simp: nonStreamReply_def nonStreamFailure_def view_defs)

lemma stop_tag_free: "tag_free b \<Longrightarrow> tag_free (fst (process_incomplete b r))"
  by (cases b) (auto simp: case_prod_unfold Let_def)

lemma stop_view:
  assumes "has_reply ms"
  shows "has_reply (stopUpdate ms)" "chat_view (stopUpdate ms) e = chat_step ChatStop (chat_view ms e)"
  using assms by (auto simp: stopUpdate_def view_defs reply_open_def generating_def case_prod_unfold Let_def stop_tag_free)

lemma chunks_view:
  assumes "has_reply ms"
  shows "has_reply (apply_chunks cs ms) \<and> chat_view (apply_chunks cs ms) e = fold chat_step (map chunk_event cs) (chat_view ms e)"
  using assms
proof (induction cs arbitrary: ms)
  case (Cons c cs)
  obtain s ty where c: "c = (s, ty)" by fastforce
  have "has_reply (streamMessageUpdate s ty ms) \<and> chat_view (streamMessageUpdate s ty ms) e = chat_step (chunk_event c) (chat_view ms e)"
    using text_view [OF Cons.prems] thought_view [OF Cons.prems] by (cases ty) (simp_all add: c chunk_event_def)
  with Cons.IH [of "streamMessageUpdate s ty ms"] show ?case by (simp add: apply_chunks_def c)
qed (simp add: apply_chunks_def)

definition pg_inv :: "playground \<Rightarrow> bool" where
  "pg_inv pg \<longleftrightarrow> has_reply (messages pg)"

lemma complete_sim:
  assumes "has_reply (messages pg)"
  shows "\<exists>pg'. completeMessage st pg = Inr pg' \<and> pg_inv pg' \<and> chat_of pg' = close_reply (phase_of (Some st)) (chat_of pg)"
  using complete_view [OF assms] assms by (auto simp: completeMessage_def Let_def pg_inv_def chat_of_def has_reply_def)

lemma text_fail_sim:
  assumes "has_reply (messages pg)" "messages pg1 = streamMessageUpdate s Content (messages pg)" "isStreamComplete pg1 = isStreamComplete pg"
  shows "\<exists>pg'. completeMessage ERROR pg1 = Inr pg' \<and> pg_inv pg' \<and> chat_of pg' = close_reply Failed (add_text s (chat_of pg))"
  using complete_sim [of pg1 ERROR] text_view [OF assms(1)] assms(2,3) by (simp add: chat_of_def)

lemma sse_refines:
  assumes r: "has_reply (messages pg)"
  shows "\<exists>pg'. onSseMessage t d pg = Inr pg' \<and> pg_inv pg' \<and> chat_of pg' = fold chat_step (chat_events t (SseMessage d)) (chat_of pg)"
proof (cases "d = ''[DONE]''")
  case True
  let ?pg = "(add_sse d pg)\<lparr>isStreamComplete := True, sourceClosed := True, sseSourceRef := False,
             debugResponse := ResponseText (responseData pg), isStreaming := False\<rparr>"
  have "close_reply p (chat_of ?pg) = (close_reply p (chat_of pg))\<lparr>stream_ended := True\<rparr>" for p
    by (simp add: close_reply_def chat_of_def) (simp add: chat_view_def)
  then show ?thesis using complete_sim [of ?pg COMPLETE] r True by (simp add: onSseMessage_def)
next
  case False
  show ?thesis
  proof (cases "json_parse d = None \<or> json_parse d = Some Null")
    case True
    then show ?thesis using False text_fail_sim [OF r]
      by (auto simp: onSseMessage_def Let_def add_sse_def)
  next
    case ok: False
    then obtain payload where "json_parse d = Some payload" "payload \<noteq> Null" by (cases "json_parse d") auto
    then show ?thesis using False chunks_view [OF r]
      by (simp add: onSseMessage_def Let_def add_sse_def pg_inv_def chat_of_def)
  qed
qed

lemma think_reply_tag_free: "think_reply v r = Some p \<Longrightarrow> tag_free (fst p)"
  by (cases v) (auto simp: case_prod_unfold Let_def split: if_splits)

lemma reply_refines:
  assumes r: "has_reply (messages pg)"
  shows "pg_inv (nonStreamOk t data pg) \<and> chat_of (nonStreamOk t data pg) = fold chat_step (chat_events t (ReplyOk data)) (chat_of pg)"
proof -
  have cut: "pg_inv (nonStreamCatch t m c pg') \<and> chat_of (nonStreamCatch t m c pg') = chat_step (ChatNoReply (t RequestErrorPrefix @ m)) (chat_of pg)"
    if "messages pg' = messages pg" "isStreamComplete pg' = isStreamComplete pg" for m c pg'
    using that reply_view(3,4) [OF r] by (simp add: nonStreamCatch_def pg_inv_def chat_of_def)
  have ok: "pg_inv (pg'\<lparr>messages := nonStreamReply p (messages pg)\<rparr>) \<and>
      chat_of (pg'\<lparr>messages := nonStreamReply p (messages pg)\<rparr>) = chat_step (ChatReply (fst p) (snd p)) (chat_of pg)"
    if "isStreamComplete pg' = isStreamComplete pg" "tag_free (fst p)" for p pg'
    using that reply_view(1,2) [OF r] by (simp add: pg_inv_def chat_of_def)
  have same: "pg_inv (pg\<lparr>debugResponse := x, activeDebugTab := y\<rparr>) \<and> chat_of (pg\<lparr>debugResponse := x, activeDebugTab := y\<rparr>) = chat_of pg" for x y
    using r by (simp add: pg_inv_def chat_of_def)
  define choice where "choice = first_item (get_prop data ''choices'')"
  define content where "content = js_or (get_prop (get_prop choice ''message'') ''content'') (Str [])"
  define reasoning where "reasoning = js_or (js_or (get_prop (get_prop choice ''message'') ''reasoning_content'')
    (get_prop (get_prop choice ''message'') ''reasoning'')) (Str [])"
  show ?thesis
  proof (cases "data = Null \<or> data = Undef \<or> \<not> truthy choice")
    case True
    then show ?thesis using cut same by (auto simp: nonStreamOk_def Let_def choice_def [symmetric])
  next
    case False
    show ?thesis
    proof (cases "think_reply content (js_String reasoning)")
      case (Some p)
      then show ?thesis using False ok [OF _ think_reply_tag_free [OF Some]]
        by (simp add: nonStreamOk_def Let_def choice_def [symmetric] content_def [symmetric] reasoning_def [symmetric] case_prod_unfold)
    next
      case None
      then show ?thesis using False cut
        by (simp add: nonStreamOk_def Let_def choice_def [symmetric] content_def [symmetric] reasoning_def [symmetric])
    qed
  qed
qed

lemma step_refines:
  assumes "pg_inv pg"
  shows "\<exists>pg'. pg_step t ev pg = Inr pg' \<and> pg_inv pg' \<and> chat_of pg' = fold chat_step (chat_events t ev) (chat_of pg)"
proof -
  have r: "has_reply (messages pg)" using assms by (simp add: pg_inv_def)
  show ?thesis
  proof (cases ev)
    case (SseMessage d)
    then show ?thesis using sse_refines [OF r] by simp
  next
    case (SseError d rs)
    then show ?thesis using failure_view [OF r] r
      by (auto simp: onSseError_def pg_inv_def chat_of_def case_prod_unfold Let_def) (simp_all add: chat_view_def)
  next
    case (ReadyState rs code)
    let ?pg = "pg\<lparr>debugResponse := ResponseError (responseData pg), activeDebugTab := RESPONSE, sourceClosed := True,
             messages := streamMessageUpdate (t Disconnected) Content (messages pg)\<rparr>"
    have "stream_ended (chat_of pg) = isStreamComplete pg" by (simp add: chat_of_def chat_view_def)
    with ReadyState show ?thesis using text_fail_sim [OF r, of ?pg "t Disconnected"] assms by (cases code) (auto simp: onReadyStateChange_def)
  next
    case StartFailed
    then show ?thesis using text_fail_sim [OF r] by (simp add: sseStartFailed_def)
  next
    case (ReplyOk data)
    then show ?thesis using reply_refines [OF r, of t data] by simp
  next
    case (ReplyHttpError code body)
    then show ?thesis using reply_view(3,4) [OF r]
      by (simp add: nonStreamHttpError_def nonStreamCatch_def pg_inv_def chat_of_def case_prod_unfold Let_def)
  next
    case (ReplyFailed msg code)
    then show ?thesis using reply_view(3,4) [OF r] by (simp add: nonStreamCatch_def pg_inv_def chat_of_def)
  next
    case Stop
    then show ?thesis using stop_view [OF r] by (simp add: onStopGenerator_def pg_inv_def chat_of_def Let_def del: chat_step.simps)
  qed
qed

interpretation chat_sim: simulation "pg_step t" "pg_run t" "\<lambda>ev. fold chat_step (chat_events t ev)" pg_inv chat_of for t
  by unfold_locales (simp_all add: step_refines)

text \<open>
  C7: the playground implements the chat: from a conversation that ends in a reply with a status
  (whose content, when it is an array, has no item that is the tag \<open><think>\<close> itself), every sequence
  of replies, stream messages, errors and stops is handled without an exception and does to the
  conversation what the specification says of the chat events it stands for. A plain reply whose
  content is a text or an array finishes the message, any other truthy content fails it.
\<close>

theorem playground_refines_chat:
  assumes "messages pg \<noteq> []" "role (last (messages pg)) = ASSISTANT" "status (last (messages pg)) \<noteq> None"
    "tag_free (msg_body (last (messages pg)))"
  shows "\<exists>pg'. pg_run t evs pg = Inr pg' \<and> chat_of pg' = fold chat_step (concat (map (chat_events t) evs)) (chat_of pg)"
proof -
  have "fold (\<lambda>ev. fold chat_step (chat_events t ev)) evs c = fold chat_step (concat (map (chat_events t) evs)) c" for c
    by (induction evs arbitrary: c) simp_all
  then show ?thesis using chat_sim.run_sim [of pg t evs] assms by (auto simp: pg_inv_def has_reply_def)
qed

theorem playground_refines_chat_witness:
  "\<exists>pg'. pg_run (\<lambda>x. ''e'') [SseMessage (delta_json ''Hel''), Stop, SseError [] 1] waiting = Inr pg' \<and>
     chat_of pg' = fold chat_step (concat (map (chat_events (\<lambda>x. ''e'')) [SseMessage (delta_json ''Hel''), Stop, SseError [] 1])) (chat_of waiting)"
proof -
  have "messages waiting \<noteq> []" "role (last (messages waiting)) = ASSISTANT" "status (last (messages waiting)) \<noteq> None"
    using waiting_facts by (auto simp: generating_def)
  moreover have "tag_free (msg_body (last (messages waiting)))" by code_simp
  ultimately show ?thesis by (rule playground_refines_chat)
qed

end
