(* ===== verification/JS_Json.thy ===== *)
theory JS_Json
  imports JS_Value JS_Interfaces
begin

text \<open>
  JSON text is read back: \<open>JSON.parse\<close> inverts \<open>JSON.stringify\<close>, with and without indentation,
  on data (no undefined, numbers whose decimal form reads back, keys in the order
  \<open>Object.entries\<close> gives). A relation between values and their texts with any white space is
  between the two printers and the parser, so that each is treated once.
\<close>

section \<open>Indented text\<close>

text \<open>\<open>JSON.stringify(v, null, 2)\<close> at an indentation.\<close>

definition line_break :: "string \<Rightarrow> string" where
  "line_break ind = CHR 0x0A # ind"

fun json_pretty :: "string \<Rightarrow> jsval \<Rightarrow> string option" where
  "json_pretty ind Undef = None"
| "json_pretty ind Null = Some ''null''"
| "json_pretty ind (Bool b) = Some (if b then ''true'' else ''false'')"
| "json_pretty ind (Num n) = Some (json_number n)"
| "json_pretty ind (Str s) = Some (quote_string s)"
| "json_pretty ind (Arr xs) =
     (let nl = line_break (ind @ ''  '') in
      if xs = [] then Some ''[]''
      else Some (''['' @ nl @
        js_join ('','' @ nl) (map (\<lambda>x. case json_pretty (ind @ ''  '') x of Some t \<Rightarrow> t | None \<Rightarrow> ''null'') xs) @
        line_break ind @ '']''))"
| "json_pretty ind (Obj ps) =
     (let nl = line_break (ind @ ''  '');
          ms = filter (\<lambda>(k, t). t \<noteq> None) (obj_entries (map (\<lambda>(k, x). (k, json_pretty (ind @ ''  '') x)) ps)) in
      if ms = [] then Some ''{}''
      else Some (''{'' @ nl @
        js_join ('','' @ nl) (map (\<lambda>(k, t). quote_string k @ '': '' @ the t) ms) @
        line_break ind @ ''}''))"

section \<open>Data\<close>

definition num_readable :: "jsnum \<Rightarrow> bool" where
  "num_readable n \<longleftrightarrow> is_finite n \<and> json_number_token (number_to_string n) = Some (n, [])"

fun json_data :: "jsval \<Rightarrow> bool" where
  "json_data Undef = False"
| "json_data Null = True"
| "json_data (Bool b) = True"
| "json_data (Num n) = num_readable n"
| "json_data (Str s) = True"
| "json_data (Arr xs) = list_all json_data xs"
| "json_data (Obj ps) = (distinct (map fst ps) \<and> obj_entries ps = ps \<and> list_all (\<lambda>(k, v). json_data v) ps)"

section \<open>Texts of a value\<close>

abbreviation ws :: "string \<Rightarrow> bool" where
  "ws w \<equiv> list_all is_json_ws w"

inductive json_text :: "jsval \<Rightarrow> string \<Rightarrow> bool"
  and json_items :: "jsval list \<Rightarrow> string \<Rightarrow> bool"
  and json_pairs :: "(string \<times> jsval) list \<Rightarrow> string \<Rightarrow> bool" where
  null_text: "json_text Null ''null''"
| bool_text: "json_text (Bool b) (if b then ''true'' else ''false'')"
| num_text: "num_readable n \<Longrightarrow> json_text (Num n) (json_number n)"
| str_text: "json_text (Str s) (quote_string s)"
| arr_nil: "json_text (Arr []) ''[]''"
| arr_items: "json_items xs t \<Longrightarrow> json_text (Arr xs) (''['' @ t @ '']'')"
| obj_nil: "json_text (Obj []) ''{}''"
| obj_pairs: "json_pairs ps t \<Longrightarrow> distinct (map fst ps) \<Longrightarrow> json_text (Obj ps) (''{'' @ t @ ''}'')"
| items_one: "json_text v t \<Longrightarrow> ws a \<Longrightarrow> ws b \<Longrightarrow> json_items [v] (a @ t @ b)"
| items_cons: "json_text v t \<Longrightarrow> ws a \<Longrightarrow> json_items vs u \<Longrightarrow> json_items (v # vs) (a @ t @ '','' @ u)"
| pairs_one: "json_text v t \<Longrightarrow> ws a \<Longrightarrow> ws b \<Longrightarrow> ws c \<Longrightarrow>
    json_pairs [(k, v)] (a @ quote_string k @ '':'' @ c @ t @ b)"
| pairs_cons: "json_text v t \<Longrightarrow> ws a \<Longrightarrow> ws c \<Longrightarrow> json_pairs ps u \<Longrightarrow>
    json_pairs ((k, v) # ps) (a @ quote_string k @ '':'' @ c @ t @ '','' @ u)"

section \<open>Numbers before a delimiter\<close>

definition delimited :: "string \<Rightarrow> bool" where
  "delimited r \<longleftrightarrow> (case r of [] \<Rightarrow> True | c # s \<Rightarrow> is_json_ws c \<or> c \<in> {CHR '','', CHR '']'', CHR ''}''})"

lemma delimited_cases:
  assumes "delimited r"
  obtains "r = []" | c s where "r = c # s" "\<not> is_digit c" "c \<noteq> CHR ''.''" "c \<noteq> CHR ''e''" "c \<noteq> CHR ''E''" "c \<noteq> CHR ''-''" "c \<noteq> CHR ''+''"
  using assms by (cases r) (auto simp: delimited_def is_json_ws_def is_digit_def)

lemma delimited_ws: "ws b \<Longrightarrow> delimited r \<Longrightarrow> delimited (b @ r)"
  by (cases b) (auto simp: delimited_def)

lemma delimited_simps [simp]: "delimited []" "delimited (CHR '','' # s)" "delimited (CHR '']'' # s)" "delimited (CHR ''}'' # s)"
  by (simp_all add: delimited_def)

lemma split_digits_delim:
  assumes "delimited r"
  shows "split_digits (s @ r) = (fst (split_digits s), snd (split_digits s) @ r)"
  using assms
proof (cases rule: delimited_cases)
  case (2 c t)
  then show ?thesis
    by (induction s) (auto simp: split_digits_def)
qed (simp add: split_digits_def)

lemma split_fraction_delim:
  assumes "delimited r"
  shows "split_fraction (s @ r) = (fst (split_fraction s), snd (split_fraction s) @ r)"
proof (cases s)
  case Nil
  from assms show ?thesis by (cases rule: delimited_cases) (auto simp: Nil split_fraction_def)
qed (use assms in \<open>simp add: split_fraction_def split_digits_delim\<close>)

lemma exponent_digits_delim:
  assumes "delimited r"
  shows "exponent_digits (s @ r) = map_option (\<lambda>(e, q). (e, q @ r)) (exponent_digits s)"
proof (cases s)
  case Nil
  from assms show ?thesis
    by (cases rule: delimited_cases) (auto simp: Nil exponent_digits_def split_digits_def)
next
  case (Cons c t)
  then show ?thesis
    using split_digits_delim [OF assms, of s] split_digits_delim [OF assms, of t]
    by (auto simp: exponent_digits_def split: prod.splits)
qed

lemma split_exponent_delim:
  assumes "delimited r"
  shows "split_exponent (s @ r) = (fst (split_exponent s), snd (split_exponent s) @ r)"
proof (cases s)
  case Nil
  from assms show ?thesis by (cases rule: delimited_cases) (auto simp: Nil split_exponent_def)
qed (use assms in \<open>auto simp: split_exponent_def exponent_digits_delim split: option.splits\<close>)


lemma exponent_start_delim:
  "delimited r \<Longrightarrow> prefix ''e'' (s @ r) = prefix ''e'' s \<and> prefix ''E'' (s @ r) = prefix ''E'' s"
  by (cases s) (auto elim: delimited_cases)

lemma tl_delim: "prefix ''e'' s \<or> prefix ''E'' s \<Longrightarrow> tl (s @ r) = tl s @ r"
  by (cases s) auto

lemma json_number_token_delim:
  assumes "json_number_token s = Some (x, [])" and r: "delimited r"
  shows "json_number_token (s @ r) = Some (x, r)"
proof -
  define sg where "sg = (\<lambda>s. case s of c # t \<Rightarrow> if c = CHR ''-'' then (True, t) else (False, s) | [] \<Rightarrow> (False, []))"
  have sg: "(case x of c # t \<Rightarrow> if c = CHR ''-'' then (True, t) else (False, x) | [] \<Rightarrow> (False, [])) = sg x" for x
    by (simp add: sg_def)
  obtain neg u where u: "sg s = (neg, u)" by fastforce
  have "s \<noteq> []" using assms(1) by (auto simp: json_number_token_def split_digits_def)
  then have u': "sg (s @ r) = (neg, u @ r)" using u by (auto simp: sg_def split: list.splits if_splits)
  obtain ip r1 where r1: "split_digits u = (ip, r1)" by fastforce
  obtain fp r2 where r2: "split_fraction r1 = (fp, r2)" by fastforce
  obtain e r3 where r3: "split_exponent r2 = (e, r3)" by fastforce
  have pf: "prefix ''.'' (r1 @ r) = prefix ''.'' r1"
    using r by (cases r1) (auto elim: delimited_cases)
  have pe: "prefix ''e'' (r2 @ r) = prefix ''e'' r2" "prefix ''E'' (r2 @ r) = prefix ''E'' r2"
    using exponent_start_delim [OF r] by auto
  have bad: "((prefix ''e'' r2 \<or> prefix ''E'' r2) \<and> exponent_digits (tl (r2 @ r)) = None) =
      ((prefix ''e'' r2 \<or> prefix ''E'' r2) \<and> exponent_digits (tl r2) = None)"
    using tl_delim [of r2 r] exponent_digits_delim [OF r, of "tl r2"] by auto
  note parts = split_digits_delim [OF r, of u] split_fraction_delim [OF r, of r1] split_exponent_delim [OF r, of r2]
  note parts' = parts [unfolded r1 r2 r3 fst_conv snd_conv]
  show ?thesis
    using assms(1)
    unfolding json_number_token_def sg u u' prod.case Let_def r1 r2 r3 parts' pf pe bad fst_conv
    by (auto split: if_splits)
qed

lemma json_number_token_start:
  assumes "json_number_token s = Some (x, r)"
  obtains c t where "s = c # t" "is_digit c \<or> c = CHR ''-''"
proof (cases s)
  case Nil
  with assms show ?thesis by (simp add: json_number_token_def split_digits_def)
next
  case (Cons c t)
  with assms that show ?thesis
    by (cases "is_digit c"; cases "c = CHR ''-''") (auto simp: json_number_token_def split_digits_def)
qed

lemma json_scalar_number:
  assumes "num_readable n" "delimited r"
  shows "json_scalar (json_number n @ r) = Some (Num n, r)"
proof -
  let ?t = "number_to_string n"
  have tok: "json_number_token ?t = Some (n, [])" and fin: "is_finite n"
    using assms(1) by (simp_all add: num_readable_def)
  obtain c t where c: "?t = c # t" "is_digit c \<or> c = CHR ''-''"
    using tok by (rule json_number_token_start)
  then have "strip_prefix (d # ds) (?t @ r) = None" if "d \<in> {CHR ''n'', CHR ''t'', CHR ''f''}" for d ds
    using that by (auto simp: is_digit_def)
  then show ?thesis
    using json_number_token_delim [OF tok assms(2)] fin by (simp add: json_scalar_def json_number_def)
qed

section \<open>The parser reads every text of a value\<close>

lemma skip_ws_append: "ws a \<Longrightarrow> skip_ws (a @ s) = skip_ws s"
  by (induction a) (auto simp: skip_ws_def)

definition text_start :: "char \<Rightarrow> bool" where
  "text_start c \<longleftrightarrow> \<not> is_json_ws c \<and> c \<noteq> CHR '']'' \<and> c \<noteq> CHR ''}''"

lemma json_text_start:
  "json_text v t \<Longrightarrow> \<exists>c s. t = c # s \<and> text_start c"
  "json_items vs t \<Longrightarrow> \<exists>a c s. ws a \<and> t = a @ c # s \<and> text_start c"
  "json_pairs ps t \<Longrightarrow> \<exists>a s. ws a \<and> t = a @ CHR 0x22 # s"
proof (induction rule: json_text_json_items_json_pairs.inducts)
  case (num_text n)
  then have "json_number_token (number_to_string n) = Some (n, [])" "json_number n = number_to_string n"
    by (simp_all add: num_readable_def json_number_def)
  then show ?case
    by (elim json_number_token_start) (auto simp: text_start_def is_digit_def is_json_ws_def)
next
  case (items_one v t a b)
  then show ?case by auto
next
  case (items_cons v t a vs u)
  then show ?case by auto
next
  case (pairs_one v t a b c k)
  then show ?case by (auto simp: quote_string_def)
next
  case (pairs_cons v t a c ps u k)
  then show ?case by (auto simp: quote_string_def)
qed (auto simp: text_start_def is_json_ws_def quote_string_def)


text \<open>A parser gives a result with every large enough fuel.\<close>

definition reads :: "(nat \<Rightarrow> 'a) \<Rightarrow> 'a \<Rightarrow> bool" where
  "reads f x \<longleftrightarrow> (\<exists>m. \<forall>n\<ge>m. f n = x)"

lemma reads_const [simp, intro]: "(\<And>n. f n = x) \<Longrightarrow> reads f x"
  by (simp add: reads_def)

lemma reads_step: "reads (\<lambda>n. f (Suc n)) x \<Longrightarrow> reads f x"
  unfolding reads_def by (metis Suc_le_D Suc_le_mono)

lemma reads_trans: "reads f x \<Longrightarrow> (\<And>n. f n = x \<Longrightarrow> g n = y) \<Longrightarrow> reads g y"
  unfolding reads_def by blast

lemma reads_both:
  assumes "reads f x" "reads h z" "\<And>n. f n = x \<Longrightarrow> h n = z \<Longrightarrow> g n = y"
  shows "reads g y"
proof -
  obtain a b where "\<forall>n\<ge>a. f n = x" "\<forall>n\<ge>b. h n = z" using assms(1,2) by (auto simp: reads_def)
  then have "\<forall>n\<ge>max a b. g n = y" using assms(3) by simp
  then show ?thesis unfolding reads_def by blast
qed

lemma reads_next: "reads f x \<Longrightarrow> (\<And>n. f n = x \<Longrightarrow> g (Suc n) = y) \<Longrightarrow> reads g y"
  by (rule reads_step) (rule reads_trans)

lemma reads_next2:
  "reads f x \<Longrightarrow> reads h z \<Longrightarrow> (\<And>n. f n = x \<Longrightarrow> h n = z \<Longrightarrow> g (Suc n) = y) \<Longrightarrow> reads g y"
  by (rule reads_step) (rule reads_both)

lemma skip_ws_start: "text_start c \<Longrightarrow> skip_ws (c # s) = c # s"
  by (simp add: skip_ws_def text_start_def)

lemma skip_ws_delims [simp]:
  "skip_ws (CHR '','' # s) = CHR '','' # s" "skip_ws (CHR '']'' # s) = CHR '']'' # s"
  "skip_ws (CHR ''}'' # s) = CHR ''}'' # s" "skip_ws (CHR '':'' # s) = CHR '':'' # s"
  "skip_ws (CHR ''['' # s) = CHR ''['' # s" "skip_ws (CHR ''{'' # s) = CHR ''{'' # s"
  by (simp_all add: skip_ws_def is_json_ws_def)

lemma read_number:
  assumes "num_readable n" "ws a" "delimited r"
  shows "json_value (Suc m) (a @ json_number n @ r) = Some (Num n, r)"
proof -
  have t: "json_number_token (number_to_string n) = Some (n, [])" "json_number n = number_to_string n"
    using assms(1) by (simp_all add: num_readable_def json_number_def)
  obtain c u where c: "number_to_string n = c # u" "is_digit c \<or> c = CHR ''-''"
    using t(1) by (rule json_number_token_start)
  then have st: "text_start c" "c \<notin> {CHR 0x22, CHR ''['', CHR ''{''}"
    by (auto simp: text_start_def is_json_ws_def is_digit_def)
  then have "skip_ws (a @ json_number n @ r) = c # u @ r"
    by (simp add: t c skip_ws_append [OF assms(2)] skip_ws_start)
  moreover have "json_scalar (c # u @ r) = Some (Num n, r)"
    using json_scalar_number [OF assms(1,3)] by (simp add: t c)
  ultimately show ?thesis using st by simp
qed

lemma read_word:
  assumes "json_scalar (c # s) = Some (v, r)" "ws a" "text_start c" "c \<notin> {CHR 0x22, CHR ''['', CHR ''{''}"
  shows "json_value (Suc m) (a @ c # s) = Some (v, r)"
  using assms by (simp add: skip_ws_append skip_ws_start)

lemma text_start_words: "text_start CHR ''n''" "text_start CHR ''t''" "text_start CHR ''f''"
  by (simp_all add: text_start_def is_json_ws_def)

lemma read_string: "ws a \<Longrightarrow> json_value (Suc m) (a @ quote_string s @ r) = Some (Str s, r)"
  by (simp add: skip_ws_append quote_string_def json_string_quoted)

lemma read_array:
  assumes "ws a" "json_items xs t" "json_elems m [] (t @ CHR '']'' # r) = Some (Arr xs, r)"
  shows "json_value (Suc m) (a @ ''['' @ t @ '']'' @ r) = Some (Arr xs, r)"
proof -
  obtain b c s where "ws b" "t = b @ c # s" "text_start c" using json_text_start(2) [OF assms(2)] by blast
  then have "skip_ws (t @ CHR '']'' # r) = c # s @ CHR '']'' # r" "c \<noteq> CHR '']''"
    by (auto simp: skip_ws_append skip_ws_start text_start_def)
  with assms show ?thesis by (simp add: skip_ws_append)
qed

lemma read_object:
  assumes "ws a" "json_pairs ps t" "json_members m [] (t @ CHR ''}'' # r) = Some (Obj ps, r)"
  shows "json_value (Suc m) (a @ ''{'' @ t @ ''}'' @ r) = Some (Obj ps, r)"
proof -
  obtain b s where "ws b" "t = b @ CHR 0x22 # s" using json_text_start(3) [OF assms(2)] by blast
  then have "skip_ws (t @ CHR ''}'' # r) = CHR 0x22 # s @ CHR ''}'' # r"
    by (auto simp: skip_ws_append)
  with assms show ?thesis by (simp add: skip_ws_append)
qed


lemma read_last_item:
  assumes "json_value m (a @ t @ b @ CHR '']'' # r) = Some (v, b @ CHR '']'' # r)" "ws b"
  shows "json_elems (Suc m) acc ((a @ t @ b) @ CHR '']'' # r) = Some (Arr (acc @ [v]), r)"
  using assms by (simp add: skip_ws_append)

lemma read_item:
  assumes "json_value m (a @ t @ CHR '','' # u @ CHR '']'' # r) = Some (v, CHR '','' # u @ CHR '']'' # r)"
    "json_elems m (acc @ [v]) (u @ CHR '']'' # r) = Some (Arr ((acc @ [v]) @ vs), r)"
  shows "json_elems (Suc m) acc ((a @ t @ '','' @ u) @ CHR '']'' # r) = Some (Arr (acc @ v # vs), r)"
  using assms by simp

lemma skip_ws_quoted: "skip_ws (quote_string k @ s) = CHR 0x22 # concat (map escape_char k) @ CHR 0x22 # s"
  by (simp add: quote_string_def)

lemma read_last_pair:
  assumes "json_value m (c @ t @ b @ CHR ''}'' # r) = Some (v, b @ CHR ''}'' # r)" "ws a" "ws b"
  shows "json_members (Suc m) acc ((a @ quote_string k @ '':'' @ c @ t @ b) @ CHR ''}'' # r) =
    Some (Obj (obj_set k v acc), r)"
  using assms by (simp add: skip_ws_quoted json_string_quoted skip_ws_append)

lemma read_pair:
  assumes "json_value m (c @ t @ CHR '','' # u @ CHR ''}'' # r) = Some (v, CHR '','' # u @ CHR ''}'' # r)" "ws a"
    "json_members m (obj_set k v acc) (u @ CHR ''}'' # r) = Some (Obj (obj_spread (obj_set k v acc) ps), r)"
  shows "json_members (Suc m) acc ((a @ quote_string k @ '':'' @ c @ t @ '','' @ u) @ CHR ''}'' # r) =
    Some (Obj (obj_spread acc ((k, v) # ps)), r)"
  using assms by (simp add: skip_ws_quoted skip_ws_append json_string_quoted obj_spread_def)

lemma obj_set_fresh: "k \<notin> fst ` set ob \<Longrightarrow> obj_set k v ob = ob @ [(k, v)]"
  by (induction k v ob rule: obj_set.induct) auto

lemma obj_spread_fresh: "distinct (map fst (acc @ ps)) \<Longrightarrow> obj_spread acc ps = acc @ ps"
proof (induction ps arbitrary: acc)
  case (Cons p ps)
  obtain k v where p: "p = (k, v)" by fastforce
  have "obj_spread (acc @ [p]) ps = (acc @ [p]) @ ps" by (rule Cons.IH) (use Cons.prems in auto)
  then show ?case using Cons.prems by (simp add: p obj_spread_def obj_set_fresh)
qed (simp add: obj_spread_def)

lemma json_text_reads:
  "json_text v t \<Longrightarrow> \<forall>a r. ws a \<longrightarrow> delimited r \<longrightarrow> reads (\<lambda>n. json_value n (a @ t @ r)) (Some (v, r))"
  "json_items vs t \<Longrightarrow> \<forall>acc r. reads (\<lambda>n. json_elems n acc (t @ CHR '']'' # r)) (Some (Arr (acc @ vs), r))"
  "json_pairs ps t \<Longrightarrow> \<forall>acc r. reads (\<lambda>n. json_members n acc (t @ CHR ''}'' # r)) (Some (Obj (obj_spread acc ps), r))"
proof (induction rule: json_text_json_items_json_pairs.inducts)
  case null_text
  show ?case
    by (intro allI impI reads_step [OF reads_const]) (simp add: read_word text_start_words json_scalar_def del: json_value.simps)
next
  case (bool_text b)
  show ?case
    by (intro allI impI reads_step [OF reads_const], cases b)
      (simp_all add: read_word text_start_words json_scalar_def del: json_value.simps)
next
  case (num_text n)
  then show ?case by (intro allI impI reads_step [OF reads_const] read_number)
next
  case (str_text s)
  show ?case by (intro allI impI reads_step [OF reads_const] read_string)
next
  case arr_nil
  show ?case by (intro allI impI reads_step [OF reads_const]) (simp add: skip_ws_append)
next
  case obj_nil
  show ?case by (intro allI impI reads_step [OF reads_const]) (simp add: skip_ws_append)
next
  case (arr_items xs t)
  show ?case
  proof (intro allI impI)
    fix a r assume a: "ws a"
    have "reads (\<lambda>n. json_elems n [] (t @ CHR '']'' # r)) (Some (Arr xs, r))"
      using arr_items.IH [rule_format, of "[]" r] by simp
    moreover have "json_value (Suc n) (a @ (''['' @ t @ '']'') @ r) = Some (Arr xs, r)"
      if "json_elems n [] (t @ CHR '']'' # r) = Some (Arr xs, r)" for n
      using read_array [OF a arr_items.hyps that] by (simp del: json_value.simps)
    ultimately show "reads (\<lambda>n. json_value n (a @ (''['' @ t @ '']'') @ r)) (Some (Arr xs, r))"
      by (rule reads_next)
  qed
next
  case (obj_pairs ps t)
  show ?case
  proof (intro allI impI)
    fix a r assume a: "ws a"
    have "reads (\<lambda>n. json_members n [] (t @ CHR ''}'' # r)) (Some (Obj ps, r))"
      using obj_pairs.IH [rule_format, of "[]" r] obj_spread_fresh [of "[]" ps] obj_pairs.hyps by simp
    moreover have "json_value (Suc n) (a @ (''{'' @ t @ ''}'') @ r) = Some (Obj ps, r)"
      if "json_members n [] (t @ CHR ''}'' # r) = Some (Obj ps, r)" for n
      using read_object [OF a obj_pairs.hyps(1) that] by (simp del: json_value.simps)
    ultimately show "reads (\<lambda>n. json_value n (a @ (''{'' @ t @ ''}'') @ r)) (Some (Obj ps, r))"
      by (rule reads_next)
  qed
next
  case (items_one v t a b)
  have v: "reads (\<lambda>n. json_value n (a @ t @ b @ CHR '']'' # r)) (Some (v, b @ CHR '']'' # r))" for r
    using items_one by (simp add: delimited_ws)
  show ?case by (intro allI, rule reads_next [OF v], erule read_last_item) (rule items_one)
next
  case (items_cons v t a vs u)
  have v: "reads (\<lambda>n. json_value n (a @ t @ CHR '','' # u @ CHR '']'' # r)) (Some (v, CHR '','' # u @ CHR '']'' # r))" for r
    using items_cons by simp
  have vs: "reads (\<lambda>n. json_elems n (acc @ [v]) (u @ CHR '']'' # r)) (Some (Arr ((acc @ [v]) @ vs), r))" for acc r
    using items_cons.IH(2) by blast
  show ?case by (intro allI, rule reads_next2 [OF v vs], rule read_item)
next
  case (pairs_one v t a b c k)
  have v: "reads (\<lambda>n. json_value n (c @ t @ b @ CHR ''}'' # r)) (Some (v, b @ CHR ''}'' # r))" for r
    using pairs_one by (simp add: delimited_ws)
  have "reads (\<lambda>n. json_members n acc ((a @ quote_string k @ '':'' @ c @ t @ b) @ CHR ''}'' # r)) (Some (Obj (obj_set k v acc), r))" for acc r
    by (rule reads_next [OF v], erule read_last_pair) (rule pairs_one)+
  then show ?case by (simp only: obj_spread_def foldl.simps prod.case) blast
next
  case (pairs_cons v t a c ps u k)
  have v: "reads (\<lambda>n. json_value n (c @ t @ CHR '','' # u @ CHR ''}'' # r)) (Some (v, CHR '','' # u @ CHR ''}'' # r))" for r
    using pairs_cons by simp
  have ps: "reads (\<lambda>n. json_members n (obj_set k v acc) (u @ CHR ''}'' # r))
      (Some (Obj (obj_spread (obj_set k v acc) ps), r))" for acc r
    using pairs_cons.IH(2) by blast
  show ?case by (intro allI, rule reads_next2 [OF v ps], rule read_pair [OF _ pairs_cons.hyps(2)])
qed

lemma json_parse_text:
  assumes "json_text v t"
  shows "json_parse t = Some v"
proof -
  have "reads (\<lambda>n. json_value n t) (Some (v, []))"
    using json_text_reads(1) [OF assms, rule_format, of "[]" "[]"] by simp
  then obtain m where "\<forall>n\<ge>m. json_value n t = Some (v, [])" by (auto simp: reads_def)
  then have "json_value (max m (2 * length t + 2)) t = Some (v, [])" by simp
  then have "json_value (2 * length t + 2) t = Some (v, [])"
    using json_fuel [of t "max m (2 * length t + 2)"] by (metis max.cobounded2)
  then show ?thesis by (simp add: json_parse_def skip_ws_def)
qed

section \<open>What the printers write\<close>

lemma items_join:
  "list_all2 json_text xs ts \<Longrightarrow> xs \<noteq> [] \<Longrightarrow> ws a \<Longrightarrow> ws b \<Longrightarrow> json_items xs (a @ js_join ('','' @ a) ts @ b)"
proof (induction rule: list_all2_induct)
  case (Cons x xs t ts)
  show ?case
  proof (cases "xs = []")
    case True
    with Cons show ?thesis by (auto intro: items_one)
  next
    case False
    then have "ts \<noteq> []" using Cons.hyps(2) by auto
    then show ?thesis
      using Cons False items_cons [of x t a xs "a @ js_join ('','' @ a) ts @ b"] by (simp add: js_join_Cons)
  qed
qed simp

lemma pairs_join:
  "list_all2 (\<lambda>(k, v) (k', t). k = k' \<and> json_text v t) ps ts \<Longrightarrow> ps \<noteq> [] \<Longrightarrow> ws a \<Longrightarrow> ws b \<Longrightarrow> ws c \<Longrightarrow>
     json_pairs ps (a @ js_join ('','' @ a) (map (\<lambda>(k, t). quote_string k @ '':'' @ c @ t) ts) @ b)"
proof (induction rule: list_all2_induct)
  case (Cons p ps q ts)
  obtain k v t where pq: "p = (k, v)" "q = (k, t)" "json_text v t" using Cons.hyps(1) by (cases p; cases q) auto
  show ?case
  proof (cases "ps = []")
    case True
    with Cons pq show ?thesis using pairs_one [of v t a b c k] by simp
  next
    case False
    then have "ts \<noteq> []" using Cons.hyps(2) by auto
    then show ?thesis
      using Cons.IH [OF False] Cons.prems pairs_cons [OF pq(3), of a c ps _ k] pq by (simp add: js_join_Cons)
  qed
qed simp

text \<open>A printer writes a text of every value.\<close>

definition prints :: "(jsval \<Rightarrow> string option) \<Rightarrow> jsval \<Rightarrow> bool" where
  "prints f v \<longleftrightarrow> (\<exists>t. f v = Some t \<and> json_text v t)"

lemma prints_items:
  assumes "\<And>x. x \<in> set xs \<Longrightarrow> prints f x"
  shows "list_all2 json_text xs (map (\<lambda>x. case f x of Some t \<Rightarrow> t | None \<Rightarrow> ''null'') xs)"
  using assms by (induction xs) (fastforce simp: prints_def)+

lemma sort_key_map_comp: "sort_key k (map g xs) = map g (sort_key (k \<circ> g) xs)"
proof (induction xs)
  case (Cons x xs)
  have "insort_key k (g x) (map g ys) = map g (insort_key (k \<circ> g) x ys)" for ys
    by (induction ys) auto
  with Cons show ?case by (simp add: comp_def)
qed simp

lemma obj_entries_map: "obj_entries (map (\<lambda>(k, x). (k, f x)) ps) = map (\<lambda>(k, x). (k, f x)) (obj_entries ps)"
proof -
  have "(\<lambda>p. parse_digits (fst p)) \<circ> (\<lambda>(k, x). (k, f x)) = (\<lambda>p. parse_digits (fst p))"
    "(\<lambda>p. is_index (fst p)) \<circ> (\<lambda>(k, x). (k, f x)) = (\<lambda>p. is_index (fst p))"
    "(\<lambda>p. \<not> is_index (fst p)) \<circ> (\<lambda>(k, x). (k, f x)) = (\<lambda>p. \<not> is_index (fst p))"
    by (auto simp: fun_eq_iff)
  then show ?thesis by (simp add: obj_entries_def filter_map sort_key_map_comp)
qed

lemma prints_members:
  assumes "list_all (\<lambda>(k, x). prints f x) ps" "obj_entries ps = ps"
  defines "ms \<equiv> filter (\<lambda>(k, t). t \<noteq> None) (obj_entries (map (\<lambda>(k, x). (k, f x)) ps))"
  shows "ms = map (\<lambda>(k, x). (k, f x)) ps"
    and "list_all2 (\<lambda>(k, v) (k', t). k = k' \<and> json_text v t) ps (map (\<lambda>(k, t). (k, the t)) ms)"
proof -
  have "list_all (\<lambda>(k, t). t \<noteq> None) (map (\<lambda>(k, x). (k, f x)) ps)"
    using assms(1) by (fastforce simp: list_all_iff prints_def)
  then show ms: "ms = map (\<lambda>(k, x). (k, f x)) ps"
    by (simp add: ms_def obj_entries_map assms(2) list_all_iff)
  show "list_all2 (\<lambda>(k, v) (k', t). k = k' \<and> json_text v t) ps (map (\<lambda>(k, t). (k, the t)) ms)"
    using assms(1) unfolding ms by (induction ps) (fastforce simp: prints_def)+
qed


lemma stringify_prints: "json_data v \<Longrightarrow> prints json_stringify v"
proof (induction v)
  case (Num n)
  then show ?case by (auto simp: prints_def intro: num_text)
next
  case (Arr xs)
  then have "list_all2 json_text xs (map (\<lambda>x. case json_stringify x of Some t \<Rightarrow> t | None \<Rightarrow> ''null'') xs)"
    by (intro prints_items) (auto simp: list_all_iff)
  from items_join [OF this, of "[]" "[]"] show ?case
    by (cases "xs = []") (auto simp: prints_def intro: arr_nil dest!: arr_items)
next
  case (Obj ps)
  then have ps: "list_all (\<lambda>(k, x). prints json_stringify x) ps" "obj_entries ps = ps" "distinct (map fst ps)"
    by (fastforce simp: list_all_iff)+
  note ms = prints_members [OF ps(1,2)]
  show ?case
  proof (cases "ps = []")
    case False
    from pairs_join [OF ms(2) False, where a = "[]" and b = "[]" and c = "[]", THEN obj_pairs] show ?thesis
      using ps(3) by (simp add: prints_def case_prod_unfold comp_def)
  qed (auto simp: prints_def obj_entries_def intro: obj_nil)
qed (auto simp: prints_def intro: null_text str_text bool_text [of True, simplified] bool_text [of False, simplified])

lemma ws_space [simp]: "is_json_ws CHR '' ''"
  by (simp add: is_json_ws_def)

lemma ws_line_break [simp]: "ws ind \<Longrightarrow> ws (line_break ind)"
  by (simp add: line_break_def is_json_ws_def)

lemma pretty_prints: "json_data v \<Longrightarrow> ws ind \<Longrightarrow> prints (json_pretty ind) v"
proof (induction v arbitrary: ind)
  case (Num n)
  then show ?case by (auto simp: prints_def intro: num_text)
next
  case (Arr xs)
  let ?i = "ind @ ''  ''"
  have i: "ws ?i" using Arr.prems by simp
  then have "list_all2 json_text xs (map (\<lambda>x. case json_pretty ?i x of Some t \<Rightarrow> t | None \<Rightarrow> ''null'') xs)"
    using Arr by (intro prints_items) (auto simp: list_all_iff)
  from items_join [OF this, of "line_break ?i" "line_break ind", THEN arr_items] i Arr.prems show ?case
    by (cases "xs = []") (simp_all add: prints_def Let_def arr_nil)
next
  case (Obj ps)
  let ?i = "ind @ ''  ''"
  have i: "ws ?i" using Obj.prems by simp
  have ps: "list_all (\<lambda>(k, x). prints (json_pretty ?i) x) ps" "obj_entries ps = ps" "distinct (map fst ps)"
    using Obj i by (fastforce simp: list_all_iff)+
  note ms = prints_members [OF ps(1,2)]
  show ?case
  proof (cases "ps = []")
    case False
    from pairs_join [OF ms(2) False, where a = "line_break ?i" and b = "line_break ind" and c = "'' ''", THEN obj_pairs] show ?thesis
      using ps(3) i Obj.prems False ms(1) by (simp add: prints_def case_prod_unfold comp_def Let_def)
  qed (auto simp: prints_def obj_entries_def Let_def intro: obj_nil)
qed (auto simp: prints_def intro: null_text str_text bool_text [of True, simplified] bool_text [of False, simplified])

section \<open>The interface of the two printers\<close>

interpretation json: print_parse json_data "\<lambda>v. the (json_stringify v)" json_parse
  by unfold_locales (use stringify_prints json_parse_text in \<open>fastforce simp: prints_def\<close>)

interpretation json2: print_parse json_data "\<lambda>v. the (json_pretty [] v)" json_parse
  by unfold_locales (use pretty_prints [of _ "[]"] json_parse_text in \<open>fastforce simp: prints_def\<close>)

lemma stringify_Some: "json_data v \<Longrightarrow> json_stringify v = Some (the (json_stringify v))"
  using stringify_prints by (fastforce simp: prints_def)

lemma pretty_Some: "json_data v \<Longrightarrow> json_pretty [] v = Some (the (json_pretty [] v))"
  using pretty_prints [of v "[]"] by (fastforce simp: prints_def)

lemma quoted_object_trim:
  assumes "json_data (Obj ps)"
  shows "trim (the (json_stringify (Obj ps))) = the (json_stringify (Obj ps))"
proof -
  have "\<exists>s. the (json_stringify (Obj ps)) = CHR ''{'' # s @ [CHR ''}'']" by simp
  then show ?thesis by (auto simp: trim_simps visible_def)
qed

lemma pretty_object_trim:
  assumes "json_data (Obj ps)"
  shows "trim (the (json_pretty [] (Obj ps))) = the (json_pretty [] (Obj ps))"
proof -
  have "\<exists>s. the (json_pretty [] (Obj ps)) = CHR ''{'' # s @ [CHR ''}'']" by (auto simp: Let_def)
  then show ?thesis by (auto simp: trim_simps visible_def)
qed

section \<open>Objects without index keys\<close>

lemma obj_entries_named: "list_all (\<lambda>p. \<not> is_index (fst p)) ps \<Longrightarrow> obj_entries ps = ps"
proof -
  assume *: "list_all (\<lambda>p. \<not> is_index (fst p)) ps"
  then have "filter (\<lambda>p. is_index (fst p)) ps = []" "filter (\<lambda>p. \<not> is_index (fst p)) ps = ps"
    by (auto simp: list_all_iff filter_empty_conv)
  then show ?thesis by (simp add: obj_entries_def)
qed

lemma json_data_named:
  "distinct (map fst ps) \<Longrightarrow> list_all (\<lambda>k. \<not> is_index k) (map fst ps) \<Longrightarrow> list_all (\<lambda>(k, v). json_data v) ps \<Longrightarrow>
   json_data (Obj ps)"
  by (simp add: obj_entries_named list_all_iff)

lemma json_data_set:
  assumes "json_data (Obj ps)" "json_data v" "\<not> is_index k"
  shows "json_data (Obj (obj_set k v ps))"
proof -
  have named: "filter (\<lambda>p. is_index (fst p)) (obj_set k v ob) = filter (\<lambda>p. is_index (fst p)) ob" for ob :: "jsval jsobj"
    using assms(3) by (induction k v ob rule: obj_set.induct) auto
  have rest: "filter (\<lambda>p. \<not> is_index (fst p)) (obj_set k v ob) = obj_set k v (filter (\<lambda>p. \<not> is_index (fst p)) ob)" for ob :: "jsval jsobj"
    using assms(3) by (induction k v ob rule: obj_set.induct) auto
  have app: "obj_set k v (a @ b) = a @ obj_set k v b" if "list_all (\<lambda>p. is_index (fst p)) a" for a b :: "jsval jsobj"
    using that assms(3) by (induction a) auto
  have "obj_entries (obj_set k v ps) = obj_set k v (obj_entries ps)"
    unfolding obj_entries_def named rest by (subst app) (auto simp: list_all_iff)
  moreover have "list_all (\<lambda>(k, v). json_data v) (obj_set k v ps)"
    using assms(1,2) obj_set_values [of k v ps] by (fastforce simp: list_all_iff)
  ultimately show ?thesis using assms(1) by simp
qed

lemma json_data_set_if:
  "json_data (Obj ps) \<Longrightarrow> (c \<Longrightarrow> json_data v) \<Longrightarrow> \<not> is_index k \<Longrightarrow> json_data (Obj (set_if c k v ps))"
  by (simp add: set_if_def json_data_set del: json_data.simps)

end
