(* ===== verification/Playground_Config.thy ===== *)
theory Playground_Config
  imports Playground_Stream JS_Json
begin

text \<open>
  The configuration of the playground: its storage
  (\<open>src/web/src/components/playground/configStorage.js\<close>), the state hook
  (\<open>src/web/src/hooks/playground/usePlaygroundState.js\<close>) and the dialogs that export, import and
  reset it (\<open>ConfigManager.jsx\<close>).

  The local storage is a map from keys to texts; \<open>ok\<close> tells whether a write succeeds (a full
  storage throws, and the code swallows it). Times of the clock are arguments. Stored messages
  are JSON values; \<open>message_value\<close> is the object of a message and \<open>message_of\<close> reads it back. A
  stored list that does not have the shape of messages is outside the model of the page.
\<close>

section \<open>Messages as objects\<close>

fun status_text :: "status \<Rightarrow> string" where
  "status_text LOADING = ''loading''"
| "status_text INCOMPLETE = ''incomplete''"
| "status_text COMPLETE = ''complete''"
| "status_text ERROR = ''error''"

text \<open>A property that is present only with a value.\<close>

definition opt_prop :: "string \<Rightarrow> jsval option \<Rightarrow> jsval jsobj" where
  "opt_prop k ov = (case ov of Some v \<Rightarrow> [(k, v)] | None \<Rightarrow> [])"

definition flag :: "string \<Rightarrow> bool \<Rightarrow> jsval jsobj" where
  "flag k b = opt_prop k (if b then Some (Bool True) else None)"

definition int_value :: "int \<Rightarrow> jsval" where
  "int_value n = Num (Fin (of_int n))"

definition message_value :: "message \<Rightarrow> jsval" where
  "message_value m =
     Obj ([(''role'', Str (role m)), (''content'', body_value (msg_body m)), (''id'', Str (msg_id m)),
           (''createAt'', int_value (createAt m))]
        @ opt_prop ''reasoningContent'' (map_option Str (reasoningContent m))
        @ flag ''isReasoningExpanded'' (isReasoningExpanded m)
        @ opt_prop ''isThinkingComplete'' (map_option Bool (isThinkingComplete m))
        @ flag ''hasAutoCollapsed'' (hasAutoCollapsed m)
        @ opt_prop ''status'' (map_option (Str \<circ> status_text) (status m))
        @ opt_prop ''errorCode'' (if errorCode m = Undef then None else Some (errorCode m)))"

fun read_all :: "('a \<Rightarrow> 'b option) \<Rightarrow> 'a list \<Rightarrow> 'b list option" where
  "read_all f [] = Some []"
| "read_all f (x # xs) = (case f x of None \<Rightarrow> None | Some y \<Rightarrow> map_option (\<lambda>ys. y # ys) (read_all f xs))"

fun content_of :: "jsval \<Rightarrow> msg_content option" where
  "content_of (Str s) = Some (Text s)"
| "content_of (Arr xs) = Some (Parts xs)"
| "content_of _ = None"

definition status_of :: "jsval \<Rightarrow> status option" where
  "status_of v = find (\<lambda>st. v = Str (status_text st)) [LOADING, INCOMPLETE, COMPLETE, ERROR]"

fun int_of :: "jsval \<Rightarrow> int option" where
  "int_of (Num (Fin q)) = (if q = of_int \<lfloor>q\<rfloor> then Some \<lfloor>q\<rfloor> else None)"
| "int_of _ = None"

fun str_of :: "jsval \<Rightarrow> string option" where
  "str_of (Str s) = Some s"
| "str_of _ = None"

definition opt_flag :: "jsval \<Rightarrow> bool option" where
  "opt_flag v = (if v = Undef then None else Some (truthy v))"

definition message_of :: "jsval \<Rightarrow> message option" where
  "message_of v =
     (case (str_of (get_prop v ''role''), str_of (get_prop v ''id''), int_of (get_prop v ''createAt''),
            content_of (get_prop v ''content'')) of
        (Some r, Some i, Some c, Some b) \<Rightarrow>
          Some \<lparr>role = r, msg_id = i, createAt = c, msg_body = b,
            reasoningContent = str_of (get_prop v ''reasoningContent''),
            isReasoningExpanded = truthy (get_prop v ''isReasoningExpanded''),
            isThinkingComplete = opt_flag (get_prop v ''isThinkingComplete''),
            hasAutoCollapsed = truthy (get_prop v ''hasAutoCollapsed''),
            status = status_of (get_prop v ''status''), errorCode = get_prop v ''errorCode''\<rparr>
      | _ \<Rightarrow> None)"

section \<open>Storage\<close>

type_synonym store = "string \<Rightarrow> string option"

definition CONFIG_KEY :: string where "CONFIG_KEY = ''playground_config''"
definition MESSAGES_KEY :: string where "MESSAGES_KEY = ''playground_messages''"

text \<open>\<open>localStorage.setItem(key, JSON.stringify(v))\<close> in a try block.\<close>

definition store_json :: "bool \<Rightarrow> string \<Rightarrow> jsval \<Rightarrow> store \<Rightarrow> store" where
  "store_json ok key v st = (if ok then st(key \<mapsto> (case json_stringify v of Some t \<Rightarrow> t | None \<Rightarrow> ''undefined'')) else st)"

definition DEFAULT_inputs :: "jsval jsobj" where
  "DEFAULT_inputs =
     [(''model'', Str ''gpt-4o''), (''group'', Str []), (''temperature'', Num (string_to_number ''0.7'')),
      (''top_p'', Num (Fin 1)), (''max_tokens'', Num (Fin 4096)), (''frequency_penalty'', Num (Fin 0)),
      (''presence_penalty'', Num (Fin 0)), (''seed'', Null), (''stream'', Bool True),
      (''imageEnabled'', Bool False), (''imageUrls'', Arr [Str []])]"

definition DEFAULT_parameterEnabled :: "jsval jsobj" where
  "DEFAULT_parameterEnabled =
     [(''temperature'', Bool True), (''top_p'', Bool True), (''max_tokens'', Bool False),
      (''frequency_penalty'', Bool True), (''presence_penalty'', Bool True), (''seed'', Bool False)]"

record config =
  cfg_inputs :: "jsval jsobj"
  cfg_parameterEnabled :: "jsval jsobj"
  cfg_showDebugPanel :: jsval
  cfg_customRequestMode :: jsval
  cfg_customRequestBody :: jsval

definition DEFAULT_CONFIG :: config where
  "DEFAULT_CONFIG =
     \<lparr>cfg_inputs = DEFAULT_inputs, cfg_parameterEnabled = DEFAULT_parameterEnabled,
      cfg_showDebugPanel = Bool False, cfg_customRequestMode = Bool False, cfg_customRequestBody = Str []\<rparr>"

text \<open>The object \<open>{ inputs, parameterEnabled, showDebugPanel, customRequestMode, customRequestBody }\<close>.\<close>

definition config_value :: "config \<Rightarrow> jsval jsobj" where
  "config_value c =
     [(''inputs'', Obj (cfg_inputs c)), (''parameterEnabled'', Obj (cfg_parameterEnabled c)),
      (''showDebugPanel'', cfg_showDebugPanel c), (''customRequestMode'', cfg_customRequestMode c),
      (''customRequestBody'', cfg_customRequestBody c)]"

definition saveConfig :: "bool \<Rightarrow> string \<Rightarrow> jsval jsobj \<Rightarrow> store \<Rightarrow> store" where
  "saveConfig ok now conf st = store_json ok CONFIG_KEY (Obj (obj_set ''timestamp'' (Str now) conf)) st"

definition saveMessages :: "bool \<Rightarrow> string \<Rightarrow> jsval \<Rightarrow> store \<Rightarrow> store" where
  "saveMessages ok now msgs st =
     store_json ok MESSAGES_KEY (Obj [(''messages'', msgs), (''timestamp'', Str now)]) st"

text \<open>\<open>const n = parseInt(v, 10); Number.isNaN(n) ? v : n\<close>\<close>

definition max_tokens_of :: "jsval \<Rightarrow> jsval" where
  "max_tokens_of v = (let n = parse_int (js_String v) in if n = NaN then v else Num n)"

definition loadConfig :: "store \<Rightarrow> config" where
  "loadConfig st =
     (case st CONFIG_KEY of
        None \<Rightarrow> DEFAULT_CONFIG
      | Some savedConfig \<Rightarrow>
          if savedConfig = [] then DEFAULT_CONFIG
          else
            (case json_parse savedConfig of
               None \<Rightarrow> DEFAULT_CONFIG
             | Some Null \<Rightarrow> DEFAULT_CONFIG
             | Some parsed \<Rightarrow>
                 \<lparr>cfg_inputs = obj_set ''max_tokens'' (max_tokens_of (get_prop (get_prop parsed ''inputs'') ''max_tokens''))
                    (obj_spread DEFAULT_inputs (spread_props (get_prop parsed ''inputs''))),
                  cfg_parameterEnabled =
                    obj_spread DEFAULT_parameterEnabled (spread_props (get_prop parsed ''parameterEnabled'')),
                  cfg_showDebugPanel = js_or (get_prop parsed ''showDebugPanel'') (Bool False),
                  cfg_customRequestMode = js_or (get_prop parsed ''customRequestMode'') (Bool False),
                  cfg_customRequestBody = js_or (get_prop parsed ''customRequestBody'') (Str [])\<rparr>))"

definition loadMessages :: "store \<Rightarrow> jsval option" where
  "loadMessages st =
     (case st MESSAGES_KEY of
        None \<Rightarrow> None
      | Some saved \<Rightarrow>
          if saved = [] then None
          else
            (case json_parse saved of
               None \<Rightarrow> None
             | Some parsed \<Rightarrow>
                 if truthy (get_prop parsed ''messages'') then Some (get_prop parsed ''messages'') else None))"

definition clearConfig :: "store \<Rightarrow> store" where
  "clearConfig st = st(CONFIG_KEY := None, MESSAGES_KEY := None)"

definition clearMessages :: "store \<Rightarrow> store" where
  "clearMessages st = st(MESSAGES_KEY := None)"

definition hasStoredConfig :: "store \<Rightarrow> bool" where
  "hasStoredConfig st \<longleftrightarrow> st CONFIG_KEY \<noteq> None"

definition getConfigTimestamp :: "store \<Rightarrow> jsval" where
  "getConfigTimestamp st =
     (case st CONFIG_KEY of
        None \<Rightarrow> Null
      | Some savedConfig \<Rightarrow>
          if savedConfig = [] then Null
          else (case json_parse savedConfig of
                  None \<Rightarrow> Null
                | Some parsed \<Rightarrow> js_or (get_prop parsed ''timestamp'') Null))"

text \<open>The text of the exported file.\<close>

definition exportConfig :: "string \<Rightarrow> jsval jsobj \<Rightarrow> jsval \<Rightarrow> store \<Rightarrow> string" where
  "exportConfig now conf msgs st =
     (let stored = (case loadMessages st of Some v \<Rightarrow> v | None \<Rightarrow> Null) in
      the (json_pretty [] (Obj (obj_set ''version'' (Str ''1.0'') (obj_set ''exportTime'' (Str now)
        (obj_set ''messages'' (js_or msgs stored) conf))))))"

datatype import_error = InvalidFormat | ParseFailed

text \<open>Reading the text of a chosen file: the configuration, and the storage after it.\<close>

definition importConfig :: "bool \<Rightarrow> string \<Rightarrow> string \<Rightarrow> store \<Rightarrow> (import_error + jsval) \<times> store" where
  "importConfig ok now text st =
     (case json_parse text of
        None \<Rightarrow> (Inl ParseFailed, st)
      | Some Null \<Rightarrow> (Inl ParseFailed, st)
      | Some imported \<Rightarrow>
          if truthy (get_prop imported ''inputs'') \<and> truthy (get_prop imported ''parameterEnabled'') then
            (Inr imported,
             case get_prop imported ''messages'' of
               Arr xs \<Rightarrow> saveMessages ok now (Arr xs) st
             | _ \<Rightarrow> st)
          else (Inl InvalidFormat, st))"


section \<open>The page state\<close>

record page =
  page_store :: store
  page_config :: config
  page_messages :: "message list"
  page_restored :: bool

text \<open>The two default messages, with their texts.\<close>

definition getDefaultMessages :: "string \<Rightarrow> string \<Rightarrow> message list" where
  "getDefaultMessages userText assistantText =
     [\<lparr>role = USER, msg_id = ''2'', createAt = 1715676751919, msg_body = Text userText, reasoningContent = None,
       isReasoningExpanded = False, isThinkingComplete = None, hasAutoCollapsed = False, status = None,
       errorCode = Undef\<rparr>,
      \<lparr>role = ASSISTANT, msg_id = ''3'', createAt = 1715676751919, msg_body = Text assistantText,
       reasoningContent = Some [], isReasoningExpanded = False, isThinkingComplete = None,
       hasAutoCollapsed = False, status = None, errorCode = Undef\<rparr>]"

text \<open>The texts of the old default messages, in UTF-8.\<close>

definition OLD_USER_TEXT :: string where
  "OLD_USER_TEXT = [CHR 0xE4, CHR 0xBD, CHR 0xA0, CHR 0xE5, CHR 0xA5, CHR 0xBD]"

definition OLD_REPLY_TEXT :: string where
  "OLD_REPLY_TEXT =
     [CHR 0xE4, CHR 0xBD, CHR 0xA0, CHR 0xE5, CHR 0xA5, CHR 0xBD, CHR 0xEF, CHR 0xBC, CHR 0x8C, CHR 0xE8,
      CHR 0xAF, CHR 0xB7, CHR 0xE9, CHR 0x97, CHR 0xAE, CHR 0xE6, CHR 0x9C, CHR 0x89, CHR 0xE4, CHR 0xBB,
      CHR 0x80, CHR 0xE4, CHR 0xB9, CHR 0x88, CHR 0xE5, CHR 0x8F, CHR 0xAF, CHR 0xE4, CHR 0xBB, CHR 0xA5,
      CHR 0xE5, CHR 0xB8, CHR 0xAE, CHR 0xE5, CHR 0x8A, CHR 0xA9, CHR 0xE6, CHR 0x82, CHR 0xA8, CHR 0xE7,
      CHR 0x9A, CHR 0x84, CHR 0xE5, CHR 0x90, CHR 0x97, CHR 0xEF, CHR 0xBC, CHR 0x9F]"

definition OLD_REPLY_TEXT2 :: string where
  "OLD_REPLY_TEXT2 =
     [CHR 0xE4, CHR 0xBD, CHR 0xA0, CHR 0xE5, CHR 0xA5, CHR 0xBD, CHR 0xEF, CHR 0xBC, CHR 0x81, CHR 0xE5,
      CHR 0xBE, CHR 0x88, CHR 0xE9, CHR 0xAB, CHR 0x98, CHR 0xE5, CHR 0x85, CHR 0xB4, CHR 0xE8, CHR 0xA7,
      CHR 0x81, CHR 0xE5, CHR 0x88, CHR 0xB0, CHR 0xE4, CHR 0xBD, CHR 0xA0, CHR 0xE3, CHR 0x80, CHR 0x82,
      CHR 0xE6, CHR 0x9C, CHR 0x89, CHR 0xE4, CHR 0xBB, CHR 0x80, CHR 0xE4, CHR 0xB9, CHR 0x88, CHR 0xE6,
      CHR 0x88, CHR 0x91, CHR 0xE5, CHR 0x8F, CHR 0xAF, CHR 0xE4, CHR 0xBB, CHR 0xA5, CHR 0xE5, CHR 0xB8,
      CHR 0xAE, CHR 0xE5, CHR 0x8A, CHR 0xA9, CHR 0xE4, CHR 0xBD, CHR 0xA0, CHR 0xE7, CHR 0x9A, CHR 0x84,
      CHR 0xE5, CHR 0x90, CHR 0x97, CHR 0xEF, CHR 0xBC, CHR 0x9F]"

definition is_old_default :: "message list \<Rightarrow> bool" where
  "is_old_default ms =
     (case ms of
        [a, b] \<Rightarrow>
          msg_id a = ''2'' \<and> msg_id b = ''3'' \<and>
          (msg_body a = Text OLD_USER_TEXT \<or> msg_body b = Text OLD_REPLY_TEXT \<or> msg_body b = Text OLD_REPLY_TEXT2)
      | _ \<Rightarrow> False)"

fun read_messages :: "jsval \<Rightarrow> message list option" where
  "read_messages (Arr xs) = read_all message_of xs"
| "read_messages _ = None"

text \<open>The lazily initialised messages and the storage after it.\<close>

definition initialMessages :: "store \<Rightarrow> message list option \<times> store" where
  "initialMessages st =
     (case Option.bind (loadMessages st) read_messages of
        None \<Rightarrow> (None, st)
      | Some ms \<Rightarrow> if is_old_default ms then (None, clearMessages st) else (Some ms, st))"

text \<open>The effect that repairs a message whose generation was cut off, with the list that is saved.\<close>

definition repairUpdate :: "message list \<Rightarrow> message list" where
  "repairUpdate ms =
     (if ms \<noteq> [] \<and> generating (last ms) then
        let (content, reasoning) = process_incomplete (msg_body (last ms)) (reasoning_text (last ms)) in
        replace_last ms ((last ms)\<lparr>status := Some COMPLETE, msg_body := content,
          reasoningContent := (if reasoning = [] then None else Some reasoning), isThinkingComplete := Some True\<rparr>)
      else ms)"

definition messages_value :: "message list \<Rightarrow> jsval" where
  "messages_value ms = Arr (map message_value ms)"

text \<open>Mounting the page: the states are initialised and the repair effect runs.\<close>

definition mountPage :: "bool \<Rightarrow> string \<Rightarrow> string \<Rightarrow> string \<Rightarrow> store \<Rightarrow> page" where
  "mountPage ok now userText assistantText st =
     (let (initial, st1) = initialMessages st;
          ms = (case initial of Some xs \<Rightarrow> xs | None \<Rightarrow> getDefaultMessages userText assistantText) in
      \<lparr>page_store = (if ms \<noteq> [] \<and> generating (last ms)
                     then saveMessages ok now (messages_value (repairUpdate ms)) st1 else st1),
       page_config = loadConfig st1,
       page_messages = repairUpdate ms,
       page_restored = (initial \<noteq> None)\<rparr>)"

text \<open>The effect that runs when the language, and with it \<open>t\<close>, changes.\<close>

definition languageEffect :: "string \<Rightarrow> string \<Rightarrow> page \<Rightarrow> page" where
  "languageEffect userText assistantText p =
     (if \<not> page_restored p then p\<lparr>page_messages := getDefaultMessages userText assistantText\<rparr> else p)"

definition map_config :: "(config \<Rightarrow> config) \<Rightarrow> page \<Rightarrow> page" where
  "map_config f p = p\<lparr>page_config := f (page_config p)\<rparr>"

definition handleInputChange :: "string \<Rightarrow> jsval \<Rightarrow> page \<Rightarrow> page" where
  "handleInputChange name v = map_config (\<lambda>c. c\<lparr>cfg_inputs := obj_set name v (cfg_inputs c)\<rparr>)"

definition handleParameterToggle :: "string \<Rightarrow> page \<Rightarrow> page" where
  "handleParameterToggle name =
     map_config (\<lambda>c. c\<lparr>cfg_parameterEnabled :=
       obj_set name (Bool (\<not> truthy (field_of (cfg_parameterEnabled c) name))) (cfg_parameterEnabled c)\<rparr>)"

definition setShowDebugPanel :: "bool \<Rightarrow> page \<Rightarrow> page" where
  "setShowDebugPanel b = map_config (\<lambda>c. c\<lparr>cfg_showDebugPanel := Bool b\<rparr>)"

definition setCustomRequestMode :: "bool \<Rightarrow> page \<Rightarrow> page" where
  "setCustomRequestMode b = map_config (\<lambda>c. c\<lparr>cfg_customRequestMode := Bool b\<rparr>)"

definition setCustomRequestBody :: "string \<Rightarrow> page \<Rightarrow> page" where
  "setCustomRequestBody s = map_config (\<lambda>c. c\<lparr>cfg_customRequestBody := Str s\<rparr>)"

definition saveMessagesImmediately :: "bool \<Rightarrow> string \<Rightarrow> message list option \<Rightarrow> page \<Rightarrow> page" where
  "saveMessagesImmediately ok now toSave p =
     p\<lparr>page_store := saveMessages ok now
         (messages_value (case toSave of Some ms \<Rightarrow> ms | None \<Rightarrow> page_messages p)) (page_store p)\<rparr>"

text \<open>The timer of \<open>debouncedSaveConfig\<close> fires.\<close>

definition configTimer :: "bool \<Rightarrow> string \<Rightarrow> page \<Rightarrow> page" where
  "configTimer ok now p = p\<lparr>page_store := saveConfig ok now (config_value (page_config p)) (page_store p)\<rparr>"

definition importInto :: "jsval \<Rightarrow> config \<Rightarrow> config" where
  "importInto imported c =
     (let inp = get_prop imported ''inputs''; en = get_prop imported ''parameterEnabled'';
          dbg = get_prop imported ''showDebugPanel'' in
      \<lparr>cfg_inputs = (if truthy inp
          then obj_set ''max_tokens'' (max_tokens_of (get_prop inp ''max_tokens''))
                 (obj_spread (cfg_inputs c) (spread_props inp))
          else cfg_inputs c),
       cfg_parameterEnabled = (if truthy en then obj_spread (cfg_parameterEnabled c) (spread_props en)
                               else cfg_parameterEnabled c),
       cfg_showDebugPanel = (case dbg of Bool b \<Rightarrow> Bool b | _ \<Rightarrow> cfg_showDebugPanel c),
       cfg_customRequestMode = js_or (get_prop imported ''customRequestMode'') (cfg_customRequestMode c),
       cfg_customRequestBody = js_or (get_prop imported ''customRequestBody'') (cfg_customRequestBody c)\<rparr>)"

definition handleConfigImport :: "jsval \<Rightarrow> page \<Rightarrow> page" where
  "handleConfigImport imported p =
     p\<lparr>page_config := importInto imported (page_config p),
       page_messages := (case read_messages (get_prop imported ''messages'') of
                           Some ms \<Rightarrow> ms | None \<Rightarrow> page_messages p)\<rparr>"

definition handleConfigReset :: "string \<Rightarrow> string \<Rightarrow> bool \<Rightarrow> page \<Rightarrow> page" where
  "handleConfigReset userText assistantText resetMessages p =
     p\<lparr>page_config := DEFAULT_CONFIG,
       page_messages := (if resetMessages then getDefaultMessages userText assistantText else page_messages p)\<rparr>"

section \<open>The dialogs\<close>

text \<open>Export first stores the configuration; a failing write aborts the export.\<close>

definition handleExport :: "bool \<Rightarrow> string \<Rightarrow> page \<Rightarrow> string option \<times> page" where
  "handleExport ok now p =
     (if ok then
        let p' = configTimer True now p in
        (Some (exportConfig now (config_value (page_config p)) (messages_value (page_messages p)) (page_store p')), p')
      else (None, p))"

text \<open>The file is read, then a dialog asks whether to apply it.\<close>

definition handleFileChange :: "bool \<Rightarrow> string \<Rightarrow> string \<Rightarrow> bool \<Rightarrow> page \<Rightarrow> (import_error + unit) \<times> page" where
  "handleFileChange ok now text confirmed p =
     (let (r, st) = importConfig ok now text (page_store p) in
      case r of
        Inl e \<Rightarrow> (Inl e, p\<lparr>page_store := st\<rparr>)
      | Inr imported \<Rightarrow>
          (Inr (), if confirmed then handleConfigImport imported (p\<lparr>page_store := st\<rparr>) else p\<lparr>page_store := st\<rparr>))"

text \<open>After both confirmations of the reset dialog; the second one chooses \<open>resetMessages\<close>.\<close>

definition handleReset :: "string \<Rightarrow> string \<Rightarrow> bool \<Rightarrow> page \<Rightarrow> page" where
  "handleReset userText assistantText resetMessages p =
     handleConfigReset userText assistantText resetMessages (p\<lparr>page_store := clearConfig (page_store p)\<rparr>)"

definition handleClearMessages :: "bool \<Rightarrow> string \<Rightarrow> page \<Rightarrow> page" where
  "handleClearMessages ok now p = saveMessagesImmediately ok now (Some []) (p\<lparr>page_messages := []\<rparr>)"

definition handlePasteImage :: "string \<Rightarrow> page \<Rightarrow> page" where
  "handlePasteImage data p =
     (let inputs = cfg_inputs (page_config p) in
      if \<not> truthy (field_of inputs ''imageEnabled'') then p
      else handleInputChange ''imageUrls''
        (Arr ((case js_or (field_of inputs ''imageUrls'') (Arr []) of Arr us \<Rightarrow> us | v \<Rightarrow> map snd (spread_props v)) @ [Str data])) p)"

end
