(* ===== verification/Playground_Config_Proofs.thy ===== *)
theory Playground_Config_Proofs
  imports Playground_Config
begin

text \<open>
  The stored configuration and conversation: what a reload restores, what an exported file
  restores, and what the dialogs lose.
\<close>

section \<open>Messages are read back from their objects\<close>

lemma status_of_text [simp]: "status_of (Str (status_text s)) = Some s" "status_of Undef = None"
  by (cases s) (simp_all add: status_of_def)

lemma read_all_map: "(\<And>x. x \<in> set xs \<Longrightarrow> f (g x) = Some x) \<Longrightarrow> read_all f (map g xs) = Some xs"
  by (induction xs) auto

lemma content_of_value [simp]: "content_of (body_value b) = Some b"
  by (cases b) simp_all

lemma body_value_not_Undef [simp]: "body_value b \<noteq> Undef"
  by (cases b) simp_all

lemma map_of_opt_prop [simp]: "map_of (opt_prop k ov) j = (if j = k then ov else None)"
  by (cases ov) (simp_all add: opt_prop_def)

lemma map_of_flag [simp]: "map_of (flag k b) j = (if j = k \<and> b then Some (Bool True) else None)"
  by (simp add: flag_def)

lemma message_value_props:
  "get_prop (message_value m) ''role'' = Str (role m)"
  "get_prop (message_value m) ''content'' = body_value (msg_body m)"
  "get_prop (message_value m) ''id'' = Str (msg_id m)"
  "get_prop (message_value m) ''createAt'' = int_value (createAt m)"
  "get_prop (message_value m) ''reasoningContent'' = (case reasoningContent m of Some r \<Rightarrow> Str r | None \<Rightarrow> Undef)"
  "get_prop (message_value m) ''isReasoningExpanded'' = (if isReasoningExpanded m then Bool True else Undef)"
  "get_prop (message_value m) ''isThinkingComplete'' = (case isThinkingComplete m of Some b \<Rightarrow> Bool b | None \<Rightarrow> Undef)"
  "get_prop (message_value m) ''hasAutoCollapsed'' = (if hasAutoCollapsed m then Bool True else Undef)"
  "get_prop (message_value m) ''status'' = (case status m of Some s \<Rightarrow> Str (status_text s) | None \<Rightarrow> Undef)"
  "get_prop (message_value m) ''errorCode'' = errorCode m"
  by (simp_all add: message_value_def map_of_append map_add_def split: option.split)

lemma message_of_value: "message_of (message_value m) = Some m"
  by (simp add: message_of_def message_value_props int_value_def opt_flag_def split: option.split)

interpretation stored: print_parse "\<lambda>_. True" message_value message_of
  by unfold_locales (rule message_of_value)

lemma read_messages_value [simp]: "read_messages (messages_value ms) = Some ms"
  by (simp add: messages_value_def read_all_map message_of_value)

section \<open>Messages in JSON\<close>

text \<open>Messages that JSON can carry, without an array item that is a think tag by itself.\<close>

definition storable :: "message \<Rightarrow> bool" where
  "storable m \<longleftrightarrow> num_readable (Fin (of_int (createAt m))) \<and> json_data (body_value (msg_body m)) \<and> tag_free (msg_body m) \<and>
     (errorCode m = Undef \<or> json_data (errorCode m))"

lemma index_names [simp]:
  "\<not> is_index ''role''" "\<not> is_index ''content''" "\<not> is_index ''id''" "\<not> is_index ''createAt''"
  "\<not> is_index ''reasoningContent''" "\<not> is_index ''isReasoningExpanded''" "\<not> is_index ''isThinkingComplete''"
  "\<not> is_index ''hasAutoCollapsed''" "\<not> is_index ''status''" "\<not> is_index ''errorCode''"
  "\<not> is_index ''type''" "\<not> is_index ''text''" "\<not> is_index ''image_url''" "\<not> is_index ''url''"
  "\<not> is_index ''messages''" "\<not> is_index ''timestamp''"
  by (simp_all add: is_index_def all_digits_def is_digit_def)

lemma json_data_part: "json_data (TextPart s)" "json_data (ImagePart u)"
  by (simp_all add: TextPart_def ImagePart_def obj_entries_named)

text \<open>What the user writes can be stored.\<close>

lemma json_data_built: "json_data (body_value (buildMessageContent s urls b)) \<and> tag_free (buildMessageContent s urls b)"
  by (auto simp: buildMessageContent_def Let_def list_all_iff json_data_part) (auto simp: TextPart_def ImagePart_def)

lemma json_data_message: "storable m \<Longrightarrow> json_data (message_value m)"
  unfolding message_value_def
  by (rule json_data_named) (auto simp: storable_def flag_def opt_prop_def int_value_def split: option.splits)

lemma json_data_messages: "list_all storable ms \<Longrightarrow> json_data (messages_value ms)"
  by (simp add: messages_value_def list_all_iff json_data_message)

section \<open>The conversation after a reload\<close>

lemma store_json_read:
  assumes "json_data v"
  shows "\<exists>t. store_json True key v st key = Some t \<and> t \<noteq> [] \<and> json_parse t = Some v"
proof -
  obtain t where t: "json_stringify v = Some t" using stringify_Some [OF assms] by blast
  then have p: "json_parse t = Some v" using json.parse_print [OF assms] by simp
  then have "t \<noteq> []" by (auto simp: json_parse_def skip_ws_def)
  with t p show ?thesis by (simp add: store_json_def)
qed

lemma load_saved_messages:
  assumes "list_all storable ms"
  shows "loadMessages (saveMessages True now (messages_value ms) st) = Some (messages_value ms)"
proof -
  let ?v = "Obj [(''messages'', messages_value ms), (''timestamp'', Str now)]"
  have "json_data ?v" by (rule json_data_named) (simp_all add: json_data_messages [OF assms])
  from store_json_read [OF this, of MESSAGES_KEY st] obtain t where
    "saveMessages True now (messages_value ms) st MESSAGES_KEY = Some t" "t \<noteq> []" "json_parse t = Some ?v"
    by (auto simp: saveMessages_def)
  then show ?thesis by (simp add: loadMessages_def messages_value_def)
qed

lemma repaired_settles: "ms \<noteq> [] \<Longrightarrow> \<not> generating (last (repairUpdate ms))"
  by (auto simp: repairUpdate_def replace_last_def generating_def split: prod.split)

text \<open>
  C17: a stored conversation comes back after a reload as it was, except that a reply that was still
  being generated is closed: its open thought goes to the reasoning and it counts as complete.
\<close>

theorem conversation_survives_reload:
  assumes "list_all storable ms" "\<not> is_old_default ms"
  shows "page_messages (mountPage ok now u a (saveMessages True saved (messages_value ms) st)) = repairUpdate ms \<and>
    butlast (repairUpdate ms) = butlast ms \<and>
    (ms \<noteq> [] \<longrightarrow> \<not> generating (last (repairUpdate ms)) \<and> (generating (last ms) \<or> repairUpdate ms = ms))"
proof -
  have "initialMessages (saveMessages True saved (messages_value ms) st) =
      (Some ms, saveMessages True saved (messages_value ms) st)"
    using assms by (simp add: initialMessages_def load_saved_messages)
  then have "page_messages (mountPage ok now u a (saveMessages True saved (messages_value ms) st)) = repairUpdate ms"
    by (simp add: mountPage_def)
  moreover have "butlast (repairUpdate ms) = butlast ms" "generating (last ms) \<or> repairUpdate ms = ms"
    by (auto simp: repairUpdate_def replace_last_def split: prod.split)
  ultimately show ?thesis using repaired_settles by blast
qed

section \<open>The configuration after a reload\<close>

fun is_bool :: "jsval \<Rightarrow> bool" where
  "is_bool (Bool b) = True"
| "is_bool _ = False"

fun is_str :: "jsval \<Rightarrow> bool" where
  "is_str (Str s) = True"
| "is_str _ = False"

definition INPUT_KEYS :: "string list" where
  "INPUT_KEYS = map fst DEFAULT_inputs"

definition PARAM_KEYS :: "string list" where
  "PARAM_KEYS = map fst DEFAULT_parameterEnabled"

definition config_ok :: "config \<Rightarrow> bool" where
  "config_ok c \<longleftrightarrow>
     map fst (cfg_inputs c) = INPUT_KEYS \<and> map fst (cfg_parameterEnabled c) = PARAM_KEYS \<and>
     list_all (\<lambda>(k, v). json_data v) (cfg_inputs c) \<and> list_all (\<lambda>(k, v). is_bool v) (cfg_parameterEnabled c) \<and>
     max_tokens_of (field_of (cfg_inputs c) ''max_tokens'') = field_of (cfg_inputs c) ''max_tokens'' \<and>
     is_bool (cfg_showDebugPanel c) \<and> is_bool (cfg_customRequestMode c) \<and> is_str (cfg_customRequestBody c)"

lemma keys_named:
  "distinct INPUT_KEYS" "list_all (\<lambda>k. \<not> is_index k) INPUT_KEYS"
  "distinct PARAM_KEYS" "list_all (\<lambda>k. \<not> is_index k) PARAM_KEYS"
  by (simp_all add: INPUT_KEYS_def PARAM_KEYS_def DEFAULT_inputs_def DEFAULT_parameterEnabled_def
      is_index_def all_digits_def is_digit_def)

lemma obj_set_same: "k \<in> fst ` set ob \<Longrightarrow> map fst (obj_set k v ob) = map fst ob"
  by (induction k v ob rule: obj_set.induct) auto

lemma obj_set_id: "map_of ob k = Some v \<Longrightarrow> obj_set k v ob = ob"
  by (induction k v ob rule: obj_set.induct) (auto split: if_splits)

lemma obj_set_replace: "k \<notin> fst ` set c \<Longrightarrow> obj_set k w (c @ (k, v) # a) = c @ (k, w) # a"
  by (induction c) auto

lemma spread_same_keys_acc:
  "map fst a = map fst b \<Longrightarrow> distinct (map fst (c @ b)) \<Longrightarrow> obj_spread (c @ a) b = c @ b"
proof (induction b arbitrary: a c)
  case (Cons p b)
  obtain k w where p: "p = (k, w)" by fastforce
  then obtain v a' where a: "a = (k, v) # a'" "map fst a' = map fst b" using Cons.prems(1) by (cases a) auto
  have "obj_spread ((c @ [p]) @ a') b = (c @ [p]) @ b" using Cons.prems(2) a by (intro Cons.IH) auto
  moreover have "obj_set k w (c @ (k, v) # a') = c @ (k, w) # a'"
    using Cons.prems(2) p by (intro obj_set_replace) auto
  ultimately show ?case by (simp add: p a obj_spread_def)
qed (simp add: obj_spread_def)

lemma spread_same_keys: "map fst a = map fst b \<Longrightarrow> distinct (map fst b) \<Longrightarrow> obj_spread a b = b"
  using spread_same_keys_acc [of a b "[]"] by simp

lemma json_data_bools: "list_all (\<lambda>(k, v). is_bool v) ps \<Longrightarrow> list_all (\<lambda>(k, v). json_data v) ps"
  by (auto simp: list_all_iff elim!: is_bool.elims)

lemma config_objects:
  assumes "config_ok c"
  shows "json_data (Obj (cfg_inputs c))" "json_data (Obj (cfg_parameterEnabled c))"
    "json_data (cfg_showDebugPanel c)" "json_data (cfg_customRequestMode c)" "json_data (cfg_customRequestBody c)"
  using assms keys_named unfolding config_ok_def
  by (auto intro!: json_data_named json_data_bools elim!: is_bool.elims is_str.elims simp del: json_data.simps(7))

lemma max_tokens_key: "''max_tokens'' \<in> set INPUT_KEYS"
  by (simp add: INPUT_KEYS_def DEFAULT_inputs_def)

lemma max_tokens_present:
  assumes "config_ok c"
  shows "map_of (cfg_inputs c) ''max_tokens'' = Some (field_of (cfg_inputs c) ''max_tokens'')"
proof -
  have "''max_tokens'' \<in> fst ` set (cfg_inputs c)"
    using assms max_tokens_key by (metis config_ok_def list.set_map)
  then show ?thesis by (auto simp: field_of_def map_of_eq_None_iff split: option.split)
qed

lemma load_saved_config:
  assumes "config_ok c"
  shows "loadConfig (saveConfig True now (config_value c) st) = c"
proof -
  let ?v = "Obj (config_value c @ [(''timestamp'', Str now)])"
  have v: "Obj (obj_set ''timestamp'' (Str now) (config_value c)) = ?v" by (simp add: config_value_def)
  have "json_data ?v"
    using config_objects [OF assms]
    by (intro json_data_named) (simp_all add: config_value_def is_index_def all_digits_def is_digit_def del: json_data.simps(7))
  from store_json_read [OF this, of CONFIG_KEY st] obtain t where
    t: "saveConfig True now (config_value c) st CONFIG_KEY = Some t" "t \<noteq> []" "json_parse t = Some ?v"
    unfolding saveConfig_def v by blast
  have "map_of (cfg_inputs c) ''max_tokens'' = Some (field_of (cfg_inputs c) ''max_tokens'')"
    using assms by (rule max_tokens_present)
  then have "obj_set ''max_tokens'' (max_tokens_of (field_of (cfg_inputs c) ''max_tokens'')) (cfg_inputs c) = cfg_inputs c"
    using assms by (simp add: config_ok_def obj_set_id)
  moreover have "obj_spread DEFAULT_inputs (cfg_inputs c) = cfg_inputs c"
    "obj_spread DEFAULT_parameterEnabled (cfg_parameterEnabled c) = cfg_parameterEnabled c"
    using assms keys_named by (auto intro!: spread_same_keys simp: config_ok_def INPUT_KEYS_def PARAM_KEYS_def)
  moreover have "js_or (cfg_showDebugPanel c) (Bool False) = cfg_showDebugPanel c"
    "js_or (cfg_customRequestMode c) (Bool False) = cfg_customRequestMode c"
    "js_or (cfg_customRequestBody c) (Str []) = cfg_customRequestBody c"
    using assms by (auto simp: config_ok_def js_or_def elim!: is_bool.elims is_str.elims)
  ultimately show ?thesis
    using t by (simp add: loadConfig_def config_value_def field_of_def)
qed


text \<open>
  Pages that the user reaches from an empty storage: edits of the settings as the panel offers
  them, the timer that stores the configuration, changed messages, resets and reloads.
\<close>

inductive page_reach :: "page \<Rightarrow> bool" where
  first_visit: "page_reach (mountPage ok now u a (\<lambda>_. None))"
| edit_input: "page_reach p \<Longrightarrow> name \<in> set INPUT_KEYS \<Longrightarrow> json_data v \<Longrightarrow>
    (name = ''max_tokens'' \<Longrightarrow> max_tokens_of v = v) \<Longrightarrow> page_reach (handleInputChange name v p)"
| toggle: "page_reach p \<Longrightarrow> name \<in> set PARAM_KEYS \<Longrightarrow> page_reach (handleParameterToggle name p)"
| debug_panel: "page_reach p \<Longrightarrow> page_reach (setShowDebugPanel b p)"
| custom_mode: "page_reach p \<Longrightarrow> page_reach (setCustomRequestMode b p)"
| custom_body: "page_reach p \<Longrightarrow> page_reach (setCustomRequestBody s p)"
| timer: "page_reach p \<Longrightarrow> page_reach (configTimer ok now p)"
| chat: "page_reach p \<Longrightarrow> page_reach (p\<lparr>page_messages := ms\<rparr>)"
| save_chat: "page_reach p \<Longrightarrow> page_reach (saveMessagesImmediately ok now ms p)"
| reset: "page_reach p \<Longrightarrow> page_reach (handleReset u a b p)"
| reload: "page_reach p \<Longrightarrow> page_reach (mountPage ok now u a (page_store p))"

lemma default_config_ok: "config_ok DEFAULT_CONFIG"
  unfolding config_ok_def DEFAULT_CONFIG_def INPUT_KEYS_def PARAM_KEYS_def
  by (simp, intro conjI; code_simp)

text \<open>The stored configuration, when there is one, was written from a good configuration.\<close>

definition store_ok :: "store \<Rightarrow> bool" where
  "store_ok st \<longleftrightarrow> config_ok (loadConfig st)"

lemma keys_distinct: "CONFIG_KEY \<noteq> MESSAGES_KEY"
  by (simp add: CONFIG_KEY_def MESSAGES_KEY_def)

lemma load_config_only:
  "st CONFIG_KEY = st' CONFIG_KEY \<Longrightarrow> loadConfig st = loadConfig st'"
  by (simp add: loadConfig_def)

lemma messages_keep_config:
  "loadConfig (saveMessages ok now v st) = loadConfig st" "loadConfig (clearMessages st) = loadConfig st"
  using keys_distinct by (auto intro!: load_config_only simp: saveMessages_def store_json_def clearMessages_def)

lemma load_cleared: "loadConfig (clearConfig st) = DEFAULT_CONFIG" "loadConfig (\<lambda>_. None) = DEFAULT_CONFIG"
  using keys_distinct by (simp_all add: loadConfig_def clearConfig_def)

lemma mount_config: "page_config (mountPage ok now u a st) = loadConfig st"
  "loadConfig (page_store (mountPage ok now u a st)) = loadConfig st"
  by (auto simp: mountPage_def initialMessages_def messages_keep_config Let_def split: prod.split option.split)

lemma config_ok_edit:
  assumes "config_ok c" "name \<in> set INPUT_KEYS" "json_data v" "name = ''max_tokens'' \<Longrightarrow> max_tokens_of v = v"
  shows "config_ok (c\<lparr>cfg_inputs := obj_set name v (cfg_inputs c)\<rparr>)"
proof -
  have "set (obj_set name v ob) \<subseteq> insert (name, v) (set ob)" for ob :: "jsval jsobj"
    by (induction name v ob rule: obj_set.induct) auto
  then have "list_all (\<lambda>(k, v). json_data v) (obj_set name v (cfg_inputs c))"
    using assms by (fastforce simp: config_ok_def list_all_iff)
  moreover have "name \<in> fst ` set (cfg_inputs c)" using assms by (metis config_ok_def list.set_map)
  ultimately show ?thesis using assms by (auto simp: config_ok_def obj_set_same field_of_def)
qed

lemma config_ok_toggle:
  assumes "config_ok c" "name \<in> set PARAM_KEYS"
  shows "config_ok (c\<lparr>cfg_parameterEnabled := obj_set name (Bool b) (cfg_parameterEnabled c)\<rparr>)"
proof -
  have "set (obj_set name (Bool b) ob) \<subseteq> insert (name, Bool b) (set ob)" for ob :: "jsval jsobj"
    by (induction name "Bool b" ob rule: obj_set.induct) auto
  then have "list_all (\<lambda>(k, v). is_bool v) (obj_set name (Bool b) (cfg_parameterEnabled c))"
    using assms by (fastforce simp: config_ok_def list_all_iff)
  moreover have "name \<in> fst ` set (cfg_parameterEnabled c)" using assms by (metis config_ok_def list.set_map)
  ultimately show ?thesis using assms by (auto simp: config_ok_def obj_set_same)
qed

lemma reach_config_ok: "page_reach p \<Longrightarrow> config_ok (page_config p) \<and> store_ok (page_store p)"
proof (induction rule: page_reach.induct)
  case (edit_input p name v)
  then show ?case by (simp add: handleInputChange_def map_config_def config_ok_edit)
next
  case (toggle p name)
  then show ?case by (simp add: handleParameterToggle_def map_config_def config_ok_toggle)
next
  case (timer p ok now)
  then show ?case by (cases ok) (simp_all add: configTimer_def store_ok_def load_saved_config, simp add: saveConfig_def store_json_def)
qed (simp_all add: mount_config load_cleared default_config_ok store_ok_def setShowDebugPanel_def setCustomRequestMode_def
    setCustomRequestBody_def map_config_def saveMessagesImmediately_def messages_keep_config handleReset_def
    handleConfigReset_def, simp_all add: config_ok_def)

text \<open>
  On every page the user reaches by editing settings, chatting, resetting and reloading, the
  configuration that the timer stores is exactly the configuration that the next visit loads.
\<close>

theorem config_survives_reload:
  assumes "page_reach p"
  shows "page_config (mountPage ok now u a (page_store (configTimer True saved p))) = page_config p"
  using reach_config_ok [OF assms] by (simp add: mount_config configTimer_def load_saved_config)


section \<open>Exported files\<close>

lemma config_names [simp]:
  "\<not> is_index ''inputs''" "\<not> is_index ''parameterEnabled''" "\<not> is_index ''showDebugPanel''"
  "\<not> is_index ''customRequestMode''" "\<not> is_index ''customRequestBody''" "\<not> is_index ''exportTime''" "\<not> is_index ''version''"
  by (simp_all add: is_index_def all_digits_def is_digit_def)

definition exported :: "string \<Rightarrow> config \<Rightarrow> message list \<Rightarrow> jsval" where
  "exported now c ms = Obj (config_value c @ [(''messages'', messages_value ms), (''exportTime'', Str now), (''version'', Str ''1.0'')])"

lemma export_file:
  assumes "config_ok c" "list_all storable ms"
  shows "json_parse (exportConfig now (config_value c) (messages_value ms) st) = Some (exported now c ms)"
proof -
  have "exportConfig now (config_value c) (messages_value ms) st = the (json_pretty [] (exported now c ms))"
  proof -
    have "js_or (messages_value ms) w = messages_value ms" for w by (simp add: js_or_def messages_value_def)
    moreover have "obj_set ''version'' x (obj_set ''exportTime'' y (obj_set ''messages'' z (config_value c))) =
        config_value c @ [(''messages'', z), (''exportTime'', y), (''version'', x)]" for x y z
      by (simp add: config_value_def)
    ultimately show ?thesis by (simp only: exportConfig_def exported_def Let_def)
  qed
  moreover have "json_data (exported now c ms)"
    unfolding exported_def using config_objects [OF assms(1)] json_data_messages [OF assms(2)]
    by (intro json_data_named) (simp_all add: config_value_def del: json_data.simps(7))
  ultimately show ?thesis by (simp add: json2.parse_print)
qed

lemma exported_props:
  "get_prop (exported now c ms) ''inputs'' = Obj (cfg_inputs c)"
  "get_prop (exported now c ms) ''parameterEnabled'' = Obj (cfg_parameterEnabled c)"
  "get_prop (exported now c ms) ''showDebugPanel'' = cfg_showDebugPanel c"
  "get_prop (exported now c ms) ''customRequestMode'' = cfg_customRequestMode c"
  "get_prop (exported now c ms) ''customRequestBody'' = cfg_customRequestBody c"
  "get_prop (exported now c ms) ''messages'' = messages_value ms"
  by (simp_all add: exported_def config_value_def)

lemma import_exported:
  assumes "config_ok c" "config_ok d"
  shows "importInto (exported now c ms) d =
    c\<lparr>cfg_customRequestMode := js_or (cfg_customRequestMode c) (cfg_customRequestMode d),
      cfg_customRequestBody := js_or (cfg_customRequestBody c) (cfg_customRequestBody d)\<rparr>"
proof -
  have "map_of (cfg_inputs c) ''max_tokens'' = Some (field_of (cfg_inputs c) ''max_tokens'')"
    using assms(1) by (rule max_tokens_present)
  then have "obj_set ''max_tokens'' (max_tokens_of (field_of (cfg_inputs c) ''max_tokens'')) (cfg_inputs c) = cfg_inputs c"
    using assms by (simp add: config_ok_def obj_set_id)
  moreover have "obj_spread (cfg_inputs d) (cfg_inputs c) = cfg_inputs c"
    "obj_spread (cfg_parameterEnabled d) (cfg_parameterEnabled c) = cfg_parameterEnabled c"
    using assms keys_named by (auto intro!: spread_same_keys simp: config_ok_def)
  moreover obtain b where "cfg_showDebugPanel c = Bool b" using assms(1) by (auto simp: config_ok_def elim!: is_bool.elims)
  ultimately show ?thesis by (simp add: importInto_def exported_props field_of_def)
qed

text \<open>
  Importing the exported file of a page into another page restores its conversation and its
  configuration, except for the custom request mode and body: where the file switches them off,
  the values of the importing page stay.
\<close>

theorem export_import:
  assumes "page_reach p" "page_reach q" "list_all storable (page_messages p)"
    "fst (handleExport True now p) = Some text"
  shows "\<exists>r. handleFileChange ok later text True q = (Inr (), r) \<and> page_messages r = page_messages p \<and>
    page_config r = (page_config p)\<lparr>
      cfg_customRequestMode := js_or (cfg_customRequestMode (page_config p)) (cfg_customRequestMode (page_config q)),
      cfg_customRequestBody := js_or (cfg_customRequestBody (page_config p)) (cfg_customRequestBody (page_config q))\<rparr>"
proof -
  let ?v = "exported now (page_config p) (page_messages p)"
  have ok: "config_ok (page_config p)" "config_ok (page_config q)" using assms(1,2) reach_config_ok by blast+
  have "json_parse text = Some ?v"
    using assms(4) export_file [OF ok(1) assms(3)] by (auto simp: handleExport_def Let_def)
  moreover obtain ps where "?v = Obj ps" by (simp add: exported_def)
  ultimately have "fst (importConfig ok later text (page_store q)) = Inr ?v"
    using exported_props(1,2) [of now "page_config p" "page_messages p"] by (simp add: importConfig_def)
  then obtain st where "importConfig ok later text (page_store q) = (Inr ?v, st)" by (metis prod.collapse)
  then show ?thesis
    using import_exported [OF ok] by (simp add: handleFileChange_def handleConfigImport_def exported_props)
qed

section \<open>What the dialogs lose\<close>

text \<open>
  The file is read before the user is asked: after a refused import the page is unchanged, but the
  stored conversation is the one of the file.
\<close>

theorem cancelled_import_overwrites:
  assumes "importConfig True now text (page_store p) = (Inr imported, st)"
    "get_prop imported ''messages'' = messages_value ms" "list_all storable ms"
  shows "snd (handleFileChange True now text False p) = p\<lparr>page_store := st\<rparr> \<and> loadMessages st = Some (messages_value ms)"
proof
  show "snd (handleFileChange True now text False p) = p\<lparr>page_store := st\<rparr>"
    using assms(1) by (simp add: handleFileChange_def)
  have "st = saveMessages True now (messages_value ms) (page_store p)"
    using assms(1,2) by (auto simp: importConfig_def messages_value_def split: option.splits jsval.splits if_splits)
  then show "loadMessages st = Some (messages_value ms)" by (simp add: load_saved_messages [OF assms(3)])
qed

text \<open>
  A reset that promises to keep the conversation removes it from the storage: the page still shows
  it, the next visit does not.
\<close>

theorem reset_loses_kept_messages:
  "page_messages (handleReset u a False p) = page_messages p \<and>
   page_messages (mountPage ok now u a (page_store (handleReset u a False p))) = getDefaultMessages u a"
proof -
  have "initialMessages (clearConfig (page_store p)) = (None, clearConfig (page_store p))"
    by (simp add: initialMessages_def loadMessages_def clearConfig_def)
  then show ?thesis
    by (simp add: handleReset_def handleConfigReset_def mountPage_def repairUpdate_def getDefaultMessages_def generating_def)
qed

text \<open>
  An imported configuration without \<open>max_tokens\<close> does not keep the present value: it becomes undefined.
\<close>

theorem max_tokens_forgotten:
  assumes "truthy (get_prop imported ''inputs'')" "get_prop (get_prop imported ''inputs'') ''max_tokens'' = Undef"
  shows "field_of (cfg_inputs (importInto imported c)) ''max_tokens'' = Undef"
proof -
  have "parse_int ''undefined'' = NaN" by code_simp
  then have "max_tokens_of Undef = Undef" by (simp add: max_tokens_of_def)
  then show ?thesis using assms by (simp add: importInto_def field_of_def Let_def)
qed

text \<open>
  On a first visit, a change of the language replaces whatever conversation there is by the defaults.
\<close>

theorem language_change_discards:
  "page_messages (languageEffect u' a' ((mountPage ok now u a (\<lambda>_. None))\<lparr>page_messages := ms\<rparr>)) = getDefaultMessages u' a'"
  by (simp add: languageEffect_def mountPage_def initialMessages_def loadMessages_def Let_def)


section \<open>Witnesses\<close>

definition example_chat :: "message list" where
  "example_chat = [(hd (getDefaultMessages ''Hi'' []))\<lparr>status := None\<rparr>,
     ((getDefaultMessages [] ''A<think>b'') ! 1)\<lparr>status := Some INCOMPLETE\<rparr>]"

lemma example_chat_storable: "list_all storable example_chat"
  by code_simp

lemma example_chat_new: "\<not> is_old_default example_chat"
  by code_simp

theorem conversation_survives_reload_witness:
  "page_messages (mountPage True [] [] [] (saveMessages True [] (messages_value example_chat) (\<lambda>_. None))) =
     repairUpdate example_chat \<and>
   map msg_body (repairUpdate example_chat) = [Text ''Hi'', Text ''A'']"
proof
  show "page_messages (mountPage True [] [] [] (saveMessages True [] (messages_value example_chat) (\<lambda>_. None))) =
     repairUpdate example_chat"
    using conversation_survives_reload [OF example_chat_storable example_chat_new] by blast
qed code_simp

abbreviation visited :: page where
  "visited \<equiv> mountPage True [] ''Hi'' ''Hello'' (\<lambda>_. None)"

theorem config_survives_reload_witness:
  "page_config (mountPage True [] [] [] (page_store (configTimer True [] (handleInputChange ''model'' (Str ''m'') visited)))) =
     page_config (handleInputChange ''model'' (Str ''m'') visited) \<and>
   field_of (cfg_inputs (page_config (handleInputChange ''model'' (Str ''m'') visited))) ''model'' = Str ''m''"
proof
  have "page_reach (handleInputChange ''model'' (Str ''m'') visited)"
    by (rule page_reach.edit_input [OF page_reach.first_visit]) (simp_all add: INPUT_KEYS_def DEFAULT_inputs_def)
  then show "page_config (mountPage True [] [] [] (page_store (configTimer True [] (handleInputChange ''model'' (Str ''m'') visited)))) =
     page_config (handleInputChange ''model'' (Str ''m'') visited)"
    by (rule config_survives_reload)
qed (simp add: handleInputChange_def map_config_def field_of_def)

lemma visited_reach: "page_reach visited"
  by (rule page_reach.first_visit)

lemma visited_storable: "list_all storable (page_messages visited)"
proof -
  have "page_messages visited = getDefaultMessages ''Hi'' ''Hello''"
    by (simp add: mountPage_def initialMessages_def loadMessages_def repairUpdate_def getDefaultMessages_def generating_def)
  moreover have "list_all storable (getDefaultMessages ''Hi'' ''Hello'')" by code_simp
  ultimately show ?thesis by simp
qed

theorem export_import_witness:
  "\<exists>text r. fst (handleExport True [] visited) = Some text \<and>
     handleFileChange True [] text True (setCustomRequestMode True visited) = (Inr (), r) \<and>
     page_messages r = page_messages visited \<and> cfg_customRequestMode (page_config r) = Bool True"
proof -
  obtain f where t: "fst (handleExport True [] visited) = Some f" by (simp add: handleExport_def Let_def)
  have "page_reach (setCustomRequestMode True visited)" using visited_reach by (rule page_reach.custom_mode)
  from export_import [OF visited_reach this visited_storable t, of True "[]"] t show ?thesis
    by (auto simp: mount_config load_cleared DEFAULT_CONFIG_def setCustomRequestMode_def map_config_def js_or_def)
qed

end
