(* ===== verification/Playground_Sync.thy ===== *)
theory Playground_Sync
  imports Playground_Config
begin

text \<open>
  The custom request body and the conversation are kept in step
  (\<open>src/web/src/hooks/playground/useSyncMessageAndCustomBody.js\<close>), the preview of the request
  (\<open>constructPreviewPayload\<close> in \<open>src/web/src/pages/Playground/index.jsx\<close>), and the models and
  groups offered to the user (\<open>src/web/src/hooks/playground/useDataLoader.js\<close> with the helpers in
  \<open>src/web/src/helpers/api.js\<close>).
\<close>

section \<open>Custom body and conversation\<close>

text \<open>The refs of the hook.\<close>

record sync_refs =
  isUpdatingFromMessage :: bool
  isUpdatingFromCustomBody :: bool
  lastMessageHash :: string
  lastCustomBodyHash :: string

definition initialRefs :: sync_refs where
  "initialRefs = \<lparr>isUpdatingFromMessage = False, isUpdatingFromCustomBody = False,
     lastMessageHash = [], lastCustomBodyHash = []\<rparr>"

definition hash_item :: "message \<Rightarrow> jsval" where
  "hash_item m = Obj [(''id'', Str (msg_id m)), (''role'', Str (role m)), (''content'', body_value (msg_body m))]"

definition getMessageHash :: "message list \<Rightarrow> string" where
  "getMessageHash ms = the (json_stringify (Arr (map hash_item ms)))"

definition getCustomBodyHash :: "string \<Rightarrow> string" where
  "getCustomBodyHash customBody =
     (case json_parse customBody of
        None \<Rightarrow> []
      | Some Null \<Rightarrow> []
      | Some parsed \<Rightarrow> the (json_stringify (js_or (get_prop parsed ''messages'') (Arr []))))"

text \<open>The body text of the page: \<open>customRequestBody || '{}'\<close>.\<close>

definition body_text_of :: "page \<Rightarrow> string" where
  "body_text_of p = js_String (js_or (cfg_customRequestBody (page_config p)) (Str ''{}''))"

definition fallbackPayload :: "jsval jsobj \<Rightarrow> jsval" where
  "fallbackPayload inputs =
     Obj [(''model'', js_or (field_of inputs ''model'') (Str ''gpt-4o'')), (''messages'', Arr []),
          (''temperature'', js_or (field_of inputs ''temperature'') (Num (string_to_number ''0.7''))),
          (''stream'', Bool (field_of inputs ''stream'' \<noteq> Bool False))]"

text \<open>
  \<open>payload.messages = msgs\<close>: a primitive value has no properties to set, and a property of an
  array is not part of its JSON text.
\<close>

fun set_messages :: "jsval \<Rightarrow> jsval \<Rightarrow> js_error + jsval" where
  "set_messages (Obj ps) msgs = Inr (Obj (obj_set ''messages'' msgs ps))"
| "set_messages (Arr xs) msgs = Inr (Arr xs)"
| "set_messages _ msgs = Inl TypeError"

definition api_messages :: "message list \<Rightarrow> jsval" where
  "api_messages ms = Arr (map (\<lambda>m. api_message (role m, msg_body m)) ms)"

definition syncMessageToCustomBody :: "sync_refs \<times> page \<Rightarrow> js_error + sync_refs \<times> page" where
  "syncMessageToCustomBody s =
     (let (refs, p) = s in
      if \<not> truthy (cfg_customRequestMode (page_config p)) \<or> isUpdatingFromCustomBody refs then Inr s
      else
        let currentMessageHash = getMessageHash (page_messages p) in
        if currentMessageHash = lastMessageHash refs then Inr s
        else
          let customPayload = (case json_parse (body_text_of p) of
                                 Some v \<Rightarrow> v | None \<Rightarrow> fallbackPayload (cfg_inputs (page_config p))) in
          case set_messages customPayload (api_messages (page_messages p)) of
            Inl e \<Rightarrow> Inl e
          | Inr payload \<Rightarrow>
              let newCustomBody = the (json_pretty [] payload) in
              Inr (refs\<lparr>isUpdatingFromMessage := False, lastMessageHash := currentMessageHash,
                        lastCustomBodyHash := getCustomBodyHash newCustomBody\<rparr>,
                   setCustomRequestBody newCustomBody p))"

text \<open>The message built from an item of the body; reading a property of null throws.\<close>

definition body_message :: "int \<Rightarrow> nat \<Rightarrow> jsval \<Rightarrow> js_error + jsval" where
  "body_message now index msg =
     (if msg = Null then Inl TypeError
      else Inr (Obj ([(''id'', js_or (get_prop msg ''id'') (Str (show_nat (index + 1)))),
                      (''role'', js_or (get_prop msg ''role'') (Str USER)),
                      (''content'', js_or (get_prop msg ''content'') (Str [])),
                      (''createAt'', int_value now)]
                   @ (if get_prop msg ''role'' = Str ASSISTANT
                      then [(''reasoningContent'', js_or (get_prop msg ''reasoningContent'') (Str [])),
                            (''isReasoningExpanded'', Bool False)]
                      else []))))"

fun body_messages :: "int \<Rightarrow> nat \<Rightarrow> jsval list \<Rightarrow> js_error + jsval list" where
  "body_messages now i [] = Inr []"
| "body_messages now i (x # xs) =
     (case body_message now i x of
        Inl e \<Rightarrow> Inl e
      | Inr v \<Rightarrow> (case body_messages now (Suc i) xs of Inl e \<Rightarrow> Inl e | Inr vs \<Rightarrow> Inr (v # vs)))"

text \<open>Every exception of this handler is caught; it then changes nothing.\<close>

definition syncCustomBodyToMessage :: "int \<Rightarrow> sync_refs \<times> page \<Rightarrow> sync_refs \<times> page" where
  "syncCustomBodyToMessage now s =
     (let (refs, p) = s in
      if \<not> truthy (cfg_customRequestMode (page_config p)) \<or> isUpdatingFromMessage refs then s
      else
        let currentCustomBodyHash = getCustomBodyHash (js_String (cfg_customRequestBody (page_config p))) in
        if currentCustomBodyHash = lastCustomBodyHash refs then s
        else
          case json_parse (body_text_of p) of
            None \<Rightarrow> s
          | Some customPayload \<Rightarrow>
              (case get_prop customPayload ''messages'' of
                 Arr xs \<Rightarrow>
                   (case body_messages now 0 xs of
                      Inl e \<Rightarrow> s
                    | Inr vs \<Rightarrow>
                        (case read_all message_of vs of
                           None \<Rightarrow> s
                         | Some newMessages \<Rightarrow>
                             (refs\<lparr>isUpdatingFromCustomBody := False, lastCustomBodyHash := currentCustomBodyHash,
                                   lastMessageHash := getMessageHash newMessages\<rparr>,
                              p\<lparr>page_messages := newMessages\<rparr>)))
               | _ \<Rightarrow> s))"

text \<open>
  A commit of the page: the effects whose dependencies changed run, in the order the page declares
  them. Both see the conversation and the body of the render, \<open>p\<close>; the refs are shared, and what
  they set is merged for the next render. The first effect runs when the conversation, the mode, the
  body, an input it reads or the saving callback changed (\<open>run1\<close>), the second when the mode or the
  body changed (\<open>run2\<close>). An exception of the first effect takes the page down.
\<close>

definition syncCommit :: "int \<Rightarrow> bool \<Rightarrow> bool \<Rightarrow> sync_refs \<times> page \<Rightarrow> js_error + sync_refs \<times> page" where
  "syncCommit now run1 run2 s =
     (let (refs, p) = s in
      case (if run1 then syncMessageToCustomBody (refs, p) else Inr (refs, p)) of
        Inl e \<Rightarrow> Inl e
      | Inr (refs1, p1) \<Rightarrow>
          let (refs2, p2) = (if run2 then syncCustomBodyToMessage now (refs1, p) else (refs1, p)) in
          Inr (refs2, p1\<lparr>page_messages := page_messages p2\<rparr>))"

definition body_changed :: "page \<Rightarrow> page \<Rightarrow> bool" where
  "body_changed p p' \<longleftrightarrow> cfg_customRequestMode (page_config p) \<noteq> cfg_customRequestMode (page_config p') \<or>
     cfg_customRequestBody (page_config p) \<noteq> cfg_customRequestBody (page_config p')"

section \<open>The preview\<close>

definition EXAMPLE_TEXT :: string where
  "EXAMPLE_TEXT = [CHR 0xE7, CHR 0xA4, CHR 0xBA, CHR 0xE4, CHR 0xBE, CHR 0x8B, CHR 0xE6, CHR 0xB6, CHR 0x88,
     CHR 0xE6, CHR 0x81, CHR 0xAF]"

text \<open>\<open>inputs.imageUrls.filter(url => url.trim() !== '')\<close>; anything but an array of strings throws.\<close>

fun valid_urls :: "jsval \<Rightarrow> string list option" where
  "valid_urls (Arr xs) = map_option (filter (\<lambda>u. trim u \<noteq> [])) (read_all str_of xs)"
| "valid_urls _ = None"

text \<open>The index of the last user message.\<close>

definition last_user :: "message list \<Rightarrow> nat option" where
  "last_user ms = (case filter (\<lambda>i. role (ms ! i) = USER) [0..<length ms] of [] \<Rightarrow> None | is \<Rightarrow> Some (last is))"

definition preview_messages :: "jsval jsobj \<Rightarrow> message list \<Rightarrow> message list option" where
  "preview_messages inputs ms =
     (case last_user ms of
        None \<Rightarrow> Some ms
      | Some i \<Rightarrow>
          if truthy (field_of inputs ''imageEnabled'') \<and> truthy (field_of inputs ''imageUrls'') then
            (case valid_urls (field_of inputs ''imageUrls'') of
               None \<Rightarrow> None
             | Some urls \<Rightarrow>
                 if urls = [] then Some ms
                 else
                   let textContent = (if getTextContent (ms ! i) = [] then EXAMPLE_TEXT else getTextContent (ms ! i)) in
                   Some (ms[i := (ms ! i)\<lparr>msg_body := buildMessageContent textContent urls True\<rparr>]))
          else Some ms)"

definition constructPreviewPayload :: "page \<Rightarrow> jsval" where
  "constructPreviewPayload p =
     (let c = page_config p; body = js_String (cfg_customRequestBody c);
          default = (case preview_messages (cfg_inputs c) (page_messages p) of
                       None \<Rightarrow> Null
                     | Some ms \<Rightarrow> Obj (buildApiPayload ms None (cfg_inputs c) (cfg_parameterEnabled c))) in
      if truthy (cfg_customRequestMode c) \<and> truthy (cfg_customRequestBody c) \<and> trim body \<noteq> [] then
        (case json_parse body of Some v \<Rightarrow> v | None \<Rightarrow> default)
      else default)"

section \<open>Models and groups\<close>

text \<open>The options, and the model to select: \<open>modelOptions[0]?.value\<close> is undefined without options.\<close>

definition processModelsData :: "string list \<Rightarrow> jsval \<Rightarrow> string list \<times> jsval" where
  "processModelsData data currentModel =
     (data, if list_ex (\<lambda>m. Str m = currentModel) data \<and> length data > 0 then currentModel
            else (case data of [] \<Rightarrow> Undef | m # _ \<Rightarrow> Str m))"

definition loadModelOptions :: "string list \<Rightarrow> page \<Rightarrow> string list \<times> page" where
  "loadModelOptions data p =
     (let model = field_of (cfg_inputs (page_config p)) ''model'';
          (options, selected) = processModelsData data model in
      (options, if selected \<noteq> model then handleInputChange ''model'' selected p else p))"

record group_info =
  gi_desc :: string
  gi_ratio :: jsval

record group_option =
  go_label :: string
  go_value :: string
  go_ratio :: jsval
  go_fullLabel :: "string option"

definition group_label :: "string \<Rightarrow> string" where
  "group_label desc = (if js_length desc > 20 then js_take 20 desc @ ''...'' else desc)"

definition USER_GROUP_TEXT :: string where
  "USER_GROUP_TEXT = [CHR 0xE7, CHR 0x94, CHR 0xA8, CHR 0xE6, CHR 0x88, CHR 0xB7, CHR 0xE5, CHR 0x88, CHR 0x86,
     CHR 0xE7, CHR 0xBB, CHR 0x84]"

text \<open>\<open>splice(i, 1)\<close> and \<open>unshift\<close>.\<close>

definition move_front :: "('a \<Rightarrow> bool) \<Rightarrow> 'a list \<Rightarrow> 'a list" where
  "move_front P xs = (case find_index P xs of None \<Rightarrow> xs | Some i \<Rightarrow> xs ! i # take i xs @ drop (Suc i) xs)"

definition processGroupsData :: "group_info jsobj \<Rightarrow> string \<Rightarrow> group_option list" where
  "processGroupsData data userGroup =
     (let options = map (\<lambda>(g, info). \<lparr>go_label = group_label (gi_desc info), go_value = g, go_ratio = gi_ratio info,
                                      go_fullLabel = Some (gi_desc info)\<rparr>) (obj_entries data) in
      if options = [] then [\<lparr>go_label = USER_GROUP_TEXT, go_value = [], go_ratio = Num (Fin 1), go_fullLabel = None\<rparr>]
      else if userGroup \<noteq> [] then move_front (\<lambda>g. go_value g = userGroup) options
      else options)"

definition loadGroupOptions :: "group_info jsobj \<Rightarrow> string \<Rightarrow> page \<Rightarrow> group_option list \<times> page" where
  "loadGroupOptions data userGroup p =
     (let options = processGroupsData data userGroup;
          selected = field_of (cfg_inputs (page_config p)) ''group'' in
      (options,
       if list_ex (\<lambda>g. Str (go_value g) = selected) options then p
       else handleInputChange ''group'' (Str (case options of [] \<Rightarrow> [] | g # _ \<Rightarrow> go_value g)) p))"

end
