(* ===== verification/Playground_Sync_Proofs.thy ===== *)
theory Playground_Sync_Proofs
  imports Playground_Sync Playground_Config_Proofs "HOL-Library.Multiset"
begin

text \<open>
  The custom request body and the conversation: the two effects come to rest, the body carries the
  conversation, and the groups on offer.
\<close>

section \<open>The two directions settle\<close>

lemma body_of_set [simp]:
  "cfg_customRequestBody (page_config (setCustomRequestBody b p)) = Str b"
  "cfg_customRequestMode (page_config (setCustomRequestBody b p)) = cfg_customRequestMode (page_config p)"
  "cfg_inputs (page_config (setCustomRequestBody b p)) = cfg_inputs (page_config p)"
  "page_messages (setCustomRequestBody b p) = page_messages p"
  by (simp_all add: setCustomRequestBody_def map_config_def)

lemma sync_message_cases:
  assumes "syncMessageToCustomBody (refs, p) = Inr (refs1, p1)"
  obtains "refs1 = refs" "p1 = p"
  | b where "lastMessageHash refs1 = getMessageHash (page_messages p)" "lastCustomBodyHash refs1 = getCustomBodyHash b"
      "p1 = setCustomRequestBody b p"
proof (cases "\<not> truthy (cfg_customRequestMode (page_config p)) \<or> isUpdatingFromCustomBody refs \<or>
    getMessageHash (page_messages p) = lastMessageHash refs")
  case True
  then have "syncMessageToCustomBody (refs, p) = Inr (refs, p)" by (auto simp: syncMessageToCustomBody_def)
  with assms that(1) show ?thesis by simp
next
  case False
  define payload where "payload = (case json_parse (body_text_of p) of Some v \<Rightarrow> v | None \<Rightarrow> fallbackPayload (cfg_inputs (page_config p)))"
  have "syncMessageToCustomBody (refs, p) =
     (case set_messages payload (api_messages (page_messages p)) of
        Inl e \<Rightarrow> Inl e
      | Inr w \<Rightarrow> Inr (refs\<lparr>isUpdatingFromMessage := False, lastMessageHash := getMessageHash (page_messages p),
                        lastCustomBodyHash := getCustomBodyHash (the (json_pretty [] w))\<rparr>,
                   setCustomRequestBody (the (json_pretty [] w)) p))"
    using False by (simp add: syncMessageToCustomBody_def payload_def Let_def del: json_pretty.simps split: sum.split)
  then obtain w where "refs1 = refs\<lparr>isUpdatingFromMessage := False, lastMessageHash := getMessageHash (page_messages p),
      lastCustomBodyHash := getCustomBodyHash (the (json_pretty [] w))\<rparr>" "p1 = setCustomRequestBody (the (json_pretty [] w)) p"
    using assms by (cases "set_messages payload (api_messages (page_messages p))") auto
  then show ?thesis by (intro that(2)) simp_all
qed

lemma sync_message_idle:
  "lastMessageHash (fst s) = getMessageHash (page_messages (snd s)) \<Longrightarrow> syncMessageToCustomBody s = Inr s"
  by (cases s) (simp add: syncMessageToCustomBody_def)

lemma sync_body_idle:
  "lastCustomBodyHash (fst s) = getCustomBodyHash (js_String (cfg_customRequestBody (page_config (snd s)))) \<Longrightarrow>
   syncCustomBodyToMessage now s = s"
  by (cases s) (simp add: syncCustomBodyToMessage_def)

lemma sync_body_cases:
  assumes "syncCustomBodyToMessage now (refs, p) = r"
  obtains "r = (refs, p)"
  | refs2 ms where "r = (refs2, p\<lparr>page_messages := ms\<rparr>)" "lastMessageHash refs2 = getMessageHash ms"
  using assms
  by (auto simp: syncCustomBodyToMessage_def Let_def split: if_splits option.splits jsval.splits sum.splits)

lemma commit_idle:
  assumes "syncMessageToCustomBody s = Inr s"
  shows "syncCommit t r1 False s = Inr s"
  using assms by (cases s) (simp add: syncCommit_def)

text \<open>A commit after one in which the first effect found nothing to do: the second effect decides alone.\<close>

lemma commit_second:
  assumes "lastMessageHash refs = getMessageHash (page_messages p)"
  shows "\<exists>refs2 ms. syncCommit t r1 r2 (refs, p) = Inr (refs2, p\<lparr>page_messages := ms\<rparr>) \<and> lastMessageHash refs2 = getMessageHash ms"
proof -
  have idle: "syncMessageToCustomBody (refs, p) = Inr (refs, p)" using assms by (simp add: sync_message_idle)
  have same: "p\<lparr>page_messages := page_messages p\<rparr> = p" by simp
  obtain refs2 ms where "syncCustomBodyToMessage t (refs, p) = (refs2, p\<lparr>page_messages := ms\<rparr>)" "lastMessageHash refs2 = getMessageHash ms"
    by (rule sync_body_cases [OF refl, of t refs p]) (use assms same in metis)+
  then have "syncCommit t r1 True (refs, p) = Inr (refs2, p\<lparr>page_messages := ms\<rparr>) \<and> lastMessageHash refs2 = getMessageHash ms"
    using idle by (simp add: syncCommit_def)
  moreover have "syncCommit t r1 False (refs, p) = Inr (refs, p\<lparr>page_messages := page_messages p\<rparr>)"
    using idle by (simp add: syncCommit_def)
  ultimately show ?thesis using assms
    by (cases r2) (simp only: simp_thms, blast, simp only: simp_thms, blast)
qed

text \<open>
  C25: the two effects that copy the conversation into the custom body and back come to rest. After
  a commit in which the first effect ran, the next commit succeeds, and every later one, at whatever
  time, changes nothing; the second effect runs in a commit only when the mode or the body changed.
\<close>

theorem sync_settles:
  assumes "syncCommit t1 True r2 s = Inr s1"
  shows "\<exists>s2. syncCommit t2 r1 (body_changed (snd s) (snd s1)) s1 = Inr s2 \<and>
    (\<forall>t3 r3. syncCommit t3 r3 (body_changed (snd s1) (snd s2)) s2 = Inr s2)"
proof -
  obtain refs p where s: "s = (refs, p)" by fastforce
  obtain ra pa where a: "syncMessageToCustomBody (refs, p) = Inr (ra, pa)"
    using assms by (auto simp: syncCommit_def s split: sum.splits)
  define eb where "eb = (if r2 then syncCustomBodyToMessage t1 (ra, p) else (ra, p))"
  have s1: "s1 = (fst eb, pa\<lparr>page_messages := page_messages (snd eb)\<rparr>)"
    using assms a by (cases eb) (simp add: syncCommit_def s eb_def [symmetric])
  have rest: ?thesis if hash: "lastMessageHash (fst s1) = getMessageHash (page_messages (snd s1))"
  proof -
    obtain refs2 ms where c: "syncCommit t2 r1 (body_changed (snd s) (snd s1)) s1 = Inr (refs2, (snd s1)\<lparr>page_messages := ms\<rparr>)"
      "lastMessageHash refs2 = getMessageHash ms"
      using commit_second [OF hash, of t2 r1 "body_changed (snd s) (snd s1)"] unfolding prod.collapse by blast
    moreover have "\<not> body_changed (snd s1) ((snd s1)\<lparr>page_messages := ms\<rparr>)" by (simp add: body_changed_def)
    ultimately show ?thesis by (auto intro!: commit_idle sync_message_idle)
  qed
  have fired: ?thesis if "fst eb = ra" "snd eb = p"
    using a
  proof (cases rule: sync_message_cases)
    case 1
    then have "s1 = s" using s1 that s by simp
    moreover have "syncMessageToCustomBody s = Inr s" using a 1 s by simp
    moreover have "\<not> body_changed (snd s) (snd s)" by (simp add: body_changed_def)
    ultimately show ?thesis by (intro exI [of _ s]) (simp add: commit_idle)
  next
    case (2 b)
    then show ?thesis using s1 that by (intro rest) simp
  qed
  show ?thesis
  proof (cases r2)
    case True
    then have "syncCustomBodyToMessage t1 (ra, p) = eb" by (simp add: eb_def)
    then show ?thesis by (rule sync_body_cases) (use fired rest s1 in auto)
  next
    case False
    then show ?thesis by (intro fired) (simp_all add: eb_def)
  qed
qed

section \<open>The body carries the conversation\<close>

lemma json_data_api: "list_all storable ms \<Longrightarrow> json_data (api_messages ms)"
  by (auto simp: api_messages_def list_all_iff api_message_def storable_def intro!: json_data_named simp del: json_data.simps(7))

lemma sync_writes:
  assumes "truthy (cfg_customRequestMode (page_config p))" "\<not> isUpdatingFromCustomBody refs"
    "getMessageHash (page_messages p) \<noteq> lastMessageHash refs"
    "json_parse (body_text_of p) = Some (Obj ps)" "json_data (Obj ps)" "list_all storable (page_messages p)"
  obtains refs' body where "syncMessageToCustomBody (refs, p) = Inr (refs', setCustomRequestBody body p)"
    "json_parse body = Some (Obj (obj_set ''messages'' (api_messages (page_messages p)) ps))" "body \<noteq> []"
proof -
  let ?v = "Obj (obj_set ''messages'' (api_messages (page_messages p)) ps)"
  let ?b = "the (json_pretty [] ?v)"
  have "json_data ?v" using assms(5) json_data_api [OF assms(6)] by (rule json_data_set) simp
  then have parse: "json_parse ?b = Some ?v" by (rule json2.parse_print)
  then have "?b \<noteq> []" by (auto simp: json_parse_def skip_ws_def)
  moreover have "\<exists>refs'. syncMessageToCustomBody (refs, p) = Inr (refs', setCustomRequestBody ?b p)"
    using assms(1-3) by (simp add: syncMessageToCustomBody_def Let_def assms(4) del: json_pretty.simps)
  ultimately show ?thesis using parse that by blast
qed

text \<open>
  In custom mode a changed conversation is written into the body and every other field of the
  body is kept; the request that the next message triggers is this body: it carries the
  conversation before the message, which itself is shown but not sent.
\<close>

theorem custom_body_is_sent:
  assumes "truthy (cfg_customRequestMode (page_config p))" "\<not> isUpdatingFromCustomBody refs"
    "getMessageHash (page_messages p) \<noteq> lastMessageHash refs"
    "json_parse (body_text_of p) = Some (Obj ps)" "json_data (Obj ps)" "list_all storable (page_messages p)"
  shows "\<exists>refs' body payload stream new n.
    syncMessageToCustomBody (refs, p) = Inr (refs', setCustomRequestBody body p) \<and>
    onMessageSend now True body inputs en urls imageEnabled content (page_messages p, messageId) =
      Inr (SendRequest (Obj payload) stream (page_messages p @ new), n) \<and>
    field_of payload ''messages'' = api_messages (page_messages p) \<and>
    (\<forall>k. k \<noteq> ''messages'' \<longrightarrow> field_of payload k = field_of ps k) \<and>
    map (\<lambda>m. (role m, msg_body m)) new = [(USER, Text content), (ASSISTANT, Text [])]"
proof -
  obtain refs' body where b: "syncMessageToCustomBody (refs, p) = Inr (refs', setCustomRequestBody body p)"
    "json_parse body = Some (Obj (obj_set ''messages'' (api_messages (page_messages p)) ps))" "body \<noteq> []"
    using assms by (rule sync_writes)
  let ?payload = "obj_set ''messages'' (api_messages (page_messages p)) ps"
  let ?u = "fst (createMessage now messageId USER (Text content))"
  let ?l = "fst (createLoadingAssistantMessage now (snd (createMessage now messageId USER (Text content))))"
  obtain stream n where "onMessageSend now True body inputs en urls imageEnabled content (page_messages p, messageId) =
      Inr (SendRequest (Obj ?payload) stream (page_messages p @ [?u, ?l]), n)"
    using b(2,3) by (simp add: onMessageSend_def case_prod_unfold Let_def)
  moreover have "map (\<lambda>m. (role m, msg_body m)) [?u, ?l] = [(USER, Text content), (ASSISTANT, Text [])]"
    by (simp add: createMessage_def createLoadingAssistantMessage_def generateMessageId_def)
  moreover have "field_of ?payload ''messages'' = api_messages (page_messages p)"
    "\<forall>k. k \<noteq> ''messages'' \<longrightarrow> field_of ?payload k = field_of ps k"
    by (simp_all add: field_of_def)
  ultimately show ?thesis using b(1)
    by (intro exI [of _ refs'] exI [of _ body] exI [of _ ?payload] exI [of _ stream] exI [of _ "[?u, ?l]"] exI [of _ n] conjI)
qed

text \<open>A body that is JSON but no object makes the effect throw as soon as the conversation changes.\<close>

theorem sync_throws_on_primitive:
  assumes "truthy (cfg_customRequestMode (page_config p))" "\<not> isUpdatingFromCustomBody refs"
    "getMessageHash (page_messages p) \<noteq> lastMessageHash refs"
    "json_parse (body_text_of p) = Some v" "v = Null \<or> is_number v \<or> is_str v \<or> is_bool v"
  shows "syncMessageToCustomBody (refs, p) = Inl TypeError"
proof -
  have "set_messages v w = Inl TypeError" for w
    using assms(5) by (cases v) auto
  with assms(1-4) show ?thesis by (simp add: syncMessageToCustomBody_def Let_def)
qed

section \<open>Models and groups on offer\<close>

lemma find_index_Some: "find_index P xs = Some i \<Longrightarrow> i < length xs \<and> P (xs ! i)"
  using nth_length_takeWhile [of "\<lambda>x. \<not> P x" xs] by (auto simp: find_index_def Let_def split: if_splits)

lemma find_index_None: "find_index P xs = None \<longleftrightarrow> \<not> (\<exists>x \<in> set xs. P x)"
proof -
  have "length (takeWhile (\<lambda>x. \<not> P x) xs) < length xs \<longleftrightarrow> (\<exists>x \<in> set xs. P x)"
    by (induction xs) auto
  then show ?thesis by (simp add: find_index_def Let_def)
qed

lemma move_front_mset: "mset (move_front P xs) = mset xs"
proof (cases "find_index P xs")
  case (Some i)
  then have "i < length xs" using find_index_Some by blast
  then have "xs = take i xs @ xs ! i # drop (Suc i) xs" by (rule id_take_nth_drop)
  then have "mset xs = mset (take i xs @ xs ! i # drop (Suc i) xs)" by simp
  with Some show ?thesis by (simp add: move_front_def)
qed (simp add: move_front_def)

lemma move_front_hd: "\<exists>x \<in> set xs. P x \<Longrightarrow> P (hd (move_front P xs))"
  using find_index_Some [of P xs] find_index_None [of P xs]
  by (cases "find_index P xs") (auto simp: move_front_def)

definition offered :: "group_info jsobj \<Rightarrow> group_option list" where
  "offered data = map (\<lambda>(g, info). \<lparr>go_label = group_label (gi_desc info), go_value = g, go_ratio = gi_ratio info,
     go_fullLabel = Some (gi_desc info)\<rparr>) (obj_entries data)"

lemma obj_entries_Nil [simp]: "obj_entries ob = [] \<longleftrightarrow> ob = []"
  using set_obj_entries [of ob] by (metis set_empty)

text \<open>
  The groups on offer are those of the server, with the group of the user first; afterwards the
  selected group is one of them, and no other setting has changed.
\<close>

theorem groups_offered:
  assumes "data \<noteq> []" "loadGroupOptions data userGroup p = (options, q)"
  shows "mset options = mset (offered data) \<and>
    (userGroup \<in> fst ` set data \<and> userGroup \<noteq> [] \<longrightarrow> go_value (hd options) = userGroup) \<and>
    (\<exists>g \<in> set options. field_of (cfg_inputs (page_config q)) ''group'' = Str (go_value g)) \<and>
    (\<forall>k. k \<noteq> ''group'' \<longrightarrow> field_of (cfg_inputs (page_config q)) k = field_of (cfg_inputs (page_config p)) k)"
proof -
  have ne: "offered data \<noteq> []" using assms(1) by (simp add: offered_def)
  have opts: "options = (if userGroup \<noteq> [] then move_front (\<lambda>g. go_value g = userGroup) (offered data) else offered data)"
    using assms ne by (auto simp: loadGroupOptions_def processGroupsData_def offered_def Let_def)
  then have ms: "mset options = mset (offered data)" by (simp add: move_front_mset)
  then have "options \<noteq> []" using ne by auto
  then obtain g gs where g: "options = g # gs" by (cases options) auto
  have q: "q = (if list_ex (\<lambda>g. Str (go_value g) = field_of (cfg_inputs (page_config p)) ''group'') options then p
      else handleInputChange ''group'' (Str (go_value g)) p)"
    using assms(2) g by (auto simp: loadGroupOptions_def Let_def)
  have "go_value (hd options) = userGroup" if "userGroup \<in> fst ` set data" "userGroup \<noteq> []"
  proof -
    have "\<exists>x \<in> set (offered data). go_value x = userGroup" using that(1) by (force simp: offered_def)
    then show ?thesis using that(2) opts move_front_hd [of "offered data" "\<lambda>g. go_value g = userGroup"] by simp
  qed
  moreover have "\<exists>g \<in> set options. field_of (cfg_inputs (page_config q)) ''group'' = Str (go_value g)"
  proof (cases "list_ex (\<lambda>g. Str (go_value g) = field_of (cfg_inputs (page_config p)) ''group'') options")
    case True
    then show ?thesis unfolding q by (force simp: list_ex_iff)
  qed (use g q in \<open>simp add: handleInputChange_def map_config_def field_of_def\<close>)
  moreover have "\<forall>k. k \<noteq> ''group'' \<longrightarrow> field_of (cfg_inputs (page_config q)) k = field_of (cfg_inputs (page_config p)) k"
    unfolding q by (simp add: handleInputChange_def map_config_def field_of_def)
  ultimately show ?thesis using ms by blast
qed


section \<open>Witnesses\<close>

definition custom_page :: page where
  "custom_page = \<lparr>page_store = \<lambda>_. None,
     page_config = DEFAULT_CONFIG\<lparr>cfg_customRequestMode := Bool True, cfg_customRequestBody := Str ''{\"model\":\"m\"}''\<rparr>,
     page_messages = [hd (getDefaultMessages ''Hi'' [])], page_restored = False\<rparr>"

lemma example_body: "json_parse ''{\"model\":\"m\"}'' = Some (Obj [(''model'', Str ''m'')])"
  by code_simp

lemma custom_page_facts:
  "truthy (cfg_customRequestMode (page_config custom_page))" "\<not> isUpdatingFromCustomBody initialRefs"
  "getMessageHash (page_messages custom_page) \<noteq> lastMessageHash initialRefs"
  "json_parse (body_text_of custom_page) = Some (Obj [(''model'', Str ''m'')])" "json_data (Obj [(''model'', Str ''m'')])"
  "list_all storable (page_messages custom_page)"
proof -
  show "list_all storable (page_messages custom_page)" by code_simp
  show "json_parse (body_text_of custom_page) = Some (Obj [(''model'', Str ''m'')])"
  proof -
    have "body_text_of custom_page = ''{\"model\":\"m\"}''"
      by (simp add: custom_page_def body_text_of_def js_or_def)
    then show ?thesis by (simp only: example_body)
  qed
  show "json_data (Obj [(''model'', Str ''m'')])" by code_simp
qed (simp_all add: custom_page_def initialRefs_def getMessageHash_def)

theorem custom_body_is_sent_witness:
  "\<exists>body payload stream new n. onMessageSend 0 True body [] [] [] False ''Hello'' (page_messages custom_page, 4) =
     Inr (SendRequest (Obj payload) stream (page_messages custom_page @ new), n) \<and> field_of payload ''model'' = Str ''m''"
proof -
  obtain body payload stream new n where
    b: "onMessageSend 0 True body [] [] [] False ''Hello'' (page_messages custom_page, 4) =
      Inr (SendRequest (Obj payload) stream (page_messages custom_page @ new), n)"
    "\<forall>k. k \<noteq> ''messages'' \<longrightarrow> field_of payload k = field_of [(''model'', Str ''m'')] k"
    using custom_body_is_sent [OF custom_page_facts, of 0 "[]" "[]" "[]" False "''Hello''" 4]
    by (elim exE conjE) (rule that; assumption)
  then have "field_of payload ''model'' = Str ''m''" by (simp add: field_of_def)
  with b(1) show ?thesis
    by (intro exI [of _ body] exI [of _ payload] exI [of _ stream] exI [of _ new] exI [of _ n] conjI)
qed

theorem sync_settles_witness:
  "\<exists>s1 s2. syncCommit 5 True True (initialRefs, custom_page) = Inr s1 \<and>
     syncCommit 6 True (body_changed custom_page (snd s1)) s1 = Inr s2 \<and>
     syncCommit 9 True (body_changed (snd s1) (snd s2)) s2 = Inr s2"
proof -
  obtain refs' body where "syncMessageToCustomBody (initialRefs, custom_page) = Inr (refs', setCustomRequestBody body custom_page)"
    using custom_page_facts by (rule sync_writes)
  then obtain s1 where s1: "syncCommit 5 True True (initialRefs, custom_page) = Inr s1"
    by (simp add: syncCommit_def Let_def case_prod_unfold)
  from sync_settles [OF this, of 6 True] s1 show ?thesis by auto
qed

theorem groups_offered_witness:
  "\<exists>options q. loadGroupOptions [(''a'', \<lparr>gi_desc = [], gi_ratio = Null\<rparr>), (''b'', \<lparr>gi_desc = [], gi_ratio = Null\<rparr>)] ''b'' custom_page =
     (options, q) \<and> go_value (hd options) = ''b''"
proof -
  let ?d = "[(''a'', \<lparr>gi_desc = [], gi_ratio = Null\<rparr>), (''b'', \<lparr>gi_desc = [], gi_ratio = Null\<rparr>)]"
  obtain options q where l: "loadGroupOptions ?d ''b'' custom_page = (options, q)" by fastforce
  have "?d \<noteq> []" by simp
  from groups_offered [OF this l] have "go_value (hd options) = ''b''" by simp
  with l show ?thesis by blast
qed

end
