(* ===== verification/Param_Override.thy ===== *)
theory Param_Override
  imports JS_Json
begin

text \<open>
  Parameter overrides of a channel
  (\<open>src/web/src/components/table/channels/modals/ParamOverrideEditorModal.jsx\<close>): rules
  (operations with conditions) that rewrite a request, their normal form, their validation, the
  JSON text they are saved as, and the drafts of the values with a form of their own.

  Ids of rules and conditions come from a counter of the module and the clock: \<open>clk n\<close> is the time
  at which the id with number \<open>n\<close> is made, and the counter is passed along. \<open>toUpperCase\<close> and
  \<open>toLowerCase\<close> are only compared with ASCII words none of whose letters is the image of another
  character, so the ASCII versions decide the same. Error messages are constructors with the
  number of the rule.
\<close>

section \<open>Constants\<close>

definition OPERATION_MODES :: "string list" where
  "OPERATION_MODES =
     [''set'', ''delete'', ''append'', ''prepend'', ''copy'', ''move'', ''replace'', ''regex_replace'',
      ''trim_prefix'', ''trim_suffix'', ''ensure_prefix'', ''ensure_suffix'', ''trim_space'', ''to_lower'',
      ''to_upper'', ''return_error'', ''prune_objects'', ''pass_headers'', ''sync_fields'', ''set_header'',
      ''delete_header'', ''copy_header'', ''move_header'']"

definition CONDITION_MODES :: "string list" where
  "CONDITION_MODES = [''full'', ''prefix'', ''suffix'', ''contains'', ''gt'', ''gte'', ''lt'', ''lte'']"

record mode_meta =
  m_path :: bool
  m_pathOptional :: bool
  m_value :: bool
  m_keepOrigin :: bool
  m_from :: bool
  m_to :: bool
  m_pathAlias :: bool

definition NO_META :: mode_meta where
  "NO_META = \<lparr>m_path = False, m_pathOptional = False, m_value = False, m_keepOrigin = False, m_from = False,
     m_to = False, m_pathAlias = False\<rparr>"

text \<open>\<open>MODE_META[mode] || MODE_META.set\<close>\<close>

definition MODE_META :: "string \<Rightarrow> mode_meta" where
  "MODE_META mode =
     (if mode \<in> {''delete'', ''trim_space'', ''to_lower'', ''to_upper'', ''delete_header''} then NO_META\<lparr>m_path := True\<rparr>
      else if mode \<in> {''copy'', ''move'', ''sync_fields''} then NO_META\<lparr>m_from := True, m_to := True\<rparr>
      else if mode \<in> {''replace'', ''regex_replace''} then NO_META\<lparr>m_path := True, m_from := True\<rparr>
      else if mode \<in> {''trim_prefix'', ''trim_suffix'', ''ensure_prefix'', ''ensure_suffix''}
        then NO_META\<lparr>m_path := True, m_value := True\<rparr>
      else if mode = ''return_error'' then NO_META\<lparr>m_value := True\<rparr>
      else if mode = ''prune_objects'' then NO_META\<lparr>m_pathOptional := True, m_value := True\<rparr>
      else if mode = ''pass_headers'' then NO_META\<lparr>m_value := True, m_keepOrigin := True\<rparr>
      else if mode \<in> {''copy_header'', ''move_header''}
        then NO_META\<lparr>m_from := True, m_to := True, m_keepOrigin := True, m_pathAlias := True\<rparr>
      else NO_META\<lparr>m_path := True, m_value := True, m_keepOrigin := True\<rparr>)"

definition VALUE_REQUIRED_MODES :: "string list" where
  "VALUE_REQUIRED_MODES =
     [''trim_prefix'', ''trim_suffix'', ''ensure_prefix'', ''ensure_suffix'', ''set_header'', ''return_error'',
      ''prune_objects'', ''pass_headers'']"

definition FROM_REQUIRED_MODES :: "string list" where
  "FROM_REQUIRED_MODES = [''copy'', ''move'', ''replace'', ''regex_replace'', ''copy_header'', ''move_header'', ''sync_fields'']"

definition TO_REQUIRED_MODES :: "string list" where
  "TO_REQUIRED_MODES = [''copy'', ''move'', ''copy_header'', ''move_header'', ''sync_fields'']"

section \<open>Values as text\<close>

definition nextLocalId :: "(nat \<Rightarrow> nat) \<Rightarrow> nat \<Rightarrow> string \<times> nat" where
  "nextLocalId clk seed = (''param_override_'' @ show_nat (clk seed) @ ''_'' @ show_nat seed, Suc seed)"

definition toValueText :: "jsval \<Rightarrow> string" where
  "toValueText v =
     (case v of
        Undef \<Rightarrow> []
      | Str s \<Rightarrow> s
      | _ \<Rightarrow> the (json_stringify v))"

definition parseLooseValue :: "string \<Rightarrow> jsval" where
  "parseLooseValue raw =
     (if trim raw = [] then Str [] else case json_parse raw of Some v \<Rightarrow> v | None \<Rightarrow> Str raw)"

text \<open>\<open>String(item ?? '').trim()\<close>\<close>

definition item_text :: "jsval \<Rightarrow> string" where
  "item_text v = (if v = Null \<or> v = Undef then [] else trim (js_String v))"

fun parsePassHeaderNames :: "jsval \<Rightarrow> string list" where
  "parsePassHeaderNames (Arr xs) = filter (\<lambda>s. s \<noteq> []) (map item_text xs)"
| "parsePassHeaderNames (Obj ob) =
     (case get_prop (Obj ob) ''headers'' of
        Arr xs \<Rightarrow> filter (\<lambda>s. s \<noteq> []) (map item_text xs)
      | _ \<Rightarrow>
          if get_prop (Obj ob) ''header'' \<noteq> Undef then
            let single = item_text (get_prop (Obj ob) ''header'') in if single \<noteq> [] then [single] else []
          else [])"
| "parsePassHeaderNames (Str s) = filter (\<lambda>s. s \<noteq> []) (map trim (split_char (CHR '','') s))"
| "parsePassHeaderNames _ = []"

text \<open>\<open>a || b\<close>\<close>

definition or_else :: "jsval \<Rightarrow> jsval \<Rightarrow> jsval" where
  "or_else a b = (if truthy a then a else b)"

text \<open>\<open>String(v || d)\<close>\<close>

definition text_or :: "jsval \<Rightarrow> string \<Rightarrow> string" where
  "text_or v d = js_String (or_else v (Str d))"

definition upper_char :: "char \<Rightarrow> char" where
  "upper_char c = (let n = of_char c :: nat in if 97 \<le> n \<and> n \<le> 122 then char_of (n - 32) else c)"

definition lower_char :: "char \<Rightarrow> char" where
  "lower_char c = (let n = of_char c :: nat in if 65 \<le> n \<and> n \<le> 90 then char_of (n + 32) else c)"

section \<open>The draft of a custom error\<close>

record return_error_draft =
  re_message :: string
  re_statusCode :: jsval
  re_code :: string
  re_type :: string
  re_skipRetry :: bool
  re_simpleMode :: bool

definition defaultReturnError :: return_error_draft where
  "defaultReturnError =
     \<lparr>re_message = [], re_statusCode = Num (Fin 400), re_code = [], re_type = [], re_skipRetry = True, re_simpleMode = True\<rparr>"

text \<open>\<open>Number.isInteger(n) && n >= 100 && n <= 599 ? n : 400\<close>\<close>

fun http_status :: "jsnum \<Rightarrow> int" where
  "http_status (Fin q) = (if q = of_int \<lfloor>q\<rfloor> \<and> 100 \<le> q \<and> q \<le> 599 then \<lfloor>q\<rfloor> else 400)"
| "http_status _ = 400"

definition int_num :: "int \<Rightarrow> jsval" where
  "int_num n = Num (Fin (of_int n))"

definition parseReturnErrorDraft :: "string \<Rightarrow> return_error_draft" where
  "parseReturnErrorDraft valueText =
     (let raw = trim valueText in
      if raw = [] then defaultReturnError
      else
        case json_parse raw of
          Some (Obj ob) \<Rightarrow>
            (let p = get_prop (Obj ob);
                 statusRaw = (if p ''status_code'' \<noteq> Undef then p ''status_code'' else p ''status'') in
             \<lparr>re_message = trim (text_or (or_else (p ''message'') (p ''msg'')) []),
              re_statusCode = int_num (http_status (js_Number statusRaw)),
              re_code = trim (text_or (p ''code'') []),
              re_type = trim (text_or (p ''type'') []),
              re_skipRetry = (p ''skip_retry'' \<noteq> Bool False),
              re_simpleMode = False\<rparr>)
        | _ \<Rightarrow> defaultReturnError\<lparr>re_message := raw, re_simpleMode := True\<rparr>)"

definition buildReturnErrorValueText :: "return_error_draft \<Rightarrow> string" where
  "buildReturnErrorValueText draft =
     (let message = trim (re_message draft) in
      if re_simpleMode draft then message
      else
        let payload0 = [(''message'', Str message), (''status_code'', int_num (http_status (js_Number (re_statusCode draft))))];
            code = trim (re_code draft); type = trim (re_type draft);
            payload1 = set_if (code \<noteq> []) ''code'' (Str code) payload0;
            payload2 = set_if (type \<noteq> []) ''type'' (Str type) payload1;
            payload3 = set_if (\<not> re_skipRetry draft) ''skip_retry'' (Bool False) payload2 in
        the (json_stringify (Obj payload3)))"

section \<open>Conditions and operations\<close>

record override_condition =
  c_id :: string
  c_path :: string
  c_mode :: string
  c_value_text :: string
  c_invert :: bool
  c_pass_missing_key :: bool

text \<open>A property that counts only when it is a string.\<close>

fun string_or :: "jsval \<Rightarrow> string \<Rightarrow> string" where
  "string_or (Str s) d = s"
| "string_or _ d = d"

definition known_mode :: "string list \<Rightarrow> string \<Rightarrow> jsval \<Rightarrow> string" where
  "known_mode modes d v = (case v of Str s \<Rightarrow> if s \<in> set modes then s else d | _ \<Rightarrow> d)"

text \<open>Reading a property of null throws; an argument that is undefined is the empty object.\<close>

definition normalizeOverrideCondition :: "(nat \<Rightarrow> nat) \<Rightarrow> jsval \<Rightarrow> nat \<Rightarrow> js_error + override_condition \<times> nat" where
  "normalizeOverrideCondition clk v seed =
     (let (i, seed') = nextLocalId clk seed in
      if v = Null then Inl TypeError
      else Inr (\<lparr>c_id = i, c_path = string_or (get_prop v ''path'') [],
                 c_mode = known_mode CONDITION_MODES ''full'' (get_prop v ''mode''),
                 c_value_text = toValueText (get_prop v ''value''),
                 c_invert = (get_prop v ''invert'' = Bool True),
                 c_pass_missing_key = (get_prop v ''pass_missing_key'' = Bool True)\<rparr>, seed'))"

fun map_seed :: "('a \<Rightarrow> nat \<Rightarrow> js_error + 'b \<times> nat) \<Rightarrow> 'a list \<Rightarrow> nat \<Rightarrow> js_error + 'b list \<times> nat" where
  "map_seed f [] seed = Inr ([], seed)"
| "map_seed f (x # xs) seed =
     (case f x seed of
        Inl e \<Rightarrow> Inl e
      | Inr (y, seed1) \<Rightarrow> (case map_seed f xs seed1 of Inl e \<Rightarrow> Inl e | Inr (ys, seed2) \<Rightarrow> Inr (y # ys, seed2)))"

record override_operation =
  op_id :: string
  op_description :: string
  op_path :: string
  op_mode :: string
  op_value_text :: string
  op_keep_origin :: bool
  op_from :: string
  op_to :: string
  op_logic :: string
  op_conditions :: "override_condition list"

definition normalizeOperation :: "(nat \<Rightarrow> nat) \<Rightarrow> jsval \<Rightarrow> nat \<Rightarrow> js_error + override_operation \<times> nat" where
  "normalizeOperation clk v seed =
     (let (i, seed1) = nextLocalId clk seed in
      if v = Null then Inl TypeError
      else
        let p = get_prop v in
        case (case p ''conditions'' of
                Arr cs \<Rightarrow> map_seed (normalizeOverrideCondition clk) cs seed1
              | _ \<Rightarrow> Inr ([], seed1)) of
          Inl e \<Rightarrow> Inl e
        | Inr (cs, seed2) \<Rightarrow>
            Inr (\<lparr>op_id = i, op_description = string_or (p ''description'') [], op_path = string_or (p ''path'') [],
                  op_mode = known_mode OPERATION_MODES ''set'' (p ''mode''),
                  op_value_text = toValueText (p ''value''), op_keep_origin = (p ''keep_origin'' = Bool True),
                  op_from = string_or (p ''from'') [], op_to = string_or (p ''to'') [],
                  op_logic = (if map upper_char (text_or (p ''logic'') ''OR'') = ''AND'' then ''AND'' else ''OR''),
                  op_conditions = cs\<rparr>, seed2))"

definition createDefaultCondition :: "(nat \<Rightarrow> nat) \<Rightarrow> nat \<Rightarrow> override_condition \<times> nat" where
  "createDefaultCondition clk seed =
     (let (i, seed') = nextLocalId clk seed in
      (\<lparr>c_id = i, c_path = [], c_mode = ''full'', c_value_text = [], c_invert = False, c_pass_missing_key = False\<rparr>, seed'))"

definition createDefaultOperation :: "(nat \<Rightarrow> nat) \<Rightarrow> nat \<Rightarrow> override_operation \<times> nat" where
  "createDefaultOperation clk seed =
     (let (i, seed') = nextLocalId clk seed in
      (\<lparr>op_id = i, op_description = [], op_path = [], op_mode = ''set'', op_value_text = [], op_keep_origin = False,
        op_from = [], op_to = [], op_logic = ''OR'', op_conditions = []\<rparr>, seed'))"

lemma createDefault_normalized:
  "normalizeOverrideCondition clk (Obj []) seed = Inr (createDefaultCondition clk seed)"
  "normalizeOperation clk (Obj [(''mode'', Str ''set'')]) seed = Inr (createDefaultOperation clk seed)"
  by (simp_all add: normalizeOverrideCondition_def createDefaultCondition_def normalizeOperation_def
      createDefaultOperation_def known_mode_def CONDITION_MODES_def OPERATION_MODES_def toValueText_def text_or_def
      or_else_def upper_char_def nextLocalId_def)

section \<open>The draft of an object filter\<close>

record prune_draft =
  pd_simpleMode :: bool
  pd_typeText :: string
  pd_logic :: string
  pd_recursive :: bool
  pd_rules :: "override_condition list"

definition defaultPrune :: prune_draft where
  "defaultPrune = \<lparr>pd_simpleMode = True, pd_typeText = [], pd_logic = ''AND'', pd_recursive = True, pd_rules = []\<rparr>"

text \<open>\<open>normalizePruneRule\<close> builds the same object as \<open>normalizeCondition\<close>; its argument is never null.\<close>

definition normalizePruneRule :: "(nat \<Rightarrow> nat) \<Rightarrow> jsval \<Rightarrow> nat \<Rightarrow> override_condition \<times> nat" where
  "normalizePruneRule clk v seed =
     (let (i, seed') = nextLocalId clk seed in
      (\<lparr>c_id = i, c_path = string_or (get_prop v ''path'') [],
        c_mode = known_mode CONDITION_MODES ''full'' (get_prop v ''mode''),
        c_value_text = toValueText (get_prop v ''value''),
        c_invert = (get_prop v ''invert'' = Bool True),
        c_pass_missing_key = (get_prop v ''pass_missing_key'' = Bool True)\<rparr>, seed'))"

fun push_rules :: "(nat \<Rightarrow> nat) \<Rightarrow> jsval list \<Rightarrow> nat \<Rightarrow> override_condition list \<times> nat" where
  "push_rules clk [] seed = ([], seed)"
| "push_rules clk (v # vs) seed =
     (let (r, seed1) = normalizePruneRule clk v seed; (rs, seed2) = push_rules clk vs seed1 in (r # rs, seed2))"

definition entry_rule :: "string \<times> jsval \<Rightarrow> jsval" where
  "entry_rule kv = Obj [(''path'', Str (fst kv)), (''mode'', Str ''full''), (''value'', snd kv)]"

fun is_object :: "jsval \<Rightarrow> bool" where
  "is_object (Obj ob) = True"
| "is_object (Arr xs) = True"
| "is_object _ = False"

text \<open>The arguments of \<open>normalizePruneRule\<close>, in order.\<close>

definition rule_values :: "jsval \<Rightarrow> jsval list" where
  "rule_values parsed =
     (case get_prop parsed ''where'' of Obj ob \<Rightarrow> map entry_rule (obj_entries ob) | _ \<Rightarrow> [])
     @ (case get_prop parsed ''conditions'' of
          Arr xs \<Rightarrow> filter is_object xs
        | Obj ob \<Rightarrow> map entry_rule (obj_entries ob)
        | _ \<Rightarrow> [])"

definition parsePruneObjectsDraft :: "(nat \<Rightarrow> nat) \<Rightarrow> string \<Rightarrow> nat \<Rightarrow> prune_draft \<times> nat" where
  "parsePruneObjectsDraft clk valueText seed =
     (let raw = trim valueText in
      if raw = [] then (defaultPrune, seed)
      else
        case json_parse raw of
          None \<Rightarrow> (defaultPrune\<lparr>pd_typeText := raw\<rparr>, seed)
        | Some (Str s) \<Rightarrow> (defaultPrune\<lparr>pd_typeText := trim s\<rparr>, seed)
        | Some (Obj ob) \<Rightarrow>
            (let p = get_prop (Obj ob); (rules, seed') = push_rules clk (rule_values (Obj ob)) seed in
             (\<lparr>pd_simpleMode = (p ''logic'' = Undef \<and> p ''recursive'' = Undef \<and> p ''where'' = Undef \<and> p ''conditions'' = Undef),
               pd_typeText = (if p ''type'' = Undef then [] else trim (js_String (p ''type''))),
               pd_logic = (if map upper_char (text_or (p ''logic'') ''AND'') = ''OR'' then ''OR'' else ''AND''),
               pd_recursive = (p ''recursive'' \<noteq> Bool False),
               pd_rules = rules\<rparr>, seed'))
        | Some v \<Rightarrow> (defaultPrune\<lparr>pd_typeText := item_text v\<rparr>, seed))"

definition prune_condition :: "override_condition \<Rightarrow> jsval" where
  "prune_condition r =
     (let p0 = [(''path'', Str (trim (c_path r))),
                (''mode'', Str (if c_mode r \<in> set CONDITION_MODES then c_mode r else ''full''))];
          valueRaw = trim (c_value_text r);
          p1 = set_if (valueRaw \<noteq> []) ''value'' (parseLooseValue valueRaw) p0;
          p2 = set_if (c_invert r) ''invert'' (Bool True) p1;
          p3 = set_if (c_pass_missing_key r) ''pass_missing_key'' (Bool True) p2 in
      Obj p3)"

definition buildPruneObjectsValueText :: "prune_draft \<Rightarrow> string" where
  "buildPruneObjectsValueText draft =
     (let typeText = trim (pd_typeText draft) in
      if pd_simpleMode draft then typeText
      else
        let p0 = (if typeText \<noteq> [] then [(''type'', Str typeText)] else []);
            p1 = set_if (map upper_char (pd_logic draft) = ''OR'') ''logic'' (Str ''OR'') p0;
            p2 = set_if (\<not> pd_recursive draft) ''recursive'' (Bool False) p1;
            cs = map prune_condition (filter (\<lambda>r. trim (c_path r) \<noteq> []) (pd_rules draft));
            p3 = set_if (cs \<noteq> []) ''conditions'' (Arr cs) p2 in
        if typeText = [] \<and> cs = [] then the (json_stringify (Obj [(''logic'', Str ''AND'')]))
        else the (json_stringify (Obj p3)))"

section \<open>Targets of a synchronisation\<close>

definition parseSyncTargetSpec :: "string \<Rightarrow> string \<times> string" where
  "parseSyncTargetSpec spec =
     (let raw = trim spec in
      if raw = [] then (''json'', [])
      else if CHR '':'' \<notin> set raw then (''json'', raw)
      else
        let pre = map lower_char (trim (takeWhile (\<lambda>c. c \<noteq> CHR '':'') raw));
            key = trim (tl (dropWhile (\<lambda>c. c \<noteq> CHR '':'') raw)) in
        (if pre = ''header'' then ''header'' else ''json'', key))"

definition buildSyncTargetSpec :: "string \<Rightarrow> string \<Rightarrow> string" where
  "buildSyncTargetSpec ty key =
     (let normalizedType = (if ty = ''header'' then ''header'' else ''json''); normalizedKey = trim key in
      if normalizedKey = [] then [] else normalizedType @ '':'' @ normalizedKey)"

section \<open>Lists of operations\<close>

definition index_of :: "('a \<Rightarrow> bool) \<Rightarrow> 'a list \<Rightarrow> nat option" where
  "index_of P xs = (let i = length (takeWhile (\<lambda>x. \<not> P x) xs) in if i < length xs then Some i else None)"

text \<open>\<open>splice(i, 1)\<close> and \<open>splice(i, 0, x)\<close>\<close>

definition remove_index :: "nat \<Rightarrow> 'a list \<Rightarrow> 'a list" where
  "remove_index i xs = take i xs @ drop (Suc i) xs"

definition insert_index :: "nat \<Rightarrow> 'a \<Rightarrow> 'a list \<Rightarrow> 'a list" where
  "insert_index i x xs = take i xs @ x # drop i xs"

datatype drop_position = Before | After

definition reorderOperations ::
  "override_operation list \<Rightarrow> string \<Rightarrow> string \<Rightarrow> drop_position \<Rightarrow> override_operation list" where
  "reorderOperations ops sourceId targetId position =
     (if sourceId = [] \<or> targetId = [] \<or> sourceId = targetId then ops
      else
        case index_of (\<lambda>x. op_id x = sourceId) ops of
          None \<Rightarrow> ops
        | Some s \<Rightarrow>
            let rest = remove_index s ops in
            (case index_of (\<lambda>x. op_id x = targetId) rest of
               None \<Rightarrow> ops
             | Some i \<Rightarrow> insert_index (if position = After then i + 1 else i) (ops ! s) rest))"

text \<open>The part of the summary after the mode's label.\<close>

definition getOperationSummary :: "override_operation \<Rightarrow> string" where
  "getOperationSummary op =
     (let path = trim (op_path op); from = trim (op_from op); to = trim (op_to op);
          first = (if op_mode op = ''sync_fields'' then [from, to] else [path, from, to]) in
      case filter (\<lambda>s. s \<noteq> []) first of [] \<Rightarrow> ''-'' | x # _ \<Rightarrow> x)"

definition getOperationModeTagColor :: "string \<Rightarrow> string" where
  "getOperationModeTagColor mode =
     (if js_includes mode ''header'' then ''cyan''
      else if js_includes mode ''replace'' \<or> js_includes mode ''trim'' then ''violet''
      else if js_includes mode ''copy'' \<or> js_includes mode ''move'' then ''blue''
      else if js_includes mode ''error'' \<or> js_includes mode ''prune'' then ''red''
      else if js_includes mode ''sync'' then ''green''
      else ''grey'')"

definition isOperationBlank :: "override_operation \<Rightarrow> bool" where
  "isOperationBlank op \<longleftrightarrow>
     op_mode op = ''set'' \<and> trim (op_path op) = [] \<and> trim (op_from op) = [] \<and> trim (op_to op) = [] \<and>
     trim (op_value_text op) = [] \<and> \<not> op_keep_origin op \<and>
     \<not> list_ex (\<lambda>c. trim (c_path c) \<noteq> [] \<or> trim (c_value_text c) \<noteq> [] \<or> c_mode c \<noteq> ''full'' \<or> c_invert c \<or>
         c_pass_missing_key c) (op_conditions op)"

definition buildConditionPayload :: "override_condition \<Rightarrow> jsval option" where
  "buildConditionPayload c =
     (let path = trim (c_path c) in
      if path = [] then None
      else
        let p0 = [(''path'', Str path), (''mode'', Str (if c_mode c = [] then ''full'' else c_mode c)),
                  (''value'', parseLooseValue (c_value_text c))];
            p1 = set_if (c_invert c) ''invert'' (Bool True) p0;
            p2 = set_if (c_pass_missing_key c) ''pass_missing_key'' (Bool True) p1 in
        Some (Obj p2))"

section \<open>Validation\<close>

datatype override_error =
    MissingPath nat | MissingFrom nat | MissingTo nat | MissingValue nat | ErrorNeedsMessage nat
  | PruneMissing nat | PruneNeedsCondition nat | HeadersMissing nat | HeadersInvalid nat
  | InvalidJson | LegacyNotObject

definition prune_has_condition :: "jsval \<Rightarrow> bool" where
  "prune_has_condition parsed \<longleftrightarrow>
     (get_prop parsed ''type'' \<noteq> Undef \<and> trim (js_String (get_prop parsed ''type'')) \<noteq> []) \<or>
     (case get_prop parsed ''where'' of Obj ob \<Rightarrow> ob \<noteq> [] | _ \<Rightarrow> False) \<or>
     (case get_prop parsed ''conditions'' of Arr xs \<Rightarrow> xs \<noteq> [] | Obj ob \<Rightarrow> ob \<noteq> [] | _ \<Rightarrow> False)"

text \<open>The body of the loop for the operation on line \<open>line\<close>.\<close>

definition validateOperation :: "nat \<Rightarrow> override_operation \<Rightarrow> override_error option" where
  "validateOperation line op =
     (let mode = (if op_mode op = [] then ''set'' else op_mode op); meta = MODE_META mode;
          pathValue = trim (op_path op); fromValue = trim (op_from op); toValue = trim (op_to op);
          raw = trim (op_value_text op) in
      if m_path meta \<and> pathValue = [] then Some (MissingPath line)
      else if mode \<in> set FROM_REQUIRED_MODES \<and> fromValue = [] \<and> \<not> (m_pathAlias meta \<and> pathValue \<noteq> [])
        then Some (MissingFrom line)
      else if mode \<in> set TO_REQUIRED_MODES \<and> toValue = [] \<and> \<not> (m_pathAlias meta \<and> pathValue \<noteq> [])
        then Some (MissingTo line)
      else if m_from meta \<and> fromValue = [] then Some (MissingFrom line)
      else if m_to meta \<and> toValue = [] then Some (MissingTo line)
      else if mode \<in> set VALUE_REQUIRED_MODES \<and> raw = [] then Some (MissingValue line)
      else if mode = ''return_error'' then
        if raw = [] then Some (MissingValue line)
        else (case json_parse raw of
           Some (Obj ob) \<Rightarrow>
             if trim (text_or (get_prop (Obj ob) ''message'') []) = [] then Some (ErrorNeedsMessage line) else None
         | _ \<Rightarrow> None)
      else if mode = ''prune_objects'' then
        if raw = [] then Some (PruneMissing line)
        else (case json_parse raw of
           Some (Obj ob) \<Rightarrow> if prune_has_condition (Obj ob) then None else Some (PruneNeedsCondition line)
         | _ \<Rightarrow> None)
      else if mode = ''pass_headers'' then
        (if raw = [] then Some (HeadersMissing line)
         else if parsePassHeaderNames (parseLooseValue raw) = [] then Some (HeadersInvalid line) else None)
      else None)"

fun validate_from :: "nat \<Rightarrow> override_operation list \<Rightarrow> override_error option" where
  "validate_from line [] = None"
| "validate_from line (op # ops) =
     (case validateOperation line op of Some e \<Rightarrow> Some e | None \<Rightarrow> validate_from (Suc line) ops)"

definition validateOperations :: "override_operation list \<Rightarrow> override_error option" where
  "validateOperations ops = validate_from 1 ops"

section \<open>The saved text\<close>

definition operationPayload :: "override_operation \<Rightarrow> jsval" where
  "operationPayload op =
     (let mode = (if op_mode op = [] then ''set'' else op_mode op); meta = MODE_META mode;
          descriptionValue = trim (op_description op); pathValue = trim (op_path op);
          fromValue = trim (op_from op); toValue = trim (op_to op);
          p0 = [(''mode'', Str mode)];
          p1 = set_if (descriptionValue \<noteq> []) ''description'' (Str descriptionValue) p0;
          p2 = set_if (m_path meta) ''path'' (Str pathValue) p1;
          p3 = set_if (m_pathOptional meta \<and> pathValue \<noteq> []) ''path'' (Str pathValue) p2;
          p4 = set_if (m_value meta) ''value'' (parseLooseValue (op_value_text op)) p3;
          p5 = set_if (m_keepOrigin meta \<and> op_keep_origin op) ''keep_origin'' (Bool True) p4;
          p6 = set_if (m_from meta) ''from'' (Str fromValue) p5;
          p7 = set_if (\<not> m_to meta \<and> toValue \<noteq> []) ''to'' (Str toValue) p6;
          p8 = set_if (m_to meta) ''to'' (Str toValue) p7;
          p9 = set_if (m_pathAlias meta \<and> \<not> truthy (get_prop (Obj p8) ''from'') \<and> pathValue \<noteq> []) ''from'' (Str pathValue) p8;
          p10 = set_if (m_pathAlias meta \<and> \<not> truthy (get_prop (Obj p9) ''to'') \<and> pathValue \<noteq> []) ''to'' (Str pathValue) p9;
          cs = List.map_filter buildConditionPayload (op_conditions op);
          p11 = set_if (cs \<noteq> []) ''conditions'' (Arr cs) p10;
          p12 = set_if (cs \<noteq> []) ''logic'' (Str (if op_logic op = ''AND'' then ''AND'' else ''OR'')) p11 in
      Obj p12)"

definition buildOperationsJson :: "bool \<Rightarrow> override_operation list \<Rightarrow> override_error + string" where
  "buildOperationsJson validate ops =
     (let filteredOps = filter (\<lambda>op. \<not> isOperationBlank op) ops in
      if filteredOps = [] then Inr []
      else
        case (if validate then validateOperations filteredOps else None) of
          Some e \<Rightarrow> Inl e
        | None \<Rightarrow> Inr (the (json_pretty [] (Obj [(''operations'', Arr (map operationPayload filteredOps))]))))"

section \<open>Opening a stored text\<close>

datatype edit_mode = VisualEdit | JsonEdit
datatype visual_mode = OperationsView | LegacyView

record initial_state =
  is_editMode :: edit_mode
  is_visualMode :: visual_mode
  is_legacyValue :: string
  is_operations :: "override_operation list"
  is_jsonText :: string
  is_jsonError :: bool

definition normalizeOperations :: "(nat \<Rightarrow> nat) \<Rightarrow> jsval list \<Rightarrow> nat \<Rightarrow> js_error + override_operation list \<times> nat" where
  "normalizeOperations clk xs seed =
     (if xs = [] then Inr (let (d, seed') = createDefaultOperation clk seed in ([d], seed'))
      else map_seed (normalizeOperation clk) xs seed)"

definition parseInitialState :: "(nat \<Rightarrow> nat) \<Rightarrow> jsval \<Rightarrow> nat \<Rightarrow> js_error + initial_state \<times> nat" where
  "parseInitialState clk rawValue seed =
     (let txt = string_or rawValue []; trimmed = trim txt;
          (d, seed') = createDefaultOperation clk seed;
          base = \<lparr>is_editMode = VisualEdit, is_visualMode = OperationsView, is_legacyValue = [], is_operations = [d],
                  is_jsonText = [], is_jsonError = False\<rparr> in
      if trimmed = [] then Inr (base, seed')
      else
        case json_parse trimmed of
          None \<Rightarrow> Inr (base\<lparr>is_editMode := JsonEdit, is_jsonText := txt, is_jsonError := True\<rparr>, seed')
        | Some parsed \<Rightarrow>
            let pretty = the (json_pretty [] parsed) in
            (case parsed of
               Obj ob \<Rightarrow>
                 (case get_prop parsed ''operations'' of
                    Arr xs \<Rightarrow>
                      (case normalizeOperations clk xs seed of
                         Inl e \<Rightarrow> Inl e
                       | Inr (ops, seed2) \<Rightarrow> Inr (base\<lparr>is_operations := ops, is_jsonText := pretty\<rparr>, seed2))
                  | _ \<Rightarrow> Inr (base\<lparr>is_visualMode := LegacyView, is_legacyValue := pretty, is_jsonText := pretty\<rparr>, seed'))
             | _ \<Rightarrow> Inr (base\<lparr>is_editMode := JsonEdit, is_jsonText := pretty\<rparr>, seed')))"

end
