(* ===== verification/Param_Override_Editor.thy ===== *)
theory Param_Override_Editor
  imports Param_Override
begin

text \<open>
  The editor of parameter overrides (the component \<open>ParamOverrideEditorModal\<close> of
  \<open>src/web/src/components/table/channels/modals/ParamOverrideEditorModal.jsx\<close>): its state, the
  templates, and its handlers. A handler is a function on the state; the state keeps the counter
  for ids. \<open>clk\<close> is the clock of the ids and \<open>lower\<close> is \<open>toLowerCase\<close>. Toasts and clipboard are
  left out; the dialogs that only show help are left out too.
\<close>

section \<open>State\<close>

record override_editor =
  editMode :: edit_mode
  visualMode :: visual_mode
  legacyValue :: string
  operations :: "override_operation list"
  jsonText :: string
  jsonError :: "override_error option"
  operationSearch :: string
  selectedOperationId :: string
  expandedConditionMap :: "string list jsobj"
  draggedOperationId :: string
  dragOverOperationId :: string
  dragOverPosition :: drop_position
  templateGroupKey :: string
  templatePresetKey :: string
  idSeed :: nat

definition first_id :: "override_operation list \<Rightarrow> string" where
  "first_id ops = (case ops of [] \<Rightarrow> [] | op # _ \<Rightarrow> op_id op)"

text \<open>The state of a new component. Every render makes such a first operation again and drops it.\<close>

definition initialOverrideEditor :: "(nat \<Rightarrow> nat) \<Rightarrow> nat \<Rightarrow> override_editor" where
  "initialOverrideEditor clk seed =
     (let (d, seed') = createDefaultOperation clk seed in
      \<lparr>editMode = VisualEdit, visualMode = OperationsView, legacyValue = [], operations = [d], jsonText = [], jsonError = None,
       operationSearch = [], selectedOperationId = [], expandedConditionMap = [], draggedOperationId = [],
       dragOverOperationId = [], dragOverPosition = Before, templateGroupKey = ''basic'',
       templatePresetKey = ''operations_default'', idSeed = seed'\<rparr>)"

definition rerender :: "(nat \<Rightarrow> nat) \<Rightarrow> override_editor \<Rightarrow> override_editor" where
  "rerender clk ed = ed\<lparr>idSeed := snd (createDefaultOperation clk (idSeed ed))\<rparr>"

text \<open>The effect that runs when the dialog opens.\<close>

definition openEditor :: "(nat \<Rightarrow> nat) \<Rightarrow> jsval \<Rightarrow> override_editor \<Rightarrow> js_error + override_editor" where
  "openEditor clk v ed =
     (case parseInitialState clk v (idSeed ed) of
        Inl e \<Rightarrow> Inl e
      | Inr (st, seed) \<Rightarrow>
          Inr (ed\<lparr>editMode := is_editMode st, visualMode := is_visualMode st, legacyValue := is_legacyValue st,
                  operations := is_operations st, jsonText := is_jsonText st,
                  jsonError := (if is_jsonError st then Some InvalidJson else None),
                  operationSearch := [], selectedOperationId := first_id (is_operations st),
                  expandedConditionMap := [], draggedOperationId := [], dragOverOperationId := [],
                  dragOverPosition := Before, templateGroupKey := ''basic'',
                  templatePresetKey := (if is_visualMode st = LegacyView then ''legacy_default'' else ''operations_default''),
                  idSeed := seed\<rparr>))"

text \<open>The effect that keeps the selection on an operation.\<close>

definition repairSelection :: "override_editor \<Rightarrow> override_editor" where
  "repairSelection ed =
     (if operations ed = [] then ed\<lparr>selectedOperationId := []\<rparr>
      else if \<not> list_ex (\<lambda>op. op_id op = selectedOperationId ed) (operations ed)
        then ed\<lparr>selectedOperationId := first_id (operations ed)\<rparr>
      else ed)"

section \<open>Templates\<close>

definition LEGACY_TEMPLATE :: "jsval jsobj" where
  "LEGACY_TEMPLATE = [(''temperature'', Num (Fin 0)), (''max_tokens'', Num (Fin 1000))]"

definition OPERATION_TEMPLATE :: "jsval list" where
  "OPERATION_TEMPLATE =
     [Obj [(''description'', Str ''Set default temperature for openai/* models.''), (''path'', Str ''temperature''),
           (''mode'', Str ''set''), (''value'', Num (string_to_number ''0.7'')),
           (''conditions'', Arr [Obj [(''path'', Str ''model''), (''mode'', Str ''prefix''), (''value'', Str ''openai/'')]]),
           (''logic'', Str ''AND'')]]"

definition HEADER_PASSTHROUGH_TEMPLATE :: "jsval list" where
  "HEADER_PASSTHROUGH_TEMPLATE =
     [Obj [(''description'', Str ''Pass through X-Request-Id header to upstream.''), (''mode'', Str ''pass_headers''),
           (''value'', Arr [Str ''X-Request-Id'']), (''keep_origin'', Bool True)]]"

definition GEMINI_IMAGE_4K_TEMPLATE :: "jsval list" where
  "GEMINI_IMAGE_4K_TEMPLATE =
     [Obj [(''description'', Str ''Set imageSize to 4K when model contains gemini/image and ends with 4k.''),
           (''mode'', Str ''set''), (''path'', Str ''generationConfig.imageConfig.imageSize''), (''value'', Str ''4K''),
           (''conditions'', Arr
             [Obj [(''path'', Str ''original_model''), (''mode'', Str ''contains''), (''value'', Str ''gemini'')],
              Obj [(''path'', Str ''original_model''), (''mode'', Str ''contains''), (''value'', Str ''image'')],
              Obj [(''path'', Str ''original_model''), (''mode'', Str ''suffix''), (''value'', Str ''4k'')]]),
           (''logic'', Str ''AND'')]]"

definition buildPassHeadersTemplate :: "string list \<Rightarrow> jsval list" where
  "buildPassHeadersTemplate headers =
     [Obj [(''mode'', Str ''pass_headers''), (''value'', Arr (map Str headers)), (''keep_origin'', Bool True)]]"

definition CODEX_CLI_HEADER_PASSTHROUGH_HEADERS :: "string list" where
  "CODEX_CLI_HEADER_PASSTHROUGH_HEADERS =
     [''Originator'', ''Session_id'', ''User-Agent'', ''X-Codex-Beta-Features'', ''X-Codex-Turn-Metadata'']"

definition CLAUDE_CLI_HEADER_PASSTHROUGH_HEADERS :: "string list" where
  "CLAUDE_CLI_HEADER_PASSTHROUGH_HEADERS =
     [''X-Stainless-Arch'', ''X-Stainless-Lang'', ''X-Stainless-Os'', ''X-Stainless-Package-Version'',
      ''X-Stainless-Retry-Count'', ''X-Stainless-Runtime'', ''X-Stainless-Runtime-Version'', ''X-Stainless-Timeout'',
      ''User-Agent'', ''X-App'', ''Anthropic-Beta'', ''Anthropic-Dangerous-Direct-Browser-Access'', ''Anthropic-Version'']"

definition BEDROCK_HEADERS :: "jsval jsobj" where
  "BEDROCK_HEADERS =
     [(''advanced-tool-use-2025-11-20'', Str ''tool-search-tool-2025-10-19''),
      (''bash_20241022'', Null), (''bash_20250124'', Null), (''code-execution-2025-08-25'', Null),
      (''compact-2026-01-12'', Str ''compact-2026-01-12''),
      (''computer-use-2025-01-24'', Str ''computer-use-2025-01-24''),
      (''computer-use-2025-11-24'', Str ''computer-use-2025-11-24''),
      (''context-1m-2025-08-07'', Str ''context-1m-2025-08-07''),
      (''context-management-2025-06-27'', Str ''context-management-2025-06-27''),
      (''effort-2025-11-24'', Null), (''fast-mode-2026-02-01'', Null), (''files-api-2025-04-14'', Null),
      (''fine-grained-tool-streaming-2025-05-14'', Null),
      (''interleaved-thinking-2025-05-14'', Str ''interleaved-thinking-2025-05-14''),
      (''mcp-client-2025-11-20'', Null), (''mcp-client-2025-04-04'', Null), (''mcp-servers-2025-12-04'', Null),
      (''output-128k-2025-02-19'', Null), (''structured-output-2024-03-01'', Null),
      (''prompt-caching-scope-2026-01-05'', Null), (''skills-2025-10-02'', Null),
      (''structured-outputs-2025-11-13'', Null), (''text_editor_20241022'', Null), (''text_editor_20250124'', Null),
      (''token-efficient-tools-2025-02-19'', Null),
      (''tool-search-tool-2025-10-19'', Str ''tool-search-tool-2025-10-19''),
      (''web-fetch-2025-09-10'', Null), (''web-search-2025-03-05'', Null), (''oauth-2025-04-20'', Null)]"

definition AWS_BEDROCK_ANTHROPIC_COMPAT_TEMPLATE :: "jsval list" where
  "AWS_BEDROCK_ANTHROPIC_COMPAT_TEMPLATE =
     [Obj [(''description'', Str ''Normalize anthropic-beta header tokens for Bedrock compatibility.''),
           (''mode'', Str ''set_header''), (''path'', Str ''anthropic-beta''), (''value'', Obj BEDROCK_HEADERS)],
      Obj [(''description'', Str ''Remove all tools[*].custom.input_examples before upstream relay.''),
           (''mode'', Str ''delete''), (''path'', Str ''tools.*.custom.input_examples'')]]"

datatype preset = LegacyPreset "jsval jsobj" | OperationsPreset "jsval list"

text \<open>Key, group, and kind with payload.\<close>

definition TEMPLATE_PRESET_CONFIG :: "(string \<times> string \<times> preset) list" where
  "TEMPLATE_PRESET_CONFIG =
     [(''operations_default'', ''basic'', OperationsPreset OPERATION_TEMPLATE),
      (''legacy_default'', ''basic'', LegacyPreset LEGACY_TEMPLATE),
      (''pass_headers_auth'', ''scenario'', OperationsPreset HEADER_PASSTHROUGH_TEMPLATE),
      (''gemini_image_4k'', ''scenario'', OperationsPreset GEMINI_IMAGE_4K_TEMPLATE),
      (''claude_cli_headers_passthrough'', ''scenario'',
         OperationsPreset (buildPassHeadersTemplate CLAUDE_CLI_HEADER_PASSTHROUGH_HEADERS)),
      (''codex_cli_headers_passthrough'', ''scenario'',
         OperationsPreset (buildPassHeadersTemplate CODEX_CLI_HEADER_PASSTHROUGH_HEADERS)),
      (''aws_bedrock_anthropic_beta_override'', ''scenario'', OperationsPreset AWS_BEDROCK_ANTHROPIC_COMPAT_TEMPLATE)]"

definition templatePresetOptions :: "string \<Rightarrow> string list" where
  "templatePresetOptions group_key = map fst (filter (\<lambda>(k, g, p). g = group_key) TEMPLATE_PRESET_CONFIG)"

text \<open>The effect that keeps the preset inside its group.\<close>

definition repairPreset :: "override_editor \<Rightarrow> override_editor" where
  "repairPreset ed =
     (case templatePresetOptions (templateGroupKey ed) of
        [] \<Rightarrow> ed
      | k # ks \<Rightarrow> if templatePresetKey ed \<in> set (k # ks) then ed else ed\<lparr>templatePresetKey := k\<rparr>)"

definition getSelectedTemplatePreset :: "override_editor \<Rightarrow> preset" where
  "getSelectedTemplatePreset ed =
     (case map_of TEMPLATE_PRESET_CONFIG (templatePresetKey ed) of
        Some (g, p) \<Rightarrow> p
      | None \<Rightarrow> OperationsPreset OPERATION_TEMPLATE)"

section \<open>Switching between the views\<close>

definition buildVisualJson :: "override_editor \<Rightarrow> override_error + string" where
  "buildVisualJson ed =
     (if visualMode ed = LegacyView then
        let trimmed = trim (legacyValue ed) in
        if trimmed = [] then Inr []
        else (case json_parse trimmed of
                None \<Rightarrow> Inl InvalidJson
              | Some (Obj ob) \<Rightarrow> Inr (the (json_pretty [] (Obj ob)))
              | Some v \<Rightarrow> Inl LegacyNotObject)
      else buildOperationsJson True (operations ed))"

definition switchToJsonMode :: "override_editor \<Rightarrow> override_editor" where
  "switchToJsonMode ed =
     (if editMode ed = JsonEdit then ed
      else
        (case buildVisualJson ed of
           Inr txt \<Rightarrow> ed\<lparr>jsonText := txt, jsonError := None, editMode := JsonEdit\<rparr>
         | Inl e \<Rightarrow>
             ed\<lparr>jsonText := (if visualMode ed = LegacyView then legacyValue ed
                             else (case buildOperationsJson False (operations ed) of Inr txt \<Rightarrow> txt | Inl _ \<Rightarrow> [])),
                jsonError := Some e, editMode := JsonEdit\<rparr>))"

text \<open>The single blank operation that several handlers fall back to.\<close>

definition with_fallback :: "(nat \<Rightarrow> nat) \<Rightarrow> override_editor \<Rightarrow> override_editor" where
  "with_fallback clk ed =
     (let (d, seed) = createDefaultOperation clk (idSeed ed) in
      ed\<lparr>operations := [d], selectedOperationId := op_id d, idSeed := seed\<rparr>)"

definition switchToVisualMode :: "(nat \<Rightarrow> nat) \<Rightarrow> override_editor \<Rightarrow> js_error + override_editor" where
  "switchToVisualMode clk ed =
     (if editMode ed = VisualEdit then Inr ed
      else
        let trimmed = trim (jsonText ed) in
        if trimmed = [] then
          Inr ((with_fallback clk ed)\<lparr>visualMode := OperationsView, legacyValue := [], jsonError := None, editMode := VisualEdit\<rparr>)
        else
          (case json_parse trimmed of
             Some (Obj ob) \<Rightarrow>
               (case get_prop (Obj ob) ''operations'' of
                  Arr xs \<Rightarrow>
                    (case normalizeOperations clk xs (idSeed ed) of
                       Inl e \<Rightarrow> Inl e
                     | Inr (ops, seed) \<Rightarrow>
                         Inr (ed\<lparr>visualMode := OperationsView, operations := ops, selectedOperationId := first_id ops,
                                 legacyValue := [], jsonError := None, editMode := VisualEdit,
                                 templateGroupKey := ''basic'', templatePresetKey := ''operations_default'', idSeed := seed\<rparr>))
                | _ \<Rightarrow>
                    Inr ((with_fallback clk ed)\<lparr>visualMode := LegacyView, legacyValue := the (json_pretty [] (Obj ob)),
                           jsonError := None, editMode := VisualEdit, templateGroupKey := ''basic'',
                           templatePresetKey := ''legacy_default''\<rparr>))
           | _ \<Rightarrow> Inr ed))"

section \<open>Applying templates\<close>

definition fillLegacyTemplate :: "(nat \<Rightarrow> nat) \<Rightarrow> jsval jsobj \<Rightarrow> override_editor \<Rightarrow> override_editor" where
  "fillLegacyTemplate clk payload ed =
     (let txt = the (json_pretty [] (Obj payload)) in
      (with_fallback clk ed)\<lparr>visualMode := LegacyView, legacyValue := txt, expandedConditionMap := [],
         jsonText := txt, jsonError := None, editMode := VisualEdit\<rparr>)"

definition fillOperationsTemplate :: "(nat \<Rightarrow> nat) \<Rightarrow> jsval list \<Rightarrow> override_editor \<Rightarrow> js_error + override_editor" where
  "fillOperationsTemplate clk payload ed =
     (case normalizeOperations clk payload (idSeed ed) of
        Inl e \<Rightarrow> Inl e
      | Inr (ops, seed) \<Rightarrow>
          Inr (ed\<lparr>visualMode := OperationsView, operations := ops, selectedOperationId := first_id ops,
                  expandedConditionMap := [], jsonText := the (json_pretty [] (Obj [(''operations'', Arr payload)])),
                  jsonError := None, editMode := VisualEdit, idSeed := seed\<rparr>))"

definition appendLegacyTemplate :: "(nat \<Rightarrow> nat) \<Rightarrow> jsval jsobj \<Rightarrow> override_editor \<Rightarrow> override_editor" where
  "appendLegacyTemplate clk payload ed =
     (let trimmed = trim (legacyValue ed);
          current = (if visualMode ed = LegacyView \<and> trimmed \<noteq> []
                     then (case json_parse trimmed of Some (Obj ob) \<Rightarrow> Some ob | _ \<Rightarrow> None) else Some []) in
      case current of
        None \<Rightarrow> ed
      | Some ob \<Rightarrow> fillLegacyTemplate clk (obj_spread payload ob) ed)"

definition appendOperationsTemplate :: "(nat \<Rightarrow> nat) \<Rightarrow> jsval list \<Rightarrow> override_editor \<Rightarrow> js_error + override_editor" where
  "appendOperationsTemplate clk payload ed =
     (case map_seed (normalizeOperation clk) payload (idSeed ed) of
        Inl e \<Rightarrow> Inl e
      | Inr (appended, seed) \<Rightarrow>
          let existing = (if visualMode ed = OperationsView then filter (\<lambda>op. \<not> isOperationBlank op) (operations ed) else []);
              next_ops = existing @ appended in
          Inr (ed\<lparr>visualMode := OperationsView, operations := next_ops, selectedOperationId := first_id next_ops,
                  expandedConditionMap := [], legacyValue := [], jsonError := None, editMode := VisualEdit,
                  jsonText := [], idSeed := seed\<rparr>))"

definition clearValue :: "(nat \<Rightarrow> nat) \<Rightarrow> override_editor \<Rightarrow> override_editor" where
  "clearValue clk ed =
     (with_fallback clk ed)\<lparr>visualMode := OperationsView, legacyValue := [], expandedConditionMap := [],
        jsonText := [], jsonError := None, templateGroupKey := ''basic'', templatePresetKey := ''operations_default''\<rparr>"

definition resetEditorState :: "(nat \<Rightarrow> nat) \<Rightarrow> override_editor \<Rightarrow> override_editor" where
  "resetEditorState clk ed = (clearValue clk ed)\<lparr>editMode := VisualEdit\<rparr>"

definition fillTemplateFromLibrary :: "(nat \<Rightarrow> nat) \<Rightarrow> override_editor \<Rightarrow> js_error + override_editor" where
  "fillTemplateFromLibrary clk ed =
     (case getSelectedTemplatePreset ed of
        LegacyPreset ob \<Rightarrow> Inr (fillLegacyTemplate clk ob ed)
      | OperationsPreset xs \<Rightarrow> fillOperationsTemplate clk xs ed)"

definition appendTemplateFromLibrary :: "(nat \<Rightarrow> nat) \<Rightarrow> override_editor \<Rightarrow> js_error + override_editor" where
  "appendTemplateFromLibrary clk ed =
     (case getSelectedTemplatePreset ed of
        LegacyPreset ob \<Rightarrow> Inr (appendLegacyTemplate clk ob ed)
      | OperationsPreset xs \<Rightarrow> appendOperationsTemplate clk xs ed)"

section \<open>Editing operations\<close>

definition updateOperation ::
  "string \<Rightarrow> (override_operation \<Rightarrow> override_operation) \<Rightarrow> override_editor \<Rightarrow> override_editor" where
  "updateOperation i patch ed =
     ed\<lparr>operations := map (\<lambda>op. if op_id op = i then patch op else op) (operations ed)\<rparr>"

definition selectedOperation :: "override_editor \<Rightarrow> override_operation option" where
  "selectedOperation ed = find (\<lambda>op. op_id op = selectedOperationId ed) (operations ed)"

datatype guide_target = GuidePath | GuideFrom | GuideTo

definition applyBuiltinField :: "string \<Rightarrow> guide_target \<Rightarrow> override_editor \<Rightarrow> override_editor" where
  "applyBuiltinField fieldKey target ed =
     (case selectedOperation ed of
        None \<Rightarrow> ed
      | Some op \<Rightarrow>
          let mode = (if op_mode op = [] then ''set'' else op_mode op); meta = MODE_META mode;
              spec = (if mode = ''sync_fields'' then buildSyncTargetSpec ''json'' fieldKey else fieldKey) in
          (case target of
             GuidePath \<Rightarrow> if m_path meta \<or> m_pathOptional meta \<or> m_pathAlias meta
                          then updateOperation (op_id op) (\<lambda>x. x\<lparr>op_path := fieldKey\<rparr>) ed else ed
           | GuideFrom \<Rightarrow> if m_from meta \<or> m_pathAlias meta \<or> mode = ''sync_fields''
                          then updateOperation (op_id op) (\<lambda>x. x\<lparr>op_from := spec\<rparr>) ed else ed
           | GuideTo \<Rightarrow> if m_to meta \<or> mode = ''sync_fields''
                        then updateOperation (op_id op) (\<lambda>x. x\<lparr>op_to := spec\<rparr>) ed else ed))"

definition formatSelectedOperationValueAsJson :: "override_editor \<Rightarrow> override_editor" where
  "formatSelectedOperationValueAsJson ed =
     (case selectedOperation ed of
        None \<Rightarrow> ed
      | Some op \<Rightarrow>
          let raw = trim (op_value_text op) in
          if raw = [] then ed
          else (case json_parse raw of
                  None \<Rightarrow> ed
                | Some v \<Rightarrow> updateOperation (op_id op) (\<lambda>x. x\<lparr>op_value_text := the (json_pretty [] v)\<rparr>) ed))"

definition updateReturnErrorDraft ::
  "string \<Rightarrow> (return_error_draft \<Rightarrow> return_error_draft) \<Rightarrow> override_editor \<Rightarrow> override_editor" where
  "updateReturnErrorDraft i patch ed =
     (case find (\<lambda>op. op_id op = i) (operations ed) of
        None \<Rightarrow> ed
      | Some current \<Rightarrow>
          let nextDraft = patch (parseReturnErrorDraft (op_value_text current)) in
          updateOperation i (\<lambda>x. x\<lparr>op_value_text := buildReturnErrorValueText nextDraft\<rparr>) ed)"

text \<open>The draft that the form shows for the selected operation; making it takes ids.\<close>

definition pruneObjectsDraft :: "(nat \<Rightarrow> nat) \<Rightarrow> override_editor \<Rightarrow> prune_draft option \<times> override_editor" where
  "pruneObjectsDraft clk ed =
     (case selectedOperation ed of
        None \<Rightarrow> (None, ed)
      | Some op \<Rightarrow>
          if op_mode op \<noteq> ''prune_objects'' then (None, ed)
          else let (draft, seed) = parsePruneObjectsDraft clk (op_value_text op) (idSeed ed) in
               (Some draft, ed\<lparr>idSeed := seed\<rparr>))"

text \<open>The updater gets the draft and the counter after it was parsed.\<close>

definition updatePruneObjectsDraft ::
  "(nat \<Rightarrow> nat) \<Rightarrow> string \<Rightarrow> (prune_draft \<Rightarrow> nat \<Rightarrow> prune_draft \<times> nat) \<Rightarrow> override_editor \<Rightarrow> override_editor" where
  "updatePruneObjectsDraft clk i updater ed =
     (case find (\<lambda>op. op_id op = i) (operations ed) of
        None \<Rightarrow> ed
      | Some current \<Rightarrow>
          let (draft, seed1) = parsePruneObjectsDraft clk (op_value_text current) (idSeed ed);
              (nextDraft, seed2) = updater draft seed1 in
          (updateOperation i (\<lambda>x. x\<lparr>op_value_text := buildPruneObjectsValueText nextDraft\<rparr>) ed)\<lparr>idSeed := seed2\<rparr>)"

definition addPruneRule :: "(nat \<Rightarrow> nat) \<Rightarrow> string \<Rightarrow> override_editor \<Rightarrow> override_editor" where
  "addPruneRule clk i =
     updatePruneObjectsDraft clk i (\<lambda>draft seed.
       let (r, seed') = normalizePruneRule clk (Obj []) seed in
       (draft\<lparr>pd_simpleMode := False, pd_rules := pd_rules draft @ [r]\<rparr>, seed'))"

definition updatePruneRule ::
  "(nat \<Rightarrow> nat) \<Rightarrow> string \<Rightarrow> string \<Rightarrow> (override_condition \<Rightarrow> override_condition) \<Rightarrow> override_editor \<Rightarrow> override_editor" where
  "updatePruneRule clk i ruleId patch =
     updatePruneObjectsDraft clk i (\<lambda>draft seed.
       (draft\<lparr>pd_rules := map (\<lambda>r. if c_id r = ruleId then patch r else r) (pd_rules draft)\<rparr>, seed))"

definition removePruneRule :: "(nat \<Rightarrow> nat) \<Rightarrow> string \<Rightarrow> string \<Rightarrow> override_editor \<Rightarrow> override_editor" where
  "removePruneRule clk i ruleId =
     updatePruneObjectsDraft clk i (\<lambda>draft seed.
       (draft\<lparr>pd_rules := filter (\<lambda>r. c_id r \<noteq> ruleId) (pd_rules draft)\<rparr>, seed))"

definition addOperation :: "(nat \<Rightarrow> nat) \<Rightarrow> override_editor \<Rightarrow> override_editor" where
  "addOperation clk ed =
     (let (created, seed) = createDefaultOperation clk (idSeed ed) in
      ed\<lparr>operations := operations ed @ [created], selectedOperationId := op_id created, idSeed := seed\<rparr>)"

definition resetOperationDragState :: "override_editor \<Rightarrow> override_editor" where
  "resetOperationDragState ed = ed\<lparr>draggedOperationId := [], dragOverOperationId := [], dragOverPosition := Before\<rparr>"

definition moveOperation :: "string \<Rightarrow> string \<Rightarrow> drop_position \<Rightarrow> override_editor \<Rightarrow> override_editor" where
  "moveOperation sourceId targetId position ed =
     (if sourceId = [] \<or> targetId = [] \<or> sourceId = targetId then ed
      else ed\<lparr>operations := reorderOperations (operations ed) sourceId targetId position, selectedOperationId := sourceId\<rparr>)"

definition handleOperationDragStart :: "string \<Rightarrow> override_editor \<Rightarrow> override_editor" where
  "handleOperationDragStart i ed = ed\<lparr>draggedOperationId := i, selectedOperationId := i\<rparr>"

text \<open>\<open>lowerHalf\<close>: the pointer is in the lower half of the row.\<close>

definition handleOperationDragOver :: "bool \<Rightarrow> string \<Rightarrow> override_editor \<Rightarrow> override_editor" where
  "handleOperationDragOver lowerHalf i ed =
     (if draggedOperationId ed = [] \<or> draggedOperationId ed = i then ed
      else ed\<lparr>dragOverOperationId := i, dragOverPosition := (if lowerHalf then After else Before)\<rparr>)"

text \<open>\<open>transferred\<close> is the text of the drag event.\<close>

definition handleOperationDrop :: "string \<Rightarrow> string \<Rightarrow> override_editor \<Rightarrow> override_editor" where
  "handleOperationDrop transferred i ed =
     (let sourceId = (if draggedOperationId ed = [] then transferred else draggedOperationId ed);
          position = (if dragOverOperationId ed = i then dragOverPosition ed else Before) in
      resetOperationDragState (moveOperation sourceId i position ed))"

text \<open>The object that \<open>duplicateOperation\<close> normalises.\<close>

definition condition_value :: "override_condition \<Rightarrow> jsval" where
  "condition_value c =
     Obj [(''path'', Str (c_path c)), (''mode'', Str (c_mode c)), (''value'', parseLooseValue (c_value_text c)),
          (''invert'', Bool (c_invert c)), (''pass_missing_key'', Bool (c_pass_missing_key c))]"

definition operation_value :: "override_operation \<Rightarrow> jsval" where
  "operation_value op =
     Obj [(''description'', Str (op_description op)), (''path'', Str (op_path op)), (''mode'', Str (op_mode op)),
          (''value'', parseLooseValue (op_value_text op)), (''keep_origin'', Bool (op_keep_origin op)),
          (''from'', Str (op_from op)), (''to'', Str (op_to op)), (''logic'', Str (op_logic op)),
          (''conditions'', Arr (map condition_value (op_conditions op)))]"

definition duplicateOperation :: "(nat \<Rightarrow> nat) \<Rightarrow> string \<Rightarrow> override_editor \<Rightarrow> js_error + override_editor" where
  "duplicateOperation clk i ed =
     (case index_of (\<lambda>op. op_id op = i) (operations ed) of
        None \<Rightarrow> Inr ed
      | Some k \<Rightarrow>
          (case normalizeOperation clk (operation_value (operations ed ! k)) (idSeed ed) of
             Inl e \<Rightarrow> Inl e
           | Inr (cloned, seed) \<Rightarrow>
               Inr (ed\<lparr>operations := insert_index (k + 1) cloned (operations ed),
                       selectedOperationId := op_id cloned, idSeed := seed\<rparr>)))"

definition removeOperation :: "(nat \<Rightarrow> nat) \<Rightarrow> string \<Rightarrow> override_editor \<Rightarrow> override_editor" where
  "removeOperation clk i ed =
     (let ed1 = (if length (operations ed) \<le> 1
                 then let (d, seed) = createDefaultOperation clk (idSeed ed) in ed\<lparr>operations := [d], idSeed := seed\<rparr>
                 else ed\<lparr>operations := filter (\<lambda>op. op_id op \<noteq> i) (operations ed)\<rparr>) in
      ed1\<lparr>expandedConditionMap := obj_del i (expandedConditionMap ed)\<rparr>)"

definition expanded_of :: "override_editor \<Rightarrow> string \<Rightarrow> string list" where
  "expanded_of ed i = (case map_of (expandedConditionMap ed) i of Some ks \<Rightarrow> ks | None \<Rightarrow> [])"

definition addCondition :: "(nat \<Rightarrow> nat) \<Rightarrow> string \<Rightarrow> override_editor \<Rightarrow> override_editor" where
  "addCondition clk i ed =
     (let (created, seed) = createDefaultCondition clk (idSeed ed) in
      (updateOperation i (\<lambda>op. op\<lparr>op_conditions := op_conditions op @ [created]\<rparr>) ed)\<lparr>
         expandedConditionMap := obj_set i (expanded_of ed i @ [c_id created]) (expandedConditionMap ed), idSeed := seed\<rparr>)"

definition updateCondition ::
  "string \<Rightarrow> string \<Rightarrow> (override_condition \<Rightarrow> override_condition) \<Rightarrow> override_editor \<Rightarrow> override_editor" where
  "updateCondition i conditionId patch =
     updateOperation i (\<lambda>op. op\<lparr>op_conditions :=
       map (\<lambda>c. if c_id c = conditionId then patch c else c) (op_conditions op)\<rparr>)"

definition removeCondition :: "string \<Rightarrow> string \<Rightarrow> override_editor \<Rightarrow> override_editor" where
  "removeCondition i conditionId ed =
     (updateOperation i (\<lambda>op. op\<lparr>op_conditions := filter (\<lambda>c. c_id c \<noteq> conditionId) (op_conditions op)\<rparr>) ed)\<lparr>
        expandedConditionMap := obj_set i (filter (\<lambda>k. k \<noteq> conditionId) (expanded_of ed i)) (expandedConditionMap ed)\<rparr>"

definition handleConditionCollapseChange :: "string \<Rightarrow> string list \<Rightarrow> override_editor \<Rightarrow> override_editor" where
  "handleConditionCollapseChange i activeKeys ed =
     ed\<lparr>expandedConditionMap := obj_set i (filter (\<lambda>k. k \<noteq> []) activeKeys) (expandedConditionMap ed)\<rparr>"

definition expandAllSelectedConditions :: "override_editor \<Rightarrow> override_editor" where
  "expandAllSelectedConditions ed =
     (case selectedOperation ed of
        Some op \<Rightarrow>
          if selectedOperationId ed = [] then ed
          else ed\<lparr>expandedConditionMap := obj_set (selectedOperationId ed) (map c_id (op_conditions op)) (expandedConditionMap ed)\<rparr>
      | None \<Rightarrow> ed)"

definition collapseAllSelectedConditions :: "override_editor \<Rightarrow> override_editor" where
  "collapseAllSelectedConditions ed =
     (if selectedOperationId ed = [] then ed
      else ed\<lparr>expandedConditionMap := obj_set (selectedOperationId ed) [] (expandedConditionMap ed)\<rparr>)"

section \<open>Lists that the dialog shows\<close>

definition operationCount :: "override_editor \<Rightarrow> nat" where
  "operationCount ed = length (filter (\<lambda>op. \<not> isOperationBlank op) (operations ed))"

definition filteredOperations :: "(string \<Rightarrow> string) \<Rightarrow> override_editor \<Rightarrow> override_operation list" where
  "filteredOperations lower ed =
     (let keyword = lower (trim (operationSearch ed)) in
      if keyword = [] then operations ed
      else filter (\<lambda>op. js_includes (lower (js_join '' '' (filter (\<lambda>s. s \<noteq> [])
             [op_description op, op_mode op, op_path op, op_from op, op_to op, op_value_text op]))) keyword) (operations ed))"

text \<open>\<open>counts[mode] = (counts[mode] || 0) + 1\<close>, then the four most frequent.\<close>

definition topOperationModes :: "override_editor \<Rightarrow> nat jsobj" where
  "topOperationModes ed =
     (let counts = foldl (\<lambda>acc op. let mode = (if op_mode op = [] then ''set'' else op_mode op) in
            obj_set mode (Suc (case map_of acc mode of Some n \<Rightarrow> n | None \<Rightarrow> 0)) acc) [] (operations ed) in
      take 4 (sort_by (\<lambda>a b. snd b \<le> snd a) (obj_entries counts)))"

section \<open>The JSON view and saving\<close>

definition handleJsonChange :: "string \<Rightarrow> override_editor \<Rightarrow> override_editor" where
  "handleJsonChange nextValue ed =
     ed\<lparr>jsonText := nextValue,
        jsonError := (if trim nextValue \<noteq> [] \<and> json_parse (trim nextValue) = None then Some InvalidJson else None)\<rparr>"

definition formatJson :: "override_editor \<Rightarrow> override_editor" where
  "formatJson ed =
     (let trimmed = trim (jsonText ed) in
      if trimmed = [] then ed
      else (case json_parse trimmed of
              None \<Rightarrow> ed
            | Some v \<Rightarrow> ed\<lparr>jsonText := the (json_pretty [] v), jsonError := None\<rparr>))"

definition visualValidationError :: "override_editor \<Rightarrow> override_error option" where
  "visualValidationError ed =
     (if editMode ed \<noteq> VisualEdit then None else case buildVisualJson ed of Inl e \<Rightarrow> Some e | Inr _ \<Rightarrow> None)"

text \<open>What \<open>onSave\<close> is called with, or the error that is shown.\<close>

definition overrideSave :: "override_editor \<Rightarrow> override_error + string" where
  "overrideSave ed =
     (if editMode ed = JsonEdit then
        let trimmed = trim (jsonText ed) in
        if trimmed = [] then Inr []
        else (case json_parse trimmed of None \<Rightarrow> Inl InvalidJson | Some v \<Rightarrow> Inr (the (json_pretty [] v)))
      else buildVisualJson ed)"

end
