(* ===== verification/Param_Override_Proofs.thy ===== *)
theory Param_Override_Proofs
  imports Param_Override_Editor "HOL-Library.Multiset"
begin

text \<open>
  Properties of the editor of the parameter overrides: dragging a rule, the form of a custom error,
  the form of an object filter, and the round trip of the rules through the saved text.
\<close>

section \<open>Local ids\<close>

definition local_id :: "(nat \<Rightarrow> nat) \<Rightarrow> nat \<Rightarrow> string" where
  "local_id clk n = fst (nextLocalId clk n)"

lemma nextLocalId_eq: "nextLocalId clk n = (local_id clk n, Suc n)"
  by (simp add: local_id_def nextLocalId_def)

lemma local_id_inject [simp]: "local_id clk m = local_id clk n \<longleftrightarrow> m = n"
proof
  have "takeWhile (\<lambda>c. c \<noteq> CHR ''_'') (rev (local_id clk k)) = rev (show_nat k)" for k
  proof -
    have "CHR ''_'' \<notin> set (rev (show_nat k))" by (simp add: show_nat_free is_digit_def)
    then show ?thesis
      using takeWhile_until [of "CHR ''_''" "rev (show_nat k)"] by (simp add: local_id_def nextLocalId_def)
  qed
  moreover assume "local_id clk m = local_id clk n"
  ultimately have "show_nat m = show_nat n" by (metis rev_rev_ident)
  then show "m = n" by (metis parse_show_nat)
qed simp

lemma local_id_nonempty [simp]: "local_id clk n \<noteq> []"
  by (simp add: local_id_def nextLocalId_def)

lemma default_operation:
  "createDefaultOperation clk n =
     (\<lparr>op_id = local_id clk n, op_description = [], op_path = [], op_mode = ''set'', op_value_text = [], op_keep_origin = False,
       op_from = [], op_to = [], op_logic = ''OR'', op_conditions = []\<rparr>, Suc n)"
  by (simp add: createDefaultOperation_def nextLocalId_eq)

lemma default_condition:
  "createDefaultCondition clk n =
     (\<lparr>c_id = local_id clk n, c_path = [], c_mode = ''full'', c_value_text = [], c_invert = False,
       c_pass_missing_key = False\<rparr>, Suc n)"
  by (simp add: createDefaultCondition_def nextLocalId_eq)

section \<open>Reordering\<close>

lemma index_of_Some: "index_of P xs = Some i \<Longrightarrow> i < length xs \<and> P (xs ! i)"
  using nth_length_takeWhile [of "\<lambda>x. \<not> P x" xs] by (auto simp: index_of_def Let_def split: if_splits)

lemma index_of_None: "index_of P xs = None \<longleftrightarrow> \<not> (\<exists>x \<in> set xs. P x)"
proof -
  have "length (takeWhile (\<lambda>x. \<not> P x) xs) < length xs \<longleftrightarrow> (\<exists>x \<in> set xs. P x)" by (induction xs) auto
  then show ?thesis by (simp add: index_of_def Let_def)
qed

lemma split_at: "i < length xs \<Longrightarrow> xs = take i xs @ xs ! i # drop (Suc i) xs"
  by (rule id_take_nth_drop)

lemma filter_other_ids:
  assumes "distinct (map op_id ops)" "ops = a @ x # b"
  shows "filter (\<lambda>op. op_id op \<noteq> op_id x) ops = a @ b"
proof -
  have "filter (\<lambda>op. op_id op \<noteq> op_id x) a = a" "filter (\<lambda>op. op_id op \<noteq> op_id x) b = b"
    using assms(1) unfolding assms(2) by (auto intro!: filter_True) (metis image_eqI)+
  then show ?thesis by (simp add: assms(2))
qed

text \<open>
  Dragging a rule keeps every other rule in its place and puts the dragged one directly before
  or after the rule it is dropped on.
\<close>

theorem reorder_moves_one:
  assumes "distinct (map op_id ops)" "src \<in> set ops" "tgt \<in> set ops" "src \<noteq> tgt"
    "op_id src \<noteq> []" "op_id tgt \<noteq> []"
  shows "\<exists>a b. reorderOperations ops (op_id src) (op_id tgt) pos =
      a @ (case pos of Before \<Rightarrow> [src, tgt] | After \<Rightarrow> [tgt, src]) @ b \<and>
    a @ tgt # b = filter (\<lambda>op. op_id op \<noteq> op_id src) ops \<and>
    mset (reorderOperations ops (op_id src) (op_id tgt) pos) = mset ops"
proof -
  have inj: "x = y" if "x \<in> set ops" "y \<in> set ops" "op_id x = op_id y" for x y
    using that assms(1) by (metis distinct_map inj_on_eq_iff)
  have ne: "op_id src \<noteq> op_id tgt" using assms(2-4) inj by blast
  obtain s where s: "index_of (\<lambda>x. op_id x = op_id src) ops = Some s"
    using assms(2) index_of_None [of "\<lambda>x. op_id x = op_id src" ops] by (cases "index_of (\<lambda>x. op_id x = op_id src) ops") auto
  then have s': "s < length ops" "ops ! s = src" using index_of_Some [OF s] inj assms(2) by auto
  define rest where "rest = remove_index s ops"
  have ops: "ops = take s ops @ src # drop (Suc s) ops" using split_at [OF s'(1)] s'(2) by simp
  then have rest: "rest = filter (\<lambda>op. op_id op \<noteq> op_id src) ops"
    using filter_other_ids [OF assms(1) ops] by (simp add: rest_def remove_index_def)
  then have "tgt \<in> set rest" "set rest \<subseteq> set ops" using assms(3) ne by auto
  then obtain i where i: "index_of (\<lambda>x. op_id x = op_id tgt) rest = Some i"
    using index_of_None [of "\<lambda>x. op_id x = op_id tgt" rest] by (cases "index_of (\<lambda>x. op_id x = op_id tgt) rest") auto
  then have i': "i < length rest" "rest ! i = tgt"
    using index_of_Some [OF i] inj assms(3) \<open>set rest \<subseteq> set ops\<close> nth_mem by (metis subsetD)+
  define a b where "a = take i rest" and "b = drop (Suc i) rest"
  have ab: "rest = a @ tgt # b" using split_at [OF i'(1)] i'(2) by (simp add: a_def b_def)
  have "length a = i" using i'(1) by (simp add: a_def)
  then have "insert_index (if pos = After then i + 1 else i) src rest = a @ (case pos of Before \<Rightarrow> [src, tgt] | After \<Rightarrow> [tgt, src]) @ b"
    by (cases pos) (simp_all add: insert_index_def ab)
  then have re: "reorderOperations ops (op_id src) (op_id tgt) pos = a @ (case pos of Before \<Rightarrow> [src, tgt] | After \<Rightarrow> [tgt, src]) @ b"
    using assms(5,6) ne s s' i by (simp add: reorderOperations_def rest_def)
  have "mset ops = add_mset src (mset rest)" by (subst ops) (simp add: rest_def remove_index_def)
  then have "mset (reorderOperations ops (op_id src) (op_id tgt) pos) = mset ops"
    unfolding re ab by (cases pos) simp_all
  with re ab rest show ?thesis by auto
qed

section \<open>The draft of a custom error\<close>

lemma http_status_bounds: "100 \<le> http_status n \<and> http_status n \<le> 599"
  by (cases n) (auto simp: le_floor_iff floor_le_iff)

lemma http_status_int: "100 \<le> n \<Longrightarrow> n \<le> 599 \<Longrightarrow> http_status (Fin (of_int n)) = n"
proof -
  assume "100 \<le> n" "n \<le> 599"
  then have "(100 :: rat) \<le> of_int n" "of_int n \<le> (599 :: rat)" by simp_all
  then show ?thesis by simp
qed

text \<open>A draft as the form holds it.\<close>

definition draft_ok :: "return_error_draft \<Rightarrow> bool" where
  "draft_ok d \<longleftrightarrow> \<not> re_simpleMode d \<and> trim (re_message d) = re_message d \<and> trim (re_code d) = re_code d \<and>
     trim (re_type d) = re_type d \<and> (\<exists>n. 100 \<le> n \<and> n \<le> 599 \<and> num_readable (Fin (of_int n)) \<and> re_statusCode d = int_num n)"

lemma error_names [simp]:
  "\<not> is_index ''message''" "\<not> is_index ''status_code''" "\<not> is_index ''code''" "\<not> is_index ''type''" "\<not> is_index ''skip_retry''"
  by (simp_all add: is_index_def all_digits_def is_digit_def)


lemma build_payload:
  assumes "draft_ok d" "re_statusCode d = int_num n"
  defines "ob \<equiv> set_if (\<not> re_skipRetry d) ''skip_retry'' (Bool False) (set_if (re_type d \<noteq> []) ''type'' (Str (re_type d))
    (set_if (re_code d \<noteq> []) ''code'' (Str (re_code d)) [(''message'', Str (re_message d)), (''status_code'', int_num n)]))"
  shows "buildReturnErrorValueText d = the (json_stringify (Obj ob))" and "json_data (Obj ob)"
proof -
  obtain m where m: "100 \<le> m" "m \<le> 599" "num_readable (Fin (of_int m))" "re_statusCode d = int_num m"
    using assms(1) by (auto simp: draft_ok_def)
  then have n: "n = m" using assms(2) by (simp add: int_num_def)
  show "buildReturnErrorValueText d = the (json_stringify (Obj ob))"
    using assms(1) m n http_status_int [of m]
    unfolding buildReturnErrorValueText_def Let_def draft_ok_def ob_def by (simp add: int_num_def del: json_stringify.simps)
  have "json_data (Obj [(''message'', Str (re_message d)), (''status_code'', int_num n)])"
    by (rule json_data_named) (simp_all add: int_num_def n m(3))
  then show "json_data (Obj ob)" unfolding ob_def by (intro json_data_set_if) simp_all
qed

text \<open>
  Whatever the text of a custom error, the form shows a status code from 100 to 599; and a
  draft of the form is read back from the text that is written for it.
\<close>

theorem return_error_form:
  "(\<exists>n. 100 \<le> n \<and> n \<le> 599 \<and> re_statusCode (parseReturnErrorDraft txt) = int_num n) \<and>
   (draft_ok d \<longrightarrow> parseReturnErrorDraft (buildReturnErrorValueText d) = d)"
proof (intro conjI impI)
  show "\<exists>n. 100 \<le> n \<and> n \<le> 599 \<and> re_statusCode (parseReturnErrorDraft txt) = int_num n"
    using http_status_bounds
    by (auto simp: parseReturnErrorDraft_def defaultReturnError_def int_num_def Let_def split: option.split jsval.split)
next
  assume ok: "draft_ok d"
  then obtain n where n: "100 \<le> n" "n \<le> 599" "re_statusCode d = int_num n" by (auto simp: draft_ok_def)
  define ob where "ob = set_if (\<not> re_skipRetry d) ''skip_retry'' (Bool False) (set_if (re_type d \<noteq> []) ''type'' (Str (re_type d))
    (set_if (re_code d \<noteq> []) ''code'' (Str (re_code d)) [(''message'', Str (re_message d)), (''status_code'', int_num n)]))"
  note b = build_payload [OF ok n(3), folded ob_def]
  let ?t = "buildReturnErrorValueText d"
  have "json_parse ?t = Some (Obj ob)" unfolding b(1) by (rule json.parse_print [OF b(2)])
  moreover have "trim ?t = ?t" unfolding b(1) by (rule quoted_object_trim [OF b(2)])
  moreover have "?t \<noteq> []" using calculation(1) by (auto simp: json_parse_def skip_ws_def)
  moreover have "get_prop (Obj ob) ''message'' = Str (re_message d)" "get_prop (Obj ob) ''status_code'' = int_num n"
    "get_prop (Obj ob) ''code'' = (if re_code d = [] then Undef else Str (re_code d))"
    "get_prop (Obj ob) ''type'' = (if re_type d = [] then Undef else Str (re_type d))"
    "get_prop (Obj ob) ''skip_retry'' = (if re_skipRetry d then Undef else Bool False)"
    "get_prop (Obj ob) ''msg'' = Undef"
    by (simp_all add: ob_def)
  ultimately show "parseReturnErrorDraft ?t = d"
    using ok n http_status_int [OF n(1,2)]
    by (simp add: parseReturnErrorDraft_def Let_def draft_ok_def text_or_def or_else_def int_num_def)
qed


section \<open>Edits of filter rules\<close>

lemma push_rules_ids:
  "push_rules clk vs n = (rs, m) \<Longrightarrow> m = n + length vs \<and> map c_id rs = map (local_id clk) [n..<m]"
proof (induction vs arbitrary: n rs m)
  case (Cons v vs)
  obtain rs' m' where r: "push_rules clk vs (Suc n) = (rs', m')" by fastforce
  have "m' = Suc n + length vs" "map c_id rs' = map (local_id clk) [Suc n..<m']" using Cons.IH [OF r] by auto
  with Cons.prems r show ?case by (auto simp: normalizePruneRule_def nextLocalId_eq Let_def upt_conv_Cons)
qed simp

lemma prune_draft_ids:
  assumes "parsePruneObjectsDraft clk txt n = (d, m)"
  shows "n \<le> m" and "set (map c_id (pd_rules d)) \<subseteq> local_id clk ` {n..<m}"
proof -
  have "n \<le> m \<and> set (map c_id (pd_rules d)) \<subseteq> local_id clk ` {n..<m}"
  proof (cases "\<exists>ob. trim txt \<noteq> [] \<and> json_parse (trim txt) = Some (Obj ob)")
    case True
    then obtain ob where ob: "trim txt \<noteq> []" "json_parse (trim txt) = Some (Obj ob)" by blast
    obtain rs k where rs: "push_rules clk (rule_values (Obj ob)) n = (rs, k)" by fastforce
    have "d = d\<lparr>pd_rules := rs\<rparr>" "m = k"
      using assms ob rs by (auto simp: parsePruneObjectsDraft_def Let_def)
    then have "pd_rules d = rs" "m = k" by (metis prune_draft.select_convs(5) prune_draft.surjective prune_draft.update_convs(5))+
    with push_rules_ids [OF rs] show ?thesis by (simp only: set_map [symmetric]) (auto simp: set_map)
  next
    case False
    then have "pd_rules d = [] \<and> m = n"
      using assms by (auto simp: parsePruneObjectsDraft_def defaultPrune_def Let_def split: if_splits option.splits jsval.splits)
    then show ?thesis by simp
  qed
  then show "n \<le> m" "set (map c_id (pd_rules d)) \<subseteq> local_id clk ` {n..<m}" by blast+
qed

text \<open>A rule shown in the form has an id that no later parse of the text gives out again.\<close>

lemma stale_rule_id:
  assumes "parsePruneObjectsDraft clk txt n = (shown, m)" "r \<in> set (pd_rules shown)"
    "parsePruneObjectsDraft clk txt' k = (d, l)" "m \<le> k"
  shows "c_id r \<notin> set (map c_id (pd_rules d))"
proof -
  have "c_id r \<in> local_id clk ` {n..<m}" using prune_draft_ids(2) [OF assms(1)] assms(2) by auto
  moreover have "set (map c_id (pd_rules d)) \<subseteq> local_id clk ` {k..<l}" by (rule prune_draft_ids(2) [OF assms(3)])
  moreover have "local_id clk ` {n..<m} \<inter> local_id clk ` {k..<l} = {}" using assms(4) by auto
  ultimately show ?thesis by blast
qed

text \<open>
  C39: the form of an object filter cannot change its rules: an edit or a removal of a rule that the
  form shows does nothing but rewrite the text from its own parse, and a new rule, having no path
  yet, is not written.
\<close>

theorem prune_rule_edits_lost:
  assumes "pruneObjectsDraft clk ed = (Some shown, ed')" "r \<in> set (pd_rules shown)"
    "selectedOperation ed = Some op" "idSeed ed' \<le> idSeed later"
  shows "updatePruneRule clk (op_id op) (c_id r) patch later = updatePruneObjectsDraft clk (op_id op) Pair later \<and>
    removePruneRule clk (op_id op) (c_id r) later = updatePruneObjectsDraft clk (op_id op) Pair later \<and>
    operations (addPruneRule clk (op_id op) later) =
      operations (updatePruneObjectsDraft clk (op_id op) (\<lambda>d. Pair (d\<lparr>pd_simpleMode := False\<rparr>)) later)"
proof (cases "find (\<lambda>x. op_id x = op_id op) (operations later)")
  case None
  then show ?thesis
    by (simp add: updatePruneRule_def removePruneRule_def addPruneRule_def updatePruneObjectsDraft_def)
next
  case (Some current)
  have shown: "parsePruneObjectsDraft clk (op_value_text op) (idSeed ed) = (shown, idSeed ed')"
    using assms(1,3) by (auto simp: pruneObjectsDraft_def split: if_splits prod.splits)
  obtain d l where d: "parsePruneObjectsDraft clk (op_value_text current) (idSeed later) = (d, l)" by fastforce
  have stale: "c_id r \<notin> set (map c_id (pd_rules d))" by (rule stale_rule_id [OF shown assms(2) d assms(4)])
  then have "map (\<lambda>x. if c_id x = c_id r then patch x else x) (pd_rules d) = pd_rules d"
    "filter (\<lambda>x. c_id x \<noteq> c_id r) (pd_rules d) = pd_rules d"
    by (auto intro!: map_idI filter_True) (metis image_eqI)+
  moreover have "buildPruneObjectsValueText (d\<lparr>pd_simpleMode := False, pd_rules := pd_rules d @ [x]\<rparr>) =
      buildPruneObjectsValueText (d\<lparr>pd_simpleMode := False\<rparr>)" if "c_path x = []" for x
    using that by (simp add: buildPruneObjectsValueText_def)
  moreover have "c_path (fst (normalizePruneRule clk (Obj []) k)) = []" for k
    by (simp add: normalizePruneRule_def nextLocalId_eq)
  moreover have "d\<lparr>pd_rules := pd_rules d\<rparr> = d" by simp
  ultimately show ?thesis
    using Some d
    by (simp add: updatePruneRule_def removePruneRule_def addPruneRule_def updatePruneObjectsDraft_def updateOperation_def
        case_prod_unfold Let_def)
qed


section \<open>Saved rules are read back\<close>

text \<open>A value text that stands for itself: parsing and printing it gives it back.\<close>

definition stable_text :: "string \<Rightarrow> bool" where
  "stable_text t \<longleftrightarrow> toValueText (parseLooseValue t) = t \<and> json_data (parseLooseValue t)"

definition condition_ok :: "override_condition \<Rightarrow> bool" where
  "condition_ok c \<longleftrightarrow> trim (c_path c) = c_path c \<and> c_path c \<noteq> [] \<and> c_mode c \<in> set CONDITION_MODES \<and> stable_text (c_value_text c)"

definition operation_ok :: "override_operation \<Rightarrow> bool" where
  "operation_ok op \<longleftrightarrow>
     (let meta = MODE_META (op_mode op) in
      op_mode op \<in> set OPERATION_MODES \<and>
      trim (op_description op) = op_description op \<and> trim (op_path op) = op_path op \<and>
      trim (op_from op) = op_from op \<and> trim (op_to op) = op_to op \<and>
      (m_path meta \<or> m_pathOptional meta \<or> op_path op = []) \<and> (m_from meta \<or> op_from op = []) \<and>
      (if m_value meta then stable_text (op_value_text op) else op_value_text op = []) \<and>
      (op_keep_origin op \<longrightarrow> m_keepOrigin meta) \<and>
      (op_logic op = ''AND'' \<and> op_conditions op \<noteq> [] \<or> op_logic op = ''OR'') \<and>
      list_all condition_ok (op_conditions op))"

text \<open>The same rule up to the ids.\<close>

definition no_id :: "override_operation \<Rightarrow> override_operation" where
  "no_id op = op\<lparr>op_id := [], op_conditions := map (\<lambda>c. c\<lparr>c_id := []\<rparr>) (op_conditions op)\<rparr>"

lemma operation_okD:
  assumes "operation_ok op"
  shows "op_mode op \<in> set OPERATION_MODES" "trim (op_description op) = op_description op" "trim (op_path op) = op_path op"
    "trim (op_from op) = op_from op" "trim (op_to op) = op_to op"
    "m_path (MODE_META (op_mode op)) \<or> m_pathOptional (MODE_META (op_mode op)) \<or> op_path op = []"
    "m_from (MODE_META (op_mode op)) \<or> op_from op = []"
    "m_value (MODE_META (op_mode op)) \<Longrightarrow> stable_text (op_value_text op)"
    "\<not> m_value (MODE_META (op_mode op)) \<Longrightarrow> op_value_text op = []"
    "op_keep_origin op \<Longrightarrow> m_keepOrigin (MODE_META (op_mode op))"
    "op_logic op = ''AND'' \<and> op_conditions op \<noteq> [] \<or> op_logic op = ''OR''"
    "list_all condition_ok (op_conditions op)"
  using assms by (simp_all add: operation_ok_def Let_def)

lemma condition_props:
  assumes "condition_ok c"
  obtains ob where "buildConditionPayload c = Some (Obj ob)" "json_data (Obj ob)"
    "get_prop (Obj ob) ''path'' = Str (c_path c)" "get_prop (Obj ob) ''mode'' = Str (c_mode c)"
    "get_prop (Obj ob) ''value'' = parseLooseValue (c_value_text c)"
    "get_prop (Obj ob) ''invert'' = (if c_invert c then Bool True else Undef)"
    "get_prop (Obj ob) ''pass_missing_key'' = (if c_pass_missing_key c then Bool True else Undef)"
proof
  let ?ob = "set_if (c_pass_missing_key c) ''pass_missing_key'' (Bool True) (set_if (c_invert c) ''invert'' (Bool True)
    [(''path'', Str (c_path c)), (''mode'', Str (c_mode c)), (''value'', parseLooseValue (c_value_text c))])"
  have "c_mode c \<noteq> []" using assms by (auto simp: condition_ok_def CONDITION_MODES_def)
  then show "buildConditionPayload c = Some (Obj ?ob)"
    using assms by (simp add: buildConditionPayload_def condition_ok_def)
  have "json_data (Obj [(''path'', Str (c_path c)), (''mode'', Str (c_mode c)), (''value'', parseLooseValue (c_value_text c))])"
    using assms by (intro json_data_named) (simp_all add: condition_ok_def stable_text_def is_index_def all_digits_def is_digit_def)
  then show "json_data (Obj ?ob)"
    by (intro json_data_set_if) (simp_all add: is_index_def all_digits_def is_digit_def)
qed simp_all

lemma condition_back:
  assumes "condition_ok c" "buildConditionPayload c = Some v"
  shows "\<exists>c'. normalizeOverrideCondition clk v n = Inr (c', Suc n) \<and> c'\<lparr>c_id := []\<rparr> = c\<lparr>c_id := []\<rparr>"
proof -
  obtain ob where ob: "buildConditionPayload c = Some (Obj ob)" "get_prop (Obj ob) ''path'' = Str (c_path c)" "get_prop (Obj ob) ''mode'' = Str (c_mode c)"
    "get_prop (Obj ob) ''value'' = parseLooseValue (c_value_text c)"
    "get_prop (Obj ob) ''invert'' = (if c_invert c then Bool True else Undef)"
    "get_prop (Obj ob) ''pass_missing_key'' = (if c_pass_missing_key c then Bool True else Undef)"
    using assms(1) by (rule condition_props)
  then show ?thesis
    using assms
    by (simp add: normalizeOverrideCondition_def nextLocalId_eq known_mode_def condition_ok_def stable_text_def)
qed

lemma conditions_back:
  assumes "list_all condition_ok cs"
  shows "\<exists>cs'. map_seed (normalizeOverrideCondition clk) (List.map_filter buildConditionPayload cs) n = Inr (cs', n + length cs) \<and>
    map (\<lambda>c. c\<lparr>c_id := []\<rparr>) cs' = map (\<lambda>c. c\<lparr>c_id := []\<rparr>) cs"
  using assms
proof (induction cs arbitrary: n)
  case (Cons c cs)
  then obtain v where v: "buildConditionPayload c = Some v" by (auto elim: condition_props)
  obtain c' where c': "normalizeOverrideCondition clk v n = Inr (c', Suc n)" "c'\<lparr>c_id := []\<rparr> = c\<lparr>c_id := []\<rparr>"
    using condition_back [of c v clk n] Cons.prems v by auto
  obtain cs' where "map_seed (normalizeOverrideCondition clk) (List.map_filter buildConditionPayload cs) (Suc n) = Inr (cs', Suc n + length cs)"
    "map (\<lambda>c. c\<lparr>c_id := []\<rparr>) cs' = map (\<lambda>c. c\<lparr>c_id := []\<rparr>) cs"
    using Cons.IH [of "Suc n"] Cons.prems by auto
  with c' v show ?case by (simp add: map_filter_simps)
qed (simp add: map_filter_simps)


lemma override_names [simp]:
  "\<not> is_index ''mode''" "\<not> is_index ''description''" "\<not> is_index ''path''" "\<not> is_index ''value''" "\<not> is_index ''keep_origin''"
  "\<not> is_index ''from''" "\<not> is_index ''to''" "\<not> is_index ''conditions''" "\<not> is_index ''logic''" "\<not> is_index ''operations''"
  by (simp_all add: is_index_def all_digits_def is_digit_def)

lemma condition_payloads:
  assumes "list_all condition_ok cs"
  shows "list_all json_data (List.map_filter buildConditionPayload cs)"
    and "List.map_filter buildConditionPayload cs = [] \<longleftrightarrow> cs = []"
  using assms by (induction cs) (auto simp: map_filter_simps elim!: condition_props)

text \<open>What the saved object of a valid rule holds.\<close>

lemma operation_props:
  assumes ok: "operation_ok op"
  defines "v \<equiv> operationPayload op" and "meta \<equiv> MODE_META (op_mode op)"
    and "cs \<equiv> List.map_filter buildConditionPayload (op_conditions op)"
  shows "json_data v" and "v \<noteq> Null"
    and "get_prop v ''mode'' = Str (op_mode op)"
    and "get_prop v ''description'' = (if op_description op \<noteq> [] then Str (op_description op) else Undef)"
    and "get_prop v ''path'' = (if m_path meta \<or> m_pathOptional meta \<and> op_path op \<noteq> [] then Str (op_path op) else Undef)"
    and "get_prop v ''value'' = (if m_value meta then parseLooseValue (op_value_text op) else Undef)"
    and "get_prop v ''keep_origin'' = (if op_keep_origin op then Bool True else Undef)"
    and "get_prop v ''from'' = (if m_from meta then Str (op_from op) else Undef)"
    and "get_prop v ''to'' = (if m_to meta \<or> op_to op \<noteq> [] then Str (op_to op) else Undef)"
    and "get_prop v ''conditions'' = (if op_conditions op \<noteq> [] then Arr cs else Undef)"
    and "get_prop v ''logic'' = (if op_conditions op \<noteq> [] then Str (op_logic op) else Undef)"
proof -
  have mode: "op_mode op \<noteq> []" using ok by (auto simp: operation_ok_def OPERATION_MODES_def)
  have path: "op_path op = []" if "m_pathAlias meta"
    using ok that by (auto simp: operation_ok_def meta_def MODE_META_def NO_META_def split: if_splits)
  have logic: "(if op_logic op = ''AND'' then ''AND'' else ''OR'') = op_logic op"
    using operation_okD(11) [OF ok] by auto
  have cs: "cs \<noteq> [] \<longleftrightarrow> op_conditions op \<noteq> []" "list_all json_data cs"
    using condition_payloads [OF operation_okD(12) [OF ok]] by (auto simp: cs_def)
  let ?p0 = "set_if (op_description op \<noteq> []) ''description'' (Str (op_description op)) [(''mode'', Str (op_mode op))]"
  let ?p1 = "set_if (m_pathOptional meta \<and> op_path op \<noteq> []) ''path'' (Str (op_path op)) (set_if (m_path meta) ''path'' (Str (op_path op)) ?p0)"
  let ?p2 = "set_if (m_keepOrigin meta \<and> op_keep_origin op) ''keep_origin'' (Bool True)
      (set_if (m_value meta) ''value'' (parseLooseValue (op_value_text op)) ?p1)"
  let ?p3 = "set_if (m_to meta) ''to'' (Str (op_to op)) (set_if (\<not> m_to meta \<and> op_to op \<noteq> []) ''to'' (Str (op_to op))
      (set_if (m_from meta) ''from'' (Str (op_from op)) ?p2))"
  let ?p4 = "set_if (cs \<noteq> []) ''logic'' (Str (op_logic op)) (set_if (cs \<noteq> []) ''conditions'' (Arr cs) ?p3)"
  have "set_if (m_pathAlias meta \<and> x \<and> op_path op \<noteq> []) k w ob = ob" for x k w and ob :: "jsval jsobj"
    using path by (auto simp: set_if_def)
  then have v: "v = Obj ?p4"
    using ok mode unfolding v_def operationPayload_def operation_ok_def
    by (simp add: Let_def meta_def [symmetric] cs_def [symmetric] logic del: get_prop.simps)
  have "json_data (Obj [(''mode'', Str (op_mode op))])" by (rule json_data_named) simp_all
  moreover have "m_value meta \<Longrightarrow> json_data (parseLooseValue (op_value_text op))"
    using operation_okD(8) [OF ok] by (simp add: meta_def stable_text_def)
  ultimately show "json_data v"
    unfolding v using cs(2) by (intro json_data_set_if) simp_all
  show "v \<noteq> Null" by (simp add: v)
  have keep: "op_keep_origin op \<Longrightarrow> m_keepOrigin meta" using ok by (simp add: operation_ok_def meta_def Let_def)
  show "get_prop v ''mode'' = Str (op_mode op)"
    "get_prop v ''description'' = (if op_description op \<noteq> [] then Str (op_description op) else Undef)"
    "get_prop v ''path'' = (if m_path meta \<or> m_pathOptional meta \<and> op_path op \<noteq> [] then Str (op_path op) else Undef)"
    "get_prop v ''value'' = (if m_value meta then parseLooseValue (op_value_text op) else Undef)"
    "get_prop v ''keep_origin'' = (if op_keep_origin op then Bool True else Undef)"
    "get_prop v ''from'' = (if m_from meta then Str (op_from op) else Undef)"
    "get_prop v ''to'' = (if m_to meta \<or> op_to op \<noteq> [] then Str (op_to op) else Undef)"
    "get_prop v ''conditions'' = (if op_conditions op \<noteq> [] then Arr cs else Undef)"
    "get_prop v ''logic'' = (if op_conditions op \<noteq> [] then Str (op_logic op) else Undef)"
    using keep unfolding v by (auto simp: cs(1))
qed

lemma operation_back:
  assumes ok: "operation_ok op"
  shows "\<exists>op'. normalizeOperation clk (operationPayload op) n = Inr (op', Suc n + length (op_conditions op)) \<and> no_id op' = no_id op"
proof -
  note p = operation_props [OF ok]
  have all: "list_all condition_ok (op_conditions op)" using ok by (rule operation_okD)
  obtain cs' where cs': "map_seed (normalizeOverrideCondition clk) (List.map_filter buildConditionPayload (op_conditions op)) (Suc n) =
      Inr (cs', Suc n + length (op_conditions op))" "map (\<lambda>c. c\<lparr>c_id := []\<rparr>) cs' = map (\<lambda>c. c\<lparr>c_id := []\<rparr>) (op_conditions op)"
    using conditions_back [OF all, of clk "Suc n"] by auto
  have up: "map upper_char ''AND'' = ''AND''" "map upper_char ''OR'' = ''OR''" by (simp_all add: upper_char_def)
  let ?p = "get_prop (operationPayload op)"
  have conds: "(case ?p ''conditions'' of Arr cs \<Rightarrow> map_seed (normalizeOverrideCondition clk) cs (Suc n) | _ \<Rightarrow> Inr ([], Suc n)) =
      Inr (cs', Suc n + length (op_conditions op))"
    using cs' by (cases "op_conditions op = []") (simp_all add: p)
  have "string_or (?p ''description'') [] = op_description op" "string_or (?p ''from'') [] = op_from op"
    "string_or (?p ''to'') [] = op_to op" "(?p ''keep_origin'' = Bool True) = op_keep_origin op"
    using operation_okD(7) [OF ok] by (auto simp: p)
  moreover have "string_or (?p ''path'') [] = op_path op" using operation_okD(6) [OF ok] by (auto simp: p)
  moreover have "known_mode OPERATION_MODES ''set'' (?p ''mode'') = op_mode op"
    using operation_okD(1) [OF ok] by (simp add: p known_mode_def)
  moreover have "toValueText (?p ''value'') = op_value_text op"
    using operation_okD(8,9) [OF ok] by (simp add: p stable_text_def toValueText_def)
  moreover have "(if map upper_char (text_or (?p ''logic'') ''OR'') = ''AND'' then ''AND'' else ''OR'') = op_logic op"
    using operation_okD(11) [OF ok] up by (auto simp: p text_or_def or_else_def)
  ultimately have "normalizeOperation clk (operationPayload op) n =
      Inr (op\<lparr>op_id := local_id clk n, op_conditions := cs'\<rparr>, Suc n + length (op_conditions op))"
    using conds p(2) by (simp add: normalizeOperation_def nextLocalId_eq del: get_prop.simps)
  then show ?thesis using cs'(2) by (simp add: no_id_def)
qed

lemma operations_back:
  assumes "list_all operation_ok ops"
  shows "\<exists>ops' m. map_seed (normalizeOperation clk) (map operationPayload ops) n = Inr (ops', m) \<and> map no_id ops' = map no_id ops"
  using assms
proof (induction ops arbitrary: n)
  case (Cons op ops)
  then obtain op' m where op': "normalizeOperation clk (operationPayload op) n = Inr (op', m)" "no_id op' = no_id op"
    using operation_back [of op clk n] by auto
  obtain ops' k where "map_seed (normalizeOperation clk) (map operationPayload ops) m = Inr (ops', k)" "map no_id ops' = map no_id ops"
    using Cons.IH [of m] Cons.prems by auto
  with op' show ?case by simp
qed simp

text \<open>The text of the rules depends on the ids in no way.\<close>

lemma payload_no_id: "operationPayload (no_id op) = operationPayload op"
proof -
  have "buildConditionPayload (c\<lparr>c_id := []\<rparr>) = buildConditionPayload c" for c
    by (simp add: buildConditionPayload_def Let_def)
  then have "List.map_filter buildConditionPayload (map (\<lambda>c. c\<lparr>c_id := []\<rparr>) cs) = List.map_filter buildConditionPayload cs" for cs
    by (induction cs) (simp_all add: map_filter_simps split: option.split)
  then show ?thesis by (simp add: operationPayload_def no_id_def)
qed

lemma blank_no_id: "isOperationBlank (no_id op) = isOperationBlank op"
  by (simp add: isOperationBlank_def no_id_def list_ex_iff)

lemma validate_no_id: "validate_from line (map no_id ops) = validate_from line ops"
proof (induction ops arbitrary: line)
  case (Cons op ops)
  have "validateOperation line (no_id op) = validateOperation line op" by (simp add: validateOperation_def no_id_def)
  with Cons show ?case by (simp split: option.split)
qed simp

lemma build_no_id: "buildOperationsJson b (map no_id ops) = buildOperationsJson b ops"
proof -
  have "filter (\<lambda>op. \<not> isOperationBlank op) (map no_id ops) = map no_id (filter (\<lambda>op. \<not> isOperationBlank op) ops)"
    by (simp add: filter_map comp_def blank_no_id)
  then show ?thesis
    by (simp add: buildOperationsJson_def validateOperations_def validate_no_id comp_def payload_no_id Let_def
        cong: option.case_cong del: json_pretty.simps)
qed

lemma build_cong: "map no_id ops = map no_id ops' \<Longrightarrow> buildOperationsJson b ops = buildOperationsJson b ops'"
  by (metis build_no_id)

lemma rules_text:
  assumes "list_all operation_ok ops" "list_all (\<lambda>op. \<not> isOperationBlank op) ops" "ops \<noteq> []"
    "buildOperationsJson True ops = Inr txt"
  shows "json_parse txt = Some (Obj [(''operations'', Arr (map operationPayload ops))])" "trim txt = txt" "txt \<noteq> []"
proof -
  let ?v = "Obj [(''operations'', Arr (map operationPayload ops))]"
  have f: "filter (\<lambda>op. \<not> isOperationBlank op) ops = ops" using assms(2) by (simp add: list_all_iff)
  then have tx: "txt = the (json_pretty [] ?v)"
    using assms(3,4) by (auto simp: buildOperationsJson_def simp del: json_pretty.simps split: option.splits)
  have "json_data ?v"
    using assms(1) by (intro json_data_named) (auto simp: list_all_iff intro: operation_props(1))
  then show "json_parse txt = Some ?v" "trim txt = txt"
    unfolding tx by (rule json2.parse_print, rule pretty_object_trim)
  then show "txt \<noteq> []" by (auto simp: json_parse_def skip_ws_def)
qed

text \<open>
  C4: rules in normal form survive saving: opening the saved text shows the same rules, in the same
  order, up to their ids, and saving them again gives the same text.
\<close>

theorem override_roundtrip:
  assumes "editMode ed = VisualEdit" "visualMode ed = OperationsView" "operations ed \<noteq> []"
    "list_all operation_ok (operations ed)" "list_all (\<lambda>op. \<not> isOperationBlank op) (operations ed)"
    "overrideSave ed = Inr txt"
  shows "\<exists>ed'. openEditor clk (Str txt) other = Inr ed' \<and> map no_id (operations ed') = map no_id (operations ed) \<and>
    overrideSave ed' = Inr txt"
proof -
  have b: "buildOperationsJson True (operations ed) = Inr txt"
    using assms(1,2,6) by (simp add: overrideSave_def buildVisualJson_def)
  note t = rules_text [OF assms(4,5,3) b]
  obtain ops' m where ops': "map_seed (normalizeOperation clk) (map operationPayload (operations ed)) (idSeed other) = Inr (ops', m)"
    "map no_id ops' = map no_id (operations ed)"
    using operations_back [OF assms(4), of clk "idSeed other"] by blast
  then have "\<exists>ed'. openEditor clk (Str txt) other = Inr ed' \<and> operations ed' = ops' \<and> editMode ed' = VisualEdit \<and> visualMode ed' = OperationsView"
    using t assms(3)
    by (simp add: openEditor_def parseInitialState_def normalizeOperations_def default_operation Let_def del: json_pretty.simps)
  then obtain ed' where ed': "openEditor clk (Str txt) other = Inr ed'" "operations ed' = ops'" "editMode ed' = VisualEdit" "visualMode ed' = OperationsView"
    by blast
  have "overrideSave ed' = Inr txt"
    using ed'(2-) build_cong [OF ops'(2), of True] b by (simp add: overrideSave_def buildVisualJson_def)
  with ed'(1,2) ops'(2) show ?thesis by blast
qed

section \<open>Sample inputs\<close>

definition sample_rule :: "string \<Rightarrow> string \<Rightarrow> override_operation" where
  "sample_rule i path =
     \<lparr>op_id = i, op_description = [], op_path = path, op_mode = ''set'', op_value_text = ''abc'', op_keep_origin = False,
      op_from = [], op_to = [], op_logic = ''OR'', op_conditions = []\<rparr>"

definition sample_rules :: "override_operation list" where
  "sample_rules = [sample_rule ''1'' ''model'', sample_rule ''2'' ''user'', sample_rule ''3'' ''stop'']"

theorem reorder_moves_one_witness:
  "\<exists>a b. reorderOperations sample_rules ''1'' ''3'' After = a @ [sample_rule ''3'' ''stop'', sample_rule ''1'' ''model''] @ b \<and>
    a @ sample_rule ''3'' ''stop'' # b = filter (\<lambda>op. op_id op \<noteq> ''1'') sample_rules \<and>
    mset (reorderOperations sample_rules ''1'' ''3'' After) = mset sample_rules"
  using reorder_moves_one [of sample_rules "sample_rule ''1'' ''model''" "sample_rule ''3'' ''stop''" After]
  by (simp add: sample_rules_def sample_rule_def)

definition sample_draft :: return_error_draft where
  "sample_draft = \<lparr>re_message = ''overloaded'', re_statusCode = int_num 503, re_code = ''busy'', re_type = [],
     re_skipRetry = False, re_simpleMode = False\<rparr>"

lemma sample_draft_ok: "draft_ok sample_draft"
proof -
  have "num_readable (Fin (of_int 503))" by code_simp
  moreover have "trim ''overloaded'' = ''overloaded''" "trim ''busy'' = ''busy''" "trim [] = []" by code_simp+
  ultimately show ?thesis by (auto simp: draft_ok_def sample_draft_def intro!: exI [of _ 503])
qed

theorem return_error_form_witness:
  "(\<exists>n. 100 \<le> n \<and> n \<le> 599 \<and> re_statusCode (parseReturnErrorDraft ''overloaded'') = int_num n) \<and> draft_ok sample_draft \<and>
   parseReturnErrorDraft (buildReturnErrorValueText sample_draft) = sample_draft"
  using return_error_form [of "''overloaded''" sample_draft] sample_draft_ok by blast

definition sample_state :: "override_operation list \<Rightarrow> override_editor" where
  "sample_state ops =
     \<lparr>editMode = VisualEdit, visualMode = OperationsView, legacyValue = [], operations = ops, jsonText = [], jsonError = None,
      operationSearch = [], selectedOperationId = first_id ops, expandedConditionMap = [], draggedOperationId = [],
      dragOverOperationId = [], dragOverPosition = Before, templateGroupKey = ''basic'',
      templatePresetKey = ''operations_default'', idSeed = 9\<rparr>"

lemma sample_rules_ok: "list_all operation_ok sample_rules" "list_all (\<lambda>op. \<not> isOperationBlank op) sample_rules"
  by code_simp+

lemma sample_saved: "\<exists>txt. overrideSave (sample_state sample_rules) = Inr txt"
proof -
  have "validateOperations sample_rules = None" by code_simp
  moreover have "filter (\<lambda>op. \<not> isOperationBlank op) sample_rules = sample_rules" using sample_rules_ok(2) by (simp add: list_all_iff)
  moreover have "sample_rules \<noteq> []" by (simp add: sample_rules_def)
  ultimately show ?thesis by (simp add: overrideSave_def buildVisualJson_def buildOperationsJson_def sample_state_def)
qed

theorem override_roundtrip_witness:
  "\<exists>txt ed'. overrideSave (sample_state sample_rules) = Inr txt \<and> openEditor (\<lambda>_. 5) (Str txt) (sample_state []) = Inr ed' \<and>
    map no_id (operations ed') = map no_id sample_rules \<and> overrideSave ed' = Inr txt"
proof -
  obtain saved where s: "overrideSave (sample_state sample_rules) = Inr saved" using sample_saved by (rule exE)
  have "operations (sample_state sample_rules) = sample_rules" "sample_rules \<noteq> []" by (simp_all add: sample_state_def sample_rules_def)
  with override_roundtrip [of "sample_state sample_rules" saved "\<lambda>_. 5" "sample_state []"] s sample_rules_ok
  show ?thesis by (auto simp: sample_state_def)
qed

definition sample_filter :: override_operation where
  "sample_filter = (sample_rule ''1'' [])\<lparr>op_mode := ''prune_objects'', op_value_text := ''{\"conditions\":[{\"path\":\"type\"}]}''\<rparr>"

definition sample_shown :: "prune_draft option \<times> override_editor" where
  "sample_shown = pruneObjectsDraft (\<lambda>_. 5) (sample_state [sample_filter])"

lemma sample_shown_rules: "\<exists>d r. sample_shown = (Some d, snd sample_shown) \<and> r \<in> set (pd_rules d)"
proof -
  have "map_option (\<lambda>d. pd_rules d \<noteq> []) (fst sample_shown) = Some True" by code_simp
  then obtain d where "fst sample_shown = Some d" "pd_rules d \<noteq> []" by auto
  then show ?thesis by (metis hd_in_set prod.collapse)
qed

theorem prune_rule_edits_lost_witness:
  "\<exists>d r. sample_shown = (Some d, snd sample_shown) \<and> r \<in> set (pd_rules d) \<and>
    updatePruneRule (\<lambda>_. 5) ''1'' (c_id r) (\<lambda>c. c\<lparr>c_path := ''name''\<rparr>) (snd sample_shown) =
      updatePruneObjectsDraft (\<lambda>_. 5) ''1'' Pair (snd sample_shown) \<and>
    removePruneRule (\<lambda>_. 5) ''1'' (c_id r) (snd sample_shown) = updatePruneObjectsDraft (\<lambda>_. 5) ''1'' Pair (snd sample_shown)"
proof -
  obtain d r where d: "sample_shown = (Some d, snd sample_shown)" "r \<in> set (pd_rules d)" using sample_shown_rules by blast
  have sel: "selectedOperation (sample_state [sample_filter]) = Some sample_filter" "op_id sample_filter = ''1''"
    by (simp_all add: selectedOperation_def sample_state_def first_id_def sample_filter_def sample_rule_def)
  have shown: "pruneObjectsDraft (\<lambda>_. 5) (sample_state [sample_filter]) = (Some d, snd sample_shown)"
    using d(1) by (simp add: sample_shown_def)
  from prune_rule_edits_lost [OF shown d(2) sel(1) order_refl] d sel(2) show ?thesis by auto
qed

section \<open>Limits of the editor\<close>

text \<open>A rule for headers always needs both ends: the path never stands in for a missing one.\<close>

theorem path_alias_rejected:
  "op_mode op \<in> {''copy_header'', ''move_header''} \<Longrightarrow> validateOperation line op = None \<Longrightarrow>
   trim (op_from op) \<noteq> [] \<and> trim (op_to op) \<noteq> []"
proof -
  assume m: "op_mode op \<in> {''copy_header'', ''move_header''}" and ok: "validateOperation line op = None"
  then have "m_path (MODE_META (op_mode op)) = False" "m_from (MODE_META (op_mode op))" "m_to (MODE_META (op_mode op))" "op_mode op \<noteq> []"
    by (auto simp: MODE_META_def NO_META_def)
  with ok show ?thesis unfolding validateOperation_def Let_def by (simp split: if_splits)
qed

text \<open>A stored list of rules with a null entry cannot be opened.\<close>

theorem null_rule_crashes:
  "openEditor clk (Str ''{\"operations\":[null]}'') ed = Inl TypeError"
proof -
  have "trim ''{\"operations\":[null]}'' = ''{\"operations\":[null]}''"
    "json_parse ''{\"operations\":[null]}'' = Some (Obj [(''operations'', Arr [Null])])" by code_simp+
  then show ?thesis
    by (simp add: openEditor_def parseInitialState_def normalizeOperations_def normalizeOperation_def default_operation
        nextLocalId_eq del: json_pretty.simps)
qed

text \<open>A value that is a string with the text of a number is stored as a number once the rules are opened and saved.\<close>

theorem string_value_retyped:
  "map_sum id (\<lambda>p. operationPayload (fst p))
     (normalizeOperation (\<lambda>_. 5) (Obj [(''mode'', Str ''set''), (''path'', Str ''user''), (''value'', Str ''42'')]) 0) =
   Inr (Obj [(''mode'', Str ''set''), (''path'', Str ''user''), (''value'', Num (Fin 42))])"
  by code_simp

text \<open>The form of an object filter with a type does not leave the simple mode.\<close>

theorem advanced_mode_refused:
  assumes "trim (pd_typeText d) \<noteq> []" "map upper_char (pd_logic d) \<noteq> ''OR''" "pd_recursive d" "pd_rules d = []"
  shows "pd_simpleMode (fst (parsePruneObjectsDraft clk (buildPruneObjectsValueText (d\<lparr>pd_simpleMode := False\<rparr>)) n))"
proof -
  let ?v = "Obj [(''type'', Str (trim (pd_typeText d)))]"
  have data: "json_data ?v" by (rule json_data_named) simp_all
  have built: "buildPruneObjectsValueText (d\<lparr>pd_simpleMode := False\<rparr>) = the (json_stringify ?v)"
    using assms by (simp add: buildPruneObjectsValueText_def set_if_def del: json_stringify.simps)
  have "json_parse (the (json_stringify ?v)) = Some ?v" by (rule json.parse_print [OF data])
  moreover have "trim (the (json_stringify ?v)) = the (json_stringify ?v)" by (rule quoted_object_trim [OF data])
  moreover from calculation(1) have "the (json_stringify ?v) \<noteq> []" by (auto simp: json_parse_def skip_ws_def simp del: json_stringify.simps)
  ultimately show ?thesis unfolding built
    by (simp add: parsePruneObjectsDraft_def case_prod_unfold Let_def del: json_stringify.simps)
qed

end
