(* ===== verification/Param_Override_Form.thy ===== *)
theory Param_Override_Form
  imports Param_Override_Editor
begin

text \<open>
  The form of the selected rule in \<open>ParamOverrideEditorModal.jsx\<close>: which inputs it shows for a mode,
  what each input writes into the rule, and the runs of the whole dialog, as sequences of handlers
  each followed by the two effects that repair the selection and the preset.
\<close>

section \<open>Inputs of a rule\<close>

datatype operation_patch =
    PMode string | PPath string | PDescription string | PValueText string | PKeepOrigin bool
  | PSyncFromType string | PSyncFromKey string | PSyncToType string | PSyncToKey string | PSyncHeaderToJson | PSyncJsonToHeader
  | PFrom string | PTo string | PLogic string

fun apply_operation_patch :: "operation_patch \<Rightarrow> override_operation \<Rightarrow> override_operation" where
  "apply_operation_patch (PMode m) op = op\<lparr>op_mode := m\<rparr>"
| "apply_operation_patch (PPath s) op = op\<lparr>op_path := s\<rparr>"
| "apply_operation_patch (PDescription s) op = op\<lparr>op_description := s\<rparr>"
| "apply_operation_patch (PValueText s) op = op\<lparr>op_value_text := s\<rparr>"
| "apply_operation_patch (PKeepOrigin b) op = op\<lparr>op_keep_origin := b\<rparr>"
| "apply_operation_patch (PSyncFromType ty) op = op\<lparr>op_from := buildSyncTargetSpec ty (snd (parseSyncTargetSpec (op_from op)))\<rparr>"
| "apply_operation_patch (PSyncFromKey k) op = op\<lparr>op_from := buildSyncTargetSpec (fst (parseSyncTargetSpec (op_from op))) k\<rparr>"
| "apply_operation_patch (PSyncToType ty) op = op\<lparr>op_to := buildSyncTargetSpec ty (snd (parseSyncTargetSpec (op_to op)))\<rparr>"
| "apply_operation_patch (PSyncToKey k) op = op\<lparr>op_to := buildSyncTargetSpec (fst (parseSyncTargetSpec (op_to op))) k\<rparr>"
| "apply_operation_patch PSyncHeaderToJson op = op\<lparr>op_from := ''header:session_id'', op_to := ''json:prompt_cache_key''\<rparr>"
| "apply_operation_patch PSyncJsonToHeader op = op\<lparr>op_from := ''json:prompt_cache_key'', op_to := ''header:session_id''\<rparr>"
| "apply_operation_patch (PFrom s) op = op\<lparr>op_from := s\<rparr>"
| "apply_operation_patch (PTo s) op = op\<lparr>op_to := s\<rparr>"
| "apply_operation_patch (PLogic l) op = op\<lparr>op_logic := l\<rparr>"

text \<open>The mode the form works with, and the modes whose meta data has \<open>to: false\<close>.\<close>

definition form_mode :: "override_operation \<Rightarrow> string" where
  "form_mode op = (if op_mode op = [] then ''set'' else op_mode op)"

definition to_false :: "string \<Rightarrow> bool" where
  "to_false mode \<longleftrightarrow> mode = ''replace'' \<or> mode = ''regex_replace''"

text \<open>The input is on the form, and the value is one that it offers.\<close>

fun form_offers :: "override_operation \<Rightarrow> operation_patch \<Rightarrow> bool" where
  "form_offers op (PMode m) = (m \<in> set OPERATION_MODES)"
| "form_offers op (PPath s) = (let meta = MODE_META (form_mode op) in m_path meta \<or> m_pathOptional meta)"
| "form_offers op (PDescription s) = True"
| "form_offers op (PValueText s) =
     (m_value (MODE_META (form_mode op)) \<and> form_mode op \<noteq> ''return_error'' \<and> form_mode op \<noteq> ''prune_objects'')"
| "form_offers op (PKeepOrigin b) = m_keepOrigin (MODE_META (form_mode op))"
| "form_offers op (PSyncFromType ty) = (form_mode op = ''sync_fields'' \<and> ty \<in> {''json'', ''header''})"
| "form_offers op (PSyncFromKey k) = (form_mode op = ''sync_fields'')"
| "form_offers op (PSyncToType ty) = (form_mode op = ''sync_fields'' \<and> ty \<in> {''json'', ''header''})"
| "form_offers op (PSyncToKey k) = (form_mode op = ''sync_fields'')"
| "form_offers op PSyncHeaderToJson = (form_mode op = ''sync_fields'')"
| "form_offers op PSyncJsonToHeader = (form_mode op = ''sync_fields'')"
| "form_offers op (PFrom s) =
     (form_mode op \<noteq> ''sync_fields'' \<and> (m_from (MODE_META (form_mode op)) \<or> to_false (form_mode op)))"
| "form_offers op (PTo s) =
     (form_mode op \<noteq> ''sync_fields'' \<and> (m_to (MODE_META (form_mode op)) \<or> to_false (form_mode op)))"
| "form_offers op (PLogic l) = (l \<in> {''OR'', ''AND''})"

section \<open>Inputs of a condition, of a custom error and of an object filter\<close>

datatype condition_patch = CPath string | CMode string | CValueText string | CInvert bool | CPassMissing bool

fun apply_condition_patch :: "condition_patch \<Rightarrow> override_condition \<Rightarrow> override_condition" where
  "apply_condition_patch (CPath s) c = c\<lparr>c_path := s\<rparr>"
| "apply_condition_patch (CMode m) c = c\<lparr>c_mode := m\<rparr>"
| "apply_condition_patch (CValueText s) c = c\<lparr>c_value_text := s\<rparr>"
| "apply_condition_patch (CInvert b) c = c\<lparr>c_invert := b\<rparr>"
| "apply_condition_patch (CPassMissing b) c = c\<lparr>c_pass_missing_key := b\<rparr>"

fun condition_offers :: "condition_patch \<Rightarrow> bool" where
  "condition_offers (CMode m) = (m \<in> set CONDITION_MODES)"
| "condition_offers _ = True"

datatype return_error_patch =
  RSimple bool | RMessage string | RStatus string | RCode string | RType string | RSkip bool | RInvalid | RUnauthorized | RLimited

text \<open>The status input reads \<open>parseInt(nextValue, 10) || 400\<close>.\<close>

fun apply_return_error_patch :: "return_error_patch \<Rightarrow> return_error_draft \<Rightarrow> return_error_draft" where
  "apply_return_error_patch (RSimple b) d = d\<lparr>re_simpleMode := b\<rparr>"
| "apply_return_error_patch (RMessage s) d = d\<lparr>re_message := s\<rparr>"
| "apply_return_error_patch (RStatus s) d = d\<lparr>re_statusCode := or_else (Num (parse_int s)) (Num (Fin 400))\<rparr>"
| "apply_return_error_patch (RCode s) d = d\<lparr>re_code := s\<rparr>"
| "apply_return_error_patch (RType s) d = d\<lparr>re_type := s\<rparr>"
| "apply_return_error_patch (RSkip b) d = d\<lparr>re_skipRetry := b\<rparr>"
| "apply_return_error_patch RInvalid d =
     d\<lparr>re_statusCode := Num (Fin 400), re_code := ''invalid_request'', re_type := ''invalid_request_error''\<rparr>"
| "apply_return_error_patch RUnauthorized d =
     d\<lparr>re_statusCode := Num (Fin 401), re_code := ''unauthorized'', re_type := ''authentication_error''\<rparr>"
| "apply_return_error_patch RLimited d =
     d\<lparr>re_statusCode := Num (Fin 429), re_code := ''rate_limited'', re_type := ''rate_limit_error''\<rparr>"

datatype prune_patch = UType string | USimple bool | ULogic string | URecursive bool

fun apply_prune_patch :: "prune_patch \<Rightarrow> prune_draft \<Rightarrow> prune_draft" where
  "apply_prune_patch (UType s) d = d\<lparr>pd_typeText := s\<rparr>"
| "apply_prune_patch (USimple b) d = d\<lparr>pd_simpleMode := b\<rparr>"
| "apply_prune_patch (ULogic l) d = d\<lparr>pd_logic := (if l = [] then ''AND'' else l)\<rparr>"
| "apply_prune_patch (URecursive b) d = d\<lparr>pd_recursive := b\<rparr>"

section \<open>Runs of the dialog\<close>

inductive override_step :: "(nat \<Rightarrow> nat) \<Rightarrow> override_editor \<Rightarrow> override_editor \<Rightarrow> bool" for clk where
  step_render: "override_step clk ed (rerender clk ed)"
| step_open: "openEditor clk v ed = Inr ed' \<Longrightarrow> override_step clk ed ed'"
| step_json_view: "override_step clk ed (switchToJsonMode ed)"
| step_visual_view: "switchToVisualMode clk ed = Inr ed' \<Longrightarrow> override_step clk ed ed'"
| step_fill: "fillTemplateFromLibrary clk ed = Inr ed' \<Longrightarrow> override_step clk ed ed'"
| step_append: "appendTemplateFromLibrary clk ed = Inr ed' \<Longrightarrow> override_step clk ed ed'"
| step_clear: "override_step clk ed (clearValue clk ed)"
| step_reset: "override_step clk ed (resetEditorState clk ed)"
| step_template_group: "override_step clk ed (ed\<lparr>templateGroupKey := (if g = [] then ''basic'' else g)\<rparr>)"
| step_template_preset: "override_step clk ed (ed\<lparr>templatePresetKey := (if k = [] then ''operations_default'' else k)\<rparr>)"
| step_legacy: "override_step clk ed (ed\<lparr>legacyValue := s\<rparr>)"
| step_search: "override_step clk ed (ed\<lparr>operationSearch := s\<rparr>)"
| step_select: "override_step clk ed (ed\<lparr>selectedOperationId := i\<rparr>)"
| step_json_change: "override_step clk ed (handleJsonChange s ed)"
| step_format_json: "override_step clk ed (formatJson ed)"
| step_patch: "selectedOperation ed = Some op \<Longrightarrow> form_offers op p \<Longrightarrow> override_step clk ed (updateOperation (op_id op) (apply_operation_patch p) ed)"
| step_builtin: "override_step clk ed (applyBuiltinField fieldKey target ed)"
| step_format_value: "override_step clk ed (formatSelectedOperationValueAsJson ed)"
| step_return_error: "override_step clk ed (updateReturnErrorDraft i (apply_return_error_patch p) ed)"
| step_show_prune: "pruneObjectsDraft clk ed = (d, ed') \<Longrightarrow> override_step clk ed ed'"
| step_prune: "override_step clk ed (updatePruneObjectsDraft clk i (\<lambda>d. Pair (apply_prune_patch p d)) ed)"
| step_add_prune_rule: "override_step clk ed (addPruneRule clk i ed)"
| step_update_prune_rule: "override_step clk ed (updatePruneRule clk i k (apply_condition_patch p) ed)"
| step_remove_prune_rule: "override_step clk ed (removePruneRule clk i k ed)"
| step_add: "override_step clk ed (addOperation clk ed)"
| step_drag_start: "override_step clk ed (handleOperationDragStart i ed)"
| step_drag_over: "override_step clk ed (handleOperationDragOver lowerHalf i ed)"
| step_drop: "override_step clk ed (handleOperationDrop transferred i ed)"
| step_drag_end: "override_step clk ed (resetOperationDragState ed)"
| step_duplicate: "duplicateOperation clk i ed = Inr ed' \<Longrightarrow> override_step clk ed ed'"
| step_remove: "override_step clk ed (removeOperation clk i ed)"
| step_add_condition: "override_step clk ed (addCondition clk i ed)"
| step_update_condition: "condition_offers p \<Longrightarrow> override_step clk ed (updateCondition i k (apply_condition_patch p) ed)"
| step_remove_condition: "override_step clk ed (removeCondition i k ed)"
| step_collapse: "override_step clk ed (handleConditionCollapseChange i keys ed)"
| step_expand_all: "override_step clk ed (expandAllSelectedConditions ed)"
| step_collapse_all: "override_step clk ed (collapseAllSelectedConditions ed)"

text \<open>The two effects that run after a change.\<close>

definition settle_override :: "override_editor \<Rightarrow> override_editor" where
  "settle_override ed = repairPreset (repairSelection ed)"

inductive override_reach :: "(nat \<Rightarrow> nat) \<Rightarrow> override_editor \<Rightarrow> bool" for clk where
  reach_start: "override_reach clk (settle_override (initialOverrideEditor clk seed))"
| reach_step: "override_reach clk ed \<Longrightarrow> override_step clk ed ed' \<Longrightarrow> override_reach clk (settle_override ed')"

end
