(* ===== verification/Param_Override_Invariant.thy ===== *)
theory Param_Override_Invariant
  imports Param_Override_Proofs Param_Override_Form
begin

text \<open>
  Invariants of the parameter override dialog over all its runs: there is always a rule, the ids of
  rules and conditions are never given twice, the selection and the preset always exist, and the modes
  stay among the known ones.
\<close>

section \<open>Fresh and distinct ids\<close>

definition op_ids :: "override_operation \<Rightarrow> string list" where
  "op_ids op = op_id op # map c_id (op_conditions op)"

definition ids :: "override_operation list \<Rightarrow> string list" where
  "ids ops = concat (map op_ids ops)"

lemma ids_simps [simp]: "ids [] = []" "ids (op # ops) = op_ids op @ ids ops" "ids (xs @ ys) = ids xs @ ids ys"
  by (simp_all add: ids_def)

definition new_ids :: "(nat \<Rightarrow> nat) \<Rightarrow> nat \<Rightarrow> nat \<Rightarrow> string list" where
  "new_ids clk m n = map (local_id clk) [m..<n]"

definition ids_ok :: "(nat \<Rightarrow> nat) \<Rightarrow> override_editor \<Rightarrow> bool" where
  "ids_ok clk ed \<longleftrightarrow> operations ed \<noteq> [] \<and> distinct (ids (operations ed)) \<and>
     set (ids (operations ed)) \<subseteq> local_id clk ` {..<idSeed ed}"

lemma distinct_new_ids: "distinct (new_ids clk m n)"
  by (simp add: new_ids_def distinct_map inj_on_def)

lemma new_ids_append: "n \<le> k \<Longrightarrow> k \<le> m \<Longrightarrow> new_ids clk n k @ new_ids clk k m = new_ids clk n m"
  by (metis le_Suc_ex map_append new_ids_def upt_add_eq_append)

lemma distinct_submset:
  assumes "distinct xs" "mset ys \<subseteq># mset xs"
  shows "distinct ys"
proof -
  have "count (mset ys) a = (if a \<in> set ys then 1 else 0)" for a
  proof (cases "a \<in> set ys")
    case True
    then have "a \<in> set xs" using assms(2) by (metis mset_subset_eqD set_mset_mset)
    then have "count (mset ys) a \<le> 1"
      using mset_subset_eq_count [OF assms(2), of a] assms(1) by (simp add: distinct_count_atmost_1)
    moreover have "count (mset ys) a > 0" using True by simp
    ultimately have "count (mset ys) a = 1" by linarith
    then show ?thesis using True by simp
  qed (simp add: count_mset_0_iff)
  then show ?thesis by (simp add: distinct_count_atmost_1)
qed

text \<open>Every handler keeps some of the old ids and adds some of the new ones.\<close>

lemma ids_ok_step:
  assumes "ids_ok clk ed" "idSeed ed \<le> idSeed ed'" "operations ed' \<noteq> []"
    "mset (ids (operations ed')) \<subseteq># mset (ids (operations ed) @ new_ids clk (idSeed ed) (idSeed ed'))"
  shows "ids_ok clk ed'"
proof -
  let ?all = "ids (operations ed) @ new_ids clk (idSeed ed) (idSeed ed')"
  have "set (ids (operations ed)) \<inter> set (new_ids clk (idSeed ed) (idSeed ed')) = {}"
    using assms(1) by (auto simp: ids_ok_def new_ids_def)
  then have "distinct ?all" using assms(1) distinct_new_ids by (simp add: ids_ok_def)
  then have "distinct (ids (operations ed'))" using assms(4) by (rule distinct_submset)
  moreover have "set (ids (operations ed')) \<subseteq> set ?all" using assms(4) by (metis set_mset_mono set_mset_mset)
  moreover have "set ?all \<subseteq> local_id clk ` {..<idSeed ed'}"
    using assms(1,2) by (force simp: ids_ok_def new_ids_def)
  ultimately show ?thesis using assms(3) by (auto simp: ids_ok_def)
qed

lemma ids_ok_same:
  "ids_ok clk ed \<Longrightarrow> ids (operations ed') = ids (operations ed) \<Longrightarrow> idSeed ed \<le> idSeed ed' \<Longrightarrow> ids_ok clk ed'"
  by (rule ids_ok_step) (auto simp: ids_ok_def op_ids_def ids_def)

lemma normalize_condition_ids:
  "normalizeOverrideCondition clk v n = Inr (c, m) \<Longrightarrow> m = Suc n \<and> c_id c = local_id clk n"
  by (auto simp: normalizeOverrideCondition_def nextLocalId_eq split: if_splits)

lemma conditions_ids:
  "map_seed (normalizeOverrideCondition clk) vs n = Inr (cs, m) \<Longrightarrow> n \<le> m \<and> map c_id cs = new_ids clk n m"
proof (induction vs arbitrary: n cs)
  case (Cons v vs)
  then obtain c cs' where c: "normalizeOverrideCondition clk v n = Inr (c, Suc n)" "map_seed (normalizeOverrideCondition clk) vs (Suc n) = Inr (cs', m)"
    "cs = c # cs'"
    by (auto split: sum.splits prod.splits dest: normalize_condition_ids)
  with Cons.IH [OF c(2)] normalize_condition_ids [OF c(1)] show ?case by (simp add: new_ids_def upt_conv_Cons)
qed (simp add: new_ids_def)

lemma operation_ids:
  assumes "normalizeOperation clk v n = Inr (op, m)"
  shows "n < m \<and> op_ids op = new_ids clk n m"
proof -
  obtain cs where cs: "(case get_prop v ''conditions'' of Arr cs \<Rightarrow> map_seed (normalizeOverrideCondition clk) cs (Suc n) | _ \<Rightarrow> Inr ([], Suc n)) = Inr (cs, m)"
    "op_id op = local_id clk n" "op_conditions op = cs"
    using assms by (auto simp: normalizeOperation_def nextLocalId_eq Let_def split: if_splits sum.splits prod.splits)
  then have "Suc n \<le> m \<and> map c_id cs = new_ids clk (Suc n) m"
    using conditions_ids by (cases "get_prop v ''conditions''") (auto simp: new_ids_def)
  then show ?thesis using cs by (simp add: op_ids_def new_ids_def upt_conv_Cons)
qed

lemma operations_ids:
  "map_seed (normalizeOperation clk) vs n = Inr (ops, m) \<Longrightarrow> n \<le> m \<and> length ops = length vs \<and> ids ops = new_ids clk n m"
proof (induction vs arbitrary: n ops)
  case (Cons v vs)
  then obtain op k ops' where c: "normalizeOperation clk v n = Inr (op, k)" "map_seed (normalizeOperation clk) vs k = Inr (ops', m)"
    "ops = op # ops'"
    by (auto split: sum.splits prod.splits)
  with Cons.IH [OF c(2)] operation_ids [OF c(1)] show ?case
    by (simp add: new_ids_append)
qed (simp add: new_ids_def)

lemma normalized_ids:
  "normalizeOperations clk vs n = Inr (ops, m) \<Longrightarrow> n \<le> m \<and> ops \<noteq> [] \<and> ids ops = new_ids clk n m"
  using operations_ids [of clk vs n ops m]
  by (auto simp: normalizeOperations_def default_operation op_ids_def new_ids_def split: if_splits)

lemma ids_ok_replaced:
  assumes "ids (operations ed) = new_ids clk n (idSeed ed)" "operations ed \<noteq> []"
  shows "ids_ok clk ed"
  using assms distinct_new_ids [of clk n "idSeed ed"] by (auto simp: ids_ok_def new_ids_def)

lemma fallback_ids: "ids_ok clk (with_fallback clk ed)"
  by (rule ids_ok_replaced [where n = "idSeed ed"])
    (simp_all add: with_fallback_def default_operation op_ids_def new_ids_def)

lemma opened_ids: "openEditor clk v ed = Inr ed' \<Longrightarrow> ids_ok clk ed'"
proof -
  assume "openEditor clk v ed = Inr ed'"
  then obtain st m where st: "parseInitialState clk v (idSeed ed) = Inr (st, m)" "operations ed' = is_operations st" "idSeed ed' = m"
    by (auto simp: openEditor_def split: sum.splits prod.splits)
  have "is_operations st \<noteq> [] \<and> ids (is_operations st) = new_ids clk (idSeed ed) m"
    using st(1) normalized_ids [of clk _ "idSeed ed"]
    by (auto simp: parseInitialState_def default_operation op_ids_def new_ids_def Let_def
        split: if_splits option.splits jsval.splits sum.splits prod.splits)
  then show ?thesis using st(2,3) by (intro ids_ok_replaced [where n = "idSeed ed"]) auto
qed

section \<open>What the handlers do with the ids\<close>

lemma update_ids: "(\<And>op. op_ids (f op) = op_ids op) \<Longrightarrow> ids (operations (updateOperation i f ed)) = ids (operations ed)"
  unfolding updateOperation_def ids_def by (auto intro: arg_cong [where f = concat])

lemma update_seed [simp]: "idSeed (updateOperation i f ed) = idSeed ed"
  by (simp add: updateOperation_def)

lemma update_ok: "ids_ok clk ed \<Longrightarrow> (\<And>op. op_ids (f op) = op_ids op) \<Longrightarrow> ids_ok clk (updateOperation i f ed)"
  by (erule ids_ok_same) (simp_all only: update_ids update_seed order_refl)

lemma field_ids [simp]:
  "op_ids (op\<lparr>op_description := s\<rparr>) = op_ids op" "op_ids (op\<lparr>op_path := s\<rparr>) = op_ids op" "op_ids (op\<lparr>op_mode := s\<rparr>) = op_ids op"
  "op_ids (op\<lparr>op_value_text := s\<rparr>) = op_ids op" "op_ids (op\<lparr>op_keep_origin := b\<rparr>) = op_ids op"
  "op_ids (op\<lparr>op_from := s\<rparr>) = op_ids op" "op_ids (op\<lparr>op_to := s\<rparr>) = op_ids op" "op_ids (op\<lparr>op_logic := s\<rparr>) = op_ids op"
  by (simp_all add: op_ids_def)

lemma ids_ok_cong: "operations ed' = operations ed \<Longrightarrow> idSeed ed' = idSeed ed \<Longrightarrow> ids_ok clk ed' = ids_ok clk ed"
  by (simp add: ids_ok_def)

lemma ids_ok_fields [simp]:
  "ids_ok clk (ed\<lparr>editMode := a\<rparr>) = ids_ok clk ed" "ids_ok clk (ed\<lparr>visualMode := b\<rparr>) = ids_ok clk ed"
  "ids_ok clk (ed\<lparr>legacyValue := s\<rparr>) = ids_ok clk ed" "ids_ok clk (ed\<lparr>jsonText := s\<rparr>) = ids_ok clk ed"
  "ids_ok clk (ed\<lparr>jsonError := e\<rparr>) = ids_ok clk ed" "ids_ok clk (ed\<lparr>operationSearch := s\<rparr>) = ids_ok clk ed"
  "ids_ok clk (ed\<lparr>selectedOperationId := s\<rparr>) = ids_ok clk ed" "ids_ok clk (ed\<lparr>expandedConditionMap := m\<rparr>) = ids_ok clk ed"
  "ids_ok clk (ed\<lparr>draggedOperationId := s\<rparr>) = ids_ok clk ed" "ids_ok clk (ed\<lparr>dragOverOperationId := s\<rparr>) = ids_ok clk ed"
  "ids_ok clk (ed\<lparr>dragOverPosition := p\<rparr>) = ids_ok clk ed" "ids_ok clk (ed\<lparr>templateGroupKey := s\<rparr>) = ids_ok clk ed"
  "ids_ok clk (ed\<lparr>templatePresetKey := s\<rparr>) = ids_ok clk ed"
  by (rule ids_ok_cong; simp)+

lemma ids_ok_later: "ids_ok clk ed \<Longrightarrow> idSeed ed \<le> n \<Longrightarrow> ids_ok clk (ed\<lparr>idSeed := n\<rparr>)"
  by (rule ids_ok_same) simp_all

lemma json_view_ok: "ids_ok clk ed \<Longrightarrow> ids_ok clk (switchToJsonMode ed)"
  by (simp add: switchToJsonMode_def split: sum.split)

lemma normalized_ok:
  "normalizeOperations clk xs (idSeed ed) = Inr (ops, m) \<Longrightarrow> ids_ok clk (ed\<lparr>operations := ops, idSeed := m\<rparr>)"
  using normalized_ids [of clk xs "idSeed ed" ops m] by (intro ids_ok_replaced [where n = "idSeed ed"]) auto

lemma visual_view_ok:
  assumes "ids_ok clk ed" "switchToVisualMode clk ed = Inr ed'"
  shows "ids_ok clk ed'"
proof -
  have "ids_ok clk (ed\<lparr>visualMode := OperationsView, operations := ops, selectedOperationId := first_id ops,
      legacyValue := [], jsonError := None, editMode := VisualEdit,
      templateGroupKey := ''basic'', templatePresetKey := ''operations_default'', idSeed := seed\<rparr>)"
    if "normalizeOperations clk xs (idSeed ed) = Inr (ops, seed)" for xs ops seed
    using normalized_ok [OF that] by (simp add: ids_ok_def)
  then show ?thesis using assms fallback_ids [of clk ed]
    by (auto simp: switchToVisualMode_def Let_def split: if_splits option.splits jsval.splits sum.splits prod.splits)
qed

lemma legacy_template_ok: "ids_ok clk (fillLegacyTemplate clk payload ed)"
  by (simp add: fillLegacyTemplate_def fallback_ids Let_def)

lemma append_legacy_ok: "ids_ok clk ed \<Longrightarrow> ids_ok clk (appendLegacyTemplate clk payload ed)"
  by (simp add: appendLegacyTemplate_def legacy_template_ok Let_def split: option.split jsval.split)

lemma fill_ok:
  assumes "fillTemplateFromLibrary clk ed = Inr ed'"
  shows "ids_ok clk ed'"
proof (cases "getSelectedTemplatePreset ed")
  case (OperationsPreset xs)
  then obtain ops m where n: "normalizeOperations clk xs (idSeed ed) = Inr (ops, m)" "operations ed' = ops" "idSeed ed' = m"
    using assms by (auto simp: fillTemplateFromLibrary_def fillOperationsTemplate_def split: sum.splits)
  then show ?thesis using normalized_ok [OF n(1)] by (simp add: ids_ok_def)
qed (use assms legacy_template_ok in \<open>auto simp: fillTemplateFromLibrary_def\<close>)

lemma presets_nonempty: "getSelectedTemplatePreset ed = OperationsPreset xs \<Longrightarrow> xs \<noteq> []"
proof -
  assume "getSelectedTemplatePreset ed = OperationsPreset xs"
  then have "OperationsPreset xs \<in> insert (OperationsPreset OPERATION_TEMPLATE) ((snd \<circ> snd) ` set TEMPLATE_PRESET_CONFIG)"
    by (auto simp: getSelectedTemplatePreset_def image_iff dest!: map_of_SomeD split: option.splits) force
  then show ?thesis
    by (auto simp: TEMPLATE_PRESET_CONFIG_def OPERATION_TEMPLATE_def HEADER_PASSTHROUGH_TEMPLATE_def GEMINI_IMAGE_4K_TEMPLATE_def
        buildPassHeadersTemplate_def AWS_BEDROCK_ANTHROPIC_COMPAT_TEMPLATE_def)
qed

lemma filter_ids: "mset (ids (filter P ops)) \<subseteq># mset (ids ops)"
  by (induction ops) (auto intro: subset_mset.add_mono subset_mset.add_increasing)

lemma append_ok:
  assumes "ids_ok clk ed" "appendTemplateFromLibrary clk ed = Inr ed'"
  shows "ids_ok clk ed'"
proof (cases "getSelectedTemplatePreset ed")
  case (LegacyPreset ob)
  with assms append_legacy_ok show ?thesis by (auto simp: appendTemplateFromLibrary_def)
next
  case (OperationsPreset xs)
  define old where "old = (if visualMode ed = OperationsView then filter (\<lambda>op. \<not> isOperationBlank op) (operations ed) else [])"
  obtain ops m where n: "map_seed (normalizeOperation clk) xs (idSeed ed) = Inr (ops, m)" "operations ed' = old @ ops" "idSeed ed' = m"
    using assms(2) OperationsPreset by (auto simp: appendTemplateFromLibrary_def appendOperationsTemplate_def Let_def old_def split: sum.splits)
  note o = operations_ids [OF n(1)]
  have "mset (ids old) \<subseteq># mset (ids (operations ed))" using filter_ids by (auto simp: old_def)
  then show ?thesis
    using assms(1) n o presets_nonempty [OF OperationsPreset] by (intro ids_ok_step [OF assms(1)]) auto
qed

lemma clear_ok: "ids_ok clk (clearValue clk ed)"
  by (simp add: clearValue_def fallback_ids)

lemma draft_seed: "parsePruneObjectsDraft clk txt n = (d, m) \<Longrightarrow> n \<le> m"
  by (rule prune_draft_ids(1))

lemma prune_ok:
  assumes "ids_ok clk ed" "\<And>d n. n \<le> snd (f d n)"
  shows "ids_ok clk (updatePruneObjectsDraft clk i f ed)"
proof (cases "find (\<lambda>op. op_id op = i) (operations ed)")
  case (Some op)
  obtain d m where d: "parsePruneObjectsDraft clk (op_value_text op) (idSeed ed) = (d, m)" by fastforce
  have "idSeed ed \<le> snd (f d m)" using draft_seed [OF d] assms(2) [of m d] by linarith
  then show ?thesis using assms(1) Some d
    by (auto simp: updatePruneObjectsDraft_def Let_def case_prod_unfold intro!: ids_ok_later update_ok)
qed (simp add: updatePruneObjectsDraft_def assms)

lemma shown_ok: "ids_ok clk ed \<Longrightarrow> pruneObjectsDraft clk ed = (d, ed') \<Longrightarrow> ids_ok clk ed'"
  by (auto simp: pruneObjectsDraft_def Let_def intro!: ids_ok_later dest: draft_seed split: option.splits if_splits prod.splits)

lemma add_ok: "ids_ok clk ed \<Longrightarrow> ids_ok clk (addOperation clk ed)"
  by (rule ids_ok_step [where ed = ed]) (simp_all add: addOperation_def default_operation op_ids_def new_ids_def)

lemma insert_ids: "mset (ids (insert_index k x xs)) = mset (op_ids x) + mset (ids xs)"
  by (subst (2) append_take_drop_id [of k xs, symmetric]) (simp add: insert_index_def del: append_take_drop_id)

lemma insert_nonempty: "insert_index k x xs \<noteq> []"
  by (simp add: insert_index_def)

lemma remove_ids: "k < length xs \<Longrightarrow> mset (op_ids (xs ! k)) + mset (ids (remove_index k xs)) = mset (ids xs)"
proof -
  assume "k < length xs"
  then have "ids xs = ids (take k xs) @ op_ids (xs ! k) @ ids (drop (Suc k) xs)"
    using id_take_nth_drop [of k xs] ids_simps(2,3) by metis
  then show ?thesis by (simp add: remove_index_def)
qed

lemma reorder_ids: "mset (ids (reorderOperations ops s t p)) = mset (ids ops)"
proof (cases "index_of (\<lambda>x. op_id x = s) ops")
  case (Some k)
  with remove_ids index_of_Some [OF Some] show ?thesis
    by (auto simp: reorderOperations_def insert_ids Let_def split: option.split)
qed (simp add: reorderOperations_def)

lemma ids_nonempty: "ids ops = [] \<longleftrightarrow> ops = []"
  by (cases ops) (simp_all add: op_ids_def)

lemma drop_ok: "ids_ok clk ed \<Longrightarrow> ids_ok clk (handleOperationDrop txt i ed)"
proof -
  assume "ids_ok clk ed"
  then have "ids_ok clk (moveOperation s t p ed)" for s t p
  proof (rule ids_ok_step)
    have "mset (ids (operations (moveOperation s t p ed))) = mset (ids (operations ed))" by (simp add: moveOperation_def reorder_ids)
    then show "mset (ids (operations (moveOperation s t p ed))) \<subseteq># mset (ids (operations ed) @ new_ids clk (idSeed ed) (idSeed (moveOperation s t p ed)))"
      "operations (moveOperation s t p ed) \<noteq> []"
      using \<open>ids_ok clk ed\<close> by (auto simp: ids_ok_def simp flip: ids_nonempty)
  qed (simp add: moveOperation_def)
  then show ?thesis by (simp add: handleOperationDrop_def resetOperationDragState_def Let_def)
qed

lemma duplicate_ok:
  assumes "ids_ok clk ed" "duplicateOperation clk i ed = Inr ed'"
  shows "ids_ok clk ed'"
proof (cases "index_of (\<lambda>op. op_id op = i) (operations ed)")
  case (Some k)
  then obtain c m where c: "normalizeOperation clk (operation_value (operations ed ! k)) (idSeed ed) = Inr (c, m)"
    "operations ed' = insert_index (k + 1) c (operations ed)" "idSeed ed' = m"
    using assms(2) by (auto simp: duplicateOperation_def split: sum.splits)
  then show ?thesis using operation_ids [OF c(1)]
    by (intro ids_ok_step [OF assms(1)]) (simp_all add: insert_ids insert_nonempty)
qed (use assms in \<open>simp add: duplicateOperation_def\<close>)

lemma distinct_rule_ids: "distinct (ids ops) \<Longrightarrow> distinct (map op_id ops)"
proof (induction ops)
  case (Cons op ops)
  have "set (map op_id ops) \<subseteq> set (ids ops)" by (auto simp: ids_def op_ids_def)
  with Cons show ?case by (auto simp: op_ids_def)
qed simp

lemma remove_ok:
  assumes "ids_ok clk ed"
  shows "ids_ok clk (removeOperation clk i ed)"
proof (cases "length (operations ed) \<le> 1")
  case True
  then have "operations (removeOperation clk i ed) = [fst (createDefaultOperation clk (idSeed ed))]" "idSeed (removeOperation clk i ed) = Suc (idSeed ed)"
    by (simp_all add: removeOperation_def default_operation Let_def)
  then show ?thesis
    by (intro ids_ok_replaced [where n = "idSeed ed"]) (simp_all add: default_operation op_ids_def new_ids_def)
next
  case False
  let ?ops = "filter (\<lambda>op. op_id op \<noteq> i) (operations ed)"
  have d: "distinct (map op_id (operations ed))" using assms by (auto simp: ids_ok_def intro: distinct_rule_ids)
  have "?ops \<noteq> []"
  proof
    assume "?ops = []"
    then have "map op_id (operations ed) = replicate (length (operations ed)) i"
      by (auto simp: filter_empty_conv intro!: replicate_eqI)
    moreover have "\<not> distinct (replicate n i)" if "\<not> n \<le> 1" for n
      using that by (cases n) (auto simp: gr0_conv_Suc)
    ultimately show False using d False by simp
  qed
  then show ?thesis using False assms filter_ids
    by (intro ids_ok_step [OF assms]) (auto simp: removeOperation_def new_ids_def)
qed

subsection \<open>Conditions\<close>

lemma add_condition_ids:
  "distinct (map op_id ops) \<Longrightarrow>
   mset (ids (map (\<lambda>op. if op_id op = i then op\<lparr>op_conditions := op_conditions op @ [c]\<rparr> else op) ops)) \<subseteq># add_mset (c_id c) (mset (ids ops))"
proof (induction ops)
  case (Cons op ops)
  let ?f = "\<lambda>op. if op_id op = i then op\<lparr>op_conditions := op_conditions op @ [c]\<rparr> else op"
  show ?case
  proof (cases "op_id op = i")
    case True
    then have "map ?f ops = ops" using Cons.prems by (intro map_idI) (auto simp: image_iff)
    with True show ?thesis by (simp add: op_ids_def)
  next
    case False
    with Cons show ?thesis by (simp add: subset_mset.add_mono)
  qed
qed simp

lemma add_condition_ok:
  assumes "ids_ok clk ed"
  shows "ids_ok clk (addCondition clk i ed)"
proof (rule ids_ok_step [OF assms])
  have "distinct (map op_id (operations ed))" using assms by (auto simp: ids_ok_def intro: distinct_rule_ids)
  from add_condition_ids [OF this, of i "fst (createDefaultCondition clk (idSeed ed))", unfolded default_condition fst_conv]
  show "mset (ids (operations (addCondition clk i ed))) \<subseteq># mset (ids (operations ed) @ new_ids clk (idSeed ed) (idSeed (addCondition clk i ed)))"
    by (simp add: addCondition_def default_condition updateOperation_def new_ids_def)
  show "operations (addCondition clk i ed) \<noteq> []"
    using assms by (simp add: addCondition_def default_condition updateOperation_def ids_ok_def)
qed (simp add: addCondition_def default_condition)

lemma remove_condition_ok:
  assumes "ids_ok clk ed"
  shows "ids_ok clk (removeCondition i k ed)"
proof (rule ids_ok_step [OF assms])
  have "mset (op_ids (op\<lparr>op_conditions := filter P (op_conditions op)\<rparr>)) \<subseteq># mset (op_ids op)" for op P
    by (simp add: op_ids_def image_mset_subseteq_mono multiset_filter_subset)
  then have "mset (ids (map (\<lambda>op. if op_id op = i then op\<lparr>op_conditions := filter P (op_conditions op)\<rparr> else op) ops)) \<subseteq># mset (ids ops)" for ops P
    by (induction ops) (auto intro: subset_mset.add_mono)
  then show "mset (ids (operations (removeCondition i k ed))) \<subseteq># mset (ids (operations ed) @ new_ids clk (idSeed ed) (idSeed (removeCondition i k ed)))"
    by (simp add: removeCondition_def updateOperation_def new_ids_def)
qed (use assms in \<open>simp_all add: removeCondition_def updateOperation_def ids_ok_def\<close>)

lemma patch_ids [simp]: "op_ids (apply_operation_patch p op) = op_ids op"
  by (cases p) simp_all

lemma condition_patch_id [simp]: "c_id (apply_condition_patch p c) = c_id c"
  by (cases p) simp_all

lemma field_update_ok:
  assumes "ids_ok clk ed"
  shows "ids_ok clk (updateOperation i (\<lambda>op. op\<lparr>op_path := s\<rparr>) ed)" "ids_ok clk (updateOperation i (\<lambda>op. op\<lparr>op_from := s\<rparr>) ed)"
    "ids_ok clk (updateOperation i (\<lambda>op. op\<lparr>op_to := s\<rparr>) ed)" "ids_ok clk (updateOperation i (\<lambda>op. op\<lparr>op_value_text := s\<rparr>) ed)"
  by (rule update_ok [OF assms], simp)+

lemma builtin_ok: "ids_ok clk ed \<Longrightarrow> ids_ok clk (applyBuiltinField k t ed)"
  by (simp add: applyBuiltinField_def Let_def field_update_ok split: option.split guide_target.split)

lemma format_value_ok: "ids_ok clk ed \<Longrightarrow> ids_ok clk (formatSelectedOperationValueAsJson ed)"
  by (simp add: formatSelectedOperationValueAsJson_def Let_def field_update_ok split: option.split)

lemma return_error_ok: "ids_ok clk ed \<Longrightarrow> ids_ok clk (updateReturnErrorDraft i f ed)"
  by (simp add: updateReturnErrorDraft_def Let_def field_update_ok split: option.split)

lemma update_condition_ok: "ids_ok clk ed \<Longrightarrow> ids_ok clk (updateCondition i k (apply_condition_patch p) ed)"
  unfolding updateCondition_def by (erule update_ok) (simp add: op_ids_def)

lemma add_prune_rule_ok: "ids_ok clk ed \<Longrightarrow> ids_ok clk (addPruneRule clk i ed)"
  unfolding addPruneRule_def by (erule prune_ok) (simp add: normalizePruneRule_def nextLocalId_eq)

lemma prune_pair_ok: "ids_ok clk ed \<Longrightarrow> ids_ok clk (updatePruneObjectsDraft clk i (\<lambda>d. Pair (f d)) ed)"
  by (erule prune_ok) simp

lemma update_prune_rule_ok: "ids_ok clk ed \<Longrightarrow> ids_ok clk (updatePruneRule clk i k f ed)"
  unfolding updatePruneRule_def by (rule prune_pair_ok)

lemma remove_prune_rule_ok: "ids_ok clk ed \<Longrightarrow> ids_ok clk (removePruneRule clk i k ed)"
  unfolding removePruneRule_def by (rule prune_pair_ok)

lemma patch_ok: "ids_ok clk ed \<Longrightarrow> ids_ok clk (updateOperation i (apply_operation_patch p) ed)"
  by (erule update_ok) simp

section \<open>Every step keeps the ids apart\<close>

lemma step_ids_ok: "override_step clk ed ed' \<Longrightarrow> ids_ok clk ed \<Longrightarrow> ids_ok clk ed'"
  by (induction rule: override_step.induct)
    (auto simp: resetEditorState_def rerender_def handleJsonChange_def formatJson_def handleOperationDragStart_def handleOperationDragOver_def
      resetOperationDragState_def handleConditionCollapseChange_def expandAllSelectedConditions_def collapseAllSelectedConditions_def
      json_view_ok clear_ok add_ok drop_ok remove_ok add_condition_ok remove_condition_ok builtin_ok format_value_ok return_error_ok
      update_condition_ok add_prune_rule_ok prune_pair_ok update_prune_rule_ok remove_prune_rule_ok patch_ok Let_def
      default_operation
      intro: ids_ok_later opened_ids visual_view_ok fill_ok append_ok shown_ok duplicate_ok split: option.split)

section \<open>Modes stay among the known ones\<close>

definition typed_condition :: "override_condition \<Rightarrow> bool" where
  "typed_condition c \<longleftrightarrow> c_mode c \<in> set CONDITION_MODES"

definition typed_operation :: "override_operation \<Rightarrow> bool" where
  "typed_operation op \<longleftrightarrow> op_mode op \<in> set OPERATION_MODES \<and> op_logic op \<in> {''AND'', ''OR''} \<and> list_all typed_condition (op_conditions op)"

lemma map_seed_all:
  "map_seed f vs n = Inr (ys, m) \<Longrightarrow> (\<And>v n y m. f v n = Inr (y, m) \<Longrightarrow> P y) \<Longrightarrow> list_all P ys"
proof (induction vs arbitrary: n ys)
  case (Cons v vs)
  from Cons.prems(1) obtain y k zs where "f v n = Inr (y, k)" "map_seed f vs k = Inr (zs, m)" "ys = y # zs"
    by (auto split: sum.splits prod.splits)
  then show ?case using Cons.IH Cons.prems(2) by auto
qed simp

lemma known_mode_in: "d \<in> set ms \<Longrightarrow> known_mode ms d v \<in> set ms"
  by (simp add: known_mode_def split: jsval.split)

lemma default_modes: "''set'' \<in> set OPERATION_MODES" "''full'' \<in> set CONDITION_MODES"
  by (simp_all add: OPERATION_MODES_def CONDITION_MODES_def)

lemma normal_condition_typed: "normalizeOverrideCondition clk v n = Inr (c, m) \<Longrightarrow> typed_condition c"
  by (auto simp: normalizeOverrideCondition_def nextLocalId_eq typed_condition_def known_mode_in default_modes split: if_splits)

lemma normal_typed:
  assumes "normalizeOperation clk v n = Inr (op, m)"
  shows "typed_operation op"
proof -
  obtain cs where cs: "(case get_prop v ''conditions'' of Arr cs \<Rightarrow> map_seed (normalizeOverrideCondition clk) cs (Suc n) | _ \<Rightarrow> Inr ([], Suc n)) = Inr (cs, m)"
    "op_mode op = known_mode OPERATION_MODES ''set'' (get_prop v ''mode'')" "op_logic op \<in> {''AND'', ''OR''}" "op_conditions op = cs"
    using assms by (auto simp: normalizeOperation_def nextLocalId_eq Let_def split: if_splits sum.splits prod.splits)
  then have "list_all typed_condition cs"
    by (cases "get_prop v ''conditions''") (auto intro: map_seed_all normal_condition_typed)
  then show ?thesis using cs(2-) by (simp add: typed_operation_def known_mode_in default_modes)
qed

lemma default_typed: "typed_operation (fst (createDefaultOperation clk n))" "typed_condition (fst (createDefaultCondition clk n))"
  by (simp_all add: default_operation default_condition typed_operation_def typed_condition_def default_modes)

lemma normalized_typed: "normalizeOperations clk vs n = Inr (ops, m) \<Longrightarrow> list_all typed_operation ops"
  using default_typed(1) [of clk n]
  by (auto simp: normalizeOperations_def default_operation split: if_splits intro: map_seed_all normal_typed)

abbreviation typed_rules :: "override_editor \<Rightarrow> bool" where
  "typed_rules ed \<equiv> list_all typed_operation (operations ed)"

lemma update_typed:
  "typed_rules ed \<Longrightarrow> (\<And>op. typed_operation op \<Longrightarrow> typed_operation (f op)) \<Longrightarrow> typed_rules (updateOperation i f ed)"
  by (auto simp: updateOperation_def list_all_iff)

lemma field_typed [simp]:
  "typed_operation (op\<lparr>op_description := s\<rparr>) = typed_operation op" "typed_operation (op\<lparr>op_path := s\<rparr>) = typed_operation op"
  "typed_operation (op\<lparr>op_value_text := s\<rparr>) = typed_operation op" "typed_operation (op\<lparr>op_keep_origin := b\<rparr>) = typed_operation op"
  "typed_operation (op\<lparr>op_from := s\<rparr>) = typed_operation op" "typed_operation (op\<lparr>op_to := s\<rparr>) = typed_operation op"
  by (simp_all add: typed_operation_def)

lemma patch_typed: "form_offers op' p \<Longrightarrow> typed_operation op \<Longrightarrow> typed_operation (apply_operation_patch p op)"
  by (cases p) (auto simp: typed_operation_def)

lemma fallback_typed: "typed_rules (with_fallback clk ed)"
  using default_typed(1) [of clk "idSeed ed"] by (simp add: with_fallback_def default_operation)

lemma opened_typed:
  assumes "openEditor clk v ed = Inr ed'"
  shows "typed_rules ed'"
proof -
  obtain st m where st: "parseInitialState clk v (idSeed ed) = Inr (st, m)" "operations ed' = is_operations st"
    using assms by (auto simp: openEditor_def split: sum.splits prod.splits)
  then show ?thesis using default_typed(1) [of clk "idSeed ed"] normalized_typed [of clk _ "idSeed ed"]
    by (auto simp: parseInitialState_def default_operation Let_def split: if_splits option.splits jsval.splits sum.splits prod.splits)
qed

lemma visual_view_typed: "typed_rules ed \<Longrightarrow> switchToVisualMode clk ed = Inr ed' \<Longrightarrow> typed_rules ed'"
  using fallback_typed [of clk ed] normalized_typed [of clk _ "idSeed ed"]
  by (auto simp: switchToVisualMode_def Let_def split: if_splits option.splits jsval.splits sum.splits prod.splits)

lemma fill_legacy_typed: "typed_rules (fillLegacyTemplate clk ob ed)"
  using fallback_typed [of clk ed] by (simp add: fillLegacyTemplate_def Let_def)

lemma fill_typed: "fillTemplateFromLibrary clk ed = Inr ed' \<Longrightarrow> typed_rules ed'"
  using fill_legacy_typed normalized_typed [of clk _ "idSeed ed"]
  by (auto simp: fillTemplateFromLibrary_def fillOperationsTemplate_def split: preset.splits sum.splits)

lemma append_typed:
  assumes "typed_rules ed" "appendTemplateFromLibrary clk ed = Inr ed'"
  shows "typed_rules ed'"
proof (cases "getSelectedTemplatePreset ed")
  case (LegacyPreset ob)
  then show ?thesis using assms fill_legacy_typed
    by (auto simp: appendTemplateFromLibrary_def appendLegacyTemplate_def Let_def split: option.splits jsval.splits)
next
  case (OperationsPreset xs)
  then obtain ops m where "map_seed (normalizeOperation clk) xs (idSeed ed) = Inr (ops, m)"
    "set (operations ed') \<subseteq> set (operations ed) \<union> set ops"
    using assms(2) by (cases "visualMode ed") (fastforce simp: appendTemplateFromLibrary_def appendOperationsTemplate_def Let_def split: sum.splits)+
  moreover from this(1) have "list_all typed_operation ops" by (rule map_seed_all) (rule normal_typed)
  ultimately show ?thesis using assms(1) by (auto simp: list_all_iff)
qed

lemma prune_typed: "typed_rules ed \<Longrightarrow> typed_rules (updatePruneObjectsDraft clk i f ed)"
  by (auto simp: updatePruneObjectsDraft_def Let_def updateOperation_def list_all_iff split: option.split prod.split)

lemma reorder_set: "set (reorderOperations ops s t p) \<subseteq> set ops"
proof (cases "index_of (\<lambda>x. op_id x = s) ops")
  case (Some k)
  then have "set (remove_index k ops) \<subseteq> set ops" "ops ! k \<in> set ops"
    using index_of_Some [OF Some] by (auto simp: remove_index_def dest: in_set_takeD in_set_dropD)
  with Some show ?thesis
    by (auto simp: reorderOperations_def Let_def insert_index_def dest: in_set_takeD in_set_dropD split: option.splits)
qed (simp add: reorderOperations_def)

lemma drop_typed: "typed_rules ed \<Longrightarrow> typed_rules (handleOperationDrop txt i ed)"
  using reorder_set by (fastforce simp: handleOperationDrop_def moveOperation_def resetOperationDragState_def Let_def list_all_iff)

lemma duplicate_typed:
  assumes "typed_rules ed" "duplicateOperation clk i ed = Inr ed'"
  shows "typed_rules ed'"
proof (cases "index_of (\<lambda>op. op_id op = i) (operations ed)")
  case (Some k)
  then obtain c m where "normalizeOperation clk (operation_value (operations ed ! k)) (idSeed ed) = Inr (c, m)"
    "operations ed' = insert_index (k + 1) c (operations ed)"
    using assms(2) by (auto simp: duplicateOperation_def split: sum.splits)
  then show ?thesis using assms(1) normal_typed
    by (auto simp: insert_index_def list_all_iff dest: in_set_takeD in_set_dropD)
qed (use assms in \<open>simp add: duplicateOperation_def\<close>)

lemma conditions_typed: "typed_operation op \<Longrightarrow> list_all typed_condition cs \<Longrightarrow> typed_operation (op\<lparr>op_conditions := cs\<rparr>)"
  by (simp add: typed_operation_def)

lemma condition_patch_typed: "condition_offers p \<Longrightarrow> typed_condition c \<Longrightarrow> typed_condition (apply_condition_patch p c)"
  by (cases p) (simp_all add: typed_condition_def)

lemma typed_conditions: "typed_operation op \<Longrightarrow> list_all typed_condition (op_conditions op)"
  by (simp add: typed_operation_def)

lemma conditions_update_typed:
  assumes "typed_rules ed" "\<And>cs. list_all typed_condition cs \<Longrightarrow> list_all typed_condition (f cs)"
  shows "typed_rules (updateOperation i (\<lambda>op. op\<lparr>op_conditions := f (op_conditions op)\<rparr>) ed)"
  using assms by (intro update_typed conditions_typed) (simp_all add: typed_conditions)

lemma add_condition_typed: "typed_rules ed \<Longrightarrow> typed_rules (addCondition clk i ed)"
  using default_typed(2) [of clk "idSeed ed"] conditions_update_typed [of ed "\<lambda>cs. cs @ [fst (createDefaultCondition clk (idSeed ed))]" i]
  by (simp add: addCondition_def case_prod_unfold Let_def)

lemma update_condition_typed: "condition_offers p \<Longrightarrow> typed_rules ed \<Longrightarrow> typed_rules (updateCondition i k (apply_condition_patch p) ed)"
  unfolding updateCondition_def
  by (rule conditions_update_typed [where f = "map (\<lambda>c. if c_id c = k then apply_condition_patch p c else c)"])
    (auto simp: list_all_iff intro: condition_patch_typed)

lemma remove_condition_typed: "typed_rules ed \<Longrightarrow> typed_rules (removeCondition i k ed)"
  using conditions_update_typed [of ed "filter (\<lambda>c. c_id c \<noteq> k)" i] by (simp add: removeCondition_def list_all_iff)

lemma remove_typed: "typed_rules ed \<Longrightarrow> typed_rules (removeOperation clk i ed)"
  using default_typed(1) [of clk "idSeed ed"] by (auto simp: removeOperation_def default_operation Let_def list_all_iff)

lemma add_typed: "typed_rules ed \<Longrightarrow> typed_rules (addOperation clk ed)"
  using default_typed(1) [of clk "idSeed ed"] by (simp add: addOperation_def default_operation)

lemma builtin_typed: "typed_rules ed \<Longrightarrow> typed_rules (applyBuiltinField k t ed)"
  by (simp add: applyBuiltinField_def Let_def update_typed split: option.split guide_target.split)

lemma format_value_typed: "typed_rules ed \<Longrightarrow> typed_rules (formatSelectedOperationValueAsJson ed)"
  by (simp add: formatSelectedOperationValueAsJson_def Let_def update_typed split: option.split)

lemma return_error_typed: "typed_rules ed \<Longrightarrow> typed_rules (updateReturnErrorDraft i f ed)"
  by (simp add: updateReturnErrorDraft_def Let_def update_typed split: option.split)

lemma shown_operations: "pruneObjectsDraft clk ed = (d, ed') \<Longrightarrow> operations ed' = operations ed"
  by (auto simp: pruneObjectsDraft_def Let_def split: option.splits if_splits prod.splits)

lemma clear_typed: "typed_rules (clearValue clk ed)"
  using fallback_typed [of clk ed] by (simp add: clearValue_def)

lemma json_view_operations: "operations (switchToJsonMode ed) = operations ed"
  by (simp add: switchToJsonMode_def split: sum.split)

lemma step_typed: "override_step clk ed ed' \<Longrightarrow> typed_rules ed \<Longrightarrow> typed_rules ed'"
  by (induction rule: override_step.induct)
    (auto simp: resetEditorState_def rerender_def handleJsonChange_def formatJson_def handleOperationDragStart_def handleOperationDragOver_def
      resetOperationDragState_def handleConditionCollapseChange_def expandAllSelectedConditions_def collapseAllSelectedConditions_def
      json_view_operations clear_typed add_typed drop_typed remove_typed add_condition_typed remove_condition_typed builtin_typed
      format_value_typed return_error_typed update_condition_typed prune_typed addPruneRule_def updatePruneRule_def removePruneRule_def
      shown_operations Let_def default_operation
      intro: opened_typed visual_view_typed fill_typed append_typed duplicate_typed intro!: update_typed patch_typed split: option.split)


section \<open>Runs\<close>

lemma settle_fields: "operations (settle_override ed) = operations ed" "ids_ok clk (settle_override ed) = ids_ok clk ed"
  by (simp_all add: settle_override_def repairPreset_def repairSelection_def split: list.split)

lemma settle_selects: "operations ed \<noteq> [] \<Longrightarrow> \<exists>op. selectedOperation (settle_override ed) = Some op"
proof -
  assume "operations ed \<noteq> []"
  then have "\<exists>op \<in> set (operations ed). op_id op = selectedOperationId (settle_override ed)"
    by (cases "operations ed")
      (auto simp: settle_override_def repairPreset_def repairSelection_def first_id_def list_ex_iff split: list.split)
  then have "selectedOperation (settle_override ed) \<noteq> None"
    by (auto simp: selectedOperation_def find_None_iff settle_fields)
  then show ?thesis by blast
qed

lemma settle_preset: "templatePresetOptions (templateGroupKey (settle_override ed)) = [] \<or>
    templatePresetKey (settle_override ed) \<in> set (templatePresetOptions (templateGroupKey (settle_override ed)))"
  by (auto simp: settle_override_def repairPreset_def repairSelection_def split: list.split)

lemma reach_ids_ok: "override_reach clk ed \<Longrightarrow> ids_ok clk ed"
proof (induction rule: override_reach.induct)
  case (reach_start seed)
  show ?case unfolding settle_fields
    by (rule ids_ok_replaced [where n = seed]) (simp_all add: initialOverrideEditor_def default_operation op_ids_def new_ids_def)
qed (simp add: settle_fields step_ids_ok)

lemma reach_settled: "override_reach clk ed \<Longrightarrow> \<exists>ed'. ed = settle_override ed'"
  by (auto elim: override_reach.cases)

text \<open>
  C12: in every run of the dialog there is at least one rule, no two rules or conditions have the same
  id, and the selected id is the id of a rule.
\<close>

theorem editor_invariant:
  assumes "override_reach clk ed"
  shows "operations ed \<noteq> [] \<and> distinct (ids (operations ed)) \<and> (\<exists>op. selectedOperation ed = Some op)"
proof -
  obtain ed' where ed': "ed = settle_override ed'" using reach_settled [OF assms] by blast
  have ok: "ids_ok clk ed" by (rule reach_ids_ok [OF assms])
  then have "operations ed' \<noteq> []" by (simp add: ed' ids_ok_def settle_fields)
  from settle_selects [OF this] ok ed' show ?thesis by (auto simp: ids_ok_def)
qed

text \<open>
  C28: in every run of the dialog each rule has one of the known modes and joins its conditions with AND
  or OR, each condition has one of the known modes, and the chosen preset is one of its group.
\<close>

theorem editor_modes:
  assumes "override_reach clk ed"
  shows "list_all typed_operation (operations ed) \<and>
    (templatePresetOptions (templateGroupKey ed) = [] \<or> templatePresetKey ed \<in> set (templatePresetOptions (templateGroupKey ed)))"
proof
  show "list_all typed_operation (operations ed)"
    using assms
  proof (induction rule: override_reach.induct)
    case (reach_start seed)
    show ?case using default_typed(1) [of clk seed] by (simp add: settle_fields initialOverrideEditor_def default_operation)
  qed (simp add: settle_fields step_typed)
  show "templatePresetOptions (templateGroupKey ed) = [] \<or> templatePresetKey ed \<in> set (templatePresetOptions (templateGroupKey ed))"
    using reach_settled [OF assms] settle_preset by auto
qed

text \<open>A run: the dialog is mounted, a rule is added, and the rule gets a condition.\<close>

definition sample_editor :: override_editor where
  "sample_editor =
     (let ed = settle_override (addOperation (\<lambda>_. 7) (settle_override (initialOverrideEditor (\<lambda>_. 7) 0))) in
      settle_override (addCondition (\<lambda>_. 7) (selectedOperationId ed) ed))"

lemma sample_reached: "override_reach (\<lambda>_. 7) sample_editor"
  unfolding sample_editor_def Let_def
  by (intro reach_step [OF _ step_add_condition] reach_step [OF _ step_add] reach_start)

theorem editor_invariant_witness:
  "override_reach (\<lambda>_. 7) sample_editor \<and>
   (operations sample_editor \<noteq> [] \<and> distinct (ids (operations sample_editor)) \<and> (\<exists>op. selectedOperation sample_editor = Some op))"
  using editor_invariant [OF sample_reached] sample_reached by blast

theorem editor_modes_witness:
  "override_reach (\<lambda>_. 7) sample_editor \<and>
   (list_all typed_operation (operations sample_editor) \<and>
    (templatePresetOptions (templateGroupKey sample_editor) = [] \<or>
     templatePresetKey sample_editor \<in> set (templatePresetOptions (templateGroupKey sample_editor))))"
  using editor_modes [OF sample_reached] sample_reached by blast

end
