(* ===== verification/JS_Regex.thy ===== *)
theory JS_Regex
  imports JS_Prelude
begin

text \<open>
  Regular expressions as ECMAScript matches them: a backtracking matcher in continuation style
  that tries alternatives in order and repeats greedily, with numbered captures. It covers what
  the modelled code uses: literals, character classes, white space, sequence, alternative, the
  quantifiers \<open>?\<close> and \<open>*\<close>, groups, anchors at the ends, global search and split.

  A class that would have to match a multi-byte character (a negated one) matches its bytes one
  by one, which gives the same matches, since the repeated class accepts all of them.
\<close>

datatype rx =
    Lit string
  | Cls "char \<Rightarrow> bool"
  | Space
  | Seq rx rx
  | Alt rx rx
  | Opt rx
  | Star rx
  | Cap nat rx

type_synonym caps = "nat \<Rightarrow> string option"

definition no_caps :: caps where "no_caps = (\<lambda>i. None)"

text \<open>
  \<open>rx_match r s cs k\<close>: match \<open>r\<close> at the start of \<open>s\<close> and go on with \<open>k\<close>. An iteration of a
  star consumes at least one character, so as many rounds as there are characters are enough.
\<close>

function rx_match :: "rx \<Rightarrow> string \<Rightarrow> caps \<Rightarrow> (string \<Rightarrow> caps \<Rightarrow> 'r option) \<Rightarrow> 'r option"
  and rx_star :: "nat \<Rightarrow> rx \<Rightarrow> string \<Rightarrow> caps \<Rightarrow> (string \<Rightarrow> caps \<Rightarrow> 'r option) \<Rightarrow> 'r option" where
  "rx_match (Lit w) s cs k = (case strip_prefix w s of Some r \<Rightarrow> k r cs | None \<Rightarrow> None)"
| "rx_match (Cls P) s cs k = (case s of c # r \<Rightarrow> if P c then k r cs else None | [] \<Rightarrow> None)"
| "rx_match Space s cs k = (if ws_len s > 0 then k (drop (ws_len s) s) cs else None)"
| "rx_match (Seq a b) s cs k = rx_match a s cs (\<lambda>s' cs'. rx_match b s' cs' k)"
| "rx_match (Alt a b) s cs k = (case rx_match a s cs k of Some r \<Rightarrow> Some r | None \<Rightarrow> rx_match b s cs k)"
| "rx_match (Opt a) s cs k = (case rx_match a s cs k of Some r \<Rightarrow> Some r | None \<Rightarrow> k s cs)"
| "rx_match (Star a) s cs k = rx_star (length s) a s cs k"
| "rx_match (Cap i a) s cs k =
     rx_match a s cs (\<lambda>s' cs'. k s' (cs'(i := Some (take (length s - length s') s))))"
| "rx_star 0 a s cs k = k s cs"
| "rx_star (Suc n) a s cs k =
     (case rx_match a s cs (\<lambda>s' cs'. if length s' < length s then rx_star n a s' cs' k else None) of
        Some r \<Rightarrow> Some r
      | None \<Rightarrow> k s cs)"
  by pat_completeness auto
termination
  by (relation "inv_image (less_than <*lex*> less_than)
        (\<lambda>x. case x of Inl (r, s, cs, k) \<Rightarrow> (size r, 0) | Inr (n, a, s, cs, k) \<Rightarrow> (size a, Suc n))") auto

definition Plus :: "rx \<Rightarrow> rx" where
  "Plus a = Seq a (Star a)"

fun rx_seq :: "rx list \<Rightarrow> rx" where
  "rx_seq [] = Lit []"
| "rx_seq [r] = r"
| "rx_seq (r # rs) = Seq r (rx_seq rs)"

fun rx_alt :: "rx list \<Rightarrow> rx" where
  "rx_alt [] = Cls (\<lambda>c. False)"
| "rx_alt [r] = r"
| "rx_alt (r # rs) = Alt r (rx_alt rs)"

text \<open>\<open>s.match(/^r$/)\<close>: the captures.\<close>

definition rx_full :: "rx \<Rightarrow> string \<Rightarrow> caps option" where
  "rx_full r s = rx_match r s no_caps (\<lambda>s' cs. if s' = [] then Some cs else None)"

text \<open>A match at the start of the string: captures and rest.\<close>

definition rx_prefix :: "rx \<Rightarrow> string \<Rightarrow> (caps \<times> string) option" where
  "rx_prefix r s = rx_match r s no_caps (\<lambda>s' cs. Some (cs, s'))"

text \<open>\<open>re.exec\<close> with the flag \<open>g\<close>: the first position that matches, with the text before it.\<close>

fun rx_search :: "rx \<Rightarrow> string \<Rightarrow> (string \<times> caps \<times> string) option" where
  "rx_search r [] = map_option (\<lambda>(cs, rest). ([], cs, rest)) (rx_prefix r [])"
| "rx_search r (c # s) =
     (case rx_prefix r (c # s) of
        Some (cs, rest) \<Rightarrow> Some ([], cs, rest)
      | None \<Rightarrow> map_option (\<lambda>(before, cs, rest). (c # before, cs, rest)) (rx_search r s))"

text \<open>
  All matches of a global search, and the pieces of a split, for an expression that never
  matches the empty string; the bound is the length of the string.
\<close>

fun rx_all :: "nat \<Rightarrow> rx \<Rightarrow> string \<Rightarrow> caps list" where
  "rx_all 0 r s = []"
| "rx_all (Suc n) r s =
     (case rx_search r s of None \<Rightarrow> [] | Some (before, cs, rest) \<Rightarrow> cs # rx_all n r rest)"

fun rx_split :: "nat \<Rightarrow> rx \<Rightarrow> string \<Rightarrow> string list" where
  "rx_split 0 r s = [s]"
| "rx_split (Suc n) r s =
     (case rx_search r s of None \<Rightarrow> [s] | Some (before, cs, rest) \<Rightarrow> before # rx_split n r rest)"

text \<open>\<open>s.replace(/\s+/g, '')\<close>\<close>

function remove_ws :: "string \<Rightarrow> string" where
  "remove_ws [] = []"
| "remove_ws (c # s) =
     (if ws_len (c # s) > 0 then remove_ws (drop (ws_len (c # s)) (c # s)) else c # remove_ws s)"
  by pat_completeness auto
termination
  by (relation "measure length") auto

end
