(* ===== verification/Tiered_Pricing.thy ===== *)
theory Tiered_Pricing
  imports Request_Rules JS_Regex
begin

text \<open>
  Tiered pricing (\<open>src/web/src/pages/Setting/Ratio/components/TieredPricingEditor.jsx\<close> with the
  variable registry of \<open>src/web/src/constants/billing.constants.js\<close>): the visual tiers, the
  expression generated from them, the parser that turns an expression back into tiers, the edits
  of the tiers, and the editor that keeps the visual form, the raw text and the request rules
  in step with the model.

  A value of an input field is a JavaScript value (a number, or empty), as in the source.
\<close>

section \<open>Billing variables\<close>

text \<open>Key, field of a tier, and whether the variable is one of the base prices or for conditions only.\<close>

record billing_var =
  bv_key :: string
  bv_tierField :: string
  bv_isBase :: bool
  bv_isConditionOnly :: bool

definition bvar :: "string \<Rightarrow> string \<Rightarrow> bool \<Rightarrow> bool \<Rightarrow> billing_var" where
  "bvar k f b c = \<lparr>bv_key = k, bv_tierField = f, bv_isBase = b, bv_isConditionOnly = c\<rparr>"

definition BILLING_VARS :: "billing_var list" where
  "BILLING_VARS =
     [bvar ''p'' ''input_unit_cost'' True False,
      bvar ''c'' ''output_unit_cost'' True False,
      bvar ''len'' [] False True,
      bvar ''cr'' ''cache_read_unit_cost'' False False,
      bvar ''cc'' ''cache_create_unit_cost'' False False,
      bvar ''cc1h'' ''cache_create_1h_unit_cost'' False False,
      bvar ''img'' ''image_unit_cost'' False False,
      bvar ''img_o'' ''image_output_unit_cost'' False False,
      bvar ''ai'' ''audio_input_unit_cost'' False False,
      bvar ''ao'' ''audio_output_unit_cost'' False False]"

definition BILLING_EXTRA_VARS :: "billing_var list" where
  "BILLING_EXTRA_VARS = filter (\<lambda>v. \<not> bv_isBase v \<and> \<not> bv_isConditionOnly v) BILLING_VARS"

definition BILLING_CONDITION_VARS :: "string list" where
  "BILLING_CONDITION_VARS = map bv_key (filter (\<lambda>v. bv_isBase v \<or> bv_isConditionOnly v) BILLING_VARS)"

text \<open>Pairs of tier field and expression variable.\<close>

definition CACHE_VAR_MAP :: "(string \<times> string) list" where
  "CACHE_VAR_MAP = map (\<lambda>v. (bv_tierField v, bv_key v)) BILLING_EXTRA_VARS"

section \<open>Tiers\<close>

record vcond =
  vc_var :: string
  vc_op :: string
  vc_value :: jsval

record vtier =
  vt_conditions :: "vcond list"
  input_unit_cost :: jsval
  output_unit_cost :: jsval
  vt_label :: string
  cache_mode :: "string option"
  extra_costs :: "jsval jsobj"

definition CACHE_MODE_TIMED :: string where "CACHE_MODE_TIMED = ''timed''"
definition CACHE_MODE_GENERIC :: string where "CACHE_MODE_GENERIC = ''generic''"

definition extra_cost :: "vtier \<Rightarrow> string \<Rightarrow> jsval" where
  "extra_cost tier f = (case map_of (extra_costs tier) f of Some v \<Rightarrow> v | None \<Rightarrow> Undef)"

text \<open>\<open>Number(v) || 0\<close>\<close>

definition number_or_zero :: "jsval \<Rightarrow> jsnum" where
  "number_or_zero v = (if js_Number v = NaN then Fin 0 else js_Number v)"

definition buildConditionStr :: "vcond list \<Rightarrow> string" where
  "buildConditionStr cs =
     js_join '' && ''
       (map (\<lambda>c. vc_var c @ '' '' @ vc_op c @ '' '' @ js_String (vc_value c))
          (filter (\<lambda>c. vc_var c \<noteq> [] \<and> vc_op c \<noteq> [] \<and> vc_value c \<noteq> Null \<and> vc_value c \<noteq> Undef \<and> vc_value c \<noteq> Str []) cs))"

definition getTierCacheMode :: "vtier \<Rightarrow> string" where
  "getTierCacheMode tier =
     (if cache_mode tier = Some CACHE_MODE_TIMED then CACHE_MODE_TIMED
      else if cache_mode tier = Some CACHE_MODE_GENERIC then CACHE_MODE_GENERIC
      else if num_less (Fin 0) (js_Number (extra_cost tier ''cache_create_1h_unit_cost'')) then CACHE_MODE_TIMED
      else CACHE_MODE_GENERIC)"

definition normalizeVisualTier :: "vtier \<Rightarrow> vtier" where
  "normalizeVisualTier tier = tier\<lparr>cache_mode := Some (getTierCacheMode tier)\<rparr>"

type_synonym vconfig = "vtier list"

definition new_tier :: "string \<Rightarrow> vtier" where
  "new_tier label =
     \<lparr>vt_conditions = [], input_unit_cost = Num (Fin 0), output_unit_cost = Num (Fin 0), vt_label = label,
      cache_mode = Some CACHE_MODE_GENERIC, extra_costs = []\<rparr>"

definition createDefaultVisualConfig :: vconfig where
  "createDefaultVisualConfig = [normalizeVisualTier (new_tier ''base'')]"

definition normalizeVisualConfig :: "vconfig option \<Rightarrow> vconfig" where
  "normalizeVisualConfig cfg =
     (case cfg of
        None \<Rightarrow> createDefaultVisualConfig
      | Some tiers \<Rightarrow> if length tiers = 0 then createDefaultVisualConfig else map normalizeVisualTier tiers)"

section \<open>Generating the expression\<close>

definition buildTierBodyExpr :: "vtier \<Rightarrow> string" where
  "buildTierBodyExpr tier =
     js_join '' + ''
       ([''p * '' @ number_to_string (number_or_zero (input_unit_cost tier)),
         ''c * '' @ number_to_string (number_or_zero (output_unit_cost tier))] @
        List.map_filter (\<lambda>(f, v).
           let n = number_or_zero (extra_cost tier f) in
           if n \<noteq> Fin 0 then Some (v @ '' * '' @ number_to_string n) else None) CACHE_VAR_MAP)"

text \<open>\<open>tier("label", body)\<close>; the label is written as it is.\<close>

definition tier_call :: "string \<Rightarrow> string \<Rightarrow> string" where
  "tier_call label body = ''tier('' @ [CHR 0x22] @ label @ [CHR 0x22] @ '', '' @ body @ '')''"

text \<open>The default label of tier \<open>n\<close>: the number between the two characters of the source (U+7B2C, U+6863).\<close>

definition numbered_label :: "nat \<Rightarrow> string" where
  "numbered_label n = [CHR 0xE7, CHR 0xAC, CHR 0xAC] @ show_nat n @ [CHR 0xE6, CHR 0xA1, CHR 0xA3]"

fun tier_parts :: "nat \<Rightarrow> vconfig \<Rightarrow> string list" where
  "tier_parts i [] = []"
| "tier_parts i (tier # rest) =
     (let label = (if vt_label tier \<noteq> [] then vt_label tier else numbered_label (i + 1));
          body = tier_call label (buildTierBodyExpr tier);
          cond = buildConditionStr (vt_conditions tier) in
      (if rest \<noteq> [] \<and> cond \<noteq> [] then cond @ '' ? '' @ body else body) # tier_parts (i + 1) rest)"

definition generateExprFromVisualConfig :: "vconfig option \<Rightarrow> string" where
  "generateExprFromVisualConfig cfg =
     (case cfg of
        None \<Rightarrow> ''p * 0 + c * 0''
      | Some [] \<Rightarrow> ''p * 0 + c * 0''
      | Some [tier] \<Rightarrow>
          (let label = (if vt_label tier \<noteq> [] then vt_label tier else ''default'');
               body = tier_call label (buildTierBodyExpr tier);
               cond = buildConditionStr (vt_conditions tier) in
           if cond \<noteq> [] then cond @ '' ? '' @ body @ '' : p * 0 + c * 0'' else body)
      | Some tiers \<Rightarrow> js_join '' : '' (tier_parts 0 tiers))"

section \<open>Parsing an expression\<close>

definition WS :: rx where "WS = Star Space"
definition NUM :: rx where
  "NUM = Plus (Cls (\<lambda>c. is_digit c \<or> c \<in> {CHR ''.'', CHR ''e'', CHR ''E'', CHR ''+'', CHR ''-''}))"
definition CNUM :: rx where
  "CNUM = Plus (Cls (\<lambda>c. is_digit c \<or> c \<in> {CHR ''.'', CHR ''e'', CHR ''E'', CHR ''+''}))"

definition optCache :: "nat \<Rightarrow> string \<Rightarrow> rx" where
  "optCache i v = Opt (rx_seq [WS, Lit ''+'', WS, Lit v, WS, Lit ''*'', WS, Cap i NUM])"

text \<open>The body pattern with captures from \<open>i\<close> on.\<close>

definition bodyPat :: "nat \<Rightarrow> rx" where
  "bodyPat i = rx_seq ([Lit ''p'', WS, Lit ''*'', WS, Cap i NUM, WS, Lit ''+'', WS, Lit ''c'', WS, Lit ''*'', WS, Cap (i + 1) NUM]
     @ map (\<lambda>(j, f, v). optCache (i + 2 + j) v) (enumerate 0 CACHE_VAR_MAP))"

definition tierPat :: "nat \<Rightarrow> rx" where
  "tierPat i = rx_seq [Lit (''tier('' @ [CHR 0x22]), Cap i (Star (Cls (\<lambda>c. c \<noteq> CHR 0x22))), Lit [CHR 0x22, CHR '',''],
     WS, bodyPat (i + 1), Lit '')'']"

definition condVar :: rx where "condVar = rx_alt [Lit ''p'', Lit ''c'', Lit ''len'']"
definition condOp :: rx where "condOp = rx_alt [Lit ''<'', Lit ''<='', Lit ''>'', Lit ''>='']"

definition condAtom :: rx where "condAtom = rx_seq [condVar, WS, condOp, WS, CNUM]"

definition condGroup :: rx where
  "condGroup = Seq condAtom (Star (rx_seq [WS, Lit ''&&'', WS, condAtom]))"

definition tierRe :: rx where
  "tierRe = Seq (Opt (rx_seq [Cap 1 condGroup, WS, Lit ''?'', WS])) (tierPat 2)"

definition condRe :: rx where
  "condRe = rx_seq [Cap 1 condVar, WS, Cap 2 condOp, WS, Cap 3 CNUM]"

text \<open>\<open>exprStr.match(/^v\d+:([\s\S]*)$/)\<close>: the text after the version.\<close>

definition strip_version :: "string \<Rightarrow> string" where
  "strip_version s =
     (case s of
        c # t \<Rightarrow>
          if c = CHR ''v'' then
            (let (ds, r) = split_digits t in
             case r of d # u \<Rightarrow> if ds \<noteq> [] \<and> d = CHR '':'' then u else s | [] \<Rightarrow> s)
          else s
      | [] \<Rightarrow> [])"

definition cap :: "caps \<Rightarrow> nat \<Rightarrow> string" where
  "cap cs i = (case cs i of Some s \<Rightarrow> s | None \<Rightarrow> [])"

definition read_condition :: "string \<Rightarrow> vcond option" where
  "read_condition cp =
     map_option (\<lambda>cs. \<lparr>vc_var = cap cs 1, vc_op = cap cs 2, vc_value = Num (string_to_number (cap cs 3))\<rparr>)
       (rx_full condRe (trim cp))"

definition read_conditions :: "string \<Rightarrow> vcond list" where
  "read_conditions condStr =
     (if condStr = [] then []
      else List.map_filter read_condition (rx_split (length condStr) (rx_seq [WS, Lit ''&&'', WS]) condStr))"

text \<open>The tier of a match: label in capture \<open>i\<close>, prices from \<open>i + 1\<close> on.\<close>

definition read_tier :: "vcond list \<Rightarrow> nat \<Rightarrow> caps \<Rightarrow> vtier" where
  "read_tier conds i cs =
     \<lparr>vt_conditions = conds, input_unit_cost = Num (string_to_number (cap cs (i + 1))),
      output_unit_cost = Num (string_to_number (cap cs (i + 2))), vt_label = cap cs i, cache_mode = None,
      extra_costs = List.map_filter (\<lambda>(j, f, v). map_option (\<lambda>val. (f, Num (string_to_number val))) (cs (i + 3 + j)))
        (enumerate 0 CACHE_VAR_MAP)\<rparr>"

definition tryParseVisualConfig :: "string \<Rightarrow> vconfig option" where
  "tryParseVisualConfig str =
     (if str = [] then None
      else
        let exprStr = strip_version str in
        case rx_full (tierPat 1) exprStr of
          Some cs \<Rightarrow> Some (normalizeVisualConfig (Some [normalizeVisualTier (read_tier [] 1 cs)]))
        | None \<Rightarrow>
            let tiers = map (\<lambda>cs. normalizeVisualTier (read_tier (read_conditions (cap cs 1)) 2 cs))
                  (rx_all (length exprStr) tierRe exprStr) in
            if length tiers = 0 then None
            else
              let cfg = normalizeVisualConfig (Some tiers) in
              if remove_ws (generateExprFromVisualConfig (Some cfg)) \<noteq> remove_ws exprStr then None else Some cfg)"

section \<open>Editing the tiers\<close>

datatype tier_patch =
    PatchConditions "vcond list" | PatchInput jsval | PatchOutput jsval | PatchLabel string
  | PatchExtra string jsval | PatchCacheMode string

fun apply_patch :: "tier_patch \<Rightarrow> vtier \<Rightarrow> vtier" where
  "apply_patch (PatchConditions cs) tier = tier\<lparr>vt_conditions := cs\<rparr>"
| "apply_patch (PatchInput v) tier = tier\<lparr>input_unit_cost := v\<rparr>"
| "apply_patch (PatchOutput v) tier = tier\<lparr>output_unit_cost := v\<rparr>"
| "apply_patch (PatchLabel s) tier = tier\<lparr>vt_label := s\<rparr>"
| "apply_patch (PatchExtra f v) tier = tier\<lparr>extra_costs := obj_set f v (extra_costs tier)\<rparr>"
| "apply_patch (PatchCacheMode mode) tier =
     (let t1 = tier\<lparr>cache_mode := Some mode\<rparr> in
      if mode = CACHE_MODE_GENERIC
      then t1\<lparr>extra_costs := obj_set ''cache_create_1h_unit_cost'' (Num (Fin 0)) (extra_costs t1)\<rparr> else t1)"

text \<open>The handler of the cache mode switch: the patch it hands to the update.\<close>

definition handleCacheModeChange :: "string \<Rightarrow> tier_patch" where
  "handleCacheModeChange mode = PatchCacheMode mode"

definition map_index :: "(nat \<Rightarrow> 'a \<Rightarrow> 'b) \<Rightarrow> 'a list \<Rightarrow> 'b list" where
  "map_index f xs = map (\<lambda>(i, x). f i x) (enumerate 0 xs)"

definition filter_index :: "(nat \<Rightarrow> bool) \<Rightarrow> 'a list \<Rightarrow> 'a list" where
  "filter_index P xs = map snd (filter (\<lambda>(i, x). P i) (enumerate 0 xs))"

definition updateTier :: "nat \<Rightarrow> tier_patch \<Rightarrow> vconfig option \<Rightarrow> vconfig" where
  "updateTier index patch cfg =
     map_index (\<lambda>i tier. if i = index then normalizeVisualTier (apply_patch patch tier) else tier)
       (normalizeVisualConfig cfg)"

definition default_condition :: "string \<Rightarrow> vcond" where
  "default_condition v = \<lparr>vc_var = v, vc_op = ''<'', vc_value = Num (Fin 200000)\<rparr>"

definition addTier :: "vconfig option \<Rightarrow> vconfig" where
  "addTier cfg =
     (let tiers = normalizeVisualConfig cfg;
          newTiers = (if length tiers > 0 \<and> vt_conditions (last tiers) = []
                      then butlast tiers @ [(last tiers)\<lparr>vt_conditions := [default_condition ''len'']\<rparr>]
                      else tiers) in
      newTiers @ [new_tier (numbered_label (length newTiers + 1))])"

text \<open>\<open>None\<close>: the only tier stays, nothing is reported.\<close>

definition removeTier :: "nat \<Rightarrow> vconfig option \<Rightarrow> vconfig option" where
  "removeTier index cfg =
     (let tiers = normalizeVisualConfig cfg in
      if length tiers \<le> 1 then None
      else
        let nextTiers = filter_index (\<lambda>i. i \<noteq> index) tiers in
        Some (if length nextTiers > 0 then butlast nextTiers @ [(last nextTiers)\<lparr>vt_conditions := []\<rparr>] else nextTiers))"

text \<open>The condition handlers of a tier card: the new list, or nothing when the card is full.\<close>

definition updateTierCondition :: "nat \<Rightarrow> vcond \<Rightarrow> vcond list \<Rightarrow> vcond list" where
  "updateTierCondition ci newCond cs = map_index (\<lambda>i c. if i = ci then newCond else c) cs"

definition removeTierCondition :: "nat \<Rightarrow> vcond list \<Rightarrow> vcond list" where
  "removeTierCondition ci cs = filter_index (\<lambda>i. i \<noteq> ci) cs"

definition addTierCondition :: "vcond list \<Rightarrow> vcond list option" where
  "addTierCondition cs =
     (if length cs \<ge> 2 then None
      else Some (cs @ [default_condition (if ''len'' \<in> set (map vc_var cs) then ''c'' else ''len'')]))"

section \<open>Editing rule groups\<close>

definition updateGroupCondition :: "nat \<Rightarrow> rule_cond \<Rightarrow> rule_group \<Rightarrow> rule_group" where
  "updateGroupCondition ci newCond g =
     g\<lparr>conditions := map_index (\<lambda>i c. if i = ci then newCond else c) (conditions g)\<rparr>"

definition removeGroupCondition :: "nat \<Rightarrow> rule_group \<Rightarrow> rule_group" where
  "removeGroupCondition ci g =
     (let nextConds = filter_index (\<lambda>i. i \<noteq> ci) (conditions g) in
      g\<lparr>conditions := (if length nextConds > 0 then nextConds else [createEmptyCondition])\<rparr>)"

definition addGroupCondition :: "rule_cond \<Rightarrow> rule_group \<Rightarrow> rule_group" where
  "addGroupCondition c g = g\<lparr>conditions := conditions g @ [c]\<rparr>"

section \<open>The editor\<close>

text \<open>
  The state of \<open>TieredPricingEditor\<close>, with the two expressions of the model it edits:
  \<open>currentExpr\<close> and \<open>currentRuleExpr\<close> change through the callbacks of the parent.
\<close>

datatype editor_mode = Visual | Raw

record tiered_editor =
  editorMode :: editor_mode
  visualConfig :: "vconfig option"
  rawExpr :: string
  requestRuleGroups :: "rule_group list"
  currentExpr :: string
  currentRuleExpr :: string

text \<open>The effect that follows a change of the rule expression.\<close>

definition reloadRuleGroups :: "tiered_editor \<Rightarrow> js_error + tiered_editor" where
  "reloadRuleGroups st =
     (case tryParseRequestRuleExpr (currentRuleExpr st) of
        Inl e \<Rightarrow> Inl e
      | Inr parsed \<Rightarrow> Inr (st\<lparr>requestRuleGroups := (case parsed of Some gs \<Rightarrow> gs | None \<Rightarrow> [])\<rparr>))"

definition handleRequestRuleGroupsChange :: "rule_group list \<Rightarrow> tiered_editor \<Rightarrow> js_error + tiered_editor" where
  "handleRequestRuleGroupsChange nextGroups st =
     reloadRuleGroups (st\<lparr>requestRuleGroups := nextGroups, currentRuleExpr := buildRequestRuleExpr nextGroups\<rparr>)"

text \<open>The effect on a change of the model.\<close>

definition openModel :: "tiered_editor \<Rightarrow> tiered_editor" where
  "openModel st =
     (case tryParseVisualConfig (currentExpr st) of
        Some parsed \<Rightarrow> st\<lparr>editorMode := Visual, visualConfig := Some parsed, rawExpr := currentExpr st\<rparr>
      | None \<Rightarrow>
          if currentExpr st \<noteq> [] then st\<lparr>editorMode := Raw, rawExpr := currentExpr st, visualConfig := None\<rparr>
          else st\<lparr>editorMode := Visual, visualConfig := Some createDefaultVisualConfig, rawExpr := []\<rparr>)"

definition effectiveExpr :: "tiered_editor \<Rightarrow> js_error + string" where
  "effectiveExpr st =
     (case editorMode st of
        Visual \<Rightarrow> Inr (generateExprFromVisualConfig (visualConfig st))
      | Raw \<Rightarrow> map_sum id fst (splitBillingExprAndRequestRules (rawExpr st)))"

text \<open>The effect that hands a changed expression to the model.\<close>

definition syncExpr :: "tiered_editor \<Rightarrow> js_error + tiered_editor" where
  "syncExpr st = (case effectiveExpr st of Inl e \<Rightarrow> Inl e | Inr e \<Rightarrow> Inr (st\<lparr>currentExpr := e\<rparr>))"

definition handleVisualChange :: "vconfig \<Rightarrow> tiered_editor \<Rightarrow> tiered_editor" where
  "handleVisualChange cfg st = st\<lparr>visualConfig := Some cfg\<rparr>"

definition handleRawChange :: "string \<Rightarrow> tiered_editor \<Rightarrow> js_error + tiered_editor" where
  "handleRawChange val st =
     (case splitBillingExprAndRequestRules val of
        Inl e \<Rightarrow> Inl e
      | Inr (bexpr, ruleStr) \<Rightarrow> Inr (st\<lparr>rawExpr := val, currentRuleExpr := ruleStr\<rparr>))"

definition handleModeSwitch :: "editor_mode \<Rightarrow> tiered_editor \<Rightarrow> js_error + tiered_editor" where
  "handleModeSwitch newMode st =
     (case newMode of
        Visual \<Rightarrow>
          (case splitBillingExprAndRequestRules (rawExpr st) of
             Inl e \<Rightarrow> Inl e
           | Inr (bexpr, ruleStr) \<Rightarrow>
               (case tryParseRequestRuleExpr ruleStr of
                  Inl e \<Rightarrow> Inl e
                | Inr parsedGroups \<Rightarrow>
                    Inr (st\<lparr>visualConfig := Some (case tryParseVisualConfig bexpr of Some parsed \<Rightarrow> parsed
                                                  | None \<Rightarrow> createDefaultVisualConfig),
                           requestRuleGroups := (case parsedGroups of Some gs \<Rightarrow> gs | None \<Rightarrow> []),
                           currentRuleExpr := ruleStr, editorMode := Visual\<rparr>)))
      | Raw \<Rightarrow>
          (let expr = generateExprFromVisualConfig (visualConfig st);
               combined = combineBillingExpr expr (buildRequestRuleExpr (requestRuleGroups st)) in
           Inr (st\<lparr>rawExpr := (if combined \<noteq> [] then combined else expr), editorMode := Raw\<rparr>)))"

text \<open>A preset: its expression and its rules.\<close>

definition applyPreset :: "string \<Rightarrow> rule_group list \<Rightarrow> tiered_editor \<Rightarrow> tiered_editor" where
  "applyPreset expr presetGroups st =
     (let ruleExpr = buildRequestRuleExpr presetGroups;
          combined = combineBillingExpr expr ruleExpr;
          st1 = st\<lparr>rawExpr := (if combined \<noteq> [] then combined else expr)\<rparr>;
          st2 = (case tryParseVisualConfig expr of
                   Some parsed \<Rightarrow> st1\<lparr>visualConfig := Some parsed\<rparr>
                 | None \<Rightarrow> st1\<lparr>editorMode := Raw, visualConfig := None\<rparr>) in
      st2\<lparr>requestRuleGroups := presetGroups, currentRuleExpr := ruleExpr\<rparr>)"

end
