(* ===== verification/Tiered_Match.thy ===== *)
theory Tiered_Match
  imports Tiered_Pricing
begin

text \<open>
  How the regular expressions of \<open>tryParseVisualConfig\<close> match the texts that the tiers are written
  as: single steps of the matcher, numbers, optional prices, conditions, and the search for all tiers
  of an expression.
\<close>

section \<open>Steps of a match\<close>

text \<open>What a greedy class falls fall_back to when the longest match does not lead to a result.\<close>

definition fall_back :: "rx \<Rightarrow> string \<Rightarrow> string \<Rightarrow> caps \<Rightarrow> (string \<Rightarrow> caps \<Rightarrow> 'r option) \<Rightarrow> 'r option" where
  "fall_back x w r cs k = (if k r cs = None then rx_match x (w @ r) cs k else None)"

definition or_try :: "'r option \<Rightarrow> 'r option \<Rightarrow> 'r option" where
  "or_try a b = (case a of Some v \<Rightarrow> Some v | None \<Rightarrow> b)"

lemma or_try_simps [simp]: "or_try (Some v) b = Some v" "or_try None b = b" "or_try a None = a"
  by (simp_all add: or_try_def split: option.split)

lemma star_stop: "rx_match a s cs (\<lambda>s' cs'. if length s' < length s then rx_star n a s' cs' k else None) = None \<Longrightarrow> rx_star (Suc n) a s cs k = k s cs"
  by simp

lemma star_class:
  "list_all P w \<Longrightarrow> r = [] \<or> \<not> P (hd r) \<Longrightarrow> length w \<le> n \<Longrightarrow> k r cs = Some v \<Longrightarrow> rx_star n (Cls P) (w @ r) cs k = Some v"
proof (induction w arbitrary: n)
  case Nil
  then show ?case by (cases n; cases r) auto
next
  case (Cons c w)
  then obtain m where m: "n = Suc m" "length w \<le> m" by (cases n) auto
  show ?case using Cons.IH [OF _ Cons.prems(2) m(2) Cons.prems(4)] Cons.prems(1) by (simp add: m(1))
qed

lemma class_star [simp]:
  "list_all P w \<Longrightarrow> r = [] \<or> \<not> P (hd r) \<Longrightarrow>
   rx_match (Star (Cls P)) (w @ r) cs k = or_try (k r cs) (fall_back (Star (Cls P)) w r cs k)"
  using star_class [of P w r "length (w @ r)" k cs] by (cases "k r cs") (auto simp: fall_back_def)

lemma class_plus [simp]:
  assumes "list_all P w" "w \<noteq> []" "r = [] \<or> \<not> P (hd r)"
  shows "rx_match (Plus (Cls P)) (w @ r) cs k = or_try (k r cs) (fall_back (Plus (Cls P)) w r cs k)"
proof (cases "k r cs")
  case (Some v)
  obtain c u where w: "w = c # u" using assms(2) by (cases w) auto
  have "rx_star (length (u @ r)) (Cls P) (u @ r) cs k = Some v"
    by (rule star_class) (use assms w Some in auto)
  then show ?thesis using assms(1) Some by (simp add: Plus_def w)
qed (simp add: fall_back_def)

lemma space_len: "ws_len (CHR '' '' # s) = 1"
  by (cases "CHR '' '' # s" rule: ws_len.cases) (auto simp: is_ws1_def)

lemma ws_none [simp]: "ws_len s = 0 \<Longrightarrow> rx_match WS s cs k = k s cs"
  by (cases s) (simp_all add: WS_def)

lemma ws_one [simp]: "ws_len s = 0 \<Longrightarrow> rx_match WS (CHR '' '' # s) cs k = or_try (k s cs) (k (CHR '' '' # s) cs)"
  by (cases s) (simp_all add: WS_def space_len is_ws1_def or_try_def split: option.split)

lemma seq_Cons [simp]: "rx_match (rx_seq (r # rs)) s cs k = rx_match r s cs (\<lambda>s' cs'. rx_match (rx_seq rs) s' cs' k)"
  by (cases rs) simp_all

lemma seq_Nil [simp]: "rx_match (rx_seq []) s cs k = k s cs"
  by simp

lemma seq_append: "rx_match (rx_seq (as @ bs)) s cs k = rx_match (rx_seq as) s cs (\<lambda>s' cs'. rx_match (rx_seq bs) s' cs' k)"
  by (induction as arbitrary: s cs) (simp_all del: rx_seq.simps)

declare rx_seq.simps [simp del] rx_match.simps(7) [simp del] rx_star.simps [simp del]

section \<open>Numbers\<close>

definition num_char :: "char \<Rightarrow> bool" where
  "num_char c \<longleftrightarrow> is_digit c \<or> c \<in> {CHR ''.'', CHR ''e'', CHR ''E'', CHR ''+'', CHR ''-''}"

definition cnum_char :: "char \<Rightarrow> bool" where
  "cnum_char c \<longleftrightarrow> is_digit c \<or> c \<in> {CHR ''.'', CHR ''e'', CHR ''E'', CHR ''+''}"

lemma num_rx: "NUM = Plus (Cls num_char)" "CNUM = Plus (Cls cnum_char)"
  by (simp_all add: NUM_def CNUM_def num_char_def [abs_def] cnum_char_def [abs_def])

definition num_text :: "string \<Rightarrow> bool" where
  "num_text w \<longleftrightarrow> w \<noteq> [] \<and> list_all num_char w"

definition cnum_text :: "string \<Rightarrow> bool" where
  "cnum_text w \<longleftrightarrow> w \<noteq> [] \<and> list_all cnum_char w"

lemma num_match [simp]:
  "num_text w \<Longrightarrow> r = [] \<or> \<not> num_char (hd r) \<Longrightarrow> rx_match NUM (w @ r) cs k = or_try (k r cs) (fall_back NUM w r cs k)"
  by (simp add: num_text_def num_rx)

lemma cnum_match [simp]:
  "cnum_text w \<Longrightarrow> r = [] \<or> \<not> cnum_char (hd r) \<Longrightarrow> rx_match CNUM (w @ r) cs k = or_try (k r cs) (fall_back CNUM w r cs k)"
  by (simp add: cnum_text_def num_rx)

lemma num_chars_visible: "num_char c \<Longrightarrow> visible c" "cnum_char c \<Longrightarrow> visible c"
  by (auto simp: num_char_def cnum_char_def visible_def is_digit_visible dest: is_digit_visible)

lemma num_text_ws [simp]: "num_text w \<Longrightarrow> ws_len (w @ r) = 0" "cnum_text w \<Longrightarrow> ws_len (w @ r) = 0"
  by (cases w; simp add: num_text_def cnum_text_def num_chars_visible)+

lemma cap_match [simp]: "rx_match (Cap i a) s cs k = rx_match a s cs (\<lambda>s' cs'. k s' (cs'(i := Some (take (length s - length s') s))))"
  by simp

lemma stops [simp]: "\<not> num_char CHR '' ''" "\<not> num_char CHR '')''" "\<not> cnum_char CHR '' ''"
  by (simp_all add: num_char_def cnum_char_def is_digit_def)

section \<open>Optional prices\<close>

text \<open>A variable is not taken for the start of another one.\<close>

definition apart :: "string \<Rightarrow> string \<Rightarrow> bool" where
  "apart v v' \<longleftrightarrow> (case strip_prefix v v' of None \<Rightarrow> True | Some [] \<Rightarrow> False | Some (c # _) \<Rightarrow> visible c \<and> c \<noteq> CHR ''*'')"

definition var_ok :: "string \<Rightarrow> bool" where
  "var_ok v \<longleftrightarrow> v \<noteq> [] \<and> list_all visible v"

lemma strip_prefix_space:
  "CHR '' '' \<notin> set v \<Longrightarrow> strip_prefix v (v' @ CHR '' '' # t) = map_option (\<lambda>r. r @ CHR '' '' # t) (strip_prefix v v')"
  by (induction v v' rule: strip_prefix.induct) auto

lemma var_ok_space: "var_ok v \<Longrightarrow> CHR '' '' \<notin> set v"
  by (auto simp: var_ok_def list_all_iff visible_def)

lemma var_ok_ws [simp]: "var_ok v \<Longrightarrow> ws_len (v @ r) = 0"
  by (cases v) (simp_all add: var_ok_def)

lemma visible_plus [simp]: "visible CHR ''+''" "visible CHR ''*''" "visible CHR '')''" "visible CHR ''('' "
  by (simp_all add: visible_def)

definition term_text :: "string \<Rightarrow> string \<Rightarrow> string" where
  "term_text v n = '' + '' @ v @ '' * '' @ n"

lemma cache_present:
  assumes "var_ok v" "num_text n" "r = [] \<or> \<not> num_char (hd r)" "k r (cs(i := Some n)) = Some x"
  shows "rx_match (optCache i v) (term_text v n @ r) cs k = Some x"
  using assms by (simp add: optCache_def term_text_def)

lemma cache_absent:
  assumes "var_ok v" "var_ok v'" "apart v v'"
  shows "rx_match (optCache i v) (term_text v' n @ r) cs k = k (term_text v' n @ r) cs"
proof -
  have "strip_prefix v (v' @ '' * '' @ n @ r) = map_option (\<lambda>q. q @ '' * '' @ n @ r) (strip_prefix v v')"
    using strip_prefix_space [OF var_ok_space [OF assms(1)], of v' "''* '' @ n @ r"] by simp
  moreover have "strip_prefix v (CHR '' '' # t) = None" for t
    using assms(1) by (cases v) (auto simp: var_ok_def visible_def)
  ultimately show ?thesis using assms
    by (cases "strip_prefix v v'") (auto simp: optCache_def term_text_def apart_def split: list.splits)
qed

lemma cache_end: "var_ok v \<Longrightarrow> rx_match (optCache i v) (CHR '')'' # r) cs k = k (CHR '')'' # r) cs"
  by (simp add: optCache_def)

primrec extras_text :: "(string \<Rightarrow> string option) \<Rightarrow> string list \<Rightarrow> string" where
  "extras_text g [] = []"
| "extras_text g (v # vs) = (case g v of Some n \<Rightarrow> term_text v n | None \<Rightarrow> []) @ extras_text g vs"

primrec set_caps :: "(string \<Rightarrow> string option) \<Rightarrow> nat \<Rightarrow> string list \<Rightarrow> caps \<Rightarrow> caps" where
  "set_caps g i [] cs = cs"
| "set_caps g i (v # vs) cs = set_caps g (Suc i) vs (case g v of Some n \<Rightarrow> cs(i := Some n) | None \<Rightarrow> cs)"

lemma extras_start: "extras_text g vs = [] \<or> (\<exists>v n t. v \<in> set vs \<and> g v = Some n \<and> extras_text g vs = term_text v n @ t)"
  by (induction vs) (auto split: option.split)

lemma term_text_stop: "hd (term_text v n @ r) = CHR '' ''"
  by (simp add: term_text_def)

lemma extras_stop: "\<not> num_char (hd (extras_text g vs @ CHR '')'' # r))"
  using extras_start [of g vs] by (auto simp: term_text_stop)

lemma extras_match:
  assumes "sorted_wrt apart vs" "list_all var_ok vs" "\<And>v n. g v = Some n \<Longrightarrow> num_text n"
    "k (CHR '')'' # r) (set_caps g i vs cs) = Some x"
  shows "rx_match (rx_seq (map (\<lambda>(j, v). optCache j v) (enumerate i vs))) (extras_text g vs @ CHR '')'' # r) cs k = Some x"
  using assms
proof (induction vs arbitrary: i cs)
  case (Cons v vs)
  let ?rest = "extras_text g vs @ CHR '')'' # r"
  let ?k = "\<lambda>s' cs'. rx_match (rx_seq (map (\<lambda>(j, v). optCache j v) (enumerate (Suc i) vs))) s' cs' k"
  show ?case
  proof (cases "g v")
    case (Some n)
    have "?k ?rest (cs(i := Some n)) = Some x" using Cons Some by simp
    with Some Cons.prems extras_stop show ?thesis
      by (auto intro!: cache_present)
  next
    case None
    have k: "?k ?rest cs = Some x" using Cons None by simp
    have "rx_match (optCache i v) ?rest cs ?k = ?k ?rest cs"
    proof (cases "extras_text g vs = []")
      case False
      then obtain v' n t where v': "v' \<in> set vs" "extras_text g vs = term_text v' n @ t" using extras_start [of g vs] by auto
      then show ?thesis using Cons.prems(1,2) cache_absent [of v v' i n "t @ CHR '')'' # r" cs ?k] by (simp add: list_all_iff)
    qed (use Cons.prems(2) in \<open>simp add: cache_end\<close>)
    with k None show ?thesis by simp
  qed
qed simp

lemma set_caps_nth: "set_caps g i vs cs j =
    (if i \<le> j \<and> j < i + length vs then (case g (vs ! (j - i)) of Some n \<Rightarrow> Some n | None \<Rightarrow> cs j) else cs j)"
proof (induction vs arbitrary: i cs j)
  case (Cons v vs)
  show ?case
    by (cases "j = i") (auto simp: Cons nth_Cons' Suc_diff_Suc le_Suc_eq not_less_eq_eq split: option.split)
qed auto

lemma enumerate_shift: "map (\<lambda>(j, f, v). F (a + j) v) (enumerate n xs) = map (\<lambda>(j, v). F j v) (enumerate (a + n) (map snd xs))"
  by (induction xs arbitrary: n) (auto simp: case_prod_unfold)

definition price_vars :: "string list" where
  "price_vars = map snd CACHE_VAR_MAP"

lemma price_vars_eq: "price_vars = [''cr'', ''cc'', ''cc1h'', ''img'', ''img_o'', ''ai'', ''ao'']"
  by (simp add: price_vars_def CACHE_VAR_MAP_def BILLING_EXTRA_VARS_def BILLING_VARS_def bvar_def)

lemma price_vars_ok: "sorted_wrt apart price_vars" "list_all var_ok price_vars"
  by (simp_all add: price_vars_eq apart_def var_ok_def visible_def)

section \<open>Bodies and tiers\<close>

definition price_text :: "string \<Rightarrow> string \<Rightarrow> (string \<Rightarrow> string option) \<Rightarrow> string" where
  "price_text a b g = ''p * '' @ a @ '' + c * '' @ b @ extras_text g price_vars"

definition body_caps :: "nat \<Rightarrow> string \<Rightarrow> string \<Rightarrow> (string \<Rightarrow> string option) \<Rightarrow> caps \<Rightarrow> caps" where
  "body_caps i a b g cs = set_caps g (i + 2) price_vars (cs(i := Some a, i + 1 := Some b))"

lemma body_match:
  assumes "num_text a" "num_text b" "\<And>v n. g v = Some n \<Longrightarrow> num_text n"
    "k (CHR '')'' # r) (body_caps i a b g cs) = Some x"
  shows "rx_match (bodyPat i) (price_text a b g @ CHR '')'' # r) cs k = Some x"
proof -
  have "rx_match (rx_seq (map (\<lambda>(j, v). optCache j v) (enumerate (i + 2) price_vars))) (extras_text g price_vars @ CHR '')'' # r)
      (cs(i := Some a, i + 1 := Some b)) k = Some x"
    by (rule extras_match [OF price_vars_ok assms(3)]) (use assms(4) in \<open>simp_all add: body_caps_def\<close>)
  moreover have "map (\<lambda>(j, f, v). optCache (i + 2 + j) v) (enumerate 0 CACHE_VAR_MAP) = map (\<lambda>(j, v). optCache j v) (enumerate (i + 2) price_vars)"
    using enumerate_shift [of optCache "i + 2" 0 CACHE_VAR_MAP] by (simp add: price_vars_def)
  ultimately show ?thesis
    using assms(1,2) extras_stop [of g price_vars r] by (simp add: bodyPat_def price_text_def seq_append visible_def)
qed

definition label_ok :: "string \<Rightarrow> bool" where
  "label_ok l \<longleftrightarrow> l \<noteq> [] \<and> CHR 0x22 \<notin> set l"

definition tier_caps :: "nat \<Rightarrow> string \<Rightarrow> string \<Rightarrow> string \<Rightarrow> (string \<Rightarrow> string option) \<Rightarrow> caps \<Rightarrow> caps" where
  "tier_caps i l a b g cs = body_caps (i + 1) a b g (cs(i := Some l))"

lemma tier_match:
  assumes "label_ok l" "num_text a" "num_text b" "\<And>v n. g v = Some n \<Longrightarrow> num_text n"
    "k r (tier_caps i l a b g cs) = Some x"
  shows "rx_match (tierPat i) (tier_call l (price_text a b g) @ r) cs k = Some x"
proof -
  have "rx_match (bodyPat (i + 1)) (price_text a b g @ CHR '')'' # r) (cs(i := Some l)) (\<lambda>s' cs'. rx_match (rx_seq [Lit '')'']) s' cs' k) = Some x"
    by (rule body_match [OF assms(2-4)]) (use assms(5) in \<open>simp_all add: tier_caps_def\<close>)
  moreover have "ws_len (price_text a b g @ s) = 0" for s by (simp add: price_text_def visible_def)
  moreover have "list_all (\<lambda>c. c \<noteq> CHR 0x22) l" using assms(1) by (auto simp: label_ok_def list_all_iff)
  ultimately show ?thesis by (simp add: tierPat_def tier_call_def)
qed

section \<open>Conditions\<close>

definition atom_text :: "string \<Rightarrow> string \<Rightarrow> string \<Rightarrow> string" where
  "atom_text v rel n = v @ '' '' @ rel @ '' '' @ n"

definition atom_ok :: "string \<Rightarrow> string \<Rightarrow> string \<Rightarrow> bool" where
  "atom_ok v rel n \<longleftrightarrow> v \<in> {''p'', ''c'', ''len''} \<and> rel \<in> {''<'', ''<='', ''>'', ''>=''} \<and> cnum_text n"

lemma atom_cases:
  assumes "atom_ok v rel n"
  obtains "v = ''p'' \<or> v = ''c'' \<or> v = ''len''" "rel = ''<'' \<or> rel = ''<='' \<or> rel = ''>'' \<or> rel = ''>=''" "cnum_text n"
  using assms by (auto simp: atom_ok_def)

lemma class_fails: "\<not> cnum_char c \<Longrightarrow> rx_match CNUM (c # s) cs k = None"
  by (simp add: num_rx Plus_def)

lemma cond_op_stop: "\<not> cnum_char CHR ''=''"
  by (simp add: cnum_char_def is_digit_def)

lemmas cond_rx = condAtom_def condVar_def condOp_def condRe_def rx_alt.simps class_fails cond_op_stop visible_def

lemma rel_match:
  assumes "rel = ''<'' \<or> rel = ''<='' \<or> rel = ''>'' \<or> rel = ''>=''" "k (CHR '' '' # s) cs = Some x"
    "\<And>u. k (CHR ''='' # u) cs = None"
  shows "rx_match condOp (rel @ CHR '' '' # s) cs k = Some x"
  using assms by (elim disjE) (simp_all add: condOp_def rx_alt.simps)

lemma var_match:
  assumes "v = ''p'' \<or> v = ''c'' \<or> v = ''len''" "k (CHR '' '' # s) cs = Some x"
  shows "rx_match condVar (v @ CHR '' '' # s) cs k = Some x"
  using assms by (elim disjE) (simp_all add: condVar_def rx_alt.simps)

lemma rel_ws: "rel = ''<'' \<or> rel = ''<='' \<or> rel = ''>'' \<or> rel = ''>='' \<Longrightarrow> ws_len (rel @ s) = 0"
  by (elim disjE) (simp_all add: visible_def)

lemma atom_match:
  assumes "atom_ok v rel n" "r = [] \<or> \<not> cnum_char (hd r)" "k r cs = Some x"
  shows "rx_match condAtom (atom_text v rel n @ r) cs k = Some x"
  using assms(1)
proof (rule atom_cases)
  assume a: "v = ''p'' \<or> v = ''c'' \<or> v = ''len''" "rel = ''<'' \<or> rel = ''<='' \<or> rel = ''>'' \<or> rel = ''>=''" "cnum_text n"
  let ?k = "\<lambda>s' cs'. rx_match (rx_seq [WS, CNUM]) s' cs' k"
  have "?k (CHR '' '' # n @ r) cs = Some x" using cnum_match [OF a(3) assms(2), where k = k and cs = cs] num_text_ws(2) [OF a(3)] assms(3) by simp
  moreover have "?k (CHR ''='' # u) cs = None" for u by (simp add: class_fails cond_op_stop visible_def)
  ultimately have "rx_match condOp (rel @ CHR '' '' # n @ r) cs ?k = Some x" using a(2) by (intro rel_match) auto
  then have "rx_match (rx_seq [WS, condOp, WS, CNUM]) (CHR '' '' # rel @ CHR '' '' # n @ r) cs k = Some x"
    using rel_ws [OF a(2)] by simp
  with a(1) show ?thesis unfolding condAtom_def atom_text_def by (simp add: var_match)
qed

lemma atom_read:
  assumes "atom_ok v rel n"
  shows "rx_full condRe (atom_text v rel n) = Some (no_caps(1 := Some v, 2 := Some rel, 3 := Some n))"
  using assms
proof (rule atom_cases)
  assume "v = ''p'' \<or> v = ''c'' \<or> v = ''len''" "rel = ''<'' \<or> rel = ''<='' \<or> rel = ''>'' \<or> rel = ''>=''" "cnum_text n"
  moreover from this(3) have "rx_match CNUM n cs k = or_try (k [] cs) (fall_back CNUM n [] cs k)" "ws_len n = 0" for cs and k :: "string \<Rightarrow> caps \<Rightarrow> caps option"
    using cnum_match [of n "[]"] num_text_ws(2) [of n "[]"] by simp_all
  ultimately show ?thesis by (elim disjE) (simp_all add: cond_rx atom_text_def rx_full_def)
qed

text \<open>Texts without a separator: no ampersand, and single spaces inside only.\<close>

fun plain :: "string \<Rightarrow> bool" where
  "plain [] = True"
| "plain (c # w) = (c \<noteq> CHR ''&'' \<and> (visible c \<or> c = CHR '' '' \<and> w \<noteq> [] \<and> visible (hd w)) \<and> plain w)"

definition sep_rx :: rx where
  "sep_rx = rx_seq [WS, Lit ''&&'', WS]"

lemma cnum_plain: "cnum_text n \<Longrightarrow> plain n \<and> visible (hd n) \<and> visible (last n) \<and> n \<noteq> []"
proof -
  have "list_all cnum_char w \<Longrightarrow> plain w" for w
    by (induction w) (auto simp: num_chars_visible cnum_char_def is_digit_def)
  moreover assume "cnum_text n"
  ultimately show ?thesis by (auto simp: cnum_text_def list_all_iff num_chars_visible)
qed

lemma atom_plain: "atom_ok v rel n \<Longrightarrow> plain (atom_text v rel n)"
  using cnum_plain [of n] by (auto simp: atom_ok_def atom_text_def visible_def)

lemma cond_atom_trim: "atom_ok v rel n \<Longrightarrow> trim (atom_text v rel n) = atom_text v rel n"
  using cnum_plain [of n] by (intro trim_visible) (auto simp: atom_ok_def atom_text_def visible_def)

lemma sep_skips:
  assumes "plain (c # w)" "t = [] \<or> (\<exists>s. t = '' && '' @ s)"
  shows "rx_prefix sep_rx (c # w @ t) = None"
proof (cases "visible c")
  case False
  then obtain d u where "c = CHR '' ''" "w = d # u" "visible d" "d \<noteq> CHR ''&''" using assms(1) by (cases w) auto
  then show ?thesis by (simp add: rx_prefix_def sep_rx_def)
qed (use assms in \<open>auto simp: rx_prefix_def sep_rx_def\<close>)

lemma sep_end: "rx_prefix sep_rx [] = None" "ws_len s = 0 \<Longrightarrow> rx_prefix sep_rx ('' && '' @ s) = Some (no_caps, s)"
  by (simp_all add: rx_prefix_def sep_rx_def visible_def)

lemma sep_search:
  "plain w \<Longrightarrow> rx_search sep_rx w = None" "plain w \<Longrightarrow> ws_len s = 0 \<Longrightarrow> rx_search sep_rx (w @ '' && '' @ s) = Some (w, no_caps, s)"
proof (induction w)
  case Nil
  case 1
  show ?case by (simp add: sep_end)
  case 2
  then show ?case using sep_end(2) [of s] by simp
next
  case (Cons c w)
  case 1
  then show ?case using Cons sep_skips [of c w "[]"] by simp
  case 2
  then show ?case using Cons.IH(2) sep_skips [of c w "'' && '' @ s"] by simp
qed

lemma split_join:
  "ws \<noteq> [] \<Longrightarrow> list_all plain ws \<Longrightarrow> list_all (\<lambda>w. w \<noteq> [] \<and> visible (hd w)) ws \<Longrightarrow> length ws \<le> Suc n \<Longrightarrow>
   rx_split n sep_rx (js_join '' && '' ws) = ws"
proof (induction ws arbitrary: n)
  case (Cons w ws)
  show ?case
  proof (cases "ws = []")
    case True
    with Cons.prems show ?thesis by (cases n) (simp_all add: sep_search(1))
  next
    case False
    then obtain m u us where m: "n = Suc m" "ws = u # us" using Cons.prems(4) by (cases n; cases ws) auto
    have "ws_len (js_join '' && '' ws) = 0" using Cons.prems(3) m(2) by (cases us; cases u) (auto simp: js_join_Cons)
    then show ?thesis using Cons False m(1) sep_search(2) [of w] by (simp add: js_join_Cons)
  qed
qed simp

lemma join_concat: "js_join sep (a # xs) = a @ concat (map (\<lambda>x. sep @ x) xs)"
  by (induction xs arbitrary: a) simp_all

text \<open>A tier as text: conditions, label, prices.\<close>

record tier_spec =
  ts_atoms :: "(string \<times> string \<times> string) list"
  ts_label :: string
  ts_in :: string
  ts_out :: string
  ts_extra :: "string \<Rightarrow> string option"

definition atom_of :: "string \<times> string \<times> string \<Rightarrow> string" where
  "atom_of a = (case a of (v, rel, n) \<Rightarrow> atom_text v rel n)"

definition spec_ok :: "tier_spec \<Rightarrow> bool" where
  "spec_ok t \<longleftrightarrow> (\<forall>(v, rel, n) \<in> set (ts_atoms t). atom_ok v rel n) \<and> label_ok (ts_label t) \<and> num_text (ts_in t) \<and> num_text (ts_out t) \<and>
     (\<forall>v n. ts_extra t v = Some n \<longrightarrow> num_text n)"

definition group_text :: "tier_spec \<Rightarrow> string" where
  "group_text t = js_join '' && '' (map atom_of (ts_atoms t))"

definition plain_text :: "tier_spec \<Rightarrow> string" where
  "plain_text t = tier_call (ts_label t) (price_text (ts_in t) (ts_out t) (ts_extra t))"

definition spec_text :: "tier_spec \<Rightarrow> string" where
  "spec_text t = (if ts_atoms t = [] then plain_text t else group_text t @ '' ? '' @ plain_text t)"

definition spec_caps :: "tier_spec \<Rightarrow> caps" where
  "spec_caps t = tier_caps 2 (ts_label t) (ts_in t) (ts_out t) (ts_extra t)
     (if ts_atoms t = [] then no_caps else no_caps(1 := Some (group_text t)))"

definition and_atom :: rx where
  "and_atom = rx_seq [WS, Lit ''&&'', WS, condAtom]"

lemma and_atom_stop: "rx_match and_atom ('' ? '' @ r) cs k = None"
  by (simp add: and_atom_def visible_def)

lemma atom_of_ws: "case a of (v, rel, n) \<Rightarrow> atom_ok v rel n \<Longrightarrow> ws_len (atom_of a @ r) = 0"
  by (auto simp: atom_of_def atom_text_def atom_ok_def visible_def split: prod.splits)

lemma atom_of_match:
  "case a of (v, rel, n) \<Rightarrow> atom_ok v rel n \<Longrightarrow> r = [] \<or> \<not> cnum_char (hd r) \<Longrightarrow> k r cs = Some x \<Longrightarrow>
   rx_match condAtom (atom_of a @ r) cs k = Some x"
  by (auto simp: atom_of_def intro: atom_match split: prod.splits)

lemma and_star:
  "\<forall>(v, rel, n) \<in> set as. atom_ok v rel n \<Longrightarrow> length as \<le> m \<Longrightarrow> k ('' ? '' @ r) cs = Some x \<Longrightarrow>
   rx_star m and_atom (concat (map (\<lambda>a. '' && '' @ atom_of a) as) @ '' ? '' @ r) cs k = Some x"
proof (induction as arbitrary: m)
  case Nil
  then show ?case by (cases m) (simp_all add: rx_star.simps and_atom_stop [simplified])
next
  case (Cons a as)
  then obtain m' where m: "m = Suc m'" "length as \<le> m'" by (cases m) auto
  let ?r = "concat (map (\<lambda>a. '' && '' @ atom_of a) as) @ '' ? '' @ r"
  let ?k = "\<lambda>s' cs'. if length s' < length ('' && '' @ atom_of a @ ?r) then rx_star m' and_atom s' cs' k else None"
  have a: "case a of (v, rel, n) \<Rightarrow> atom_ok v rel n" using Cons.prems(1) by auto
  have "?k ?r cs = Some x" using Cons m(2) by simp
  moreover have "?r = [] \<or> \<not> cnum_char (hd ?r)" by (cases as) auto
  ultimately have "rx_match condAtom (atom_of a @ ?r) cs ?k = Some x" by (intro atom_of_match [OF a])
  then have "rx_match and_atom ('' && '' @ atom_of a @ ?r) cs ?k = Some x"
    using atom_of_ws [OF a] by (simp add: and_atom_def visible_def)
  then show ?case unfolding m(1) by (simp add: rx_star.simps)
qed

lemma group_match:
  assumes "\<forall>(v, rel, n) \<in> set (ts_atoms t). atom_ok v rel n" "ts_atoms t \<noteq> []" "k ('' ? '' @ r) cs = Some x"
  shows "rx_match condGroup (group_text t @ '' ? '' @ r) cs k = Some x"
proof -
  obtain a as where as: "ts_atoms t = a # as" using assms(2) by (cases "ts_atoms t") auto
  let ?r = "concat (map (\<lambda>a. '' && '' @ atom_of a) as) @ '' ? '' @ r"
  have "length as \<le> length ?r" by (induction as) auto
  then have "rx_match (Star and_atom) ?r cs k = Some x"
    using assms(1,3) as by (simp only: rx_match.simps(7)) (rule and_star; auto)
  moreover have "?r = [] \<or> \<not> cnum_char (hd ?r)" by (cases as) auto
  ultimately have "rx_match condAtom (atom_of a @ ?r) cs (\<lambda>s' cs'. rx_match (Star and_atom) s' cs' k) = Some x"
    using assms(1) as by (intro atom_of_match) auto
  then show ?thesis by (simp add: condGroup_def group_text_def as join_concat and_atom_def [symmetric] comp_def)
qed

lemma cond_rx_stop: "c \<notin> {CHR ''p'', CHR ''c'', CHR ''l''} \<Longrightarrow> rx_match condGroup (c # s) cs k = None" "rx_match condGroup [] cs k = None"
proof -
  assume "c \<notin> {CHR ''p'', CHR ''c'', CHR ''l''}"
  then have "rx_match condVar (c # s) cs k' = None" for k' :: "string \<Rightarrow> caps \<Rightarrow> 'a option" by (auto simp: condVar_def rx_alt.simps)
  then show "rx_match condGroup (c # s) cs k = None" by (simp add: condGroup_def condAtom_def)
qed (simp add: condGroup_def condAtom_def condVar_def rx_alt.simps)

lemma tier_stop: "c \<noteq> CHR ''t'' \<Longrightarrow> rx_match (tierPat i) (c # s) cs k = None" "rx_match (tierPat i) [] cs k = None"
  by (simp_all add: tierPat_def)

lemma spec_match:
  assumes "spec_ok t" "k r (spec_caps t) = Some x"
  shows "rx_match tierRe (spec_text t @ r) no_caps k = Some x"
proof -
  have "rx_match (tierPat 2) (plain_text t @ r) (if ts_atoms t = [] then no_caps else no_caps(1 := Some (group_text t))) k = Some x"
    unfolding plain_text_def
    by (rule tier_match) (use assms in \<open>auto simp: spec_ok_def spec_caps_def\<close>)
  moreover have "plain_text t = CHR ''t'' # tl (plain_text t)" by (simp add: plain_text_def tier_call_def)
  moreover have "ws_len (plain_text t @ r) = 0" by (simp add: plain_text_def tier_call_def visible_def)
  ultimately show ?thesis
  proof (cases "ts_atoms t = []")
    case False
    let ?k = "\<lambda>s' cs'. rx_match (tierPat 2) s' cs' k"
    let ?s = "group_text t @ '' ? '' @ plain_text t @ r"
    assume p: "rx_match (tierPat 2) (plain_text t @ r) (if ts_atoms t = [] then no_caps else no_caps(1 := Some (group_text t))) k = Some x"
      and w: "ws_len (plain_text t @ r) = 0"
    have "rx_match condGroup ?s no_caps
        (\<lambda>s' cs'. rx_match (rx_seq [WS, Lit ''?'', WS]) s' (cs'(1 := Some (take (length ?s - length s') ?s))) ?k) = Some x"
      by (rule group_match) (use assms(1) False p w in \<open>auto simp: spec_ok_def visible_def\<close>)
    then show ?thesis using False by (simp add: tierRe_def spec_text_def)
  next
    case True
    assume p: "rx_match (tierPat 2) (plain_text t @ r) (if ts_atoms t = [] then no_caps else no_caps(1 := Some (group_text t))) k = Some x"
      and t: "plain_text t = CHR ''t'' # tl (plain_text t)"
    have "rx_match condGroup (plain_text t @ r) no_caps kk = None" for kk :: "string \<Rightarrow> caps \<Rightarrow> 'a option"
      by (subst t) (simp add: cond_rx_stop)
    with p True show ?thesis by (simp add: tierRe_def spec_text_def)
  qed
qed

lemma tierRe_stop: "c \<notin> {CHR ''p'', CHR ''c'', CHR ''l'', CHR ''t''} \<Longrightarrow> rx_prefix tierRe (c # s) = None" "rx_prefix tierRe [] = None"
  by (simp_all add: rx_prefix_def tierRe_def cond_rx_stop tier_stop)

lemma search_skip: "c \<notin> {CHR ''p'', CHR ''c'', CHR ''l'', CHR ''t''} \<Longrightarrow> rx_all n tierRe (c # s) = rx_all n tierRe s"
  using tierRe_stop(1) [of c s] by (cases n) (auto split: option.split)

lemma spec_search: "spec_ok t \<Longrightarrow> rx_all (Suc n) tierRe (spec_text t @ r) = spec_caps t # rx_all n tierRe r"
proof -
  assume "spec_ok t"
  then have "rx_prefix tierRe (spec_text t @ r) = Some (spec_caps t, r)" unfolding rx_prefix_def by (rule spec_match) simp
  moreover have "spec_text t \<noteq> []" by (simp add: spec_text_def plain_text_def tier_call_def)
  ultimately show ?thesis by (cases "spec_text t") simp_all
qed

lemma search_all:
  "list_all spec_ok ts \<Longrightarrow> length ts \<le> n \<Longrightarrow> rx_all n tierRe (js_join '' : '' (map spec_text ts)) = map spec_caps ts"
proof (induction ts arbitrary: n)
  case Nil
  then show ?case using tierRe_stop(2) by (cases n) simp_all
next
  case (Cons t ts)
  then obtain m where m: "n = Suc m" "length ts \<le> m" by (cases n) auto
  show ?case
  proof (cases "ts = []")
    case True
    then show ?thesis using Cons.prems m spec_search [of t m "[]"] tierRe_stop(2) by (cases m) simp_all
  next
    case False
    then have "rx_all n tierRe (js_join '' : '' (map spec_text (t # ts))) = spec_caps t # rx_all m tierRe ('' : '' @ js_join '' : '' (map spec_text ts))"
      using Cons.prems(1) spec_search [of t m] by (simp add: js_join_Cons m(1))
    also have "rx_all m tierRe ('' : '' @ js_join '' : '' (map spec_text ts)) = map spec_caps ts"
      using Cons m(2) by (simp add: search_skip)
    finally show ?thesis by simp
  qed
qed

end
