(* ===== verification/Tiered_Proofs.thy ===== *)
theory Tiered_Proofs
  imports Tiered_Match
begin

text \<open>
  Properties of tiered pricing: the round trip of a visual configuration through its expression, and
  the edits of the tiers.
\<close>

section \<open>Tiers that can be written\<close>

definition readable :: "jsnum \<Rightarrow> bool" where
  "readable n \<longleftrightarrow> num_text (number_to_string n) \<and> string_to_number (number_to_string n) = n"

definition cond_ok :: "vcond \<Rightarrow> bool" where
  "cond_ok c \<longleftrightarrow> vc_var c \<in> {''p'', ''c'', ''len''} \<and> vc_op c \<in> {''<'', ''<='', ''>'', ''>=''} \<and>
     (case vc_value c of Num q \<Rightarrow> cnum_text (number_to_string q) \<and> string_to_number (number_to_string q) = q | _ \<Rightarrow> False)"

definition tier_ok :: "vtier \<Rightarrow> bool" where
  "tier_ok t \<longleftrightarrow> list_all cond_ok (vt_conditions t) \<and> label_ok (vt_label t) \<and> readable (number_or_zero (input_unit_cost t)) \<and>
     readable (number_or_zero (output_unit_cost t)) \<and> list_all (\<lambda>(f, v). readable (number_or_zero (extra_cost t f))) CACHE_VAR_MAP"

text \<open>Every tier but the last has a condition.\<close>

definition tiers_ok :: "vconfig \<Rightarrow> bool" where
  "tiers_ok ts \<longleftrightarrow> ts \<noteq> [] \<and> list_all tier_ok ts \<and> vt_conditions (last ts) = [] \<and> list_all (\<lambda>t. vt_conditions t \<noteq> []) (butlast ts)"

text \<open>The tier that is read back: prices as numbers, absent ones dropped, the cache mode from the prices.\<close>

definition reread :: "vtier \<Rightarrow> vtier" where
  "reread t = normalizeVisualTier
     \<lparr>vt_conditions = vt_conditions t, input_unit_cost = Num (number_or_zero (input_unit_cost t)),
      output_unit_cost = Num (number_or_zero (output_unit_cost t)), vt_label = vt_label t, cache_mode = None,
      extra_costs = List.map_filter (\<lambda>(f, v). let n = number_or_zero (extra_cost t f) in if n \<noteq> Fin 0 then Some (f, Num n) else None)
        CACHE_VAR_MAP\<rparr>"

section \<open>From tiers to texts\<close>

definition extra_text :: "vtier \<Rightarrow> string \<Rightarrow> string option" where
  "extra_text t v =
     (case map_of (map (\<lambda>(f, v). (v, f)) CACHE_VAR_MAP) v of
        None \<Rightarrow> None
      | Some f \<Rightarrow> let n = number_or_zero (extra_cost t f) in if n \<noteq> Fin 0 then Some (number_to_string n) else None)"

definition spec_of :: "vtier \<Rightarrow> tier_spec" where
  "spec_of t = \<lparr>ts_atoms = map (\<lambda>c. (vc_var c, vc_op c, js_String (vc_value c))) (vt_conditions t), ts_label = vt_label t,
     ts_in = number_to_string (number_or_zero (input_unit_cost t)), ts_out = number_to_string (number_or_zero (output_unit_cost t)),
     ts_extra = extra_text t\<rparr>"

lemma cache_map_eq: "CACHE_VAR_MAP =
    [(''cache_read_unit_cost'', ''cr''), (''cache_create_unit_cost'', ''cc''), (''cache_create_1h_unit_cost'', ''cc1h''),
     (''image_unit_cost'', ''img''), (''image_output_unit_cost'', ''img_o''), (''audio_input_unit_cost'', ''ai''),
     (''audio_output_unit_cost'', ''ao'')]"
  by (simp add: CACHE_VAR_MAP_def BILLING_EXTRA_VARS_def BILLING_VARS_def bvar_def)

lemma extra_text_field: "(f, v) \<in> set CACHE_VAR_MAP \<Longrightarrow>
    extra_text t v = (let n = number_or_zero (extra_cost t f) in if n \<noteq> Fin 0 then Some (number_to_string n) else None)"
  by (auto simp: cache_map_eq extra_text_def)

lemma js_String_Num [simp]: "js_String (Num q) = number_to_string q"
  by simp

lemma cond_ok_Num: "cond_ok c \<Longrightarrow> \<exists>q. vc_value c = Num q \<and> string_to_number (number_to_string q) = q"
  by (auto simp: cond_ok_def split: jsval.splits)

lemma cond_ok_atom: "cond_ok c \<Longrightarrow> atom_ok (vc_var c) (vc_op c) (js_String (vc_value c))"
  by (auto simp: cond_ok_def atom_ok_def split: jsval.splits)

lemma tier_spec_ok: "tier_ok t \<Longrightarrow> spec_ok (spec_of t)"
  using cond_ok_atom
  by (auto simp: tier_ok_def spec_ok_def spec_of_def readable_def list_all_iff extra_text_def Let_def split: option.splits if_splits
      dest!: map_of_SomeD)

lemma extras_concat:
  assumes "\<And>f v. (f, v) \<in> set m \<Longrightarrow> h (f, v) = map_option (\<lambda>n. v @ '' * '' @ n) (g v)"
  shows "concat (map (\<lambda>x. '' + '' @ x) (List.map_filter h m)) = extras_text g (map snd m)"
  using assms
proof (induction m)
  case (Cons x m)
  obtain f v where "x = (f, v)" by fastforce
  with Cons show ?case by (auto simp: map_filter_simps term_text_def split: option.split)
qed (simp add: map_filter_simps)

lemma body_expr: "buildTierBodyExpr t = price_text (ts_in (spec_of t)) (ts_out (spec_of t)) (ts_extra (spec_of t))"
proof -
  let ?h = "\<lambda>(f, v). let n = number_or_zero (extra_cost t f) in if n \<noteq> Fin 0 then Some (v @ '' * '' @ number_to_string n) else None"
  have "concat (map (\<lambda>x. '' + '' @ x) (List.map_filter ?h CACHE_VAR_MAP)) = extras_text (extra_text t) price_vars"
    unfolding price_vars_def by (rule extras_concat) (simp add: extra_text_field Let_def)
  then show ?thesis
    unfolding buildTierBodyExpr_def append_Cons append_Nil join_concat by (simp add: price_text_def spec_of_def)
qed

lemma cond_str: "list_all cond_ok cs \<Longrightarrow> buildConditionStr cs = js_join '' && '' (map (\<lambda>c. atom_of (vc_var c, vc_op c, js_String (vc_value c))) cs)"
proof -
  assume ok: "list_all cond_ok cs"
  have "filter (\<lambda>c. vc_var c \<noteq> [] \<and> vc_op c \<noteq> [] \<and> vc_value c \<noteq> Null \<and> vc_value c \<noteq> Undef \<and> vc_value c \<noteq> Str []) cs = cs"
    using ok by (intro filter_True) (auto simp: list_all_iff cond_ok_def)
  then show ?thesis by (simp add: buildConditionStr_def atom_of_def atom_text_def)
qed

lemma tier_cond: "tier_ok t \<Longrightarrow> buildConditionStr (vt_conditions t) = group_text (spec_of t)"
  using cond_str [of "vt_conditions t"] by (simp add: tier_ok_def group_text_def spec_of_def comp_def)

lemma group_nonempty: "ts_atoms t \<noteq> [] \<Longrightarrow> group_text t \<noteq> []"
  by (cases "ts_atoms t") (auto simp: group_text_def join_concat atom_of_def atom_text_def split: prod.splits)

lemma tier_body: "tier_ok t \<Longrightarrow> tier_call (if vt_label t \<noteq> [] then vt_label t else d) (buildTierBodyExpr t) = plain_text (spec_of t)"
  by (simp add: tier_ok_def label_ok_def plain_text_def body_expr spec_of_def)

lemma atoms_empty: "ts_atoms (spec_of t) = [] \<longleftrightarrow> vt_conditions t = []"
  by (simp add: spec_of_def)

lemma parts_text: "tiers_ok ts \<Longrightarrow> tier_parts i ts = map (\<lambda>t. spec_text (spec_of t)) ts"
proof (induction ts arbitrary: i)
  case (Cons t ts)
  have t: "tier_ok t" using Cons.prems by (simp add: tiers_ok_def)
  show ?case
  proof (cases "ts = []")
    case True
    then show ?thesis using Cons.prems tier_body [OF t] by (simp add: tiers_ok_def spec_text_def atoms_empty)
  next
    case False
    then have "tiers_ok ts" "vt_conditions t \<noteq> []" using Cons.prems by (auto simp: tiers_ok_def)
    then show ?thesis using Cons.IH False tier_body [OF t] tier_cond [OF t] group_nonempty [of "spec_of t"]
      by (simp add: spec_text_def atoms_empty)
  qed
qed (simp add: tiers_ok_def)

lemma generate_text: "tiers_ok ts \<Longrightarrow> generateExprFromVisualConfig (Some ts) = js_join '' : '' (map (\<lambda>t. spec_text (spec_of t)) ts)"
proof (cases ts rule: remdups_adj.cases)
  case (2 t)
  assume "tiers_ok ts"
  then have t: "tier_ok t" "vt_conditions t = []" using 2 by (auto simp: tiers_ok_def)
  then show ?thesis
    using 2 tier_body [OF t(1)] by (simp add: generateExprFromVisualConfig_def spec_text_def atoms_empty buildConditionStr_def)
next
  case (3 t u us)
  assume "tiers_ok ts"
  then show ?thesis using parts_text [of ts 0] 3 by (simp add: generateExprFromVisualConfig_def del: tier_parts.simps)
qed (simp add: tiers_ok_def)

section \<open>From texts to tiers\<close>

lemma no_caps_at [simp]: "no_caps i = None"
  by (simp add: no_caps_def)

lemma caps_at:
  "tier_caps i l a b g cs i = Some l" "tier_caps i l a b g cs (i + 1) = Some a" "tier_caps i l a b g cs (i + 2) = Some b"
  "j < i \<Longrightarrow> tier_caps i l a b g cs j = cs j"
  by (simp_all add: tier_caps_def body_caps_def set_caps_nth)

lemma caps_extra:
  "j < length price_vars \<Longrightarrow> cs (i + 3 + j) = None \<Longrightarrow> tier_caps i l a b g cs (i + 3 + j) = g (price_vars ! j)"
  by (simp add: tier_caps_def body_caps_def set_caps_nth split: option.split)

lemma read_extras:
  assumes "tier_ok t" "\<And>j. cs (i + 3 + j) = None"
  shows "List.map_filter (\<lambda>(j, f, v). map_option (\<lambda>val. (f, Num (string_to_number val))) (tier_caps i l a b (extra_text t) cs (i + 3 + j)))
      (enumerate 0 CACHE_VAR_MAP) =
    List.map_filter (\<lambda>(f, v). let n = number_or_zero (extra_cost t f) in if n \<noteq> Fin 0 then Some (f, Num n) else None) CACHE_VAR_MAP"
proof -
  have step: "map_option (\<lambda>val. (f, Num (string_to_number val))) (extra_text t v) =
      (let n = number_or_zero (extra_cost t f) in if n \<noteq> Fin 0 then Some (f, Num n) else None)" if "(f, v) \<in> set CACHE_VAR_MAP" for f v
    using assms(1) that extra_text_field [OF that, of t] by (auto simp: tier_ok_def list_all_iff readable_def Let_def)
  have "List.map_filter (\<lambda>(j, f, v). map_option (\<lambda>val. (f, Num (string_to_number val))) (tier_caps i l a b (extra_text t) cs (i + 3 + j))) (enumerate n m) =
      List.map_filter (\<lambda>(f, v). let n = number_or_zero (extra_cost t f) in if n \<noteq> Fin 0 then Some (f, Num n) else None) m"
    if "drop n CACHE_VAR_MAP = m" for n m
    using that
  proof (induction m arbitrary: n)
    case (Cons x m)
    have lt: "n < length CACHE_VAR_MAP" using Cons.prems by (metis drop_eq_Nil list.distinct(1) not_le)
    then have "CACHE_VAR_MAP ! n # drop (Suc n) CACHE_VAR_MAP = x # m" using Cons.prems Cons_nth_drop_Suc [OF lt] by simp
    then have n: "n < length CACHE_VAR_MAP" "CACHE_VAR_MAP ! n = x" "drop (Suc n) CACHE_VAR_MAP = m" using lt by simp_all
    obtain f v where x: "x = (f, v)" by fastforce
    have "tier_caps i l a b (extra_text t) cs (i + 3 + n) = extra_text t v"
      using caps_extra [of n cs i l a b "extra_text t"] n assms(2) x by (simp add: price_vars_def)
    moreover have "(f, v) \<in> set CACHE_VAR_MAP" using n x by (metis nth_mem)
    ultimately show ?case using Cons.IH [OF n(3)] step x by (simp add: map_filter_simps split: option.split)
  qed (simp add: map_filter_simps)
  from this [of 0 CACHE_VAR_MAP] show ?thesis by simp
qed

lemma join_length: "list_all (\<lambda>w. w \<noteq> []) xs \<Longrightarrow> length xs \<le> length (js_join sep xs)"
proof (induction xs)
  case (Cons x xs)
  then have "length x \<ge> 1" by (cases x) auto
  with Cons show ?case by (cases xs) (auto simp: js_join_Cons)
qed simp

lemma atom_of_start:
  assumes "atom_ok v rel n"
  shows "plain (atom_of (v, rel, n))" "atom_of (v, rel, n) = [] \<Longrightarrow> False" "visible (hd (atom_of (v, rel, n)))"
  using assms atom_plain [OF assms] by (auto simp: atom_of_def atom_text_def atom_ok_def visible_def)

lemma atoms_read:
  assumes "list_all cond_ok cs" "cs \<noteq> []"
  shows "read_conditions (js_join '' && '' (map (\<lambda>c. atom_of (vc_var c, vc_op c, js_String (vc_value c))) cs)) = cs"
proof -
  let ?ws = "map (\<lambda>c. atom_of (vc_var c, vc_op c, js_String (vc_value c))) cs"
  let ?s = "js_join '' && '' ?ws"
  have ws: "list_all plain ?ws" "list_all (\<lambda>w. w \<noteq> [] \<and> visible (hd w)) ?ws"
    using assms(1) cond_ok_atom by (auto simp: list_all_iff intro!: atom_of_start)
  have "length ?ws \<le> Suc (length ?s)" and ne: "?s \<noteq> []"
  proof -
    from join_length [of ?ws "'' && ''"] ws(2) show "length ?ws \<le> Suc (length ?s)" "?s \<noteq> []"
      using assms(2) by (auto simp: list_all_iff)
  qed
  then have "rx_split (length ?s) sep_rx ?s = ?ws" using ws assms(2) by (intro split_join) auto
  moreover have "List.map_filter read_condition ?ws = cs"
    using assms(1)
  proof (induction cs)
    case (Cons c cs)
    obtain q where q: "vc_value c = Num q" "string_to_number (number_to_string q) = q" using cond_ok_Num [of c] Cons.prems by auto
    have ok: "atom_ok (vc_var c) (vc_op c) (number_to_string q)" using cond_ok_atom [of c] Cons.prems q by simp
    have "read_condition (atom_of (vc_var c, vc_op c, number_to_string q)) = Some c"
      using q by (simp add: read_condition_def atom_of_def cond_atom_trim [OF ok] atom_read [OF ok] cap_def)
    with Cons q show ?case by (simp add: map_filter_simps)
  qed (simp add: map_filter_simps)
  ultimately show ?thesis using ne by (simp add: read_conditions_def sep_rx_def [symmetric])
qed

lemma spec_read:
  assumes "tier_ok t"
  shows "normalizeVisualTier (read_tier (read_conditions (cap (spec_caps (spec_of t)) 1)) 2 (spec_caps (spec_of t))) = reread t"
proof -
  let ?cs = "if ts_atoms (spec_of t) = [] then no_caps else no_caps(1 := Some (group_text (spec_of t)))"
  have caps: "spec_caps (spec_of t) = tier_caps 2 (vt_label t) (number_to_string (number_or_zero (input_unit_cost t)))
      (number_to_string (number_or_zero (output_unit_cost t))) (extra_text t) ?cs"
    by (simp add: spec_caps_def spec_of_def)
  have "read_conditions (cap (spec_caps (spec_of t)) 1) = vt_conditions t"
  proof (cases "vt_conditions t = []")
    case True
    then show ?thesis by (simp add: caps caps_at cap_def read_conditions_def atoms_empty)
  next
    case False
    have ok: "list_all cond_ok (vt_conditions t)" using assms by (simp add: tier_ok_def)
    have "cap (spec_caps (spec_of t)) 1 = group_text (spec_of t)" using False by (simp add: caps caps_at cap_def atoms_empty)
    also have "\<dots> = js_join '' && '' (map (\<lambda>c. atom_of (vc_var c, vc_op c, js_String (vc_value c))) (vt_conditions t))"
      by (simp add: group_text_def spec_of_def comp_def)
    finally show ?thesis using atoms_read [OF ok False] by simp
  qed
  moreover have "string_to_number (cap (spec_caps (spec_of t)) 3) = number_or_zero (input_unit_cost t)"
    "string_to_number (cap (spec_caps (spec_of t)) 4) = number_or_zero (output_unit_cost t)" "cap (spec_caps (spec_of t)) 2 = vt_label t"
    using assms caps_at [of 2] by (simp_all add: caps cap_def tier_ok_def readable_def)
  ultimately show ?thesis
    using read_extras [OF assms, of ?cs 2] by (simp add: read_tier_def reread_def caps)
qed

lemma single_read:
  assumes "tier_ok t" "vt_conditions t = []"
  shows "\<exists>cs. rx_full (tierPat 1) (plain_text (spec_of t)) = Some cs \<and> normalizeVisualTier (read_tier [] 1 cs) = reread t"
proof -
  let ?cs = "tier_caps 1 (vt_label t) (number_to_string (number_or_zero (input_unit_cost t)))
      (number_to_string (number_or_zero (output_unit_cost t))) (extra_text t) no_caps"
  have ok: "spec_ok (spec_of t)" by (rule tier_spec_ok [OF assms(1)])
  have "rx_match (tierPat 1) (plain_text (spec_of t) @ []) no_caps (\<lambda>s' cs. if s' = [] then Some cs else None) = Some ?cs"
    unfolding plain_text_def by (rule tier_match) (use ok in \<open>auto simp: spec_ok_def spec_of_def\<close>)
  moreover have "normalizeVisualTier (read_tier [] 1 ?cs) = reread t"
    using assms caps_at [of 1] read_extras [OF assms(1), of no_caps 1]
    by (simp add: read_tier_def reread_def cap_def tier_ok_def readable_def)
  ultimately show ?thesis by (simp add: rx_full_def)
qed

section \<open>Round trip\<close>

lemma zero_idem: "number_or_zero (Num (number_or_zero v)) = number_or_zero v" "number_or_zero Undef = Fin 0"
  by (simp_all add: number_or_zero_def)

lemma reread_extra:
  assumes "(f, v) \<in> set CACHE_VAR_MAP"
  shows "number_or_zero (extra_cost (reread t) f) = number_or_zero (extra_cost t f)"
proof -
  have find: "map_of (List.map_filter (\<lambda>(f, v). if h f \<noteq> Fin 0 then Some (f, Num (h f)) else None) m) f =
      (if h f \<noteq> Fin 0 then Some (Num (h f)) else None)" if "f \<in> fst ` set m" for h :: "string \<Rightarrow> jsnum" and m :: "(string \<times> string) list"
    using that
  proof (induction m)
    case (Cons x m)
    have "map_of (List.map_filter (\<lambda>(f, v). if h f \<noteq> Fin 0 then Some (f, Num (h f)) else None) m) f = None" if "h f = Fin 0"
      using that by (induction m) (auto simp: map_filter_simps)
    with Cons show ?case by (cases x; cases "f = fst x") (simp_all add: map_filter_simps)
  qed simp
  have "f \<in> fst ` set CACHE_VAR_MAP" using assms by force
  from find [OF this, of "\<lambda>f. number_or_zero (extra_cost t f)"]
  have "map_of (extra_costs (reread t)) f =
      (if number_or_zero (extra_cost t f) \<noteq> Fin 0 then Some (Num (number_or_zero (extra_cost t f))) else None)"
    by (simp add: reread_def normalizeVisualTier_def Let_def)
  then show ?thesis by (simp add: extra_cost_def [of "reread t"] zero_idem)
qed

lemma reread_spec: "spec_of (reread t) = spec_of t"
proof -
  have "extra_text (reread t) v = extra_text t v" for v
    using reread_extra by (auto simp: extra_text_def Let_def split: option.split dest!: map_of_SomeD)
  then have "extra_text (reread t) = extra_text t" by (rule ext)
  then show ?thesis by (simp add: spec_of_def) (simp add: reread_def normalizeVisualTier_def zero_idem)
qed

lemma reread_tiers_ok: "tiers_ok ts \<Longrightarrow> tiers_ok (map reread ts)"
proof -
  have "tier_ok t \<Longrightarrow> tier_ok (reread t)" for t
    using reread_extra [of _ _ t] by (auto simp: tier_ok_def list_all_iff reread_def normalizeVisualTier_def zero_idem)
  moreover have "vt_conditions (reread t) = vt_conditions t" for t by (simp add: reread_def normalizeVisualTier_def)
  moreover assume "tiers_ok ts"
  ultimately show ?thesis by (auto simp: tiers_ok_def list_all_iff last_map simp flip: map_butlast)
qed

lemma reread_normal: "normalizeVisualTier (reread t) = reread t"
  by (simp add: reread_def normalizeVisualTier_def getTierCacheMode_def)

lemma normal_config: "ts \<noteq> [] \<Longrightarrow> normalizeVisualConfig (Some (map reread ts)) = map reread ts"
  by (simp add: normalizeVisualConfig_def comp_def reread_normal)

lemma reread_text: "tiers_ok ts \<Longrightarrow> generateExprFromVisualConfig (Some (map reread ts)) = generateExprFromVisualConfig (Some ts)"
  using generate_text [of ts] generate_text [OF reread_tiers_ok, of ts] by (simp add: comp_def reread_spec)

lemma spec_head: "spec_ok s \<Longrightarrow> \<exists>c u. spec_text s = c # u \<and> c \<in> {CHR ''p'', CHR ''c'', CHR ''l'', CHR ''t''} \<and> (ts_atoms s \<noteq> [] \<longrightarrow> c \<noteq> CHR ''t'')"
  by (cases "ts_atoms s")
    (auto simp: spec_text_def plain_text_def tier_call_def group_text_def join_concat atom_of_def atom_text_def spec_ok_def atom_ok_def)

text \<open>
  C3: a visual configuration in which every tier but the last has a condition is read back from
  the expression that is generated for it, with its labels, conditions and prices; and the
  configuration that is read back generates the same expression.
\<close>

theorem tiers_roundtrip:
  assumes "tiers_ok ts"
  shows "tryParseVisualConfig (generateExprFromVisualConfig (Some ts)) = Some (map reread ts) \<and>
    generateExprFromVisualConfig (Some (map reread ts)) = generateExprFromVisualConfig (Some ts)"
proof
  show regen: "generateExprFromVisualConfig (Some (map reread ts)) = generateExprFromVisualConfig (Some ts)"
    by (rule reread_text [OF assms])
  let ?e = "js_join '' : '' (map (\<lambda>t. spec_text (spec_of t)) ts)"
  have ok: "list_all spec_ok (map spec_of ts)" using assms tier_spec_ok by (auto simp: tiers_ok_def list_all_iff)
  obtain t rest where ts: "ts = t # rest" using assms by (cases ts) (auto simp: tiers_ok_def)
  have t: "tier_ok t" using assms ts by (simp add: tiers_ok_def)
  obtain c u where c: "spec_text (spec_of t) = c # u" "c \<in> {CHR ''p'', CHR ''c'', CHR ''l'', CHR ''t''}"
    "vt_conditions t \<noteq> [] \<longrightarrow> c \<noteq> CHR ''t''"
    using spec_head [OF tier_spec_ok [OF t]] atoms_empty by auto
  then obtain w where w: "?e = c # w" by (simp add: ts join_concat)
  have v: "strip_version ?e = ?e" using c(2) unfolding w by (auto simp: strip_version_def)
  have "tryParseVisualConfig ?e = Some (map reread ts)"
  proof (cases "rest = []")
    case True
    then have cond: "vt_conditions t = []" using assms ts by (simp add: tiers_ok_def)
    then have "?e = plain_text (spec_of t)" by (simp add: ts True spec_text_def atoms_empty)
    then show ?thesis using single_read [OF t cond] normal_config [of "[t]"] v w True ts
      by (auto simp: tryParseVisualConfig_def)
  next
    case False
    then have "vt_conditions t \<noteq> []" using assms ts by (simp add: tiers_ok_def)
    then have none: "rx_full (tierPat 1) ?e = None" using c(3) unfolding w rx_full_def by (simp add: tier_stop)
    have "length ts \<le> length ?e"
      using join_length [of "map (\<lambda>t. spec_text (spec_of t)) ts" "'' : ''"] by (auto simp: list_all_iff spec_text_def plain_text_def tier_call_def)
    then have "rx_all (length ?e) tierRe ?e = map (\<lambda>t. spec_caps (spec_of t)) ts"
      using search_all [OF ok, of "length ?e"] by (simp add: comp_def)
    then have "map (\<lambda>cs. normalizeVisualTier (read_tier (read_conditions (cap cs 1)) 2 cs)) (rx_all (length ?e) tierRe ?e) = map reread ts"
      using assms spec_read by (simp add: tiers_ok_def list_all_iff)
    moreover have "remove_ws (generateExprFromVisualConfig (Some (map reread ts))) = remove_ws ?e"
      using regen generate_text [OF assms] by simp
    moreover have "ts \<noteq> []" by (simp add: ts)
    ultimately show ?thesis
      unfolding tryParseVisualConfig_def Let_def v none using w normal_config [of ts] by simp
  qed
  then show "tryParseVisualConfig (generateExprFromVisualConfig (Some ts)) = Some (map reread ts)"
    using generate_text [OF assms] by simp
qed

section \<open>Editing tiers\<close>

lemma normal_tier_ok: "tier_ok (normalizeVisualTier t) = tier_ok t" "vt_conditions (normalizeVisualTier t) = vt_conditions t"
  by (simp_all add: tier_ok_def normalizeVisualTier_def extra_cost_def)

lemma normal_tiers_ok: "tiers_ok ts \<Longrightarrow> tiers_ok (normalizeVisualConfig (Some ts)) \<and> length (normalizeVisualConfig (Some ts)) = length ts"
  by (auto simp: tiers_ok_def normalizeVisualConfig_def list_all_iff last_map normal_tier_ok simp flip: map_butlast)

lemma numbered_label_ok: "label_ok (numbered_label n)"
  using show_nat_free [of "CHR 0x22" n] by (simp add: label_ok_def numbered_label_def is_digit_def)

lemma default_condition_ok: "cond_ok (default_condition ''len'')" "cond_ok (default_condition ''c'')"
  by code_simp+

lemma new_tier_ok: "label_ok l \<Longrightarrow> tier_ok (new_tier l)"
proof -
  have "readable (Fin 0)" by code_simp
  moreover assume "label_ok l"
  ultimately show ?thesis by (simp add: tier_ok_def new_tier_def extra_cost_def number_or_zero_def list_all_iff)
qed

lemma open_last_ok: "tier_ok t \<Longrightarrow> tier_ok (t\<lparr>vt_conditions := cs\<rparr>) \<longleftrightarrow> list_all cond_ok cs"
  by (auto simp: tier_ok_def extra_cost_def)

lemma tiers_ok_snoc: "tiers_ok (ts @ [t]) \<longleftrightarrow> list_all (\<lambda>t. tier_ok t \<and> vt_conditions t \<noteq> []) ts \<and> tier_ok t \<and> vt_conditions t = []"
  by (auto simp: tiers_ok_def list_all_iff)

lemma add_tier_ok: "tiers_ok ts \<Longrightarrow> tiers_ok (addTier (Some ts)) \<and> length (addTier (Some ts)) = Suc (length ts)"
proof -
  assume "tiers_ok ts"
  then have n: "tiers_ok (normalizeVisualConfig (Some ts))" "length (normalizeVisualConfig (Some ts)) = length ts"
    using normal_tiers_ok by blast+
  then obtain us u where us: "normalizeVisualConfig (Some ts) = us @ [u]"
    by (cases "normalizeVisualConfig (Some ts)" rule: rev_cases) (auto simp: tiers_ok_def)
  then have ok: "list_all (\<lambda>t. tier_ok t \<and> vt_conditions t \<noteq> []) us" "tier_ok u" "vt_conditions u = []"
    using n(1) by (simp_all add: tiers_ok_snoc)
  have "tier_ok (new_tier l) \<and> vt_conditions (new_tier l) = []" if "label_ok l" for l
    using new_tier_ok [OF that] by (simp add: new_tier_def)
  then show ?thesis
    using us ok n(2) open_last_ok [OF ok(2), of "[default_condition ''len'']"] default_condition_ok(1) numbered_label_ok
      tiers_ok_snoc [of "us @ [u\<lparr>vt_conditions := [default_condition ''len'']\<rparr>]"]
    by (simp add: addTier_def Let_def)
qed

lemma filter_index_Cons: "filter_index P (x # xs) = (if P 0 then [x] else []) @ filter_index (\<lambda>i. P (Suc i)) xs"
proof -
  have "map snd (filter (\<lambda>(i, x). P i) (enumerate (Suc n) xs)) = map snd (filter (\<lambda>(i, x). P (Suc i)) (enumerate n xs))" for n
    by (induction xs arbitrary: n) auto
  then show ?thesis by (simp add: filter_index_def)
qed

lemma filter_index_except: "filter_index (\<lambda>i. i \<noteq> k) xs = take k xs @ drop (Suc k) xs"
proof (induction xs arbitrary: k)
  case (Cons x xs)
  have "filter_index (\<lambda>i. True) ys = ys" for ys :: "'a list"
    by (induction ys) (simp_all add: filter_index_Cons, simp add: filter_index_def)
  with Cons show ?case by (cases k) (simp_all add: filter_index_Cons)
qed (simp add: filter_index_def)

lemma remove_tier_ok:
  assumes "tiers_ok ts" "removeTier k (Some ts) = Some ts'"
  shows "tiers_ok ts'" "length ts' = length ts - (if k < length ts then 1 else 0)"
proof -
  let ?ns = "normalizeVisualConfig (Some ts)"
  let ?rest = "take k ?ns @ drop (Suc k) ?ns"
  have n: "tiers_ok ?ns" "length ?ns = length ts" using normal_tiers_ok [OF assms(1)] by blast+
  have len: "length ?ns > 1" and ts': "ts' = (if length ?rest > 0 then butlast ?rest @ [(last ?rest)\<lparr>vt_conditions := []\<rparr>] else ?rest)"
    using assms(2) by (auto simp: removeTier_def Let_def filter_index_except split: if_splits)
  have ne: "?rest \<noteq> []" using len by auto
  have all: "list_all tier_ok ?ns" "list_all (\<lambda>t. vt_conditions t \<noteq> []) (butlast ?ns)" using n(1) by (auto simp: tiers_ok_def)
  have conds: "list_all (\<lambda>t. vt_conditions t \<noteq> []) (butlast ?rest)"
  proof (cases "Suc k < length ?ns")
    case True
    then have "butlast ?rest = take k ?ns @ drop (Suc k) (butlast ?ns)"
      by (simp add: butlast_append butlast_drop)
    moreover have "take k ?ns = take k (butlast ?ns)" using True by (simp add: take_butlast)
    ultimately show ?thesis using all(2) by (auto simp: list_all_iff dest: in_set_takeD in_set_dropD)
  next
    case False
    then have "set (butlast ?rest) \<subseteq> set (butlast ?ns)"
      using set_take_subset_set_take [of "length ?ns - Suc (Suc 0)" "length ?ns - Suc 0" ?ns]
      by (cases "k = length ?ns - 1") (auto simp: butlast_conv_take dest: in_set_takeD in_set_butlastD)
    then show ?thesis using all(2) by (auto simp: list_all_iff)
  qed
  have "list_all tier_ok ?rest" using all(1) by (auto simp: list_all_iff dest: in_set_takeD in_set_dropD)
  moreover have "list_all P (butlast xs) \<and> P (last xs)" if "list_all P xs" "xs \<noteq> []" for P and xs :: "vtier list"
    using that by (cases xs rule: rev_cases) auto
  ultimately have "list_all tier_ok (butlast ?rest)" "tier_ok (last ?rest)" using ne by blast+
  then show "tiers_ok ts'" using conds ne ts' open_last_ok [of "last ?rest" "[]"]
    by (auto simp: tiers_ok_snoc list_all_iff)
  show "length ts' = length ts - (if k < length ts then 1 else 0)" using ne ts' n(2) len by auto
qed

text \<open>
  Adding and removing tiers keeps the configuration one that is read back from its expression:
  every tier but the last has a condition, the last has none.
\<close>

theorem tier_edits_keep:
  assumes "tiers_ok ts"
  shows "tiers_ok (addTier (Some ts)) \<and> length (addTier (Some ts)) = Suc (length ts) \<and>
    (\<forall>k ts'. removeTier k (Some ts) = Some ts' \<longrightarrow> tiers_ok ts' \<and> length ts' = length ts - (if k < length ts then 1 else 0))"
  using add_tier_ok [OF assms] remove_tier_ok [OF assms] by blast

section \<open>Samples\<close>

definition sample_tiers :: vconfig where
  "sample_tiers = addTier (Some [(new_tier ''base'')\<lparr>input_unit_cost := Num (Fin 3), extra_costs := [(''image_unit_cost'', Num (Fin 5))]\<rparr>])"

lemma sample_tiers_ok: "tiers_ok sample_tiers"
  by code_simp

theorem tiers_roundtrip_witness:
  "tiers_ok sample_tiers \<and> tryParseVisualConfig (generateExprFromVisualConfig (Some sample_tiers)) = Some (map reread sample_tiers) \<and>
   generateExprFromVisualConfig (Some (map reread sample_tiers)) = generateExprFromVisualConfig (Some sample_tiers)"
  using tiers_roundtrip [OF sample_tiers_ok] sample_tiers_ok by blast

theorem tier_edits_keep_witness:
  "tiers_ok sample_tiers \<and> tiers_ok (addTier (Some sample_tiers)) \<and> (\<exists>ts'. removeTier 0 (Some sample_tiers) = Some ts' \<and> tiers_ok ts' \<and> length ts' = 1)"
proof -
  have "length sample_tiers = 2" by code_simp
  moreover have "\<exists>ts'. removeTier 0 (Some sample_tiers) = Some ts'"
    using \<open>length sample_tiers = 2\<close> normal_tiers_ok [OF sample_tiers_ok] by (simp add: removeTier_def Let_def)
  ultimately show ?thesis using tier_edits_keep [OF sample_tiers_ok] sample_tiers_ok by fastforce
qed

text \<open>An expression that is no sum of prices is read as a tier without an input price and written back without it.\<close>

theorem single_tier_misread:
  "map_option (\<lambda>ts. generateExprFromVisualConfig (Some ts)) (tryParseVisualConfig (tier_call ''base'' ''p * 2-1 + c * 3'')) =
   Some (tier_call ''base'' ''p * 0 + c * 3'')"
  by code_simp

end
