(* ===== verification/Ratio_Sync.thy ===== *)
theory Ratio_Sync
  imports Pricing_Editor JS_Json
begin

text \<open>
  The upstream price synchronisation (\<open>src/web/src/pages/Setting/Ratio/UpstreamRatioSync.jsx\<close>):
  channels are chosen, the server compares their prices with the local ones, the administrator
  ticks the upstream values to take over and saves them into the ten price options.

  \<open>differences\<close> maps a model to its fields and a field to the server's comparison object
  \<open>{ current, upstreams, confidence }\<close>; \<open>resolutions\<close> maps a model to the values ticked. Both are
  objects of objects, kept in property order. \<open>lower\<close> is \<open>toLowerCase\<close>; \<open>unknown\<close> is the
  translation of the source shown when no upstream has the value. Toasts are constructors.
\<close>

section \<open>Channels and their endpoints\<close>

definition OFFICIAL_RATIO_PRESET_ID :: int where "OFFICIAL_RATIO_PRESET_ID = - 100"

text \<open>UTF-8 bytes of the preset's Chinese name.\<close>

definition OFFICIAL_RATIO_PRESET_NAME :: string where
  "OFFICIAL_RATIO_PRESET_NAME =
     [CHR 0xE5, CHR 0xAE, CHR 0x98, CHR 0xE6, CHR 0x96, CHR 0xB9, CHR 0xE5, CHR 0x80, CHR 0x8D,
      CHR 0xE7, CHR 0x8E, CHR 0x87, CHR 0xE9, CHR 0xA2, CHR 0x84, CHR 0xE8, CHR 0xAE, CHR 0xBE]"

definition OFFICIAL_RATIO_PRESET_BASE_URL :: string where
  "OFFICIAL_RATIO_PRESET_BASE_URL = ''https://basellm.github.io''"

definition OFFICIAL_RATIO_PRESET_ENDPOINT :: string where
  "OFFICIAL_RATIO_PRESET_ENDPOINT = ''/llm-metadata/api/newapi/ratio_config-v1-base.json''"

definition MODELS_DEV_PRESET_ID :: int where "MODELS_DEV_PRESET_ID = - 101"

definition MODELS_DEV_PRESET_NAME :: string where
  "MODELS_DEV_PRESET_NAME = ''models.dev '' @
     [CHR 0xE4, CHR 0xBB, CHR 0xB7, CHR 0xE6, CHR 0xA0, CHR 0xBC, CHR 0xE9, CHR 0xA2, CHR 0x84,
      CHR 0xE8, CHR 0xAE, CHR 0xBE]"

definition MODELS_DEV_PRESET_BASE_URL :: string where
  "MODELS_DEV_PRESET_BASE_URL = ''https://models.dev''"

definition MODELS_DEV_PRESET_ENDPOINT :: string where
  "MODELS_DEV_PRESET_ENDPOINT = ''https://models.dev/api.json''"

definition DEFAULT_ENDPOINT :: string where "DEFAULT_ENDPOINT = ''/api/pricing''"

text \<open>A channel of the server; a missing name or base address is the empty string.\<close>

record sync_channel =
  ch_id :: int
  ch_name :: string
  ch_base_url :: string
  ch_type :: int

record transfer_item =
  tr_key :: int
  tr_label :: string
  tr_value :: int
  tr_disabled :: bool
  tr_originalData :: sync_channel

definition transfer_of :: "sync_channel \<Rightarrow> transfer_item" where
  "transfer_of channel =
     \<lparr>tr_key = ch_id channel, tr_label = ch_name channel, tr_value = ch_id channel, tr_disabled = False,
      tr_originalData = channel\<rparr>"

text \<open>The property name of a numeric key.\<close>

definition id_key :: "int \<Rightarrow> string" where
  "id_key i = number_to_string (Fin (of_int i))"

definition preset_endpoint :: "transfer_item \<Rightarrow> string" where
  "preset_endpoint channel =
     (let id = tr_key channel; base = ch_base_url (tr_originalData channel); name = tr_label channel;
          isOfficialRatioPreset = (id = OFFICIAL_RATIO_PRESET_ID \<or> base = OFFICIAL_RATIO_PRESET_BASE_URL \<or>
            name = OFFICIAL_RATIO_PRESET_NAME);
          isModelsDevPreset = (id = MODELS_DEV_PRESET_ID \<or> base = MODELS_DEV_PRESET_BASE_URL \<or>
            name = MODELS_DEV_PRESET_NAME);
          isOpenRouter = (ch_type (tr_originalData channel) = 20) in
      if isModelsDevPreset then MODELS_DEV_PRESET_ENDPOINT
      else if isOfficialRatioPreset then OFFICIAL_RATIO_PRESET_ENDPOINT
      else if isOpenRouter then ''openrouter'' else DEFAULT_ENDPOINT)"

text \<open>\<open>channelEndpoints[id]\<close>, where the empty string and a missing entry count as unset.\<close>

definition endpoint_of :: "string jsobj \<Rightarrow> int \<Rightarrow> string option" where
  "endpoint_of endpoints i =
     (case map_of endpoints (id_key i) of
        Some e \<Rightarrow> if e = [] then None else Some e
      | None \<Rightarrow> None)"

definition merge_endpoint :: "string jsobj \<Rightarrow> transfer_item \<Rightarrow> string jsobj" where
  "merge_endpoint merged channel =
     (case endpoint_of merged (tr_key channel) of
        None \<Rightarrow> obj_set (id_key (tr_key channel)) (preset_endpoint channel) merged
      | Some _ \<Rightarrow> merged)"

definition mergeEndpoints :: "string jsobj \<Rightarrow> transfer_item list \<Rightarrow> string jsobj" where
  "mergeEndpoints prev transferData = foldl merge_endpoint prev transferData"

section \<open>Fields\<close>

definition ratioSyncFields :: "string list" where
  "ratioSyncFields =
     [''model_ratio'', ''completion_ratio'', ''cache_ratio'', ''create_cache_ratio'', ''image_ratio'',
      ''audio_ratio'', ''audio_completion_ratio'']"

definition numericSyncFields :: "string list" where
  "numericSyncFields = ratioSyncFields @ [''model_price'']"

definition syncFieldOrder :: "string list" where
  "syncFieldOrder = ratioSyncFields @ [''model_price'', ''billing_mode'', ''billing_expr'']"

definition getOrderedRatioTypes :: "string \<Rightarrow> jsval jsobj \<Rightarrow> string list" where
  "getOrderedRatioTypes ratioTypeFilter ratioTypes =
     (let keys = obj_keys ratioTypes;
          ordered = filter (\<lambda>field. field \<in> set keys) syncFieldOrder
            @ filter (\<lambda>field. field \<notin> set syncFieldOrder) keys in
      if ratioTypeFilter \<noteq> [] then filter (\<lambda>field. field = ratioTypeFilter) ordered else ordered)"

datatype category = PriceCategory | TieredCategory | RatioCategory

definition getBillingCategory :: "string \<Rightarrow> category" where
  "getBillingCategory ratioType =
     (if ratioType = ''model_price'' then PriceCategory
      else if ratioType = ''billing_mode'' \<or> ratioType = ''billing_expr'' then TieredCategory
      else RatioCategory)"

text \<open>Field names are ASCII, where \<open>toUpperCase\<close> changes the letters only.\<close>

definition upper_char :: "char \<Rightarrow> char" where
  "upper_char c = (if 97 \<le> (of_char c :: nat) \<and> (of_char c :: nat) \<le> 122 then char_of (of_char c - 32 :: nat) else c)"

fun capitalise :: "string \<Rightarrow> string" where
  "capitalise [] = []"
| "capitalise (c # s) = upper_char c # s"

definition optionKeyBySyncField :: "string \<Rightarrow> string" where
  "optionKeyBySyncField ratioType =
     (if ratioType = ''billing_mode'' then ''billing_setting.billing_mode''
      else if ratioType = ''billing_expr'' then ''billing_setting.billing_expr''
      else concat (map capitalise (split_char CHR ''_'' ratioType)))"

section \<open>Upstream values\<close>

type_synonym differences = "jsval jsobj jsobj"
type_synonym resolutions = "jsval jsobj jsobj"

text \<open>\<open>differences[model]?.[ratioType]?.upstreams?.[sourceName]\<close>\<close>

definition getUpstreamValue :: "differences \<Rightarrow> string \<Rightarrow> string \<Rightarrow> string \<Rightarrow> jsval" where
  "getUpstreamValue ds model ratioType sourceName =
     (case map_of ds model of
        None \<Rightarrow> Undef
      | Some ratioTypes \<Rightarrow> get_prop (get_prop (lookup ratioTypes ratioType) ''upstreams'') sourceName)"

definition isSelectableUpstreamValue :: "jsval \<Rightarrow> bool" where
  "isSelectableUpstreamValue v \<longleftrightarrow> v \<noteq> Null \<and> v \<noteq> Undef \<and> v \<noteq> Str ''same''"

definition getPreferredSyncField :: "differences \<Rightarrow> string \<Rightarrow> string \<Rightarrow> string \<Rightarrow> string" where
  "getPreferredSyncField ds model ratioType sourceName =
     (let exprValue = getUpstreamValue ds model ''billing_expr'' sourceName in
      if ratioType \<noteq> ''billing_expr'' \<and> isSelectableUpstreamValue exprValue then ''billing_expr'' else ratioType)"

definition shouldShowSyncField :: "differences \<Rightarrow> string \<Rightarrow> string \<Rightarrow> string \<Rightarrow> bool" where
  "shouldShowSyncField ds model ratioType sourceName \<longleftrightarrow>
     sourceName = [] \<or> getPreferredSyncField ds model ratioType sourceName = ratioType"

section \<open>Ticking values\<close>

definition deleteResolutionField :: "string \<Rightarrow> string \<Rightarrow> resolutions \<Rightarrow> resolutions" where
  "deleteResolutionField model ratioType newRes =
     (case map_of newRes model of
        None \<Rightarrow> newRes
      | Some res \<Rightarrow>
          (let a = obj_del ratioType res;
               b = (if ratioType = ''billing_expr'' then obj_del ''billing_mode'' a else a);
               c = (if ratioType = ''billing_mode'' then obj_del ''billing_expr'' b else b) in
           if c = [] then obj_del model newRes else obj_set model c newRes))"

text \<open>The updater that \<open>selectValue\<close> passes to \<open>setResolutions\<close>, for one model's object.\<close>

definition dropOtherCategory :: "category \<Rightarrow> jsval jsobj \<Rightarrow> jsval jsobj" where
  "dropOtherCategory category res =
     filter (\<lambda>(rt, _). \<not> (category \<noteq> TieredCategory \<and> getBillingCategory rt \<noteq> TieredCategory \<and>
       getBillingCategory rt \<noteq> category)) res"

definition tieredCompanions :: "differences \<Rightarrow> string \<Rightarrow> string \<Rightarrow> string \<Rightarrow> jsval jsobj \<Rightarrow> jsval jsobj" where
  "tieredCompanions ds model ratioType sourceName res =
     (let modeValue = getUpstreamValue ds model ''billing_mode'' sourceName;
          exprValue = getUpstreamValue ds model ''billing_expr'' sourceName;
          withMode =
            (if isSelectableUpstreamValue modeValue then obj_set ''billing_mode'' modeValue res
             else if ratioType = ''billing_expr'' then obj_set ''billing_mode'' (Str ''tiered_expr'') res
             else res) in
      if isSelectableUpstreamValue exprValue then obj_set ''billing_expr'' exprValue withMode else withMode)"

definition selectValue ::
  "differences \<Rightarrow> string \<Rightarrow> string \<Rightarrow> jsval \<Rightarrow> string \<Rightarrow> resolutions \<Rightarrow> resolutions" where
  "selectValue ds model ratioType v sourceName prev =
     (let preferred = (if sourceName \<noteq> [] then getPreferredSyncField ds model ratioType sourceName else ratioType);
          preferredValue = (if preferred = ratioType then v else getUpstreamValue ds model preferred sourceName);
          category = getBillingCategory preferred;
          kept = dropOtherCategory category (case map_of prev model of Some res \<Rightarrow> res | None \<Rightarrow> []);
          chosen = obj_set preferred preferredValue kept;
          newModelRes =
            (if category = TieredCategory \<and> sourceName \<noteq> []
             then tieredCompanions ds model preferred sourceName chosen else chosen) in
      obj_set model newModelRes prev)"

section \<open>The table\<close>

record diff_row =
  row_model :: string
  row_types :: "jsval jsobj"
  billingConflict :: bool

definition dataSource :: "differences \<Rightarrow> diff_row list" where
  "dataSource ds =
     map (\<lambda>(model, ratioTypes).
       let hasPrice = (map_of ratioTypes ''model_price'' \<noteq> None);
           hasOtherRatio = list_ex (\<lambda>rt. map_of ratioTypes rt \<noteq> None) ratioSyncFields in
       \<lparr>row_model = model, row_types = ratioTypes, billingConflict = hasPrice \<and> hasOtherRatio\<rparr>) (obj_entries ds)"

definition filteredDataSource :: "(string \<Rightarrow> string) \<Rightarrow> string \<Rightarrow> string \<Rightarrow> differences \<Rightarrow> diff_row list" where
  "filteredDataSource lower searchKeyword ratioTypeFilter ds =
     (if trim searchKeyword = [] \<and> ratioTypeFilter = [] then dataSource ds
      else filter (\<lambda>item.
        (trim searchKeyword = [] \<or> js_includes (lower (row_model item)) (trim (lower searchKeyword))) \<and>
        (ratioTypeFilter = [] \<or> map_of (row_types item) ratioTypeFilter \<noteq> None)) (dataSource ds))"

text \<open>\<open>row.ratioTypes[ratioType]?.upstreams || {}\<close>: the server sends an object or nothing.\<close>

definition upstreams_of :: "jsval jsobj \<Rightarrow> string \<Rightarrow> jsval jsobj" where
  "upstreams_of ratioTypes ratioType =
     (case get_prop (lookup ratioTypes ratioType) ''upstreams'' of Obj ob \<Rightarrow> ob | _ \<Rightarrow> [])"

definition row_value :: "diff_row \<Rightarrow> string \<Rightarrow> string \<Rightarrow> jsval" where
  "row_value row ratioType upName =
     get_prop (get_prop (lookup (row_types row) ratioType) ''upstreams'') upName"

definition upstreamNames :: "string \<Rightarrow> diff_row list \<Rightarrow> string list" where
  "upstreamNames ratioTypeFilter rows =
     uniq (concat (map (\<lambda>row. concat (map (\<lambda>ratioType. obj_keys (upstreams_of (row_types row) ratioType))
       (getOrderedRatioTypes ratioTypeFilter (row_types row)))) rows))"

text \<open>A cell of \<open>renderUpstreamField\<close>: the text shown, and whether it is marked as unreliable.\<close>

datatype sync_cell = UnsetTag | SameTag | ValueBox bool string bool | ValueTag string bool

definition resolved :: "resolutions \<Rightarrow> string \<Rightarrow> string \<Rightarrow> jsval" where
  "resolved res model ratioType =
     (case map_of res model of Some ratios \<Rightarrow> lookup ratios ratioType | None \<Rightarrow> Undef)"

definition renderUpstreamField ::
  "differences \<Rightarrow> resolutions \<Rightarrow> diff_row \<Rightarrow> string \<Rightarrow> string \<Rightarrow> sync_cell" where
  "renderUpstreamField ds res record ratioType upName =
     (let diff = lookup (row_types record) ratioType;
          upstreamVal = row_value record ratioType upName;
          isConfident = (get_prop (get_prop diff ''confidence'') upName \<noteq> Bool False);
          isPreferredField = (getPreferredSyncField ds (row_model record) ratioType upName = ratioType) in
      if upstreamVal = Null \<or> upstreamVal = Undef then UnsetTag
      else if upstreamVal = Str ''same'' then SameTag
      else if isPreferredField
        then ValueBox (strict_eq (resolved res (row_model record) ratioType) upstreamVal)
               (js_String upstreamVal) (\<not> isConfident)
        else ValueTag (js_String upstreamVal) (\<not> isConfident))"

definition renderUpstreamFields ::
  "string \<Rightarrow> differences \<Rightarrow> resolutions \<Rightarrow> diff_row \<Rightarrow> string \<Rightarrow> (string \<times> sync_cell) list" where
  "renderUpstreamFields ratioTypeFilter ds res record upName =
     map (\<lambda>ratioType. (ratioType, renderUpstreamField ds res record ratioType upName))
       (filter (\<lambda>ratioType. shouldShowSyncField ds (row_model record) ratioType upName)
         (getOrderedRatioTypes ratioTypeFilter (row_types record)))"

definition renderCurrentFields :: "string \<Rightarrow> diff_row \<Rightarrow> (string \<times> string option) list" where
  "renderCurrentFields ratioTypeFilter record =
     map (\<lambda>ratioType.
       let current = get_prop (lookup (row_types record) ratioType) ''current'' in
       (ratioType, if current = Null \<or> current = Undef then None else Some (js_String current)))
       (getOrderedRatioTypes ratioTypeFilter (row_types record))"

text \<open>The ticks that a column offers: model, field and value, in the order the loops visit them.\<close>

definition column_ticks :: "string \<Rightarrow> differences \<Rightarrow> diff_row list \<Rightarrow> string \<Rightarrow> (string \<times> string \<times> jsval) list" where
  "column_ticks ratioTypeFilter ds rows upName =
     concat (map (\<lambda>row. map (\<lambda>ratioType. (row_model row, ratioType, row_value row ratioType upName))
       (filter (\<lambda>ratioType. getPreferredSyncField ds (row_model row) ratioType upName = ratioType \<and>
           isSelectableUpstreamValue (row_value row ratioType upName))
         (getOrderedRatioTypes ratioTypeFilter (row_types row)))) rows)"

record channel_stats =
  selectableCount :: nat
  selectedCount :: nat
  allSelected :: bool
  partiallySelected :: bool
  hasSelectableItems :: bool

definition channelStats ::
  "string \<Rightarrow> differences \<Rightarrow> resolutions \<Rightarrow> diff_row list \<Rightarrow> string \<Rightarrow> channel_stats" where
  "channelStats ratioTypeFilter ds res rows upName =
     (let ticks = column_ticks ratioTypeFilter ds rows upName;
          selectable = length ticks;
          selected = length (filter (\<lambda>(model, ratioType, v). strict_eq (resolved res model ratioType) v) ticks) in
      \<lparr>selectableCount = selectable, selectedCount = selected,
       allSelected = selectable > 0 \<and> selected = selectable,
       partiallySelected = selected > 0 \<and> selected < selectable,
       hasSelectableItems = selectable > 0\<rparr>)"

definition bulkSelect ::
  "string \<Rightarrow> differences \<Rightarrow> diff_row list \<Rightarrow> string \<Rightarrow> resolutions \<Rightarrow> resolutions" where
  "bulkSelect ratioTypeFilter ds rows upName res =
     foldl (\<lambda>r (model, ratioType, v). selectValue ds model ratioType v upName r) res
       (column_ticks ratioTypeFilter ds rows upName)"

definition bulkDeselect :: "string \<Rightarrow> diff_row list \<Rightarrow> string \<Rightarrow> resolutions \<Rightarrow> resolutions" where
  "bulkDeselect ratioTypeFilter rows upName res =
     foldl (\<lambda>r (model, ratioType). deleteResolutionField model ratioType r) res
       (concat (map (\<lambda>row. map (Pair (row_model row))
         (filter (\<lambda>ratioType. row_value row ratioType upName \<noteq> Undef)
           (getOrderedRatioTypes ratioTypeFilter (row_types row)))) rows))"

definition handleBulkSelect ::
  "string \<Rightarrow> differences \<Rightarrow> diff_row list \<Rightarrow> string \<Rightarrow> bool \<Rightarrow> resolutions \<Rightarrow> resolutions" where
  "handleBulkSelect ratioTypeFilter ds rows upName checked res =
     (if checked then bulkSelect ratioTypeFilter ds rows upName res
      else bulkDeselect ratioTypeFilter rows upName res)"

definition getCurrentPageData :: "int \<Rightarrow> int \<Rightarrow> 'a list \<Rightarrow> 'a list" where
  "getCurrentPageData page pageSize rows = js_slice ((page - 1) * pageSize) ((page - 1) * pageSize + pageSize) rows"

section \<open>Saving\<close>

definition option_keys :: "string list" where
  "option_keys =
     [''ModelRatio'', ''CompletionRatio'', ''CacheRatio'', ''CreateCacheRatio'', ''ImageRatio'', ''AudioRatio'',
      ''AudioCompletionRatio'', ''ModelPrice'', ''billing_setting.billing_mode'', ''billing_setting.billing_expr'']"

definition ratio_keys :: "string list" where
  "ratio_keys =
     [''ModelRatio'', ''CompletionRatio'', ''CacheRatio'', ''CreateCacheRatio'', ''ImageRatio'', ''AudioRatio'',
      ''AudioCompletionRatio'']"

text \<open>\<open>JSON.parse(props.options[key] || '{}')\<close>\<close>

definition parse_option :: "string jsobj \<Rightarrow> string \<Rightarrow> js_error + jsval" where
  "parse_option options key =
     (case json_parse (case map_of options key of None \<Rightarrow> ''{}'' | Some s \<Rightarrow> if s = [] then ''{}'' else s) of
        None \<Rightarrow> Inl SyntaxError
      | Some v \<Rightarrow> Inr v)"

fun parse_options :: "string jsobj \<Rightarrow> string list \<Rightarrow> js_error + (string \<times> jsval) list" where
  "parse_options options [] = Inr []"
| "parse_options options (key # keys) =
     (case parse_option options key of
        Inl e \<Rightarrow> Inl e
      | Inr v \<Rightarrow> (case parse_options options keys of Inl e \<Rightarrow> Inl e | Inr vs \<Rightarrow> Inr ((key, v) # vs)))"

definition readCurrentRatios :: "string jsobj \<Rightarrow> js_error + (string \<times> jsval) list" where
  "readCurrentRatios options = parse_options options option_keys"

text \<open>\<open>current[key][model]\<close>; reading a property of null throws.\<close>

definition read_current :: "(string \<times> jsval) list \<Rightarrow> string \<Rightarrow> string \<Rightarrow> js_error + jsval" where
  "read_current current key model =
     (case lookup current key of
        Undef \<Rightarrow> Inl TypeError
      | Null \<Rightarrow> Inl TypeError
      | v \<Rightarrow> Inr (lookup (own_props v) model))"

fun any_defined :: "(string \<times> jsval) list \<Rightarrow> string \<Rightarrow> string list \<Rightarrow> js_error + bool" where
  "any_defined current model [] = Inr False"
| "any_defined current model (key # keys) =
     (case read_current current key model of
        Inl e \<Rightarrow> Inl e
      | Inr v \<Rightarrow> if v \<noteq> Undef then Inr True else any_defined current model keys)"

definition getLocalBillingCategory :: "(string \<times> jsval) list \<Rightarrow> string \<Rightarrow> js_error + category option" where
  "getLocalBillingCategory current model =
     (case read_current current ''ModelPrice'' model of
        Inl e \<Rightarrow> Inl e
      | Inr v \<Rightarrow>
          if v \<noteq> Undef then Inr (Some PriceCategory)
          else map_sum id (\<lambda>b. if b then Some RatioCategory else None) (any_defined current model ratio_keys))"

definition new_category :: "jsval jsobj \<Rightarrow> category" where
  "new_category ratios =
     (if map_of ratios ''model_price'' \<noteq> None then PriceCategory
      else if list_ex (\<lambda>rt. map_of ratios rt \<noteq> None) ratioSyncFields then RatioCategory
      else TieredCategory)"

definition findSourceChannel :: "string \<Rightarrow> differences \<Rightarrow> string \<Rightarrow> string \<Rightarrow> jsval \<Rightarrow> string" where
  "findSourceChannel unknown ds model ratioType v =
     (case map_of ds model of
        None \<Rightarrow> unknown
      | Some ratioTypes \<Rightarrow>
          if truthy (lookup ratioTypes ratioType) then
            (case List.find (\<lambda>(_, w). strict_eq w v) (obj_entries (upstreams_of ratioTypes ratioType)) of
               Some (name, _) \<Rightarrow> name
             | None \<Rightarrow> unknown)
          else unknown)"

text \<open>How a model is billed, as the dialog describes it: a price, or a model and a completion ratio.\<close>

datatype billing_desc = PriceDesc jsval | RatioDesc jsval jsval

definition or_dash :: "jsval \<Rightarrow> jsval" where
  "or_dash v = (if v = Null \<or> v = Undef then Str ''-'' else v)"

record conflict_item =
  cf_channel :: string
  cf_model :: string
  cf_current :: billing_desc
  cf_newVal :: billing_desc

definition current_desc :: "(string \<times> jsval) list \<Rightarrow> string \<Rightarrow> category \<Rightarrow> js_error + billing_desc" where
  "current_desc current model localCat =
     (if localCat = PriceCategory then map_sum id PriceDesc (read_current current ''ModelPrice'' model)
      else
        (case read_current current ''ModelRatio'' model of
           Inl e \<Rightarrow> Inl e
         | Inr v \<Rightarrow> map_sum id (\<lambda>w. RatioDesc (or_dash v) (or_dash w)) (read_current current ''CompletionRatio'' model)))"

definition conflict_of ::
  "string \<Rightarrow> differences \<Rightarrow> (string \<times> jsval) list \<Rightarrow> string \<Rightarrow> jsval jsobj \<Rightarrow> js_error + conflict_item option" where
  "conflict_of unknown ds current model ratios =
     (case getLocalBillingCategory current model of
        Inl e \<Rightarrow> Inl e
      | Inr None \<Rightarrow> Inr None
      | Inr (Some localCat) \<Rightarrow>
          (let newCat = new_category ratios in
           if newCat \<noteq> TieredCategory \<and> localCat \<noteq> newCat then
             map_sum id (\<lambda>desc. Some
               \<lparr>cf_channel = js_join '', ''
                  (uniq (map (\<lambda>(rt, v). findSourceChannel unknown ds model rt v) (obj_entries ratios))),
                cf_model = model,
                cf_current = desc,
                cf_newVal = (if newCat = PriceCategory then PriceDesc (lookup ratios ''model_price'')
                   else RatioDesc (or_dash (lookup ratios ''model_ratio''))
                     (or_dash (lookup ratios ''completion_ratio'')))\<rparr>) (current_desc current model localCat)
           else Inr None))"

fun collect_conflicts ::
  "string \<Rightarrow> differences \<Rightarrow> (string \<times> jsval) list \<Rightarrow> resolutions \<Rightarrow> js_error + conflict_item list" where
  "collect_conflicts unknown ds current [] = Inr []"
| "collect_conflicts unknown ds current ((model, ratios) # rest) =
     (case conflict_of unknown ds current model ratios of
        Inl e \<Rightarrow> Inl e
      | Inr c \<Rightarrow>
          (case collect_conflicts unknown ds current rest of
             Inl e \<Rightarrow> Inl e
           | Inr cs \<Rightarrow> Inr (case c of Some item \<Rightarrow> item # cs | None \<Rightarrow> cs)))"

text \<open>\<open>delete finalRatios[key][model]\<close> for each of the keys.\<close>

definition drop_model :: "string list \<Rightarrow> string \<Rightarrow> option_objects \<Rightarrow> option_objects" where
  "drop_model keys model out = map (\<lambda>(k, ob). (k, if k \<in> set keys then obj_del model ob else ob)) out"

definition sync_value :: "string \<Rightarrow> jsval \<Rightarrow> jsval" where
  "sync_value ratioType v = (if ratioType \<in> set numericSyncFields then Num (parseFloat (js_String v)) else v)"

text \<open>A field that names no option has no object to write to: a TypeError.\<close>

fun put_fields :: "string \<Rightarrow> jsval jsobj \<Rightarrow> option_objects \<Rightarrow> js_error + option_objects" where
  "put_fields model [] out = Inr out"
| "put_fields model ((ratioType, v) # rest) out =
     (if optionKeyBySyncField ratioType \<in> fst ` set out
      then put_fields model rest
        (put_value (optionKeyBySyncField ratioType) model (sync_value ratioType v) out)
      else Inl TypeError)"

definition sync_model :: "string \<Rightarrow> jsval jsobj \<Rightarrow> option_objects \<Rightarrow> js_error + option_objects" where
  "sync_model model ratios out =
     (let selectedTypes = obj_keys ratios;
          hasPrice = (''model_price'' \<in> set selectedTypes);
          hasRatio = list_ex (\<lambda>rt. rt \<in> set ratioSyncFields) selectedTypes;
          noRatios = (if hasPrice then drop_model ratio_keys model out else out);
          noPrice = (if hasRatio then drop_model [''ModelPrice''] model noRatios else noRatios) in
      put_fields model (obj_entries ratios) noPrice)"

fun sync_models :: "resolutions \<Rightarrow> option_objects \<Rightarrow> js_error + option_objects" where
  "sync_models [] out = Inr out"
| "sync_models ((model, ratios) # rest) out =
     (case sync_model model ratios out of Inl e \<Rightarrow> Inl e | Inr out' \<Rightarrow> sync_models rest out')"

definition finalRatios :: "(string \<times> jsval) list \<Rightarrow> resolutions \<Rightarrow> js_error + option_objects" where
  "finalRatios current res = sync_models (obj_entries res) (map (\<lambda>(k, v). (k, own_props v)) current)"

definition saveRequests :: "option_objects \<Rightarrow> (string \<times> string) list" where
  "saveRequests out = map (\<lambda>(k, ob). (k, the (json_pretty [] (Obj ob)))) out"

text \<open>The updater that forgets the differences saved.\<close>

definition dropDifference :: "string \<Rightarrow> differences \<Rightarrow> string \<Rightarrow> differences" where
  "dropDifference model ds ratioType =
     (case map_of ds model of
        None \<Rightarrow> ds
      | Some ratioTypes \<Rightarrow>
          if truthy (lookup ratioTypes ratioType) then
            (let rest = obj_del ratioType ratioTypes in
             if rest = [] then obj_del model ds else obj_set model rest ds)
          else ds)"

definition dropDifferences :: "resolutions \<Rightarrow> differences \<Rightarrow> differences" where
  "dropDifferences res ds =
     foldl (\<lambda>d (model, ratios). foldl (dropDifference model) d (obj_keys ratios)) ds (obj_entries res)"

end
