(* ===== verification/Ratio_Sync_Page.thy ===== *)
theory Ratio_Sync_Page
  imports Ratio_Sync
begin

text \<open>
  The page of the upstream price synchronisation as a state machine
  (\<open>src/web/src/pages/Setting/Ratio/UpstreamRatioSync.jsx\<close>): the component's state, its handlers
  and the requests under way, whose answers arrive in any order. A handler runs under the condition
  that its control is shown and not disabled. A save works on the resolutions of the moment it was
  started; they travel with the request.
\<close>

section \<open>State\<close>

record sync_page =
  modalVisible :: bool
  pageLoading :: bool
  syncLoading :: bool
  confirmLoading :: bool
  allChannels :: "transfer_item list"
  selectedChannelIds :: "int list"
  channelEndpoints :: "string jsobj"
  differences :: differences
  resolutions :: resolutions
  hasSynced :: bool
  syncCurrentPage :: int
  syncPageSize :: int
  searchKeyword :: string
  ratioTypeFilter :: string
  confirmVisible :: bool
  conflictItems :: "conflict_item list"

definition initialSyncPage :: sync_page where
  "initialSyncPage =
     \<lparr>modalVisible = False, pageLoading = False, syncLoading = False, confirmLoading = False,
      allChannels = [], selectedChannelIds = [], channelEndpoints = [], differences = [], resolutions = [],
      hasSynced = False, syncCurrentPage = 1, syncPageSize = 10, searchKeyword = [], ratioTypeFilter = [],
      confirmVisible = False, conflictItems = []\<rparr>"

text \<open>The requests under way; a save remembers its resolutions and whether the dialog started it.\<close>

datatype sync_job =
    FetchingChannels
  | FetchingRatios
  | Saving resolutions "(string \<times> string) list" bool

type_synonym sync_world = "sync_job list \<times> sync_page"

section \<open>Loading channels and differences\<close>

datatype channels_answer = ChannelsThrown string | ChannelsRefused string | ChannelsGiven "sync_channel list"

definition receiveChannels :: "channels_answer \<Rightarrow> sync_page \<Rightarrow> sync_page" where
  "receiveChannels answer st =
     (case answer of
        ChannelsGiven channels \<Rightarrow>
          (let transferData = map transfer_of channels in
           st\<lparr>allChannels := transferData,
              channelEndpoints := mergeEndpoints (channelEndpoints st) transferData,
              pageLoading := False\<rparr>)
      | _ \<Rightarrow> st\<lparr>pageLoading := False\<rparr>)"

definition openSelector :: "sync_page \<Rightarrow> sync_job list \<times> sync_page" where
  "openSelector st =
     (if allChannels st = [] then ([FetchingChannels], st\<lparr>modalVisible := True, pageLoading := True\<rparr>)
      else ([], st\<lparr>modalVisible := True\<rparr>))"

record upstream_request =
  up_id :: int
  up_name :: string
  up_base_url :: string
  up_endpoint :: string

definition upstream_requests :: "string jsobj \<Rightarrow> sync_channel list \<Rightarrow> upstream_request list" where
  "upstream_requests endpoints channelList =
     map (\<lambda>ch. \<lparr>up_id = ch_id ch, up_name = ch_name ch, up_base_url = ch_base_url ch,
        up_endpoint = (case endpoint_of endpoints (ch_id ch) of Some e \<Rightarrow> e | None \<Rightarrow> DEFAULT_ENDPOINT)\<rparr>) channelList"

definition selectedChannels :: "sync_page \<Rightarrow> sync_channel list" where
  "selectedChannels st =
     map tr_originalData (filter (\<lambda>ch. tr_value ch \<in> set (selectedChannelIds st)) (allChannels st))"

text \<open>\<open>Inl ()\<close> is the warning that no channel is chosen; otherwise the request body is sent.\<close>

definition confirmChannelSelection :: "sync_page \<Rightarrow> unit + upstream_request list \<times> sync_page" where
  "confirmChannelSelection st =
     (if selectedChannels st = [] then Inl ()
      else Inr (upstream_requests (channelEndpoints st) (selectedChannels st),
                st\<lparr>modalVisible := False, syncLoading := True\<rparr>))"

record test_result =
  test_name :: string
  test_status :: string
  test_error :: string

datatype ratios_answer = RatiosThrown string | RatiosRefused string | RatiosGiven differences "test_result list"

datatype sync_notice = SomeFailed "(string \<times> string) list" | NothingToSync | FetchFailed string

definition receiveRatios :: "ratios_answer \<Rightarrow> sync_page \<Rightarrow> sync_notice list \<times> sync_page" where
  "receiveRatios answer st =
     (case answer of
        RatiosGiven ds tests \<Rightarrow>
          (let errorResults = filter (\<lambda>r. test_status r = ''error'') tests in
           ((if errorResults \<noteq> [] then [SomeFailed (map (\<lambda>r. (test_name r, test_error r)) errorResults)] else []) @
            (if ds = [] then [NothingToSync] else []),
            st\<lparr>differences := ds, resolutions := [], hasSynced := True, syncLoading := False\<rparr>))
      | RatiosRefused msg \<Rightarrow> ([FetchFailed msg], st\<lparr>syncLoading := False\<rparr>)
      | RatiosThrown msg \<Rightarrow> ([FetchFailed msg], st\<lparr>syncLoading := False\<rparr>))"

definition updateChannelEndpoint :: "int \<Rightarrow> string \<Rightarrow> sync_page \<Rightarrow> sync_page" where
  "updateChannelEndpoint channelId endpoint st =
     st\<lparr>channelEndpoints := obj_set (id_key channelId) endpoint (channelEndpoints st)\<rparr>"

definition handleModalClose :: "sync_page \<Rightarrow> sync_page" where
  "handleModalClose st = st\<lparr>modalVisible := False\<rparr>"

section \<open>The table's controls\<close>

definition controls_enabled :: "sync_page \<Rightarrow> bool" where
  "controls_enabled st \<longleftrightarrow> \<not> (pageLoading st \<or> syncLoading st \<or> confirmLoading st)"

definition shownRows :: "(string \<Rightarrow> string) \<Rightarrow> sync_page \<Rightarrow> diff_row list" where
  "shownRows lower st = filteredDataSource lower (searchKeyword st) (ratioTypeFilter st) (differences st)"

definition shownColumns :: "(string \<Rightarrow> string) \<Rightarrow> sync_page \<Rightarrow> string list" where
  "shownColumns lower st = upstreamNames (ratioTypeFilter st) (shownRows lower st)"

definition pageRows :: "(string \<Rightarrow> string) \<Rightarrow> sync_page \<Rightarrow> diff_row list" where
  "pageRows lower st = getCurrentPageData (syncCurrentPage st) (syncPageSize st) (shownRows lower st)"

text \<open>The search text and the field filter are dependencies of the effect that goes back to page 1.\<close>

definition changeSearchKeyword :: "string \<Rightarrow> sync_page \<Rightarrow> sync_page" where
  "changeSearchKeyword s st =
     (if s = searchKeyword st then st else st\<lparr>searchKeyword := s, syncCurrentPage := 1\<rparr>)"

definition changeRatioTypeFilter :: "string \<Rightarrow> sync_page \<Rightarrow> sync_page" where
  "changeRatioTypeFilter f st =
     (if f = ratioTypeFilter st then st else st\<lparr>ratioTypeFilter := f, syncCurrentPage := 1\<rparr>)"

definition changePage :: "int \<Rightarrow> int \<Rightarrow> sync_page \<Rightarrow> sync_page" where
  "changePage page pageSize st = st\<lparr>syncCurrentPage := page, syncPageSize := pageSize\<rparr>"

definition changePageSize :: "int \<Rightarrow> sync_page \<Rightarrow> sync_page" where
  "changePageSize pageSize st = st\<lparr>syncCurrentPage := 1, syncPageSize := pageSize\<rparr>"

definition toggleValue :: "diff_row \<Rightarrow> string \<Rightarrow> string \<Rightarrow> bool \<Rightarrow> sync_page \<Rightarrow> sync_page" where
  "toggleValue record ratioType upName isChecked st =
     st\<lparr>resolutions :=
        (if isChecked
         then selectValue (differences st) (row_model record) ratioType (row_value record ratioType upName) upName
                (resolutions st)
         else deleteResolutionField (row_model record) ratioType (resolutions st))\<rparr>"

definition toggleColumn :: "(string \<Rightarrow> string) \<Rightarrow> string \<Rightarrow> bool \<Rightarrow> sync_page \<Rightarrow> sync_page" where
  "toggleColumn lower upName checked st =
     st\<lparr>resolutions := handleBulkSelect (ratioTypeFilter st) (differences st) (shownRows lower st) upName checked
        (resolutions st)\<rparr>"

section \<open>Saving\<close>

definition performSync :: "(string \<times> jsval) list \<Rightarrow> bool \<Rightarrow> sync_page \<Rightarrow> js_error + sync_job \<times> sync_page" where
  "performSync current fromDialog st =
     (case finalRatios current (resolutions st) of
        Inl e \<Rightarrow> Inl e
      | Inr final \<Rightarrow> Inr (Saving (resolutions st) (saveRequests final) fromDialog, st\<lparr>pageLoading := True\<rparr>))"

text \<open>\<open>applySync\<close>: with conflicts the dialog is opened, without them the save starts.\<close>

definition applySync :: "string \<Rightarrow> string jsobj \<Rightarrow> sync_page \<Rightarrow> js_error + sync_job list \<times> sync_page" where
  "applySync unknown options st =
     (case readCurrentRatios options of
        Inl e \<Rightarrow> Inl e
      | Inr current \<Rightarrow>
          (case collect_conflicts unknown (differences st) current (obj_entries (resolutions st)) of
             Inl e \<Rightarrow> Inl e
           | Inr conflicts \<Rightarrow>
               if conflicts \<noteq> [] then Inr ([], st\<lparr>conflictItems := conflicts, confirmVisible := True\<rparr>)
               else map_sum id (\<lambda>(job, st'). ([job], st')) (performSync current False st)))"

text \<open>
  The dialog's OK. The options are parsed before the \<open>try\<close>: an exception there leaves
  \<open>confirmLoading\<close> set, one in \<open>performSync\<close> is followed by the \<open>finally\<close>.
\<close>

definition confirmOk :: "string jsobj \<Rightarrow> sync_page \<Rightarrow> sync_job list \<times> sync_page" where
  "confirmOk options st =
     (let busy = st\<lparr>confirmLoading := True\<rparr> in
      case readCurrentRatios options of
        Inl e \<Rightarrow> ([], busy)
      | Inr current \<Rightarrow>
          (case performSync current True busy of
             Inl e \<Rightarrow> ([], busy\<lparr>confirmLoading := False\<rparr>)
           | Inr (job, st') \<Rightarrow> ([job], st')))"

text \<open>The end of a save: every request answered with success, or not.\<close>

definition finishSync :: "resolutions \<Rightarrow> bool \<Rightarrow> bool \<Rightarrow> sync_page \<Rightarrow> sync_page" where
  "finishSync saved fromDialog success st =
     (let st1 = (if success
                 then st\<lparr>differences := dropDifferences saved (differences st), resolutions := []\<rparr> else st);
          st2 = st1\<lparr>pageLoading := False\<rparr> in
      if fromDialog
      then st2\<lparr>confirmVisible := (if success then False else confirmVisible st2), confirmLoading := False\<rparr>
      else st2)"

section \<open>Runs\<close>

text \<open>The server's differences are objects: no key occurs twice.\<close>

fun answer_objects :: "ratios_answer \<Rightarrow> bool" where
  "answer_objects (RatiosGiven ds tests) = (distinct (map fst ds) \<and> list_all (\<lambda>(m, rts). distinct (map fst rts)) ds)"
| "answer_objects _ = True"

inductive sync_step :: "(string \<Rightarrow> string) \<Rightarrow> string \<Rightarrow> sync_world \<Rightarrow> sync_world \<Rightarrow> bool" for lower unknown where
  open_selector: "controls_enabled st \<Longrightarrow> openSelector st = (new, st') \<Longrightarrow>
    sync_step lower unknown (jobs, st) (new @ jobs, st')"
| channels_arrive: "FetchingChannels \<in> set jobs \<Longrightarrow>
    sync_step lower unknown (jobs, st) (remove1 FetchingChannels jobs, receiveChannels answer st)"
| choose_channels: "modalVisible st \<Longrightarrow> sync_step lower unknown (jobs, st) (jobs, st\<lparr>selectedChannelIds := ids\<rparr>)"
| choose_endpoint: "modalVisible st \<Longrightarrow> sync_step lower unknown (jobs, st) (jobs, updateChannelEndpoint i e st)"
| close_selector: "modalVisible st \<Longrightarrow> sync_step lower unknown (jobs, st) (jobs, handleModalClose st)"
| confirm_selector: "modalVisible st \<Longrightarrow> confirmChannelSelection st = Inr (payload, st') \<Longrightarrow>
    sync_step lower unknown (jobs, st) (FetchingRatios # jobs, st')"
| ratios_arrive: "FetchingRatios \<in> set jobs \<Longrightarrow> answer_objects answer \<Longrightarrow> receiveRatios answer st = (notices, st') \<Longrightarrow>
    sync_step lower unknown (jobs, st) (remove1 FetchingRatios jobs, st')"
| search: "controls_enabled st \<Longrightarrow> sync_step lower unknown (jobs, st) (jobs, changeSearchKeyword s st)"
| filter_field: "controls_enabled st \<Longrightarrow> sync_step lower unknown (jobs, st) (jobs, changeRatioTypeFilter f st)"
| turn_page: "sync_step lower unknown (jobs, st) (jobs, changePage page pageSize st)"
| resize_page: "sync_step lower unknown (jobs, st) (jobs, changePageSize pageSize st)"
| tick_value: "controls_enabled st \<Longrightarrow> record \<in> set (pageRows lower st) \<Longrightarrow> upName \<in> set (shownColumns lower st) \<Longrightarrow>
    (ratioType, ValueBox checked shown doubtful) \<in>
      set (renderUpstreamFields (ratioTypeFilter st) (differences st) (resolutions st) record upName) \<Longrightarrow>
    sync_step lower unknown (jobs, st) (jobs, toggleValue record ratioType upName isChecked st)"
| tick_column: "controls_enabled st \<Longrightarrow> upName \<in> set (shownColumns lower st) \<Longrightarrow>
    hasSelectableItems (channelStats (ratioTypeFilter st) (differences st) (resolutions st) (shownRows lower st) upName) \<Longrightarrow>
    sync_step lower unknown (jobs, st) (jobs, toggleColumn lower upName checked st)"
| apply_sync: "controls_enabled st \<Longrightarrow> resolutions st \<noteq> [] \<Longrightarrow> applySync unknown options st = Inr (new, st') \<Longrightarrow>
    sync_step lower unknown (jobs, st) (new @ jobs, st')"
| confirm_ok: "confirmVisible st \<Longrightarrow> \<not> confirmLoading st \<Longrightarrow> confirmOk options st = (new, st') \<Longrightarrow>
    sync_step lower unknown (jobs, st) (new @ jobs, st')"
| confirm_cancel: "confirmVisible st \<Longrightarrow> \<not> confirmLoading st \<Longrightarrow>
    sync_step lower unknown (jobs, st) (jobs, st\<lparr>confirmVisible := False\<rparr>)"
| save_ends: "Saving saved requests fromDialog \<in> set jobs \<Longrightarrow>
    sync_step lower unknown (jobs, st)
      (remove1 (Saving saved requests fromDialog) jobs, finishSync saved fromDialog success st)"

inductive sync_reach :: "(string \<Rightarrow> string) \<Rightarrow> string \<Rightarrow> sync_world \<Rightarrow> bool" for lower unknown where
  sync_start: "sync_reach lower unknown ([], initialSyncPage)"
| sync_next: "sync_reach lower unknown w \<Longrightarrow> sync_step lower unknown w w' \<Longrightarrow> sync_reach lower unknown w'"

end
