(* ===== verification/Ratio_Sync_Proofs.thy ===== *)
theory Ratio_Sync_Proofs
  imports Ratio_Sync_Page Pricing_Proofs
begin

text \<open>
  The upstream price synchronisation: the option objects as a store of (option, model) places, the
  invariant of the page over all its runs, exactly what a save writes, and the dialog that asks
  before a model changes its way of billing.
\<close>

section \<open>Objects are keyed stores\<close>

interpretation props: keyed_store "\<lambda>_ _. True" map_of obj_set obj_del
  by unfold_locales auto

definition cell_of :: "option_objects \<Rightarrow> string \<times> string \<Rightarrow> jsval option" where
  "cell_of out = (\<lambda>(key, model). case map_of out key of Some ob \<Rightarrow> map_of ob model | None \<Rightarrow> None)"

lemma map_of_objects: "map_of (map (\<lambda>(k, ob). (k, f k ob)) out) key = map_option (f key) (map_of out key)"
  by (induction out) auto

definition has_cell :: "option_objects \<Rightarrow> string \<times> string \<Rightarrow> bool" where
  "has_cell out c \<longleftrightarrow> fst c \<in> fst ` set out"

definition put_cell :: "string \<times> string \<Rightarrow> jsval \<Rightarrow> option_objects \<Rightarrow> option_objects" where
  "put_cell c v out = put_value (fst c) (snd c) v out"

definition drop_cell :: "string \<times> string \<Rightarrow> option_objects \<Rightarrow> option_objects" where
  "drop_cell c out = drop_model [fst c] (snd c) out"

lemma drop_model_keys [simp]: "map fst (drop_model keys model out) = map fst out"
  by (induction out) (auto simp: drop_model_def)

lemma has_cell_keys: "has_cell out c \<longleftrightarrow> fst c \<in> set (map fst out)"
  by (simp add: has_cell_def)

interpretation cells: keyed_store has_cell cell_of put_cell drop_cell
proof
  fix s :: option_objects and k j :: "string \<times> string" and v :: jsval
  show "cell_of (put_cell k v s) j = (if j = k then Some v else cell_of s j)" if "has_cell s k"
    using that unfolding cell_of_def put_cell_def put_value_def has_cell_def case_prod_unfold
    by (subst map_of_objects [unfolded case_prod_unfold])
      (auto simp: dom_map_of_conv_image_fst [symmetric] prod_eq_iff split: option.split)
  show "cell_of (drop_cell k s) j = (if j = k then None else cell_of s j)"
    unfolding cell_of_def drop_cell_def drop_model_def case_prod_unfold
    by (subst map_of_objects [unfolded case_prod_unfold]) (auto simp: prod_eq_iff split: option.split)
qed (simp_all only: has_cell_keys put_cell_def drop_cell_def put_value_keys_list drop_model_keys)

section \<open>One model's choice\<close>

definition unmixed :: "jsval jsobj \<Rightarrow> bool" where
  "unmixed ratios \<longleftrightarrow> \<not> (''model_price'' \<in> fst ` set ratios \<and> (\<exists>rt \<in> fst ` set ratios. getBillingCategory rt = RatioCategory))"

text \<open>A value that an upstream offers for the field, or the mode that goes with an expression.\<close>

definition offered :: "differences \<Rightarrow> string \<Rightarrow> string \<Rightarrow> jsval \<Rightarrow> bool" where
  "offered ds model rt v \<longleftrightarrow>
     (\<exists>upstream. getUpstreamValue ds model rt upstream = v) \<and> isSelectableUpstreamValue v \<or>
     rt = ''billing_mode'' \<and> v = Str ''tiered_expr''"

definition choice_ok :: "differences \<Rightarrow> string \<Rightarrow> jsval jsobj \<Rightarrow> bool" where
  "choice_ok ds model ratios \<longleftrightarrow> distinct (map fst ratios) \<and> ratios \<noteq> [] \<and> unmixed ratios \<and>
     (\<forall>(rt, v) \<in> set ratios. offered ds model rt v)"

definition choices_ok :: "differences \<Rightarrow> resolutions \<Rightarrow> bool" where
  "choices_ok ds res \<longleftrightarrow> distinct (map fst res) \<and> (\<forall>(model, ratios) \<in> set res. choice_ok ds model ratios)"

lemma unmixed_Nil [simp]: "unmixed []"
  by (simp add: unmixed_def)

lemma obj_set_not_Nil [simp]: "obj_set k v ob \<noteq> []"
  by (cases "(k, v, ob)" rule: obj_set.cases) auto

lemma obj_del_set: "set (obj_del k ob) = {p \<in> set ob. fst p \<noteq> k}"
  by (auto simp: obj_del_def)

text \<open>What is kept of a choice when values are added, dropped or overwritten.\<close>

lemma partial_choice_set:
  assumes "distinct (map fst ratios)" "\<forall>(rt, v) \<in> set ratios. offered ds model rt v" "offered ds model rt v"
  shows "distinct (map fst (obj_set rt v ratios)) \<and> (\<forall>(rt, v) \<in> set (obj_set rt v ratios). offered ds model rt v)"
  using assms obj_set_values [of rt v ratios] by auto

lemma unmixed_set_tiered: "getBillingCategory rt = TieredCategory \<Longrightarrow> unmixed (obj_set rt v ratios) = unmixed ratios"
  by (auto simp: unmixed_def obj_set_keys getBillingCategory_def split: if_splits)

lemma drop_other_keys:
  "fst ` set (dropOtherCategory c ratios) =
     {rt \<in> fst ` set ratios. c = TieredCategory \<or> getBillingCategory rt \<in> {TieredCategory, c}}"
  by (auto simp: dropOtherCategory_def)

lemma unmixed_chosen:
  assumes "unmixed ratios"
  shows "unmixed (obj_set rt v (dropOtherCategory (getBillingCategory rt) ratios))"
  using assms unfolding unmixed_def obj_set_keys drop_other_keys
  by (auto simp: getBillingCategory_def split: if_splits)

lemma offered_source: "getUpstreamValue ds model rt upstream = v \<Longrightarrow> isSelectableUpstreamValue v \<Longrightarrow> offered ds model rt v"
  by (auto simp: offered_def)

lemma tiered_companions_ok:
  assumes "choice_ok ds model ratios"
  shows "choice_ok ds model (tieredCompanions ds model rt upstream ratios)"
proof -
  have step: "choice_ok ds model (obj_set f v r)"
    if "choice_ok ds model r" "getBillingCategory f = TieredCategory" "offered ds model f v" for f v r
    using that partial_choice_set [of r ds model f v] by (simp add: choice_ok_def unmixed_set_tiered)
  have tiered: "getBillingCategory ''billing_mode'' = TieredCategory" "getBillingCategory ''billing_expr'' = TieredCategory"
    by (simp_all add: getBillingCategory_def)
  have "offered ds model ''billing_mode'' (Str ''tiered_expr'')" by (simp add: offered_def)
  with assms show ?thesis
    by (auto simp: tieredCompanions_def Let_def intro!: step tiered intro: offered_source)
qed

lemma choice_select:
  assumes "distinct (map fst ratios)" "unmixed ratios" "\<forall>(rt, v) \<in> set ratios. offered ds model rt v" "offered ds model rt v"
  shows "choice_ok ds model (obj_set rt v (dropOtherCategory (getBillingCategory rt) ratios))"
proof -
  let ?kept = "dropOtherCategory (getBillingCategory rt) ratios"
  have "distinct (map fst ?kept)" "\<forall>(rt, v) \<in> set ?kept. offered ds model rt v"
    using assms(1,3) by (auto simp: dropOtherCategory_def distinct_map_filter)
  from partial_choice_set [OF this assms(4)] show ?thesis
    using unmixed_chosen [OF assms(2)] by (simp add: choice_ok_def)
qed

lemma choices_ok_set:
  assumes "choices_ok ds res" "choice_ok ds model ratios"
  shows "choices_ok ds (obj_set model ratios res)"
  using assms obj_set_values [of model ratios res] by (auto simp: choices_ok_def)

lemma choices_ok_lookup:
  assumes "choices_ok ds res" "map_of res model = Some ratios"
  shows "choice_ok ds model ratios"
  using assms by (auto simp: choices_ok_def dest: map_of_SomeD)

lemma select_ok:
  assumes "choices_ok ds res" "getUpstreamValue ds model rt upstream = v" "isSelectableUpstreamValue v"
  shows "choices_ok ds (selectValue ds model rt v upstream res)"
proof -
  define rt' where "rt' = (if upstream \<noteq> [] then getPreferredSyncField ds model rt upstream else rt)"
  define v' where "v' = (if rt' = rt then v else getUpstreamValue ds model rt' upstream)"
  define old where "old = (case map_of res model of Some r \<Rightarrow> r | None \<Rightarrow> [])"
  have "offered ds model rt' v'"
    using assms(2,3) by (auto simp: rt'_def v'_def getPreferredSyncField_def Let_def intro: offered_source split: if_splits)
  moreover have "distinct (map fst old) \<and> unmixed old \<and> (\<forall>(rt, v) \<in> set old. offered ds model rt v)"
    using choices_ok_lookup [OF assms(1), of model]
    by (auto simp: old_def choice_ok_def split: option.splits)
  ultimately have "choice_ok ds model (obj_set rt' v' (dropOtherCategory (getBillingCategory rt') old))"
    by (intro choice_select) auto
  then show ?thesis
    unfolding selectValue_def Let_def rt'_def [symmetric] v'_def [symmetric] old_def [symmetric]
    by (intro choices_ok_set [OF assms(1)]) (auto intro: tiered_companions_ok)
qed

lemma choice_ok_less:
  assumes "choice_ok ds model ratios" "set part \<subseteq> set ratios" "distinct (map fst part)" "part \<noteq> []"
  shows "choice_ok ds model part"
proof -
  have "fst ` set part \<subseteq> fst ` set ratios" using assms(2) by (rule image_mono)
  then have "unmixed ratios \<Longrightarrow> unmixed part" unfolding unmixed_def by blast
  then show ?thesis using assms unfolding choice_ok_def by blast
qed

lemma delete_ok:
  assumes "choices_ok ds res"
  shows "choices_ok ds (deleteResolutionField model rt res)"
proof (cases "map_of res model")
  case (Some ratios)
  define left where "left = (let a = obj_del rt ratios; b = (if rt = ''billing_expr'' then obj_del ''billing_mode'' a else a)
    in if rt = ''billing_mode'' then obj_del ''billing_expr'' b else b)"
  have ok: "choice_ok ds model ratios" by (rule choices_ok_lookup [OF assms Some])
  have "set left \<subseteq> set ratios" by (auto simp: left_def Let_def obj_del_set)
  moreover have "distinct (map fst left)" using ok by (simp add: left_def Let_def choice_ok_def)
  ultimately have "choice_ok ds model left" if "left \<noteq> []" using choice_ok_less [OF ok] that by blast
  moreover have "choices_ok ds (obj_del model res)" using assms by (auto simp: choices_ok_def obj_del_set)
  moreover have "deleteResolutionField model rt res = (if left = [] then obj_del model res else obj_set model left res)"
    by (simp add: deleteResolutionField_def Some left_def Let_def)
  ultimately show ?thesis using choices_ok_set [OF assms] by simp
qed (simp add: deleteResolutionField_def assms)

section \<open>Rows and columns\<close>

definition objects :: "differences \<Rightarrow> bool" where
  "objects ds \<longleftrightarrow> distinct (map fst ds) \<and> list_all (\<lambda>(m, rts). distinct (map fst rts)) ds"

lemma dataSource_row: "row \<in> set (dataSource ds) \<Longrightarrow> (row_model row, row_types row) \<in> set ds"
  by (auto simp: dataSource_def Let_def)

lemma filtered_rows: "set (filteredDataSource lower s f ds) \<subseteq> set (dataSource ds)"
  by (auto simp: filteredDataSource_def)

lemma row_value_upstream:
  assumes "objects ds" "row \<in> set (filteredDataSource lower s f ds)"
  shows "getUpstreamValue ds (row_model row) rt up = row_value row rt up"
proof -
  have "(row_model row, row_types row) \<in> set ds" using assms(2) filtered_rows dataSource_row by blast
  then have "map_of ds (row_model row) = Some (row_types row)" using assms(1) by (simp add: objects_def)
  then show ?thesis by (simp add: getUpstreamValue_def row_value_def)
qed

lemma column_tick_value:
  assumes "objects ds" "set rows \<subseteq> set (filteredDataSource lower s f ds)" "(model, rt, v) \<in> set (column_ticks fl ds rows up)"
  shows "getUpstreamValue ds model rt up = v" "isSelectableUpstreamValue v" "getPreferredSyncField ds model rt up = rt"
  using assms row_value_upstream [OF assms(1)] by (auto simp: column_ticks_def)

lemma bulk_select_ok:
  assumes "objects ds" "set rows \<subseteq> set (filteredDataSource lower s f ds)" "choices_ok ds res"
  shows "choices_ok ds (bulkSelect fl ds rows up res)"
proof -
  have "choices_ok ds (foldl (\<lambda>r (model, rt, v). selectValue ds model rt v up r) res ticks)"
    if "set ticks \<subseteq> set (column_ticks fl ds rows up)" "choices_ok ds res" for ticks res
    using that
  proof (induction ticks arbitrary: res)
    case (Cons tick ticks)
    obtain model rt v where tick: "tick = (model, rt, v)" by (cases tick) auto
    then have "(model, rt, v) \<in> set (column_ticks fl ds rows up)" using Cons.prems(1) by simp
    note here = column_tick_value [OF assms(1,2) this]
    show ?case using Cons.IH [of "selectValue ds model rt v up res"] Cons.prems select_ok [OF _ here(1,2)] tick by simp
  qed simp
  then show ?thesis using assms(3) by (simp add: bulkSelect_def)
qed

lemma bulk_deselect_ok: "choices_ok ds res \<Longrightarrow> choices_ok ds (bulkDeselect fl rows up res)"
proof -
  assume "choices_ok ds res"
  then have "choices_ok ds (foldl (\<lambda>r (model, rt). deleteResolutionField model rt r) res ps)" for ps
    by (induction ps arbitrary: res) (auto intro: delete_ok)
  then show ?thesis by (simp add: bulkDeselect_def)
qed

section \<open>The page\<close>

definition saving_ok :: "sync_job \<Rightarrow> bool" where
  "saving_ok job \<longleftrightarrow>
     (case job of
        Saving saved requests fromDialog \<Rightarrow>
          distinct (map fst saved) \<and> (\<forall>(model, ratios) \<in> set saved. distinct (map fst ratios) \<and> unmixed ratios) \<and>
          (\<exists>options current final. readCurrentRatios options = Inr current \<and> finalRatios current saved = Inr final \<and>
             requests = saveRequests final)
      | _ \<Rightarrow> True)"

definition page_ok :: "sync_page \<Rightarrow> bool" where
  "page_ok st \<longleftrightarrow> objects (differences st) \<and> choices_ok (differences st) (resolutions st)"

lemma choices_ok_Nil [simp]: "choices_ok ds []"
  by (simp add: choices_ok_def)

lemma objects_drop: "objects ds \<Longrightarrow> objects (dropDifference model ds rt)"
proof -
  assume ds: "objects ds"
  show ?thesis
  proof (cases "map_of ds model")
    case (Some rts)
    then have "distinct (map fst (obj_del rt rts))"
      using ds by (auto simp: objects_def list_all_iff dest!: map_of_SomeD)
    then show ?thesis
      using ds Some obj_set_values [of model "obj_del rt rts" ds]
      by (auto simp: dropDifference_def objects_def list_all_iff Let_def obj_del_set)
  qed (simp add: dropDifference_def ds)
qed

lemma objects_drops: "objects ds \<Longrightarrow> objects (dropDifferences res ds)"
proof -
  have inner: "objects ds \<Longrightarrow> objects (foldl (dropDifference model) ds rts)" for model rts ds
    by (induction rts arbitrary: ds) (auto intro: objects_drop)
  have "objects ds \<Longrightarrow> objects (foldl (\<lambda>d (model, ratios). foldl (dropDifference model) d (obj_keys ratios)) ds es)" for es ds
    by (induction es arbitrary: ds) (auto intro: inner)
  then show "objects ds \<Longrightarrow> ?thesis" by (simp add: dropDifferences_def)
qed

lemma performSync_ok:
  assumes "performSync current fromDialog st = Inr (job, st')" "page_ok st" "readCurrentRatios options = Inr current"
  shows "saving_ok job \<and> page_ok st'"
proof -
  obtain final where final: "finalRatios current (resolutions st) = Inr final"
    "job = Saving (resolutions st) (saveRequests final) fromDialog" "st' = st\<lparr>pageLoading := True\<rparr>"
    using assms(1) by (auto simp: performSync_def split: sum.splits)
  have "choices_ok (differences st) (resolutions st)" using assms(2) by (simp add: page_ok_def)
  then have "distinct (map fst (resolutions st)) \<and>
      (\<forall>(model, ratios) \<in> set (resolutions st). distinct (map fst ratios) \<and> unmixed ratios)"
    by (auto simp: choices_ok_def choice_ok_def)
  then show ?thesis using final assms(2,3) unfolding saving_ok_def by (auto simp: page_ok_def)
qed

lemma toggle_ok:
  assumes "page_ok st" "row \<in> set (shownRows lower st)"
    "(rt, ValueBox c s d) \<in> set (renderUpstreamFields fl (differences st) res row up)"
  shows "page_ok (toggleValue row rt up isChecked st)"
proof -
  have ok: "objects (differences st)" "choices_ok (differences st) (resolutions st)" using assms(1) by (simp_all add: page_ok_def)
  have "isSelectableUpstreamValue (row_value row rt up)"
    using assms(3) by (auto simp: renderUpstreamFields_def renderUpstreamField_def isSelectableUpstreamValue_def Let_def split: if_splits)
  with row_value_upstream [OF ok(1) assms(2) [unfolded shownRows_def], of rt up] show ?thesis
    using ok by (auto simp: page_ok_def toggleValue_def intro: select_ok delete_ok)
qed

lemma toggle_column_ok: "page_ok st \<Longrightarrow> page_ok (toggleColumn lower up checked st)"
  unfolding page_ok_def toggleColumn_def handleBulkSelect_def shownRows_def
  by (auto intro: bulk_select_ok [OF _ subset_refl] bulk_deselect_ok)

lemma page_rows: "set (pageRows lower st) \<subseteq> set (shownRows lower st)"
  by (auto simp: pageRows_def getCurrentPageData_def js_slice_def Let_def dest: in_set_dropD in_set_takeD)

lemma applySync_ok:
  assumes "applySync unknown options st = Inr (new, st')" "page_ok st"
  shows "list_all saving_ok new \<and> page_ok st'"
proof -
  obtain current where current: "readCurrentRatios options = Inr current"
    using assms(1) by (auto simp: applySync_def split: sum.splits)
  show ?thesis
  proof (cases "new = []")
    case True
    then show ?thesis
      using assms current by (auto simp: applySync_def page_ok_def map_sum_def split: sum.splits if_splits)
  next
    case False
    then obtain job where "performSync current False st = Inr (job, st')" "new = [job]"
      using assms(1) current
      by (cases "performSync current False st") (auto simp: applySync_def split: sum.splits if_splits)
    then show ?thesis using performSync_ok [OF _ assms(2) current] by simp
  qed
qed

lemma confirmOk_ok:
  assumes "confirmOk options st = (new, st')" "page_ok st"
  shows "list_all saving_ok new \<and> page_ok st'"
proof -
  have busy: "page_ok (st\<lparr>confirmLoading := b\<rparr>)" for b using assms(2) by (simp add: page_ok_def)
  show ?thesis
  proof (cases "\<exists>job. new = [job]")
    case True
    then obtain current job where "readCurrentRatios options = Inr current"
      "performSync current True (st\<lparr>confirmLoading := True\<rparr>) = Inr (job, st')" "new = [job]"
      using assms(1) by (auto simp: confirmOk_def Let_def split: sum.splits prod.splits)
    then show ?thesis using performSync_ok busy by fastforce
  next
    case False
    then show ?thesis using assms(1) busy by (auto simp: confirmOk_def Let_def split: sum.splits prod.splits)
  qed
qed

definition world_ok :: "sync_world \<Rightarrow> bool" where
  "world_ok w \<longleftrightarrow> list_all saving_ok (fst w) \<and> page_ok (snd w)"

lemma page_ok_update:
  "page_ok st \<Longrightarrow> differences st' = differences st \<Longrightarrow> resolutions st' = resolutions st \<Longrightarrow> page_ok st'"
  by (simp add: page_ok_def)

lemma list_all_remove1: "list_all P xs \<Longrightarrow> list_all P (remove1 x xs)"
  using set_remove1_subset [of x xs] by (auto simp: list_all_iff)

lemma sync_step_ok: "sync_step lower unknown w w' \<Longrightarrow> world_ok w \<Longrightarrow> world_ok w'"
proof (induction rule: sync_step.induct)
  case (open_selector st new st' jobs)
  then show ?case
    by (auto simp: world_ok_def openSelector_def saving_ok_def intro: page_ok_update split: if_splits)
next
  case (channels_arrive jobs answer st)
  then show ?case
    by (auto simp: world_ok_def receiveChannels_def Let_def intro: list_all_remove1 page_ok_update split: channels_answer.splits)
next
  case (confirm_selector st payload st' jobs)
  then show ?case
    by (auto simp: world_ok_def confirmChannelSelection_def saving_ok_def intro: page_ok_update split: if_splits)
next
  case (ratios_arrive jobs answer st notices st')
  then show ?case
    by (cases answer) (auto simp: world_ok_def receiveRatios_def Let_def page_ok_def objects_def intro: list_all_remove1)
next
  case (tick_value st row upName ratioType checked shown doubtful jobs isChecked)
  then show ?case using toggle_ok page_rows by (fastforce simp: world_ok_def)
next
  case (tick_column st upName jobs checked)
  then show ?case by (simp add: world_ok_def toggle_column_ok)
next
  case (apply_sync st options new st' jobs)
  then show ?case using applySync_ok by (simp add: world_ok_def)
next
  case (confirm_ok st options new st' jobs)
  then show ?case using confirmOk_ok by (simp add: world_ok_def)
next
  case (save_ends saved requests fromDialog jobs st success)
  then show ?case
    by (auto simp: world_ok_def finishSync_def page_ok_def Let_def intro: list_all_remove1 objects_drops)
qed (auto simp: world_ok_def updateChannelEndpoint_def handleModalClose_def changeSearchKeyword_def
    changeRatioTypeFilter_def changePage_def changePageSize_def intro: page_ok_update)

lemma sync_reach_ok: "sync_reach lower unknown w \<Longrightarrow> world_ok w"
proof (induction rule: sync_reach.induct)
  case sync_start
  then show ?case by (simp add: world_ok_def page_ok_def initialSyncPage_def objects_def)
next
  case (sync_next w w')
  then show ?case by (blast intro: sync_step_ok)
qed

section \<open>What a save writes\<close>

lemma drop_model_cells: "drop_model keys model out = foldl (\<lambda>s k. drop_cell k s) out (map (\<lambda>key. (key, model)) keys)"
proof (induction keys arbitrary: out)
  case (Cons key keys)
  have "drop_model (key # keys) model out = drop_model keys model (drop_cell (key, model) out)"
    by (auto simp: drop_model_def drop_cell_def obj_del_def)
  then show ?case by (simp add: Cons.IH)
qed (simp add: drop_model_def)

lemma cell_drop_model:
  "cell_of (drop_model keys model out) (key, m) = (if key \<in> set keys \<and> m = model then None else cell_of out (key, m))"
  unfolding drop_model_cells cells.look_dels by auto

definition field_cells :: "string \<Rightarrow> jsval jsobj \<Rightarrow> ((string \<times> string) \<times> jsval) list" where
  "field_cells model ratios = map (\<lambda>(rt, v). ((optionKeyBySyncField rt, model), sync_value rt v)) ratios"

lemma put_fields_cells:
  "\<forall>rt \<in> fst ` set ratios. optionKeyBySyncField rt \<in> fst ` set out \<Longrightarrow>
   put_fields model ratios out = Inr (foldl (\<lambda>s (k, v). put_cell k v s) out (field_cells model ratios))"
  by (induction model ratios out rule: put_fields.induct) (simp_all add: field_cells_def put_cell_def)

lemma puts_keys: "map fst (foldl (\<lambda>s (k, v). put_cell k v s) s kvs) = map fst s"
  by (induction kvs arbitrary: s) (simp_all add: put_cell_def case_prod_unfold)

text \<open>The fields have different options.\<close>

lemma option_keys_of_fields: "map optionKeyBySyncField syncFieldOrder = option_keys"
  by code_simp

lemma option_key_inj: "inj_on optionKeyBySyncField (set syncFieldOrder)"
proof -
  have "distinct (map optionKeyBySyncField syncFieldOrder)" unfolding option_keys_of_fields by code_simp
  then show ?thesis by (simp only: distinct_map)
qed

lemma option_key_known: "rt \<in> set syncFieldOrder \<Longrightarrow> optionKeyBySyncField rt \<in> set option_keys"
  unfolding option_keys_of_fields [symmetric] by simp

text \<open>The value of one option for one model after the save, from the value before and the ticked fields.\<close>

definition synced_cell :: "jsval jsobj \<Rightarrow> string \<Rightarrow> jsval option \<Rightarrow> jsval option" where
  "synced_cell ratios key old =
     (case List.find (\<lambda>(rt, _). optionKeyBySyncField rt = key) ratios of
        Some (rt, v) \<Rightarrow> Some (sync_value rt v)
      | None \<Rightarrow>
          if ''model_price'' \<in> fst ` set ratios \<and> key \<in> set ratio_keys \<or>
             fst ` set ratios \<inter> set ratioSyncFields \<noteq> {} \<and> key = ''ModelPrice''
          then None else old)"

definition known_fields :: "jsval jsobj \<Rightarrow> bool" where
  "known_fields ratios \<longleftrightarrow> distinct (map fst ratios) \<and> fst ` set ratios \<subseteq> set syncFieldOrder"

lemma field_cells_keys: "known_fields ratios \<Longrightarrow> distinct (map fst (field_cells model ratios))"
proof -
  assume *: "known_fields ratios"
  then have "inj_on optionKeyBySyncField (fst ` set ratios)"
    by (meson inj_on_subset known_fields_def option_key_inj)
  then have "distinct (map (\<lambda>rt. (optionKeyBySyncField rt, model)) (map fst ratios))"
    using * by (auto simp only: known_fields_def distinct_map [of _ "map fst ratios"] set_map inj_on_def)
  then show ?thesis by (simp add: field_cells_def case_prod_unfold comp_def)
qed

lemma find_SomeD: "List.find P xs = Some x \<Longrightarrow> x \<in> set xs \<and> P x"
  by (induction xs) (auto split: if_splits)

lemma find_perm:
  assumes "distinct (map fst xs)" "set xs = set ys" "inj_on f (fst ` set xs)"
  shows "List.find (\<lambda>(k, _). f k = j) xs = List.find (\<lambda>(k, _). f k = j) ys"
proof (cases "List.find (\<lambda>(k, _). f k = j) ys")
  case None
  then have "List.find (\<lambda>(k, _). f k = j) xs = None" using assms(2) by (auto simp: find_None_iff)
  with None show ?thesis by simp
next
  case (Some p)
  then have p: "p \<in> set xs" "f (fst p) = j" using assms(2) find_SomeD by fastforce+
  then obtain q where q: "List.find (\<lambda>(k, _). f k = j) xs = Some q"
    by (cases "List.find (\<lambda>(k, _). f k = j) xs") (cases p, auto simp: find_None_iff)
  then have "q \<in> set xs" "f (fst q) = j" using find_SomeD by fastforce+
  with p have "fst p = fst q" using assms(3) by (auto dest: inj_onD)
  with p \<open>q \<in> set xs\<close> have "p = q" using assms(1) by (metis eq_key_imp_eq_value prod.collapse)
  with q Some show ?thesis by simp
qed

lemma map_of_field_cells:
  "map_of (field_cells model ratios) (key, m) =
     (if m = model then map_option (\<lambda>(rt, v). sync_value rt v) (List.find (\<lambda>(rt, _). optionKeyBySyncField rt = key) ratios) else None)"
  by (induction ratios) (auto simp: field_cells_def)

lemma find_entries:
  assumes "known_fields ratios"
  shows "List.find (\<lambda>(rt, _). optionKeyBySyncField rt = key) (obj_entries ratios) =
    List.find (\<lambda>(rt, _). optionKeyBySyncField rt = key) ratios"
proof (rule find_perm [symmetric])
  show "inj_on optionKeyBySyncField (fst ` set ratios)"
    using assms by (meson inj_on_subset known_fields_def option_key_inj)
qed (use assms in \<open>simp_all add: known_fields_def\<close>)

lemma distinct_entries: "distinct (map fst ob) \<Longrightarrow> distinct (map fst (obj_entries ob))"
  by (auto simp: obj_entries_def distinct_map distinct_filter inj_on_def)

lemma known_entries: "known_fields ratios \<Longrightarrow> known_fields (obj_entries ratios)"
  by (simp add: known_fields_def distinct_entries)

lemma list_ex_ratio: "list_ex (\<lambda>rt. rt \<in> set ratioSyncFields) (obj_keys ratios) \<longleftrightarrow> fst ` set ratios \<inter> set ratioSyncFields \<noteq> {}"
  by (auto simp: list_ex_iff)

lemma sync_model_result:
  assumes "known_fields ratios" "map fst out = option_keys"
  obtains out' where "sync_model model ratios out = Inr out'" "map fst out' = option_keys"
    "\<And>key m. cell_of out' (key, m) =
       (if m = model then synced_cell ratios key (cell_of out (key, m)) else cell_of out (key, m))"
proof -
  define price where "price = (''model_price'' \<in> fst ` set ratios)"
  define ratio where "ratio = (fst ` set ratios \<inter> set ratioSyncFields \<noteq> {})"
  define mid where "mid = (let a = (if price then drop_model ratio_keys model out else out)
    in if ratio then drop_model [''ModelPrice''] model a else a)"
  define out' where "out' = foldl (\<lambda>s (k, v). put_cell k v s) mid (field_cells model (obj_entries ratios))"
  have keys: "map fst mid = option_keys" using assms(2) by (simp add: mid_def Let_def)
  have known: "\<forall>rt \<in> fst ` set (obj_entries ratios). optionKeyBySyncField rt \<in> fst ` set mid"
    using assms(1) option_key_known keys by (auto simp: known_fields_def simp flip: set_map)
  have "sync_model model ratios out = put_fields model (obj_entries ratios) mid"
    by (simp only: sync_model_def Let_def list_ex_ratio ratio_def price_def mid_def) simp
  also have "\<dots> = Inr out'"
    unfolding out'_def by (rule put_fields_cells [OF known])
  finally have r: "sync_model model ratios out = Inr out'" .
  have mid: "cell_of mid (key, m) =
      (if m = model \<and> (price \<and> key \<in> set ratio_keys \<or> ratio \<and> key = ''ModelPrice'') then None else cell_of out (key, m))" for key m
    by (cases price; cases ratio) (simp_all add: mid_def cell_drop_model)
  have room: "has_cell mid k" if "k \<in> fst ` set (field_cells model (obj_entries ratios))" for k
  proof -
    from that obtain rt where "rt \<in> fst ` set (obj_entries ratios)" "k = (optionKeyBySyncField rt, model)"
      by (fastforce simp: field_cells_def)
    then show ?thesis using bspec [OF known] by (simp only: has_cell_def fst_conv)
  qed
  have "map fst out' = map fst mid"
    unfolding out'_def by (rule puts_keys)
  with keys have keys': "map fst out' = option_keys" by simp
  have puts: "cell_of out' j = (case map_of (field_cells model (obj_entries ratios)) j of Some v \<Rightarrow> Some v | None \<Rightarrow> cell_of mid j)" for j
    unfolding out'_def using field_cells_keys [OF known_entries [OF assms(1)]] room by (rule cells.look_puts)
  have "cell_of out' (key, m) = (if m = model then synced_cell ratios key (cell_of out (key, m)) else cell_of out (key, m))" for key m
    unfolding puts map_of_field_cells mid find_entries [OF assms(1)] synced_cell_def price_def [symmetric] ratio_def [symmetric]
    by (cases "List.find (\<lambda>(rt, _). optionKeyBySyncField rt = key) ratios") (simp_all split: prod.split)
  with r keys' show ?thesis using that by blast
qed

lemma sync_models_result:
  assumes "distinct (map fst res)" "\<forall>(model, ratios) \<in> set res. known_fields ratios" "map fst out = option_keys"
  shows "\<exists>final. sync_models res out = Inr final \<and> map fst final = option_keys \<and>
    (\<forall>key m. cell_of final (key, m) =
       (case map_of res m of None \<Rightarrow> cell_of out (key, m) | Some ratios \<Rightarrow> synced_cell ratios key (cell_of out (key, m))))"
  using assms
proof (induction res arbitrary: out)
  case (Cons p res)
  obtain model ratios where p: "p = (model, ratios)" by fastforce
  have "known_fields ratios" using Cons.prems(2) p by simp
  then obtain out' where out': "sync_model model ratios out = Inr out'" "map fst out' = option_keys"
    "\<And>key m. cell_of out' (key, m) =
       (if m = model then synced_cell ratios key (cell_of out (key, m)) else cell_of out (key, m))"
    using sync_model_result [OF _ Cons.prems(3)] by blast
  have fresh: "map_of res model = None" using Cons.prems(1) p by (simp add: map_of_eq_None_iff)
  from Cons.IH [OF _ _ out'(2)] Cons.prems(1,2) p obtain final where
    "sync_models res out' = Inr final" "map fst final = option_keys"
    "\<forall>key m. cell_of final (key, m) =
       (case map_of res m of None \<Rightarrow> cell_of out' (key, m) | Some ratios \<Rightarrow> synced_cell ratios key (cell_of out' (key, m)))"
    by auto
  then show ?case using p out' fresh by (auto split: option.split)
qed simp

lemma map_of_entries: "distinct (map fst ob) \<Longrightarrow> map_of (obj_entries ob) = map_of ob"
  by (intro map_of_eqI) (auto simp: dom_map_of_conv_image_fst map_of_eq_Some_iff distinct_entries intro!: map_of_is_SomeI)

definition start_objects :: "(string \<times> jsval) list \<Rightarrow> option_objects" where
  "start_objects current = map (\<lambda>(k, v). (k, own_props v)) current"

lemma save_result:
  assumes "map fst current = option_keys" "distinct (map fst res)" "\<forall>(model, ratios) \<in> set res. known_fields ratios"
  shows "\<exists>final. finalRatios current res = Inr final \<and> map fst final = option_keys \<and>
    (\<forall>key model. cell_of final (key, model) =
       (case map_of res model of
          None \<Rightarrow> cell_of (start_objects current) (key, model)
        | Some ratios \<Rightarrow> synced_cell ratios key (cell_of (start_objects current) (key, model))))"
proof -
  have "map fst (start_objects current) = option_keys"
    using assms(1) by (simp add: start_objects_def case_prod_unfold comp_def)
  from sync_models_result [OF distinct_entries [OF assms(2)] _ this] assms(3) show ?thesis
    by (simp add: finalRatios_def start_objects_def map_of_entries [OF assms(2)])
qed

lemma parse_options_keys: "parse_options options keys = Inr current \<Longrightarrow> map fst current = keys"
  by (induction keys arbitrary: current) (auto split: sum.splits)

lemma current_keys: "readCurrentRatios options = Inr current \<Longrightarrow> map fst current = option_keys"
  unfolding readCurrentRatios_def by (rule parse_options_keys)

section \<open>Asking before the way of billing changes\<close>

definition switches :: "(string \<times> jsval) list \<Rightarrow> string \<Rightarrow> jsval jsobj \<Rightarrow> bool" where
  "switches current model ratios \<longleftrightarrow>
     (\<exists>c. getLocalBillingCategory current model = Inr (Some c) \<and> new_category ratios \<noteq> TieredCategory \<and> c \<noteq> new_category ratios)"

lemma conflict_of_switches:
  "conflict_of unknown ds current model ratios = Inr c \<Longrightarrow>
   (if switches current model ratios then \<exists>item. c = Some item \<and> cf_model item = model else c = None)"
  by (auto simp: conflict_of_def switches_def Let_def map_sum_def split: sum.splits option.splits if_splits)

lemma conflicts_are_switches:
  "collect_conflicts unknown ds current es = Inr cs \<Longrightarrow>
   map cf_model cs = map fst (filter (\<lambda>(m, r). switches current m r) es)"
  by (induction unknown ds current es arbitrary: cs rule: collect_conflicts.induct)
    (auto dest!: conflict_of_switches split: sum.splits option.splits if_splits)

section \<open>The pricing editor after a save\<close>

lemma saved_option:
  assumes "list_all (\<lambda>(k, ob). json_data (Obj ob)) final"
  shows "parseOptionJSON (map_of (saveRequests final) key) = (case map_of final key of Some ob \<Rightarrow> ob | None \<Rightarrow> [])"
proof (cases "map_of final key")
  case None
  then show ?thesis by (simp add: saveRequests_def map_of_objects parseOptionJSON_def)
next
  case (Some ob)
  then have data: "json_data (Obj ob)" using assms by (force simp: list_all_iff simp del: json_data.simps dest: map_of_SomeD)
  let ?s = "the (json_pretty [] (Obj ob))"
  have "json_parse ?s = Some (Obj ob)" by (rule json2.parse_print [OF data])
  moreover have "trim ?s = ?s" by (rule pretty_object_trim [OF data])
  moreover from calculation(1) have "?s \<noteq> []" by (auto simp: json_parse_def skip_ws_def simp del: json_pretty.simps)
  ultimately show ?thesis
    using Some by (simp add: saveRequests_def map_of_objects parseOptionJSON_def del: json_pretty.simps)
qed

lemma lookup_saved:
  assumes "list_all (\<lambda>(k, ob). json_data (Obj ob)) final"
  shows "lookup (parseOptionJSON (map_of (saveRequests final) key)) model =
    (case cell_of final (key, model) of Some v \<Rightarrow> v | None \<Rightarrow> Undef)"
  unfolding saved_option [OF assms] by (simp add: cell_of_def split: option.split)

lemma toNumericString_Undef [simp]: "toNumericString Undef = []"
  by (simp add: toNumericString_def hasValue_def)

lemma hasValue_empty [simp]: "\<not> hasValue (Str [])"
  by (simp add: hasValue_def)

lemma no_conflict_price:
  "lookup (mapModelPrice src) nm = Undef \<Longrightarrow> \<not> hasConflict (buildRatioModel nm src)"
  by (simp add: buildRatioModel_def Let_def case_prod_unfold)

lemma no_conflict_ratios:
  assumes "lookup (mapModelRatio src) nm = Undef" "lookup (mapCompletionRatio src) nm = Undef"
    "lookup (mapCacheRatio src) nm = Undef" "lookup (mapCreateCacheRatio src) nm = Undef"
    "lookup (mapImageRatio src) nm = Undef" "lookup (mapAudioRatio src) nm = Undef"
    "lookup (mapAudioCompletionRatio src) nm = Undef"
  shows "\<not> hasConflict (buildRatioModel nm src)"
  using assms by (simp add: buildRatioModel_def ratio_list_def Let_def case_prod_unfold)

lemma buildModelState_conflict:
  "buildModelState nm src = Inr m \<Longrightarrow> \<not> hasConflict (buildRatioModel nm src) \<Longrightarrow> \<not> hasConflict m"
  by (auto simp: buildModelState_def Let_def split: if_splits sum.splits)

text \<open>A ticked price leaves no ratio, a ticked ratio no price.\<close>

lemma find_field_key:
  assumes "fst ` set ratios \<subseteq> set syncFieldOrder" "rt \<notin> fst ` set ratios" "rt \<in> set syncFieldOrder"
  shows "List.find (\<lambda>(f, _). optionKeyBySyncField f = optionKeyBySyncField rt) ratios = None"
proof -
  have "optionKeyBySyncField f \<noteq> optionKeyBySyncField rt" if "f \<in> fst ` set ratios" for f
    using that assms inj_onD [OF option_key_inj] by blast
  then show ?thesis by (fastforce simp: find_None_iff)
qed

lemma synced_no_price:
  assumes "fst ` set ratios \<subseteq> set syncFieldOrder" "''model_price'' \<notin> fst ` set ratios" "fst ` set ratios \<inter> set ratioSyncFields \<noteq> {}"
  shows "synced_cell ratios ''ModelPrice'' old = None"
proof -
  have "optionKeyBySyncField ''model_price'' = ''ModelPrice''" by code_simp
  with find_field_key [OF assms(1,2)] have "List.find (\<lambda>(f, _). optionKeyBySyncField f = ''ModelPrice'') ratios = None"
    by (simp add: syncFieldOrder_def)
  with assms(3) show ?thesis by (simp add: synced_cell_def)
qed

lemma ratio_keys_of_fields: "map optionKeyBySyncField ratioSyncFields = ratio_keys"
  by code_simp

lemma ratio_category: "rt \<in> set ratioSyncFields \<Longrightarrow> getBillingCategory rt = RatioCategory"
  by (auto simp: ratioSyncFields_def getBillingCategory_def)

lemma synced_no_ratio:
  assumes "fst ` set ratios \<subseteq> set syncFieldOrder" "''model_price'' \<in> fst ` set ratios" "unmixed ratios" "key \<in> set ratio_keys"
  shows "synced_cell ratios key old = None"
proof -
  obtain rt where rt: "rt \<in> set ratioSyncFields" "key = optionKeyBySyncField rt"
    using assms(4) unfolding ratio_keys_of_fields [symmetric] by auto
  then have "rt \<notin> fst ` set ratios" using assms(2,3) ratio_category by (auto simp: unmixed_def)
  with find_field_key [OF assms(1) this] rt show ?thesis
    using assms(2,4) by (simp add: synced_cell_def syncFieldOrder_def)
qed

end
