(* ===== verification/Ratio_Sync_Safety.thy ===== *)
theory Ratio_Sync_Safety
  imports Ratio_Sync_Proofs
begin

text \<open>
  What the synchronisation page guarantees over all its runs, the checkboxes of its columns, the end
  of a save, and the page together with the pricing editor that reads the saved options.
\<close>

text \<open>
  C5: whatever was clicked and in whatever order the answers came, a ticked model has at least one
  value, never a price together with a ratio, and every value is one that an upstream offers for
  this field, with one exception: the field \<open>billing_mode\<close> may have the value \<open>tiered_expr\<close>, which
  ticking an expression sets by itself.
\<close>

theorem ticks_are_offered:
  assumes "sync_reach lower unknown (jobs, st)" "map_of (resolutions st) model = Some ratios"
  shows "ratios \<noteq> [] \<and>
    \<not> (''model_price'' \<in> fst ` set ratios \<and> (\<exists>rt \<in> fst ` set ratios. getBillingCategory rt = RatioCategory)) \<and>
    (\<forall>(rt, v) \<in> set ratios. rt = ''billing_mode'' \<and> v = Str ''tiered_expr'' \<or>
       isSelectableUpstreamValue v \<and> (\<exists>up. getUpstreamValue (differences st) model rt up = v))"
proof -
  have "choices_ok (differences st) (resolutions st)"
    using sync_reach_ok [OF assms(1)] by (simp add: world_ok_def page_ok_def)
  from choices_ok_lookup [OF this assms(2)] show ?thesis
    unfolding choice_ok_def unmixed_def offered_def by fast
qed

lemma reach_choice:
  assumes "sync_reach lower unknown (jobs, st)" "map_of (resolutions st) model = Some ratios"
  shows "distinct (map fst ratios)" "unmixed ratios"
proof -
  have "choices_ok (differences st) (resolutions st)"
    using sync_reach_ok [OF assms(1)] by (simp add: world_ok_def page_ok_def)
  from choices_ok_lookup [OF this assms(2)] show "distinct (map fst ratios)" "unmixed ratios"
    by (simp_all add: choice_ok_def)
qed

lemma new_category_ratio:
  "new_category ratios \<noteq> TieredCategory \<Longrightarrow> ''model_price'' \<notin> fst ` set ratios \<Longrightarrow> fst ` set ratios \<inter> set ratioSyncFields \<noteq> {}"
  by (auto simp: new_category_def list_ex_iff map_of_eq_None_iff split: if_splits)

text \<open>
  C23: after the values ticked on the page are saved, the pricing editor reads no conflict for a
  model that got a price or ratios: what it loads from the ten options is either a price or ratios.
\<close>

theorem saved_models_consistent:
  assumes "sync_reach lower unknown (jobs, st)" "readCurrentRatios options = Inr current"
    "list_all (\<lambda>(m, r). fst ` set r \<subseteq> set syncFieldOrder) (resolutions st)"
    "finalRatios current (resolutions st) = Inr final" "list_all (\<lambda>(k, ob). json_data (Obj ob)) final"
    "map_of (resolutions st) model = Some ratios" "new_category ratios \<noteq> TieredCategory"
    "buildModelState model (readSourceMaps (saveRequests final)) = Inr m"
  shows "\<not> hasConflict m"
proof -
  have ok: "choices_ok (differences st) (resolutions st)"
    using sync_reach_ok [OF assms(1)] by (simp add: world_ok_def page_ok_def)
  have known: "\<forall>(m, r) \<in> set (resolutions st). known_fields r"
    using ok assms(3) by (fastforce simp: choices_ok_def choice_ok_def known_fields_def list_all_iff)
  have ratios: "fst ` set ratios \<subseteq> set syncFieldOrder"
    using assms(3,6) by (fastforce simp: list_all_iff dest: map_of_SomeD)
  have "distinct (map fst (resolutions st))" using ok by (simp add: choices_ok_def)
  from sync_models_result [OF distinct_entries [OF this], of "start_objects current"] known
  have cell: "cell_of final (key, model) = synced_cell ratios key (cell_of (start_objects current) (key, model))" for key
    using assms(4,6) current_keys [OF assms(2)] map_of_entries [OF \<open>distinct (map fst (resolutions st))\<close>]
    by (auto simp: finalRatios_def start_objects_def case_prod_unfold comp_def)
  let ?src = "readSourceMaps (saveRequests final)"
  have "\<not> hasConflict (buildRatioModel model ?src)"
  proof (cases "''model_price'' \<in> fst ` set ratios")
    case True
    have "cell_of final (key, model) = None" if "key \<in> set ratio_keys" for key
      unfolding cell using synced_no_ratio [OF ratios True reach_choice(2) [OF assms(1,6)] that] .
    then show ?thesis
      by (intro no_conflict_ratios)
        (simp_all only: readSourceMaps_def source_maps.simps lookup_saved [OF assms(5)], simp_all add: ratio_keys_def)
  next
    case False
    from synced_no_price [OF ratios this new_category_ratio [OF assms(7) this]] show ?thesis
      by (intro no_conflict_price) (simp only: readSourceMaps_def source_maps.simps lookup_saved [OF assms(5)] cell option.case)
  qed
  then show ?thesis by (rule buildModelState_conflict [OF assms(8)])
qed

text \<open>
  Applying the ticked values never silently changes the way a model is billed: the save starts
  at once only if no ticked model moves from a local price to ratios or back, otherwise nothing is
  sent and the dialog lists exactly the models that move, in order.
\<close>

theorem apply_asks_first:
  assumes "applySync unknown options st = Inr (new, st')"
  shows "\<exists>current. readCurrentRatios options = Inr current \<and>
    (let moving = map fst (filter (\<lambda>(m, r). switches current m r) (obj_entries (resolutions st))) in
     resolutions st' = resolutions st \<and>
     (if moving = [] then \<exists>requests. new = [Saving (resolutions st) requests False]
      else new = [] \<and> confirmVisible st' \<and> map cf_model (conflictItems st') = moving))"
proof -
  obtain current conflicts where c: "readCurrentRatios options = Inr current"
    "collect_conflicts unknown (differences st) current (obj_entries (resolutions st)) = Inr conflicts"
    using assms by (auto simp: applySync_def split: sum.splits)
  note moving = conflicts_are_switches [OF c(2)]
  show ?thesis
  proof (cases "conflicts = []")
    case True
    then obtain job where "performSync current False st = Inr (job, st')" "new = [job]"
      using assms c by (cases "performSync current False st") (auto simp: applySync_def)
    then show ?thesis
      using c moving True by (auto simp: performSync_def split: sum.splits)
  next
    case False
    then have "new = []" "st' = st\<lparr>conflictItems := conflicts, confirmVisible := True\<rparr>"
      using assms c by (auto simp: applySync_def)
    then show ?thesis using c moving False by (auto simp: Let_def)
  qed
qed

section \<open>Columns\<close>

lemma resolved_set: "resolved (obj_set m r res) model rt = (if model = m then lookup r rt else resolved res model rt)"
  by (simp add: resolved_def)

lemma lookup_keep:
  "lookup (dropOtherCategory c r) rt =
     (if c = TieredCategory \<or> getBillingCategory rt \<in> {TieredCategory, c} then lookup r rt else Undef)"
  by (induction r) (auto simp: dropOtherCategory_def)

lemma lookup_set [simp]: "lookup (obj_set k v ob) j = (if j = k then v else lookup ob j)"
  by simp

lemma category_simps [simp]:
  "getBillingCategory ''billing_expr'' = TieredCategory" "getBillingCategory ''billing_mode'' = TieredCategory"
  by (simp_all add: getBillingCategory_def)

lemma tiered_fields: "getBillingCategory rt = TieredCategory \<longleftrightarrow> rt = ''billing_mode'' \<or> rt = ''billing_expr''"
  by (simp add: getBillingCategory_def)

lemma lookup_companions:
  "lookup (tieredCompanions ds model rt up r) f =
     (let mv = getUpstreamValue ds model ''billing_mode'' up; ev = getUpstreamValue ds model ''billing_expr'' up in
      if f = ''billing_expr'' \<and> isSelectableUpstreamValue ev then ev
      else if f = ''billing_mode'' \<and> isSelectableUpstreamValue mv then mv
      else if f = ''billing_mode'' \<and> rt = ''billing_expr'' then Str ''tiered_expr''
      else lookup r f)"
  by (simp add: tieredCompanions_def Let_def)

lemma lookup_chosen:
  "lookup (obj_set rt v (dropOtherCategory (getBillingCategory rt) r)) f =
     (if f = rt then v
      else if getBillingCategory rt = TieredCategory \<or> getBillingCategory f \<in> {TieredCategory, getBillingCategory rt}
      then lookup r f else Undef)"
  unfolding lookup_set lookup_keep ..

text \<open>A tick of a column, with the field it prefers.\<close>

definition tick_ok :: "differences \<Rightarrow> string \<Rightarrow> string \<times> string \<times> jsval \<Rightarrow> bool" where
  "tick_ok ds up = (\<lambda>(model, rt, v). getUpstreamValue ds model rt up = v \<and> isSelectableUpstreamValue v \<and>
     getPreferredSyncField ds model rt up = rt)"

lemma select_tick:
  assumes "tick_ok ds up (model, rt, v)"
  shows "resolved (selectValue ds model rt v up res) m f =
    (if m \<noteq> model then resolved res m f
     else if f = rt then v
     else if rt = ''billing_expr'' \<and> f = ''billing_mode'' \<and> up \<noteq> [] then
       (let mv = getUpstreamValue ds model ''billing_mode'' up in if isSelectableUpstreamValue mv then mv else Str ''tiered_expr'')
     else if getBillingCategory rt = TieredCategory \<or> getBillingCategory f \<in> {TieredCategory, getBillingCategory rt}
     then resolved res m f else Undef)"
proof -
  have v: "getUpstreamValue ds model rt up = v" "isSelectableUpstreamValue v" "getPreferredSyncField ds model rt up = rt"
    using assms by (simp_all add: tick_ok_def)
  have e: "\<not> isSelectableUpstreamValue (getUpstreamValue ds model ''billing_expr'' up)" if "rt \<noteq> ''billing_expr''"
    using v(3) that by (auto simp: getPreferredSyncField_def Let_def split: if_splits)
  define old where "old = (case map_of res model of Some r \<Rightarrow> r | None \<Rightarrow> [])"
  let ?chosen = "obj_set rt v (dropOtherCategory (getBillingCategory rt) old)"
  have old: "lookup old f = resolved res model f" by (simp add: old_def resolved_def split: option.split)
  have "selectValue ds model rt v up res = obj_set model
      (let chosen = obj_set rt v (dropOtherCategory (getBillingCategory rt) old) in
       if getBillingCategory rt = TieredCategory \<and> up \<noteq> [] then tieredCompanions ds model rt up chosen else chosen) res"
    by (simp only: selectValue_def Let_def v(3) if_cancel refl if_True old_def)
  then have sel: "resolved (selectValue ds model rt v up res) m f = (if m \<noteq> model then resolved res m f
      else if getBillingCategory rt = TieredCategory \<and> up \<noteq> [] then lookup (tieredCompanions ds model rt up ?chosen) f
      else lookup ?chosen f)"
    by (cases "m = model"; cases "getBillingCategory rt = TieredCategory \<and> up \<noteq> []") (simp_all only: resolved_set Let_def if_True if_False simp_thms)
  consider "rt = ''billing_expr''" | "rt = ''billing_mode''" | "getBillingCategory rt \<noteq> TieredCategory"
    using tiered_fields by blast
  then show ?thesis
  proof cases
    case 1
    with v show ?thesis unfolding sel lookup_companions lookup_chosen old by (simp add: Let_def)
  next
    case 2
    with v e show ?thesis unfolding sel lookup_companions lookup_chosen old by (simp add: Let_def)
  next
    case 3
    then have "rt \<noteq> ''billing_expr''" by (auto simp: getBillingCategory_def)
    with 3 show ?thesis unfolding sel lookup_chosen old by simp
  qed
qed

text \<open>Ticks that do not drop each other.\<close>

definition compatible :: "(string \<times> string \<times> jsval) set \<Rightarrow> bool" where
  "compatible ticks \<longleftrightarrow> (\<forall>model rt v rt' v'. (model, rt, v) \<in> ticks \<longrightarrow> (model, rt', v') \<in> ticks \<longrightarrow>
     \<not> (getBillingCategory rt = PriceCategory \<and> getBillingCategory rt' = RatioCategory))"

lemma select_keeps_tick:
  assumes "tick_ok ds up (model, rt, v)" "tick_ok ds up (m, f, w)" "compatible ticks" "(model, rt, v) \<in> ticks" "(m, f, w) \<in> ticks"
    "resolved res m f = w"
  shows "resolved (selectValue ds model rt v up res) m f = w"
proof (cases "m = model \<and> f \<noteq> rt")
  case True
  then have "\<not> (rt = ''billing_expr'' \<and> f = ''billing_mode'')"
    using assms(1,2) by (auto simp: tick_ok_def getPreferredSyncField_def Let_def split: if_splits)
  moreover have "getBillingCategory rt = TieredCategory \<or> getBillingCategory f \<in> {TieredCategory, getBillingCategory rt}"
  proof -
    have "\<not> (getBillingCategory rt = PriceCategory \<and> getBillingCategory f = RatioCategory)"
      "\<not> (getBillingCategory f = PriceCategory \<and> getBillingCategory rt = RatioCategory)"
      using assms(3-5) True unfolding compatible_def by blast+
    then show ?thesis by (cases "getBillingCategory rt"; cases "getBillingCategory f") simp_all
  qed
  ultimately show ?thesis unfolding select_tick [OF assms(1)] using True assms(6) by auto
next
  case False
  then show ?thesis
    using assms(1,2,6) unfolding select_tick [OF assms(1)] by (auto simp: tick_ok_def)
qed

lemma select_all_ticks:
  assumes "\<forall>t \<in> set ticks. tick_ok ds up t" "compatible (set ticks)" "(m, f, w) \<in> set ticks"
  shows "resolved (foldl (\<lambda>r (model, rt, v). selectValue ds model rt v up r) res ticks) m f = w"
proof -
  let ?go = "foldl (\<lambda>r (model, rt, v). selectValue ds model rt v up r)"
  have stays: "resolved (?go r more) m f = w" if "set more \<subseteq> set ticks" "resolved r m f = w" for more r
    using that
  proof (induction more arbitrary: r)
    case (Cons t more)
    obtain model rt v where t: "t = (model, rt, v)" by (cases t) auto
    have "resolved (selectValue ds model rt v up r) m f = w"
      using select_keeps_tick [of ds up model rt v m f w "set ticks" r] Cons.prems t assms by auto
    then show ?case using Cons t by simp
  qed simp
  obtain before after where ticks: "ticks = before @ (m, f, w) # after" using assms(3) by (meson split_list)
  have "resolved (selectValue ds m f w up (?go res before)) m f = w"
    using assms(1) ticks select_tick by auto
  moreover have "set after \<subseteq> set ticks" using ticks by auto
  ultimately show ?thesis using stays ticks by simp
qed

lemma lookup_del [simp]: "lookup (obj_del k ob) j = (if j = k then Undef else lookup ob j)"
  by simp

lemma resolved_del [simp]: "resolved (obj_del m res) model f = (if model = m then Undef else resolved res model f)"
  by (simp add: resolved_def)

lemma resolved_delete:
  "resolved (deleteResolutionField m rt res) model f = resolved res model f \<or>
   resolved (deleteResolutionField m rt res) model f = Undef"
proof (cases "map_of res m")
  case (Some r)
  then have "resolved res m f = lookup r f" by (simp add: resolved_def)
  then show ?thesis using Some by (simp add: deleteResolutionField_def Let_def resolved_set)
qed (simp add: deleteResolutionField_def)

lemma resolved_delete_same: "resolved (deleteResolutionField m rt res) m rt = Undef"
  by (cases "map_of res m") (simp_all add: deleteResolutionField_def Let_def resolved_set, simp add: resolved_def)

lemma deselect_all:
  assumes "(m, f) \<in> set ps"
  shows "resolved (foldl (\<lambda>r (model, rt). deleteResolutionField model rt r) res ps) m f = Undef"
proof -
  let ?go = "foldl (\<lambda>r (model, rt). deleteResolutionField model rt r)"
  have stays: "resolved r m f = Undef \<Longrightarrow> resolved (?go r more) m f = Undef" for r more
    by (induction more arbitrary: r) (use resolved_delete in \<open>auto, metis\<close>)
  obtain before after where ps: "ps = before @ (m, f) # after" using assms by (meson split_list)
  show ?thesis using stays [OF resolved_delete_same, of "?go res before" after] ps by simp
qed

abbreviation columnTicks :: "(string \<Rightarrow> string) \<Rightarrow> string \<Rightarrow> sync_page \<Rightarrow> (string \<times> string \<times> jsval) list" where
  "columnTicks lower up st \<equiv> column_ticks (ratioTypeFilter st) (differences st) (shownRows lower st) up"

abbreviation columnStats :: "(string \<Rightarrow> string) \<Rightarrow> string \<Rightarrow> sync_page \<Rightarrow> channel_stats" where
  "columnStats lower up st \<equiv> channelStats (ratioTypeFilter st) (differences st) (resolutions st) (shownRows lower st) up"

lemma column_after:
  "columnStats lower up (toggleColumn lower up b st) = channelStats (ratioTypeFilter st) (differences st)
      (handleBulkSelect (ratioTypeFilter st) (differences st) (shownRows lower st) up b (resolutions st)) (shownRows lower st) up"
  by (simp add: toggleColumn_def shownRows_def)

lemma column_ticked:
  assumes "objects (differences st)" "columnTicks lower up st \<noteq> []" "compatible (set (columnTicks lower up st))"
    "\<forall>(model, rt, v) \<in> set (columnTicks lower up st). strict_eq v v"
  shows "allSelected (columnStats lower up (toggleColumn lower up True st))"
proof -
  let ?ticks = "columnTicks lower up st"
  let ?res = "bulkSelect (ratioTypeFilter st) (differences st) (shownRows lower st) up (resolutions st)"
  have "\<forall>t \<in> set ?ticks. tick_ok (differences st) up t"
    using column_tick_value [OF assms(1) subset_refl] unfolding shownRows_def tick_ok_def by fast
  then have "resolved ?res m f = w" if "(m, f, w) \<in> set ?ticks" for m f w
    unfolding bulkSelect_def using assms(3) that by (rule select_all_ticks)
  then have "filter (\<lambda>(m, f, w). strict_eq (resolved ?res m f) w) ?ticks = ?ticks"
    using assms(4) by (intro filter_True) auto
  then show ?thesis using assms(2) unfolding column_after by (simp add: handleBulkSelect_def channelStats_def Let_def)
qed

lemma column_unticked: "selectedCount (columnStats lower up (toggleColumn lower up False st)) = 0"
proof -
  let ?ticks = "columnTicks lower up st"
  let ?res = "bulkDeselect (ratioTypeFilter st) (shownRows lower st) up (resolutions st)"
  have "resolved ?res m f = Undef" if "(m, f, w) \<in> set ?ticks" for m f w
    unfolding bulkDeselect_def
    by (rule deselect_all) (use that in \<open>auto simp: column_ticks_def isSelectableUpstreamValue_def\<close>)
  moreover have "w \<noteq> Undef" if "(m, f, w) \<in> set ?ticks" for m f w
    using that by (auto simp: column_ticks_def isSelectableUpstreamValue_def)
  moreover have "w \<noteq> Undef \<Longrightarrow> \<not> strict_eq Undef w" for w by (cases w) auto
  ultimately have "\<not> strict_eq (resolved ?res m f) w" if "(m, f, w) \<in> set ?ticks" for m f w
    using that by simp
  then have "filter (\<lambda>(m, f, w). strict_eq (resolved ?res m f) w) ?ticks = []" by (auto simp: filter_empty_conv)
  then show ?thesis unfolding column_after by (simp add: handleBulkSelect_def channelStats_def Let_def)
qed

text \<open>
  The checkbox of a column does what it shows, on every reachable page. Ticking it selects every
  value it counts (when the column offers no model both a price and a ratio, and every value is a
  primitive other than NaN), so that it shows as ticked; unticking it leaves none of them selected,
  whatever was ticked before.
\<close>

theorem column_checkbox:
  assumes "sync_reach lower unknown (jobs, st)" "hasSelectableItems (columnStats lower up st)"
    "compatible (set (columnTicks lower up st))" "\<forall>(model, rt, v) \<in> set (columnTicks lower up st). strict_eq v v"
  shows "allSelected (columnStats lower up (toggleColumn lower up True st)) \<and>
    selectedCount (columnStats lower up (toggleColumn lower up False st)) = 0"
proof -
  have "objects (differences st)" using sync_reach_ok [OF assms(1)] by (simp add: world_ok_def page_ok_def)
  moreover have "columnTicks lower up st \<noteq> []" using assms(2) by (auto simp: channelStats_def Let_def)
  ultimately show ?thesis using column_ticked [OF _ _ assms(3,4)] column_unticked by blast
qed

section \<open>After a successful save\<close>

text \<open>
  A successful save takes the saved fields off the table and clears the ticks.
\<close>

definition diff_field :: "differences \<Rightarrow> string \<Rightarrow> string \<Rightarrow> jsval option" where
  "diff_field ds model rt = (case map_of ds model of Some rts \<Rightarrow> map_of rts rt | None \<Rightarrow> None)"

lemma diff_field_drop:
  "diff_field (dropDifference model ds rt) m f =
     (if m = model \<and> f = rt \<and> (case diff_field ds m f of Some v \<Rightarrow> truthy v | None \<Rightarrow> False) then None else diff_field ds m f)"
proof (cases "map_of ds model")
  case (Some rts)
  show ?thesis
  proof (cases "truthy (lookup rts rt)")
    case True
    have gone: "map_of rts j = None" if "obj_del rt rts = []" "j \<noteq> rt" for j
      using arg_cong [OF that(1), of map_of] that(2) by (simp add: fun_eq_iff split: if_splits) metis
    show ?thesis using True Some gone
      by (auto simp: dropDifference_def diff_field_def Let_def split: option.splits if_splits)
  next
    case False
    then show ?thesis using Some by (auto simp: dropDifference_def diff_field_def split: option.splits)
  qed
qed (simp add: dropDifference_def diff_field_def)

definition listed :: "differences \<Rightarrow> string \<Rightarrow> string \<Rightarrow> bool" where
  "listed ds model rt \<longleftrightarrow> (case diff_field ds model rt of Some v \<Rightarrow> truthy v | None \<Rightarrow> False)"

lemma diff_field_dropped:
  "diff_field (dropDifference model ds rt) m f = (if m = model \<and> f = rt \<and> listed ds m f then None else diff_field ds m f)"
  unfolding diff_field_drop listed_def by simp

lemma listed_dropped: "listed (dropDifference model ds rt) m f \<longleftrightarrow> listed ds m f \<and> \<not> (m = model \<and> f = rt)"
  by (auto simp: listed_def diff_field_dropped)

lemma listed_drop_all:
  "listed (foldl (dropDifference model) ds rts) m f \<longleftrightarrow> listed ds m f \<and> \<not> (m = model \<and> f \<in> set rts)"
proof (induction rts arbitrary: ds)
  case (Cons a rts)
  then show ?case by (cases "m = model"; cases "f = a") (simp_all add: listed_dropped)
qed simp

lemma diff_field_drop_all:
  "diff_field (foldl (dropDifference model) ds rts) m f =
     (if m = model \<and> f \<in> set rts \<and> listed ds m f then None else diff_field ds m f)"
proof (induction rts arbitrary: ds)
  case (Cons a rts)
  then show ?case
    by (cases "m = model"; cases "f = a"; cases "listed ds m f") (simp_all add: diff_field_dropped listed_dropped)
qed simp

definition ticked_in :: "resolutions \<Rightarrow> string \<Rightarrow> string \<Rightarrow> bool" where
  "ticked_in res model rt \<longleftrightarrow> (\<exists>ratios. (model, ratios) \<in> set res \<and> rt \<in> fst ` set ratios)"

lemma diff_field_drop_entries:
  "diff_field (foldl (\<lambda>d (model, ratios). foldl (dropDifference model) d (obj_keys ratios)) ds es) m f =
     (if ticked_in es m f \<and> listed ds m f then None else diff_field ds m f)"
proof (induction es arbitrary: ds)
  case (Cons e es)
  obtain model ratios where e: "e = (model, ratios)" by fastforce
  have "ticked_in (e # es) m f \<longleftrightarrow> m = model \<and> f \<in> fst ` set ratios \<or> ticked_in es m f"
    by (auto simp: ticked_in_def e)
  then show ?case
    unfolding e foldl_Cons prod.case Cons.IH diff_field_drop_all listed_drop_all
    by (cases "m = model"; cases "f \<in> fst ` set ratios"; cases "listed ds m f") simp_all
qed (simp add: ticked_in_def)

text \<open>
  The end of a save. When every option was stored, the saved fields, and no others, leave the
  table, all ticks are cleared and a dialog that started the save closes; when one failed, the
  table, the ticks and the dialog stay for another attempt. Both ways the controls are released.
\<close>

theorem save_outcome:
  "let st' = finishSync saved fromDialog success st in
   pageLoading st' = False \<and> confirmLoading st' = (confirmLoading st \<and> \<not> fromDialog) \<and>
   resolutions st' = (if success then [] else resolutions st) \<and>
   confirmVisible st' = (confirmVisible st \<and> \<not> (fromDialog \<and> success)) \<and>
   diff_field (differences st') m f =
     (if success \<and> ticked_in saved m f \<and> listed (differences st) m f then None else diff_field (differences st) m f)"
  using diff_field_drop_entries [of "differences st" "obj_entries saved" m f]
  by (simp add: finishSync_def dropDifferences_def ticked_in_def Let_def)

text \<open>
  C6: a save starts and its ten option objects hold exactly the ticked values: for a ticked model
  every ticked field is written (numeric fields as numbers), a ticked price removes the model's
  ratios, a ticked ratio removes its price, and every other place of the options, all models that
  were not ticked among them, keeps its value.
\<close>

theorem save_writes_ticked:
  assumes "map fst current = option_keys" "distinct (map fst res)" "\<forall>(model, ratios) \<in> set res. known_fields ratios"
  shows "\<exists>final. finalRatios current res = Inr final \<and> map fst final = option_keys \<and>
    (\<forall>key model. cell_of final (key, model) =
       (case map_of res model of
          None \<Rightarrow> cell_of (start_objects current) (key, model)
        | Some ratios \<Rightarrow> synced_cell ratios key (cell_of (start_objects current) (key, model))))"
  by (rule save_result [OF assms])

text \<open>
  A ticked price or ratio has no effect on a model that is billed by expression: unless the
  billing mode is ticked too, the save keeps the mode, and the pricing editor (like the back end,
  which looks at the mode first) still bills the model by its expression. The dialog does not ask
  either: the expression is not one of the local categories it compares.
\<close>

theorem expression_mode_survives:
  assumes "map fst current = option_keys" "distinct (map fst res)" "\<forall>(m, r) \<in> set res. known_fields r"
    "map_of res model = Some ratios" "''billing_mode'' \<notin> fst ` set ratios"
    "cell_of (start_objects current) (''billing_setting.billing_mode'', model) = Some (Str ''tiered_expr'')"
    "finalRatios current res = Inr final" "list_all (\<lambda>(k, ob). json_data (Obj ob)) final"
    "buildModelState model (readSourceMaps (saveRequests final)) = Inr m"
  shows "billingMode m = ''tiered_expr''"
proof -
  let ?key = "''billing_setting.billing_mode''"
  have fields: "fst ` set ratios \<subseteq> set syncFieldOrder"
    using assms(3,4) by (fastforce simp: known_fields_def dest: map_of_SomeD)
  have key: "optionKeyBySyncField ''billing_mode'' = ?key" "?key \<notin> set ratio_keys" by code_simp+
  have "List.find (\<lambda>(rt, _). optionKeyBySyncField rt = ?key) ratios = None"
    using find_field_key [OF fields assms(5)] key(1) by (simp add: syncFieldOrder_def)
  then have "synced_cell ratios ?key (Some v) = Some v" for v using key(2) by (simp add: synced_cell_def)
  moreover have "cell_of final (?key, model) = synced_cell ratios ?key (cell_of (start_objects current) (?key, model))"
    using save_result [OF assms(1-3)] assms(4,7) by auto
  ultimately have "lookup (mapModelBillingMode (readSourceMaps (saveRequests final))) model = Str ''tiered_expr''"
    using assms(6) by (simp only: readSourceMaps_def source_maps.simps lookup_saved [OF assms(8)] option.case)
  then show ?thesis using assms(9) by (auto simp: buildModelState_def Let_def split: sum.splits if_splits)
qed

section \<open>A run\<close>

text \<open>One channel offers a new ratio for one model; its differences are loaded and the value is ticked.\<close>

definition example_channel :: sync_channel where
  "example_channel = \<lparr>ch_id = 1, ch_name = ''up'', ch_base_url = ''https://up.example'', ch_type = 1\<rparr>"

definition example_differences :: differences where
  "example_differences =
     [(''gpt'', [(''model_ratio'', Obj [(''current'', Num (Fin 1)), (''upstreams'', Obj [(''up'', Num (Fin 2))])])])]"

definition example_upstream_page :: sync_page where
  "example_upstream_page = receiveChannels (ChannelsGiven [example_channel]) (snd (openSelector initialSyncPage))"

definition loaded_page :: sync_page where
  "loaded_page = snd (receiveRatios (RatiosGiven example_differences [])
     (example_upstream_page\<lparr>selectedChannelIds := [1], modalVisible := False, syncLoading := True\<rparr>))"

definition example_row :: diff_row where
  "example_row = \<lparr>row_model = ''gpt'', row_types = snd (hd example_differences), billingConflict = False\<rparr>"

definition ticked_page :: sync_page where
  "ticked_page = toggleValue example_row ''model_ratio'' ''up'' True loaded_page"

lemma channels_reach: "sync_reach lower unknown ([], example_upstream_page)"
proof -
  have "openSelector initialSyncPage = ([FetchingChannels], snd (openSelector initialSyncPage))"
    by (simp add: openSelector_def initialSyncPage_def)
  then have "sync_step lower unknown ([], initialSyncPage) ([FetchingChannels] @ [], snd (openSelector initialSyncPage))"
    by (rule open_selector [rotated]) (simp add: controls_enabled_def initialSyncPage_def)
  from sync_next [OF sync_start this]
  have "sync_reach lower unknown ([FetchingChannels], snd (openSelector initialSyncPage))" by simp
  from sync_next [OF this channels_arrive [where answer = "ChannelsGiven [example_channel]"]]
  show ?thesis by (simp add: example_upstream_page_def)
qed

lemma loaded_reach: "sync_reach lower unknown ([], loaded_page)"
proof -
  let ?p = "example_upstream_page\<lparr>selectedChannelIds := [1]\<rparr>"
  have vis: "modalVisible example_upstream_page"
    by (simp add: example_upstream_page_def receiveChannels_def openSelector_def initialSyncPage_def Let_def)
  from sync_next [OF channels_reach choose_channels [OF this, where ids = "[1]"]]
  have r: "sync_reach lower unknown ([], ?p)" .
  have "selectedChannels ?p = [example_channel]"
    by (simp add: selectedChannels_def example_upstream_page_def receiveChannels_def transfer_of_def example_channel_def Let_def)
  then obtain payload where "confirmChannelSelection ?p = Inr (payload, ?p\<lparr>modalVisible := False, syncLoading := True\<rparr>)"
    by (simp add: confirmChannelSelection_def)
  from sync_next [OF r confirm_selector [OF _ this]] vis
  have "sync_reach lower unknown ([FetchingRatios], ?p\<lparr>modalVisible := False, syncLoading := True\<rparr>)" by simp
  from sync_next [OF this ratios_arrive [where answer = "RatiosGiven example_differences []"]]
  show ?thesis by (simp add: loaded_page_def example_differences_def receiveRatios_def Let_def)
qed

lemma loaded_simps [simp]:
  "differences loaded_page = example_differences" "resolutions loaded_page = []" "ratioTypeFilter loaded_page = []"
  "searchKeyword loaded_page = []" "syncCurrentPage loaded_page = 1" "syncPageSize loaded_page = 10" "controls_enabled loaded_page"
  by (simp_all add: loaded_page_def receiveRatios_def Let_def example_upstream_page_def receiveChannels_def openSelector_def
      initialSyncPage_def controls_enabled_def)

lemma example_rows: "filteredDataSource lower [] [] example_differences = [example_row]"
  by (simp add: filteredDataSource_def dataSource_def obj_entries_named example_differences_def example_row_def
      is_index_def all_digits_def is_digit_def ratioSyncFields_def)

lemma ticked_reach: "sync_reach lower unknown ([], ticked_page)"
proof -
  have "shownRows lower loaded_page = [example_row]" by (simp add: shownRows_def example_rows)
  moreover have "upstreamNames [] [example_row] = [''up'']" by code_simp
  moreover have "renderUpstreamFields [] example_differences [] example_row ''up''
      = [(''model_ratio'', ValueBox False ''2'' False)]" by code_simp
  ultimately have "sync_step lower unknown ([], loaded_page) ([], ticked_page)"
    unfolding ticked_page_def
    by (intro tick_value [where checked = False and shown = "''2''" and doubtful = False]) (simp_all add: pageRows_def getCurrentPageData_def js_slice_def slice_bound_def shownColumns_def)
  from sync_next [OF loaded_reach this] show ?thesis .
qed

lemma ticked_resolutions: "resolutions ticked_page = [(''gpt'', [(''model_ratio'', Num (Fin 2))])]"
  by (simp add: ticked_page_def toggleValue_def) code_simp

section \<open>Witnesses\<close>

lemma example_options: "readCurrentRatios [] = Inr (map (\<lambda>k. (k, Obj [])) option_keys)"
  by code_simp

theorem ticks_are_offered_witness:
  "isSelectableUpstreamValue (Num (Fin 2)) \<and>
   (\<exists>up. getUpstreamValue (differences ticked_page) ''gpt'' ''model_ratio'' up = Num (Fin 2))"
  using ticks_are_offered [OF ticked_reach, of "''gpt''" "[(''model_ratio'', Num (Fin 2))]"] by (simp add: ticked_resolutions)

definition example_final :: option_objects where
  "example_final = map (\<lambda>k. (k, if k = ''ModelRatio'' then [(''gpt'', Num (Fin 2))] else [])) option_keys"

lemma example_save:
  "finalRatios (map (\<lambda>k. (k, Obj [])) option_keys) [(''gpt'', [(''model_ratio'', Num (Fin 2))])] = Inr example_final"
  by code_simp

lemma example_known: "known_fields [(''model_ratio'', Num (Fin 2))]"
  by (simp add: known_fields_def syncFieldOrder_def ratioSyncFields_def)

theorem save_writes_ticked_witness:
  "\<exists>final. finalRatios (map (\<lambda>k. (k, Obj [])) option_keys) (resolutions ticked_page) = Inr final \<and>
     cell_of final (''ModelRatio'', ''gpt'') = synced_cell [(''model_ratio'', Num (Fin 2))] ''ModelRatio''
       (cell_of (start_objects (map (\<lambda>k. (k, Obj [])) option_keys)) (''ModelRatio'', ''gpt''))"
  using save_writes_ticked [of "map (\<lambda>k. (k, Obj [])) option_keys" "resolutions ticked_page"] example_known
  by (auto simp: ticked_resolutions comp_def)

lemma example_json: "list_all (\<lambda>(k, ob). json_data (Obj ob)) example_final"
  by code_simp

lemma example_model:
  "\<exists>m. buildModelState ''gpt'' (readSourceMaps (saveRequests example_final)) = Inr m"
proof -
  have "cell_of example_final (''billing_setting.billing_mode'', ''gpt'') = None" by code_simp
  then have "lookup (mapModelBillingMode (readSourceMaps (saveRequests example_final))) ''gpt'' = Undef"
    by (simp only: readSourceMaps_def source_maps.simps lookup_saved [OF example_json] option.case)
  then show ?thesis by (simp only: buildModelState_def jsval.distinct if_False) blast
qed

theorem saved_models_consistent_witness:
  "\<exists>m. buildModelState ''gpt'' (readSourceMaps (saveRequests example_final)) = Inr m \<and> \<not> hasConflict m"
proof -
  obtain m where m: "buildModelState ''gpt'' (readSourceMaps (saveRequests example_final)) = Inr m" using example_model by blast
  have "\<not> hasConflict m"
    by (rule saved_models_consistent [OF ticked_reach example_options _ _ example_json _ _ m, where ratios = "[(''model_ratio'', Num (Fin 2))]"])
      (simp_all add: ticked_resolutions example_save new_category_def ratioSyncFields_def syncFieldOrder_def)
  with m show ?thesis by blast
qed

lemma example_local: "getLocalBillingCategory (map (\<lambda>k. (k, Obj [])) option_keys) ''gpt'' = Inr None"
  by code_simp

theorem apply_asks_first_witness:
  "\<exists>new st' requests. applySync ''?'' [] ticked_page = Inr (new, st') \<and> new = [Saving (resolutions ticked_page) requests False]"
proof -
  have none: "collect_conflicts ''?'' (differences ticked_page) (map (\<lambda>k. (k, Obj [])) option_keys)
      (obj_entries (resolutions ticked_page)) = Inr []"
    unfolding ticked_resolutions by (simp add: example_local obj_entries_named is_index_def all_digits_def is_digit_def conflict_of_def)
  define st' where "st' = ticked_page\<lparr>pageLoading := True\<rparr>"
  define new where "new = [Saving (resolutions ticked_page) (saveRequests example_final) False]"
  have run: "applySync ''?'' [] ticked_page = Inr (new, st')"
    using none by (simp add: applySync_def example_options performSync_def ticked_resolutions example_save st'_def new_def)
  from apply_asks_first [OF this] run show ?thesis by (auto simp: new_def)
qed

theorem column_checkbox_witness:
  "allSelected (columnStats id ''up'' (toggleColumn id ''up'' True ticked_page)) \<and>
   selectedCount (columnStats id ''up'' (toggleColumn id ''up'' False ticked_page)) = 0"
proof -
  have page: "differences ticked_page = example_differences" "ratioTypeFilter ticked_page = []" "searchKeyword ticked_page = []"
    by (simp_all add: ticked_page_def toggleValue_def)
  have "shownRows id ticked_page = [example_row]" by (simp add: shownRows_def page example_rows)
  moreover have "column_ticks [] example_differences [example_row] ''up'' = [(''gpt'', ''model_ratio'', Num (Fin 2))]" by code_simp
  ultimately have ticks: "columnTicks id ''up'' ticked_page = [(''gpt'', ''model_ratio'', Num (Fin 2))]" by (simp add: page)
  show ?thesis
  proof (rule column_checkbox [OF ticked_reach])
    show "hasSelectableItems (columnStats id ''up'' ticked_page)" by (simp add: channelStats_def ticks Let_def)
    show "compatible (set (columnTicks id ''up'' ticked_page))"
      unfolding ticks by (simp add: compatible_def getBillingCategory_def)
    show "\<forall>(model, rt, v) \<in> set (columnTicks id ''up'' ticked_page). strict_eq v v" unfolding ticks by simp
  qed
qed

text \<open>The same tick on a model that is billed by expression.\<close>

definition tiered_options :: "(string \<times> jsval) list" where
  "tiered_options = map (\<lambda>k. (k, if k = ''billing_setting.billing_mode'' then Obj [(''gpt'', Str ''tiered_expr'')] else Obj [])) option_keys"

definition tiered_final :: option_objects where
  "tiered_final = map (\<lambda>k. (k, if k = ''billing_setting.billing_mode'' then [(''gpt'', Str ''tiered_expr'')]
     else if k = ''ModelRatio'' then [(''gpt'', Num (Fin 2))] else [])) option_keys"

theorem expression_mode_survives_witness:
  "\<exists>m. buildModelState ''gpt'' (readSourceMaps (saveRequests tiered_final)) = Inr m \<and> billingMode m = ''tiered_expr''"
proof -
  have json: "list_all (\<lambda>(k, ob). json_data (Obj ob)) tiered_final" by code_simp
  have "buildModelState ''gpt'' (readSourceMaps (saveRequests tiered_final)) =
      Inr (EMPTY_MODEL\<lparr>model_name := ''gpt'', billingMode := ''tiered_expr''\<rparr>)" (is "_ = Inr ?m")
  proof -
    have "cell_of tiered_final (''billing_setting.billing_mode'', ''gpt'') = Some (Str ''tiered_expr'')"
      "cell_of tiered_final (''billing_setting.billing_expr'', ''gpt'') = None" by code_simp+
    then have "lookup (mapModelBillingMode (readSourceMaps (saveRequests tiered_final))) ''gpt'' = Str ''tiered_expr''"
      "lookup (mapModelBillingExpr (readSourceMaps (saveRequests tiered_final))) ''gpt'' = Undef"
      by (simp_all only: readSourceMaps_def source_maps.simps lookup_saved [OF json] option.case)
    moreover have "splitBillingExprAndRequestRules [] = Inr ([], [])" by code_simp
    ultimately show ?thesis by (simp only: buildModelState_def) (simp add: EMPTY_MODEL_def)
  qed
  moreover have "billingMode ?m = ''tiered_expr''"
  proof (rule expression_mode_survives [OF _ _ _ _ _ _ _ json calculation, where current = tiered_options
        and res = "[(''gpt'', [(''model_ratio'', Num (Fin 2))])]" and ratios = "[(''model_ratio'', Num (Fin 2))]"])
    show "map fst tiered_options = option_keys" by (simp add: tiered_options_def comp_def)
    show "cell_of (start_objects tiered_options) (''billing_setting.billing_mode'', ''gpt'') = Some (Str ''tiered_expr'')" by code_simp
    show "finalRatios tiered_options [(''gpt'', [(''model_ratio'', Num (Fin 2))])] = Inr tiered_final" by code_simp
  qed (simp_all add: example_known)
  ultimately show ?thesis by blast
qed

end
