(* ===== verification/Channels_Data.thy ===== *)
theory Channels_Data
  imports JS_Json
begin

text \<open>
  The data of the channel list (\<open>src/web/src/hooks/channels/useChannelsData.jsx\<close> and
  \<open>upstreamUpdateUtils.js\<close>). The rows of the table are objects that several closures share and that
  handlers change in place, so they live in a store: a row is an address, a tag row holds the
  addresses of its channels. \<open>setChannels\<close> replaces the list of addresses only.
\<close>

section \<open>Channels and pending model updates\<close>

record update_meta =
  um_enabled :: bool
  um_pendingAddModels :: "string list"
  um_pendingRemoveModels :: "string list"

definition no_updates :: update_meta where
  "no_updates = \<lparr>um_enabled = False, um_pendingAddModels = [], um_pendingRemoveModels = []\<rparr>"

text \<open>\<open>models || []\<close> must have a \<open>map\<close> method: an array, or anything falsy.\<close>

definition normalizeModelList :: "jsval \<Rightarrow> js_error + string list" where
  "normalizeModelList models =
     (let clean = (\<lambda>xs. uniq (filter (\<lambda>s. s \<noteq> []) (map (\<lambda>m. trim (if truthy m then js_String m else [])) xs))) in
      case models of
        Arr xs \<Rightarrow> Inr (clean xs)
      | v \<Rightarrow> if truthy v then Inl TypeError else Inr [])"

definition settings_value :: "jsval \<Rightarrow> jsval" where
  "settings_value settings =
     (case settings of
        Obj ob \<Rightarrow> settings
      | Arr xs \<Rightarrow> settings
      | Str s \<Rightarrow> (case json_parse s of Some v \<Rightarrow> v | None \<Rightarrow> Null)
      | _ \<Rightarrow> Null)"

fun is_objectlike :: "jsval \<Rightarrow> bool" where
  "is_objectlike (Obj _) = True"
| "is_objectlike (Arr _) = True"
| "is_objectlike _ = False"

definition parseUpstreamUpdateMeta :: "jsval \<Rightarrow> js_error + update_meta" where
  "parseUpstreamUpdateMeta settings =
     (let parsed = settings_value settings in
      if \<not> is_objectlike parsed then Inr no_updates
      else
        (case normalizeModelList (get_prop parsed ''upstream_model_update_last_detected_models'') of
           Inl e \<Rightarrow> Inl e
         | Inr add \<Rightarrow>
             map_sum id (\<lambda>rem.
               \<lparr>um_enabled = (get_prop parsed ''upstream_model_update_check_enabled'' = Bool True),
                um_pendingAddModels = add, um_pendingRemoveModels = rem\<rparr>)
               (normalizeModelList (get_prop parsed ''upstream_model_update_last_removed_models''))))"

text \<open>A channel as the server sends it; a missing tag is the empty string.\<close>

record chan =
  c_id :: int
  c_name :: string
  c_type :: int
  c_tag :: string
  c_group :: string
  c_models :: string
  c_status :: int
  c_priority :: jsval
  c_weight :: jsval
  c_used_quota :: jsnum
  c_response_time :: jsnum
  c_test_time :: jsnum
  c_balance :: jsval
  c_balance_updated_time :: jsnum
  c_settings :: jsval
  c_key :: string
  c_upstreamUpdateMeta :: update_meta

record tag_row =
  tg_key :: string
  tg_group :: string
  tg_used_quota :: jsnum
  tg_response_time :: jsnum
  tg_priority :: jsval
  tg_weight :: jsval
  tg_status :: "int option"
  tg_children :: "nat list"

section \<open>The store\<close>

record obj_store =
  chans :: "nat \<rightharpoonup> chan"
  tag_rows :: "nat \<rightharpoonup> tag_row"
  next_addr :: nat

datatype row = ChanRow nat | TagRow nat

definition empty_store :: obj_store where
  "empty_store = \<lparr>chans = Map.empty, tag_rows = Map.empty, next_addr = 0\<rparr>"

definition new_chan :: "chan \<Rightarrow> obj_store \<Rightarrow> nat \<times> obj_store" where
  "new_chan c s = (next_addr s, s\<lparr>chans := (chans s)(next_addr s \<mapsto> c), next_addr := Suc (next_addr s)\<rparr>)"

definition new_tag_row :: "tag_row \<Rightarrow> obj_store \<Rightarrow> nat \<times> obj_store" where
  "new_tag_row t s = (next_addr s, s\<lparr>tag_rows := (tag_rows s)(next_addr s \<mapsto> t), next_addr := Suc (next_addr s)\<rparr>)"

definition change_chan :: "nat \<Rightarrow> (chan \<Rightarrow> chan) \<Rightarrow> obj_store \<Rightarrow> obj_store" where
  "change_chan a f s = s\<lparr>chans := (chans s)(a := map_option f (chans s a))\<rparr>"

definition change_tag_row :: "nat \<Rightarrow> (tag_row \<Rightarrow> tag_row) \<Rightarrow> obj_store \<Rightarrow> obj_store" where
  "change_tag_row a f s = s\<lparr>tag_rows := (tag_rows s)(a := map_option f (tag_rows s a))\<rparr>"

section \<open>Building the rows\<close>

definition chan_key :: "int \<Rightarrow> string" where
  "chan_key i = number_to_string (Fin (of_int i))"

definition prepare_channel :: "chan \<Rightarrow> js_error + chan" where
  "prepare_channel c =
     map_sum id (\<lambda>meta. c\<lparr>c_upstreamUpdateMeta := meta, c_key := chan_key (c_id c)\<rparr>)
       (parseUpstreamUpdateMeta (c_settings c))"

definition fresh_tag_row :: "string \<Rightarrow> tag_row" where
  "fresh_tag_row tag =
     \<lparr>tg_key = tag, tg_group = [], tg_used_quota = Fin 0, tg_response_time = Fin 0,
      tg_priority = Num (Fin (- 1)), tg_weight = Num (Fin (- 1)), tg_status = None, tg_children = []\<rparr>"

text \<open>The marker -1 stands for no value yet, the empty string for different values.\<close>

definition merge_shared :: "jsval \<Rightarrow> jsval \<Rightarrow> jsval" where
  "merge_shared shared v =
     (if strict_eq shared (Num (Fin (- 1))) then v
      else if \<not> strict_eq shared v then Str [] else shared)"

text \<open>\<open>indexOf\<close> looks for the group's name anywhere in the text collected so far.\<close>

definition merge_group :: "string \<Rightarrow> string \<Rightarrow> string" where
  "merge_group shared g =
     (if shared = [] then g
      else foldl (\<lambda>acc item. if js_includes acc item then acc else acc @ '','' @ item) shared (split_char CHR '','' g))"

definition merge_into_tag :: "nat \<Rightarrow> chan \<Rightarrow> tag_row \<Rightarrow> tag_row" where
  "merge_into_tag a c t =
     t\<lparr>tg_priority := merge_shared (tg_priority t) (c_priority c),
       tg_weight := merge_shared (tg_weight t) (c_weight c),
       tg_group := merge_group (tg_group t) (c_group c),
       tg_children := tg_children t @ [a],
       tg_status := (if c_status c = 1 then Some 1 else tg_status t),
       tg_used_quota := num_add (tg_used_quota t) (c_used_quota c),
       tg_response_time := num_div (num_add (tg_response_time t) (c_response_time c)) (Fin 2)\<rparr>"

fun row_has_tag :: "obj_store \<Rightarrow> string \<Rightarrow> row \<Rightarrow> bool" where
  "row_has_tag s tag (TagRow t) = (case tag_rows s t of Some tr \<Rightarrow> tg_key tr = tag | None \<Rightarrow> False)"
| "row_has_tag s tag (ChanRow _) = False"

text \<open>
  The index of tags is a plain object, which answers for the names of \<open>Object.prototype\<close> too: such
  a tag counts as seen, no row is found for it and reading that row's priority throws.
\<close>

definition prototype_names :: "string list" where
  "prototype_names =
     [''constructor'', ''__defineGetter__'', ''__defineSetter__'', ''hasOwnProperty'', ''__lookupGetter__'',
      ''__lookupSetter__'', ''isPrototypeOf'', ''propertyIsEnumerable'', ''toString'', ''valueOf'', ''__proto__'',
      ''toLocaleString'']"

fun row_addr :: "row \<Rightarrow> nat" where
  "row_addr (TagRow t) = t"
| "row_addr (ChanRow a) = a"

fun format_rows :: "bool \<Rightarrow> chan list \<Rightarrow> row list \<times> obj_store \<Rightarrow> js_error + row list \<times> obj_store" where
  "format_rows tagMode [] acc = Inr acc"
| "format_rows tagMode (c # cs) (rows, s) =
     (case prepare_channel c of
        Inl e \<Rightarrow> Inl e
      | Inr c' \<Rightarrow>
          (let (a, s1) = new_chan c' s in
           if \<not> tagMode then format_rows tagMode cs (rows @ [ChanRow a], s1)
           else if List.member prototype_names (c_tag c') then Inl TypeError
           else
             (case List.find (row_has_tag s1 (c_tag c')) rows of
                Some r \<Rightarrow> format_rows tagMode cs (rows, change_tag_row (row_addr r) (merge_into_tag a c') s1)
              | None \<Rightarrow>
                  (let (t, s2) = new_tag_row (fresh_tag_row (c_tag c')) s1 in
                   format_rows tagMode cs (rows @ [TagRow t], change_tag_row t (merge_into_tag a c') s2)))))"

definition setChannelFormat :: "chan list \<Rightarrow> bool \<Rightarrow> obj_store \<Rightarrow> js_error + row list \<times> obj_store" where
  "setChannelFormat channels enableTagMode s = format_rows enableTagMode channels ([], s)"

section \<open>Changing rows in place\<close>

fun row_channels :: "obj_store \<Rightarrow> row \<Rightarrow> nat list" where
  "row_channels s (ChanRow a) = [a]"
| "row_channels s (TagRow t) = (case tag_rows s t of Some tr \<Rightarrow> tg_children tr | None \<Rightarrow> [])"

definition chan_has_id :: "obj_store \<Rightarrow> int \<Rightarrow> nat \<Rightarrow> bool" where
  "chan_has_id s i a \<longleftrightarrow> (case chans s a of Some c \<Rightarrow> c_id c = i | None \<Rightarrow> False)"

text \<open>
  \<open>updateChannelProperty\<close> with the list its closure holds: the matching channels are changed, and if
  there was one that list becomes the table's.
\<close>

definition updateChannelProperty ::
  "row list \<Rightarrow> int \<Rightarrow> (chan \<Rightarrow> chan) \<Rightarrow> row list \<times> obj_store \<Rightarrow> row list \<times> obj_store" where
  "updateChannelProperty channels channelId updateFn = (\<lambda>(rows, s).
     let hits = filter (chan_has_id s channelId) (concat (map (row_channels s) channels)) in
     if hits = [] then (rows, s) else (channels, foldl (\<lambda>st a. change_chan a updateFn st) s hits))"

fun row_tag :: "obj_store \<Rightarrow> row \<Rightarrow> string option" where
  "row_tag s (TagRow t) = map_option tg_key (tag_rows s t)"
| "row_tag s (ChanRow a) = map_option c_tag (chans s a)"

fun set_row_status :: "int \<Rightarrow> obj_store \<Rightarrow> row \<Rightarrow> obj_store" where
  "set_row_status status s (TagRow t) =
     change_tag_row t (\<lambda>tr. tr\<lparr>tg_status := Some status\<rparr>)
       (foldl (\<lambda>st a. change_chan a (\<lambda>c. c\<lparr>c_status := status\<rparr>) st) s (row_channels s (TagRow t)))"
| "set_row_status status s (ChanRow a) = change_chan a (\<lambda>c. c\<lparr>c_status := status\<rparr>) s"

datatype tag_action = EnableTag | DisableTag

text \<open>\<open>manageTag\<close> after a successful answer.\<close>

definition manageTag :: "row list \<Rightarrow> string \<Rightarrow> tag_action \<Rightarrow> obj_store \<Rightarrow> row list \<times> obj_store" where
  "manageTag channels tag action s =
     (let status = (if action = EnableTag then 1 else 2) in
      (channels, foldl (set_row_status status) s (filter (\<lambda>r. row_tag s r = Some tag) channels)))"

text \<open>The actions of \<open>manageChannel\<close>, with the request each sends.\<close>

datatype channel_action =
  DeleteChannel | EnableChannel | DisableChannel | SetPriority string | SetWeight string | EnableAllKeys jsval

datatype channel_request = DeleteRequest int | PutRequest "jsval jsobj"

fun manage_request :: "int \<Rightarrow> channel_action \<Rightarrow> channel_request option" where
  "manage_request i DeleteChannel = Some (DeleteRequest i)"
| "manage_request i EnableChannel = Some (PutRequest [(''id'', Num (Fin (of_int i))), (''status'', Num (Fin 1))])"
| "manage_request i DisableChannel = Some (PutRequest [(''id'', Num (Fin (of_int i))), (''status'', Num (Fin 2))])"
| "manage_request i (SetPriority v) =
     (if v = [] then None else Some (PutRequest [(''id'', Num (Fin (of_int i))), (''priority'', Num (parse_int v))]))"
| "manage_request i (SetWeight v) =
     (if v = [] then None
      else let w = parse_int v in
        Some (PutRequest [(''id'', Num (Fin (of_int i))), (''weight'', Num (if num_less w (Fin 0) then Fin 0 else w))]))"
| "manage_request i (EnableAllKeys info) =
     Some (PutRequest [(''id'', Num (Fin (of_int i))),
       (''channel_info'', case info of Obj ob \<Rightarrow> Obj (obj_set ''multi_key_status_list'' (Obj []) ob) | v \<Rightarrow> v)])"

text \<open>A successful answer: the record takes the server's status, unless it was deleted.\<close>

definition manageChannelDone ::
  "row list \<Rightarrow> nat \<Rightarrow> channel_action \<Rightarrow> int \<Rightarrow> obj_store \<Rightarrow> row list \<times> obj_store" where
  "manageChannelDone channels record action serverStatus s =
     (channels, if action = DeleteChannel then s else change_chan record (\<lambda>c. c\<lparr>c_status := serverStatus\<rparr>) s)"

section \<open>Counts by type\<close>

definition type_key :: "int \<Rightarrow> string" where
  "type_key ty = number_to_string (Fin (of_int ty))"

definition listed_channels :: "obj_store \<Rightarrow> row list \<Rightarrow> chan list" where
  "listed_channels s rows = List.map_filter (chans s) (concat (map (row_channels s) rows))"

definition count_type :: "nat jsobj \<Rightarrow> chan \<Rightarrow> nat jsobj" where
  "count_type counts c =
     obj_set (type_key (c_type c)) ((case map_of counts (type_key (c_type c)) of Some n \<Rightarrow> n | None \<Rightarrow> 0) + 1) counts"

definition channelTypeCounts :: "nat jsobj \<Rightarrow> obj_store \<Rightarrow> row list \<Rightarrow> nat jsobj" where
  "channelTypeCounts typeCounts s rows =
     (if typeCounts \<noteq> [] then typeCounts
      else foldl count_type [(''all'', length rows)] (listed_channels s rows))"

definition availableTypeKeys :: "nat jsobj \<Rightarrow> string list" where
  "availableTypeKeys counts =
     ''all'' # map fst (filter (\<lambda>(k, v). k \<noteq> ''all'' \<and> v > 0) (obj_entries counts))"

text \<open>\<open>{ ...type_counts, all: sumAll }\<close>\<close>

definition withAll :: "nat jsobj \<Rightarrow> nat jsobj" where
  "withAll type_counts = obj_set ''all'' (sum_list (map snd type_counts)) type_counts"

end
