(* ===== verification/Channels_Page.thy ===== *)
theory Channels_Page
  imports Channels_Data
begin

text \<open>
  Loading, searching and paging of the channel list
  (\<open>src/web/src/hooks/channels/useChannelsData.jsx\<close>, with the switches of
  \<open>components/table/channels/ChannelsActions.jsx\<close> and \<open>ChannelsTabs.jsx\<close>): the state of the hook, its
  handlers, and the list requests under way, whose answers arrive in any order. Every handler ends in
  a call of \<open>loadChannels\<close> or \<open>searchChannels\<close>, which give the new state and the request they sent.
\<close>

section \<open>State\<close>

record list_form =
  formKeyword :: string
  formGroup :: string
  formModel :: string

text \<open>
  The number of a page. The refresh button hands its click event to \<open>refresh\<close>, whose first parameter
  is the page, so an event object can take the place of the number.
\<close>

datatype page_arg = PageNo int | ClickEvent

record channels_page =
  rows :: "row list"
  store :: obj_store
  listLoading :: bool
  searching :: bool
  listPage :: page_arg
  listPageSize :: int
  idSort :: bool
  enableTagMode :: bool
  enableBatchDelete :: bool
  channelCount :: int
  typeCounts :: "nat jsobj"
  activeTypeKey :: string
  statusFilter :: string
  listForm :: list_form
  requestCounter :: nat
  localStorage :: "string jsobj"

definition empty_form :: list_form where
  "empty_form = \<lparr>formKeyword = [], formGroup = [], formModel = []\<rparr>"

definition no_search :: "list_form \<Rightarrow> bool" where
  "no_search f \<longleftrightarrow> formKeyword f = [] \<and> formGroup f = [] \<and> formModel f = []"

section \<open>Requests\<close>

text \<open>
  A request under way: a load with its number, or a search with its page; whether the flags
  \<open>loading\<close> and \<open>searching\<close> are cleared when the call that started it returns.
\<close>

datatype list_kind = Load nat | Search page_arg

record list_request =
  rq_kind :: list_kind
  rq_url :: string
  rq_tagMode :: bool
  rq_clearsLoading :: bool
  rq_clearsSearching :: bool

definition show_bool :: "bool \<Rightarrow> string" where
  "show_bool b = (if b then ''true'' else ''false'')"

definition show_num :: "int \<Rightarrow> string" where
  "show_num i = number_to_string (Fin (of_int i))"

fun page_text :: "page_arg \<Rightarrow> string" where
  "page_text (PageNo i) = show_num i"
| "page_text ClickEvent = ''[object Object]''"

definition type_param :: "string \<Rightarrow> string" where
  "type_param typeKey = (if typeKey \<noteq> ''all'' then ''&type='' @ typeKey else [])"

definition status_param :: "string \<Rightarrow> string" where
  "status_param statusF = (if statusF \<noteq> ''all'' then ''&status='' @ statusF else [])"

definition load_url :: "page_arg \<Rightarrow> int \<Rightarrow> bool \<Rightarrow> bool \<Rightarrow> string \<Rightarrow> string \<Rightarrow> string" where
  "load_url page psize byId tagMode typeKey statusF =
     ''/api/channel/?p='' @ page_text page @ ''&page_size='' @ show_num psize @ ''&id_sort='' @ show_bool byId @
     ''&tag_mode='' @ show_bool tagMode @ type_param typeKey @ status_param statusF"

definition search_url :: "list_form \<Rightarrow> page_arg \<Rightarrow> int \<Rightarrow> bool \<Rightarrow> bool \<Rightarrow> string \<Rightarrow> string \<Rightarrow> string" where
  "search_url f page psize byId tagMode typeKey statusF =
     ''/api/channel/search?keyword='' @ formKeyword f @ ''&group='' @ formGroup f @ ''&model='' @ formModel f @
     ''&id_sort='' @ show_bool byId @ ''&tag_mode='' @ show_bool tagMode @ ''&p='' @ page_text page @
     ''&page_size='' @ show_num psize @ type_param typeKey @ status_param statusF"

text \<open>
  \<open>loadChannels\<close> with a filled form calls \<open>searchChannels\<close> and clears \<open>loading\<close> afterwards;
  \<open>searchChannels\<close> with an empty form calls \<open>loadChannels\<close>; the form is read in the same instant, so
  neither calls the other twice.
\<close>

definition loadChannels ::
  "page_arg \<Rightarrow> int \<Rightarrow> bool \<Rightarrow> bool \<Rightarrow> string \<Rightarrow> string \<Rightarrow> channels_page \<Rightarrow> list_request \<times> channels_page" where
  "loadChannels page psize byId tagMode typeKey statusF st =
     (if \<not> no_search (listForm st) then
        (\<lparr>rq_kind = Search page, rq_url = search_url (listForm st) page psize byId tagMode typeKey statusF,
          rq_tagMode = tagMode, rq_clearsLoading = True, rq_clearsSearching = True\<rparr>,
         st\<lparr>listLoading := True, searching := True\<rparr>)
      else
        (\<lparr>rq_kind = Load (Suc (requestCounter st)), rq_url = load_url page psize byId tagMode typeKey statusF,
          rq_tagMode = tagMode, rq_clearsLoading = True, rq_clearsSearching = False\<rparr>,
         st\<lparr>listLoading := True, requestCounter := Suc (requestCounter st)\<rparr>))"

definition searchChannels ::
  "bool \<Rightarrow> string \<Rightarrow> string \<Rightarrow> page_arg \<Rightarrow> int \<Rightarrow> bool \<Rightarrow> channels_page \<Rightarrow> list_request \<times> channels_page" where
  "searchChannels tagMode typeKey statusF page psize byId st =
     (if no_search (listForm st) then
        (let (rq, st') = loadChannels page psize byId tagMode typeKey statusF (st\<lparr>searching := True\<rparr>) in
         (rq\<lparr>rq_clearsSearching := True\<rparr>, st'))
      else
        (\<lparr>rq_kind = Search page, rq_url = search_url (listForm st) page psize byId tagMode typeKey statusF,
          rq_tagMode = tagMode, rq_clearsLoading = False, rq_clearsSearching = True\<rparr>,
         st\<lparr>searching := True\<rparr>))"

section \<open>Answers\<close>

datatype list_answer =
    ListGiven "chan list" int "nat jsobj option"
  | ListRefused string
  | ListThrown string

text \<open>
  The list of an answer is shown; an exception while the rows are built ends the call. The flag is
  true when the call runs to its end.
\<close>

definition show_items ::
  "bool \<Rightarrow> chan list \<Rightarrow> int \<Rightarrow> (channels_page \<Rightarrow> channels_page) \<Rightarrow> channels_page \<Rightarrow> bool \<times> channels_page" where
  "show_items tagMode items tot after st =
     (case setChannelFormat items tagMode (store st) of
        Inl e \<Rightarrow> (False, st)
      | Inr (rs, s) \<Rightarrow> (True, after (st\<lparr>rows := rs, store := s, channelCount := tot\<rparr>)))"

definition answer_load :: "nat \<Rightarrow> bool \<Rightarrow> list_answer \<Rightarrow> channels_page \<Rightarrow> bool \<times> channels_page" where
  "answer_load reqId tagMode answer st =
     (case answer of
        ListThrown msg \<Rightarrow> (False, st)
      | _ \<Rightarrow>
          if reqId \<noteq> requestCounter st then (False, st)
          else
            (case answer of
               ListGiven items tot counts \<Rightarrow>
                 show_items tagMode items tot id
                   (case counts of Some tc \<Rightarrow> st\<lparr>typeCounts := withAll tc\<rparr> | None \<Rightarrow> st)
             | _ \<Rightarrow> (True, st)))"

definition answer_search :: "page_arg \<Rightarrow> bool \<Rightarrow> list_answer \<Rightarrow> channels_page \<Rightarrow> bool \<times> channels_page" where
  "answer_search page tagMode answer st =
     (case answer of
        ListGiven items tot counts \<Rightarrow>
          show_items tagMode items tot (\<lambda>s. s\<lparr>listPage := page\<rparr>)
            (st\<lparr>typeCounts := withAll (case counts of Some tc \<Rightarrow> tc | None \<Rightarrow> [])\<rparr>)
      | ListRefused msg \<Rightarrow> (True, st)
      | ListThrown msg \<Rightarrow> (False, st))"

text \<open>
  The end of a call: \<open>loading\<close> is cleared if it ran to its end, \<open>searching\<close> in a \<open>finally\<close>.
\<close>

definition receiveList :: "list_request \<Rightarrow> list_answer \<Rightarrow> channels_page \<Rightarrow> channels_page" where
  "receiveList rq answer st =
     (let (completed, st1) =
            (case rq_kind rq of
               Load reqId \<Rightarrow> answer_load reqId (rq_tagMode rq) answer st
             | Search page \<Rightarrow> answer_search page (rq_tagMode rq) answer st);
          st2 = (if rq_clearsSearching rq then st1\<lparr>searching := False\<rparr> else st1) in
      if completed \<and> rq_clearsLoading rq then st2\<lparr>listLoading := False\<rparr> else st2)"

section \<open>Handlers\<close>

definition storage_set :: "string \<Rightarrow> string \<Rightarrow> channels_page \<Rightarrow> channels_page" where
  "storage_set k v st = st\<lparr>localStorage := obj_set k v (localStorage st)\<rparr>"

definition load_default :: "page_arg \<Rightarrow> channels_page \<Rightarrow> list_request \<times> channels_page" where
  "load_default page st =
     loadChannels page (listPageSize st) (idSort st) (enableTagMode st) (activeTypeKey st) (statusFilter st) st"

definition search_default :: "page_arg \<Rightarrow> channels_page \<Rightarrow> list_request \<times> channels_page" where
  "search_default page st =
     searchChannels (enableTagMode st) (activeTypeKey st) (statusFilter st) page (listPageSize st) (idSort st) st"

definition refresh :: "page_arg \<Rightarrow> channels_page \<Rightarrow> list_request \<times> channels_page" where
  "refresh page st = (if no_search (listForm st) then load_default page st else search_default page st)"

definition handlePageChange :: "int \<Rightarrow> channels_page \<Rightarrow> list_request \<times> channels_page" where
  "handlePageChange page st =
     (let st' = st\<lparr>listPage := PageNo page\<rparr> in
      if no_search (listForm st) then load_default (PageNo page) st' else search_default (PageNo page) st')"

definition handlePageSizeChange :: "int \<Rightarrow> channels_page \<Rightarrow> list_request \<times> channels_page" where
  "handlePageSizeChange psize st =
     (let st' = (storage_set ''page-size'' (show_num psize) st)\<lparr>listPageSize := psize, listPage := PageNo 1\<rparr> in
      if no_search (listForm st) then load_default (PageNo 1) st' else search_default (PageNo 1) st')"

definition submitSearch :: "channels_page \<Rightarrow> list_request \<times> channels_page" where
  "submitSearch st = search_default (PageNo 1) st"

definition changeIdSort :: "bool \<Rightarrow> channels_page \<Rightarrow> list_request \<times> channels_page" where
  "changeIdSort v st =
     (let st' = (storage_set ''id-sort'' (show_bool v) st)\<lparr>idSort := v\<rparr> in
      if no_search (listForm st) then load_default (listPage st) st' else search_default (listPage st) st')"

definition changeBatchDelete :: "bool \<Rightarrow> channels_page \<Rightarrow> channels_page" where
  "changeBatchDelete v st = (storage_set ''enable-batch-delete'' (show_bool v) st)\<lparr>enableBatchDelete := v\<rparr>"

definition changeTagMode :: "bool \<Rightarrow> channels_page \<Rightarrow> list_request \<times> channels_page" where
  "changeTagMode v st =
     load_default (PageNo 1) ((storage_set ''enable-tag-mode'' (show_bool v) st)\<lparr>enableTagMode := v, listPage := PageNo 1\<rparr>)"

definition changeStatusFilter :: "string \<Rightarrow> channels_page \<Rightarrow> list_request \<times> channels_page" where
  "changeStatusFilter v st =
     load_default (PageNo 1) ((storage_set ''channel-status-filter'' v st)\<lparr>statusFilter := v, listPage := PageNo 1\<rparr>)"

definition handleTabChange :: "string \<Rightarrow> channels_page \<Rightarrow> list_request \<times> channels_page" where
  "handleTabChange key st = load_default (PageNo 1) (st\<lparr>activeTypeKey := key, listPage := PageNo 1\<rparr>)"

text \<open>The first render reads the status filter, the effect after it the other settings.\<close>

definition stored_size :: "string jsobj \<Rightarrow> int" where
  "stored_size ls =
     (case map_of ls ''page-size'' of
        Some s \<Rightarrow> (case parse_int s of Fin q \<Rightarrow> if q = 0 then ITEMS_PER_PAGE else \<lfloor>q\<rfloor> | _ \<Rightarrow> ITEMS_PER_PAGE)
      | None \<Rightarrow> ITEMS_PER_PAGE)"

definition stored_flag :: "string jsobj \<Rightarrow> string \<Rightarrow> bool" where
  "stored_flag ls k \<longleftrightarrow> map_of ls k = Some ''true''"

definition stored_status :: "string jsobj \<Rightarrow> string" where
  "stored_status ls =
     (case map_of ls ''channel-status-filter'' of Some s \<Rightarrow> if s = [] then ''all'' else s | None \<Rightarrow> ''all'')"

definition mountChannels :: "string jsobj \<Rightarrow> list_request \<times> channels_page" where
  "mountChannels ls =
     load_default (PageNo 1)
       \<lparr>rows = [], store = empty_store, listLoading = True, searching = False, listPage = PageNo 1,
        listPageSize = stored_size ls, idSort = stored_flag ls ''id-sort'',
        enableTagMode = stored_flag ls ''enable-tag-mode'', enableBatchDelete = stored_flag ls ''enable-batch-delete'',
        channelCount = 0, typeCounts = [], activeTypeKey = ''all'',
        statusFilter = stored_status ls,
        listForm = empty_form, requestCounter = 0, localStorage = ls\<rparr>"

section \<open>Runs\<close>

text \<open>Every control that asks for a list, and the answers.\<close>

datatype list_event =
    Reload
  | ReloadAt int
  | PressRefresh
  | TurnPage int
  | ResizePage int
  | SubmitSearch
  | SwitchIdSort bool
  | SwitchTagMode bool
  | FilterStatus string
  | PickTab string

fun handleListEvent :: "list_event \<Rightarrow> channels_page \<Rightarrow> list_request \<times> channels_page" where
  "handleListEvent Reload st = refresh (listPage st) st"
| "handleListEvent (ReloadAt page) st = refresh (PageNo page) st"
| "handleListEvent PressRefresh st = refresh ClickEvent st"
| "handleListEvent (TurnPage page) st = handlePageChange page st"
| "handleListEvent (ResizePage psize) st = handlePageSizeChange psize st"
| "handleListEvent SubmitSearch st = submitSearch st"
| "handleListEvent (SwitchIdSort v) st = changeIdSort v st"
| "handleListEvent (SwitchTagMode v) st = changeTagMode v st"
| "handleListEvent (FilterStatus v) st = changeStatusFilter v st"
| "handleListEvent (PickTab key) st = handleTabChange key st"

text \<open>The page sizes and states the controls offer.\<close>

fun event_offered :: "list_event \<Rightarrow> bool" where
  "event_offered (ResizePage psize) = (psize \<in> {10, 20, 50, 100})"
| "event_offered (FilterStatus v) = (v \<in> {''all'', ''enabled'', ''disabled''})"
| "event_offered _ = True"

type_synonym list_world = "list_request list \<times> channels_page"

text \<open>
  Besides the controls: an action that ends, or a timer, calls \<open>refresh\<close> with the settings of the
  render in which it was started, which may be any (\<open>list_late_load\<close>, \<open>list_late_search\<close>), and a batch
  deletion sets and clears \<open>loading\<close> itself, around its own request (\<open>list_loading\<close>).
\<close>

inductive list_step :: "list_world \<Rightarrow> list_world \<Rightarrow> bool" where
  list_ask: "event_offered ev \<Longrightarrow> handleListEvent ev st = (rq, st') \<Longrightarrow> list_step (rqs, st) (rq # rqs, st')"
| list_form: "list_step (rqs, st) (rqs, st\<lparr>listForm := f\<rparr>)"
| list_batch_switch: "list_step (rqs, st) (rqs, changeBatchDelete v st)"
| list_late_load: "loadChannels page psize byId tagMode typeKey statusF st = (rq, st') \<Longrightarrow> list_step (rqs, st) (rq # rqs, st')"
| list_late_search: "searchChannels tagMode typeKey statusF page psize byId st = (rq, st') \<Longrightarrow> list_step (rqs, st) (rq # rqs, st')"
| list_loading: "list_step (rqs, st) (rqs, st\<lparr>listLoading := b\<rparr>)"
| list_reply: "rq \<in> set rqs \<Longrightarrow> list_step (rqs, st) (remove1 rq rqs, receiveList rq answer st)"

inductive list_reach :: "list_world \<Rightarrow> bool" where
  list_mount: "mountChannels ls = (rq, st) \<Longrightarrow> list_reach ([rq], st)"
| list_next: "list_reach w \<Longrightarrow> list_step w w' \<Longrightarrow> list_reach w'"

end
