(* ===== verification/Channel_Rows_Proofs.thy ===== *)
theory Channel_Rows_Proofs
  imports Channels_Data
begin

text \<open>
  The rows of the channel list in tag mode: how \<open>setChannelFormat\<close> groups the channels, and what
  switching a tag changes.
\<close>


section \<open>Rows by tag\<close>

text \<open>A tag row stands for the channels of its tag, in their order.\<close>

definition tag_row_ok :: "chan list \<Rightarrow> obj_store \<Rightarrow> tag_row \<Rightarrow> bool" where
  "tag_row_ok ps s tr \<longleftrightarrow>
     (\<forall>a \<in> set (tg_children tr). a < next_addr s) \<and>
     map (chans s) (tg_children tr) = map Some (filter (\<lambda>c. c_tag c = tg_key tr) ps) \<and>
     tg_status tr = (if list_ex (\<lambda>c. c_tag c = tg_key tr \<and> c_status c = 1) ps then Some 1 else None) \<and>
     tg_used_quota tr = foldl num_add (Fin 0) (map c_used_quota (filter (\<lambda>c. c_tag c = tg_key tr) ps))"

definition tagged :: "chan list \<Rightarrow> row list \<Rightarrow> obj_store \<Rightarrow> bool" where
  "tagged ps rs s \<longleftrightarrow>
     (\<exists>ts. rs = map TagRow ts \<and> distinct ts \<and> (\<forall>t \<in> set ts. t < next_addr s) \<and>
        map (row_tag s) rs = map Some (uniq (map c_tag ps)) \<and>
        (\<forall>t \<in> set ts. \<forall>tr. tag_rows s t = Some tr \<longrightarrow> tag_row_ok ps s tr))"

lemma tagged_rows:
  assumes "tagged ps (map TagRow ts) s"
  shows "distinct ts" "\<And>q. q \<in> set ts \<Longrightarrow> q < next_addr s"
    "map (row_tag s) (map TagRow ts) = map Some (uniq (map c_tag ps))"
    "\<And>q tr. q \<in> set ts \<Longrightarrow> tag_rows s q = Some tr \<Longrightarrow> tag_row_ok ps s tr"
proof -
  obtain us where us: "map TagRow ts = map TagRow us" "distinct us" "\<forall>t \<in> set us. t < next_addr s"
      "map (row_tag s) (map TagRow ts) = map Some (uniq (map c_tag ps))"
      "\<forall>t \<in> set us. \<forall>tr. tag_rows s t = Some tr \<longrightarrow> tag_row_ok ps s tr"
    using assms unfolding tagged_def by blast
  have "ts = us" using us(1) by (rule map_injective) (simp add: inj_on_def)
  with us show "distinct ts" "\<And>q. q \<in> set ts \<Longrightarrow> q < next_addr s"
    "map (row_tag s) (map TagRow ts) = map Some (uniq (map c_tag ps))"
    "\<And>q tr. q \<in> set ts \<Longrightarrow> tag_rows s q = Some tr \<Longrightarrow> tag_row_ok ps s tr" by blast+
qed

lemma tagged_intro:
  assumes "distinct ts" "\<And>q. q \<in> set ts \<Longrightarrow> q < next_addr s"
    "map (row_tag s) (map TagRow ts) = map Some (uniq (map c_tag ps))"
    "\<And>q tr. q \<in> set ts \<Longrightarrow> tag_rows s q = Some tr \<Longrightarrow> tag_row_ok ps s tr"
  shows "tagged ps (map TagRow ts) s"
  using assms unfolding tagged_def by blast

lemma children_kept:
  assumes "tag_row_ok ps s tr" "\<forall>a < next_addr s. chans s' a = chans s a"
  shows "map (chans s') (tg_children tr) = map Some (filter (\<lambda>c. c_tag c = tg_key tr) ps)"
proof -
  have "map (chans s') (tg_children tr) = map (chans s) (tg_children tr)"
    using assms unfolding tag_row_ok_def by (intro map_cong) auto
  also have "\<dots> = map Some (filter (\<lambda>c. c_tag c = tg_key tr) ps)" using assms(1) by (simp add: tag_row_ok_def)
  finally show ?thesis .
qed

lemma tag_row_ok_other:
  assumes "tag_row_ok ps s tr" "c_tag c \<noteq> tg_key tr" "next_addr s \<le> next_addr s'" "\<forall>a < next_addr s. chans s' a = chans s a"
  shows "tag_row_ok (ps @ [c]) s' tr"
proof -
  note children_kept [OF assms(1,4)]
  moreover have "\<forall>a \<in> set (tg_children tr). a < next_addr s'" using assms(1,3) by (fastforce simp: tag_row_ok_def)
  ultimately show ?thesis using assms(1,2) by (simp add: tag_row_ok_def)
qed

lemma tag_row_ok_merge:
  assumes "tag_row_ok ps s tr" "c_tag c = tg_key tr" "next_addr s < next_addr s'" "\<forall>a < next_addr s. chans s' a = chans s a"
    "chans s' (next_addr s) = Some c"
  shows "tag_row_ok (ps @ [c]) s' (merge_into_tag (next_addr s) c tr)"
proof -
  note children_kept [OF assms(1,4)]
  moreover have "\<forall>a \<in> set (tg_children tr). a < next_addr s'" using assms(1,3) by (fastforce simp: tag_row_ok_def)
  ultimately show ?thesis using assms(1,2,3,5) by (simp add: tag_row_ok_def merge_into_tag_def)
qed

lemma fresh_row_ok:
  assumes "tag \<notin> set (map c_tag ps)"
  shows "tag_row_ok ps s (fresh_tag_row tag)"
proof -
  have "filter (\<lambda>c. c_tag c = tag) ps = []" using assms by (auto simp: filter_empty_conv)
  moreover have "\<not> list_ex (\<lambda>c. c_tag c = tag \<and> c_status c = 1) ps" using assms by (auto simp: list_ex_iff)
  ultimately show ?thesis by (simp add: tag_row_ok_def fresh_tag_row_def)
qed

lemma row_has_tag_iff: "row_has_tag s tag (TagRow t) \<longleftrightarrow> row_tag s (TagRow t) = Some tag"
  by (simp split: option.splits)

lemma find_tag_None:
  assumes "List.find (row_has_tag s tag) (map TagRow ts) = None" "map (row_tag s) (map TagRow ts) = map Some tags"
  shows "tag \<notin> set tags"
proof
  assume "tag \<in> set tags"
  then have "Some tag \<in> set (map (row_tag s) (map TagRow ts))" unfolding assms(2) by simp
  then obtain t where "t \<in> set ts" "row_tag s (TagRow t) = Some tag" unfolding set_map by (metis imageE)
  then have "row_has_tag s tag (TagRow t)" "TagRow t \<in> set (map TagRow ts)" by (simp_all only: row_has_tag_iff) simp
  then show False using assms(1) by (meson find_None_iff)
qed

lemma find_tag_Some:
  assumes "List.find (row_has_tag s tag) (map TagRow ts) = Some r"
  obtains t tr where "r = TagRow t" "t \<in> set ts" "tag_rows s t = Some tr" "tg_key tr = tag"
proof -
  have "r \<in> set (map TagRow ts)" "row_has_tag s tag r" using assms by (auto simp: find_Some_iff)
  then show ?thesis using that by (auto split: option.splits)
qed

lemma row_tags_inj:
  assumes "map (row_tag s) (map TagRow ts) = map Some (uniq tags)" "q \<in> set ts" "t \<in> set ts"
    "row_tag s (TagRow q) = row_tag s (TagRow t)"
  shows "q = t"
proof -
  have "distinct (map (row_tag s) (map TagRow ts))" unfolding assms(1) by (simp add: distinct_map)
  then have "inj_on (\<lambda>q. row_tag s (TagRow q)) (set ts)" by (simp add: distinct_map comp_def del: row_tag.simps)
  with assms(2-4) show ?thesis by (auto dest: inj_onD simp del: row_tag.simps)
qed

lemma tagged_old_tag:
  assumes "tagged ps (map TagRow ts) s" "List.find (row_has_tag s (c_tag c)) (map TagRow ts) = Some r"
    "new_chan c s = (a, s1)"
  shows "tagged (ps @ [c]) (map TagRow ts) (change_tag_row (row_addr r) (merge_into_tag a c) s1)" (is "tagged _ _ ?s")
proof -
  obtain t tr where r: "r = TagRow t" "t \<in> set ts" "tag_rows s t = Some tr" "tg_key tr = c_tag c"
    using find_tag_Some [OF assms(2)] .
  have s: "tag_rows ?s = (tag_rows s)(t \<mapsto> merge_into_tag (next_addr s) c tr)" "next_addr ?s = Suc (next_addr s)"
    "chans ?s = (chans s)(next_addr s \<mapsto> c)"
    using assms(3) r by (auto simp: new_chan_def change_tag_row_def)
  note ts = tagged_rows [OF assms(1)]
  have tag: "row_tag s (TagRow t) = Some (c_tag c)" using r by simp
  have key: "row_tag ?s (TagRow q) = row_tag s (TagRow q)" for q using r s by (simp add: merge_into_tag_def)
  have "Some (c_tag c) \<in> set (map (row_tag s) (map TagRow ts))" using r(2) tag [symmetric] by (simp only: set_map) blast
  then have "c_tag c \<in> set (map c_tag ps)" unfolding ts(3) by auto
  moreover have "map (row_tag ?s) (map TagRow ts) = map (row_tag s) (map TagRow ts)" using key by simp
  ultimately have keys: "map (row_tag ?s) (map TagRow ts) = map Some (uniq (map c_tag (ps @ [c])))"
    using ts(3) by (simp only: map_append list.map uniq_snoc if_True)
  have "tag_row_ok (ps @ [c]) ?s tq" if "q \<in> set ts" "tag_rows ?s q = Some tq" for q tq
  proof (cases "q = t")
    case True
    with that s have "tq = merge_into_tag (next_addr s) c tr" by simp
    then show ?thesis using r(4) s tag_row_ok_merge [OF ts(4) [OF r(2,3)]] by simp
  next
    case False
    then have q: "tag_rows s q = Some tq" using that s by simp
    moreover have "c_tag c \<noteq> tg_key tq" using row_tags_inj [OF ts(3) that(1) r(2)] False q r(3,4) by auto
    ultimately show ?thesis using tag_row_ok_other [OF ts(4) [OF that(1)]] s by simp
  qed
  then show ?thesis using ts(1,2) keys s(2) by (intro tagged_intro) (auto simp: less_Suc_eq)
qed

lemma tagged_new_tag:
  assumes "tagged ps (map TagRow ts) s" "c_tag c \<notin> set (map c_tag ps)"
    "new_chan c s = (a, s1)" "new_tag_row (fresh_tag_row (c_tag c)) s1 = (t, s2)"
  shows "tagged (ps @ [c]) (map TagRow (ts @ [t])) (change_tag_row t (merge_into_tag a c) s2)" (is "tagged _ _ ?s")
proof -
  let ?tr = "merge_into_tag (next_addr s) c (fresh_tag_row (c_tag c))"
  have t: "t = Suc (next_addr s)" using assms(3,4) by (auto simp: new_chan_def new_tag_row_def)
  have s: "tag_rows ?s = (tag_rows s)(t \<mapsto> ?tr)" "next_addr ?s = Suc (Suc (next_addr s))" "chans ?s = (chans s)(next_addr s \<mapsto> c)"
    using assms(3,4) by (auto simp: new_chan_def new_tag_row_def change_tag_row_def)
  note ts = tagged_rows [OF assms(1)]
  have fresh: "t \<notin> set ts" using ts(2) t by (metis not_less_eq less_irrefl_nat less_SucI)
  have old: "tag_rows ?s q = tag_rows s q" if "q \<in> set ts" for q using that fresh s by auto
  have "map (row_tag ?s) (map TagRow ts) = map (row_tag s) (map TagRow ts)" using old by simp
  moreover have "row_tag ?s (TagRow t) = Some (c_tag c)" by (simp add: s merge_into_tag_def fresh_tag_row_def)
  ultimately have keys: "map (row_tag ?s) (map TagRow (ts @ [t])) = map Some (uniq (map c_tag (ps @ [c])))"
    using ts(3) assms(2) by (simp only: map_append list.map uniq_snoc if_False)
  have new: "tag_row_ok (ps @ [c]) ?s ?tr"
    by (rule tag_row_ok_merge [OF fresh_row_ok [OF assms(2)]]) (use s in \<open>simp_all add: fresh_tag_row_def\<close>)
  have rest: "tag_row_ok (ps @ [c]) ?s tq" if "q \<in> set ts" "tag_rows s q = Some tq" for q tq
  proof (rule tag_row_ok_other [OF ts(4) [OF that]])
    have "row_tag s (TagRow q) \<in> set (map (row_tag s) (map TagRow ts))" using that(1) by (simp only: set_map) blast
    then show "c_tag c \<noteq> tg_key tq" unfolding ts(3) using assms(2) that(2) by auto
  qed (use s in simp_all)
  show ?thesis
  proof (rule tagged_intro)
    show "distinct (ts @ [t])" using ts(1) fresh by simp
    show "q < next_addr ?s" if "q \<in> set (ts @ [t])" for q using that ts(2) t s(2) by fastforce
    show "tag_row_ok (ps @ [c]) ?s tq" if "q \<in> set (ts @ [t])" "tag_rows ?s q = Some tq" for q tq
      using that new rest old s(1) by (cases "q = t") auto
  qed (rule keys)
qed

fun prepare_all :: "chan list \<Rightarrow> js_error + chan list" where
  "prepare_all [] = Inr []"
| "prepare_all (c # cs) =
     (case prepare_channel c of
        Inl e \<Rightarrow> Inl e
      | Inr c' \<Rightarrow> (case prepare_all cs of Inl e \<Rightarrow> Inl e | Inr cs' \<Rightarrow> Inr (c' # cs')))"

lemma new_chan_tag:
  assumes "new_chan c s = (a, s1)"
  shows "row_has_tag s1 tag r = row_has_tag s tag r"
  using assms by (cases r) (auto simp: new_chan_def)

lemma format_tagged:
  assumes "tagged ps rs s" "prepare_all cs = Inr cs'" "\<forall>c \<in> set cs'. \<not> List.member prototype_names (c_tag c)"
  shows "\<exists>rs' s'. format_rows True cs (rs, s) = Inr (rs', s') \<and> tagged (ps @ cs') rs' s'"
  using assms
proof (induction cs arbitrary: ps rs s cs')
  case (Cons c cs)
  then obtain c' cs'' where c': "prepare_channel c = Inr c'" "prepare_all cs = Inr cs''" "cs' = c' # cs''"
    by (auto split: sum.splits)
  obtain ts where rs: "rs = map TagRow ts" using Cons.prems(1) by (auto simp: tagged_def)
  obtain a s1 where s1: "new_chan c' s = (a, s1)" by fastforce
  have same: "row_has_tag s1 (c_tag c') = row_has_tag s (c_tag c')" using new_chan_tag [OF s1] by blast
  have ok: "\<not> List.member prototype_names (c_tag c')" "\<forall>c \<in> set cs''. \<not> List.member prototype_names (c_tag c)"
    using Cons.prems(3) c'(3) by simp_all
  note start = Cons.prems(1) [unfolded rs]
  show ?case
  proof (cases "List.find (row_has_tag s (c_tag c')) rs")
    case None
    obtain t s2 where s2: "new_tag_row (fresh_tag_row (c_tag c')) s1 = (t, s2)" by fastforce
    have "c_tag c' \<notin> set (map c_tag ps)"
      using find_tag_None [OF None [unfolded rs] tagged_rows(3) [OF start]] by simp
    from Cons.IH [OF tagged_new_tag [OF start this s1 s2] c'(2) ok(2)] show ?thesis
      using c' s1 s2 same None ok(1) rs by simp
  next
    case (Some r)
    from Cons.IH [OF tagged_old_tag [OF start Some [unfolded rs] s1] c'(2) ok(2)] show ?thesis
      using c' s1 same Some ok(1) rs by simp
  qed
qed auto

text \<open>
  C18: in tag mode the table has one row per tag, in the order in which the tags first occur; a row
  holds exactly the channels of its tag in their order, counts as enabled when one of them is, and its
  used quota is their sum. The channels are the server's, with their pending model updates.
\<close>

theorem rows_by_tag:
  assumes "prepare_all cs = Inr ps" "\<forall>c \<in> set ps. \<not> List.member prototype_names (c_tag c)"
  shows "\<exists>ts s'. setChannelFormat cs True s = Inr (map TagRow ts, s') \<and> distinct ts \<and>
    map (row_tag s') (map TagRow ts) = map Some (uniq (map c_tag ps)) \<and>
    (\<forall>t \<in> set ts. \<exists>tr. tag_rows s' t = Some tr \<and>
       map (chans s') (tg_children tr) = map Some (filter (\<lambda>c. c_tag c = tg_key tr) ps) \<and>
       tg_status tr = (if list_ex (\<lambda>c. c_tag c = tg_key tr \<and> c_status c = 1) ps then Some 1 else None) \<and>
       tg_used_quota tr = foldl num_add (Fin 0) (map c_used_quota (filter (\<lambda>c. c_tag c = tg_key tr) ps)))"
proof -
  have "tagged [] (map TagRow []) s" by (rule tagged_intro) (simp_all add: uniq_def)
  from format_tagged [OF this assms] obtain rs s' where
    run: "setChannelFormat cs True s = Inr (rs, s')" "tagged ps rs s'" by (auto simp: setChannelFormat_def)
  then obtain ts where rs: "rs = map TagRow ts" by (auto simp: tagged_def)
  note ts = tagged_rows [OF run(2) [unfolded rs]]
  have row: "\<exists>tr. tag_rows s' t = Some tr \<and> tag_row_ok ps s' tr" if "t \<in> set ts" for t
  proof -
    have "row_tag s' (TagRow t) \<in> set (map Some (uniq (map c_tag ps)))"
      using that ts(3) by (metis imageI set_map)
    then obtain tr where "tag_rows s' t = Some tr" by auto
    then show ?thesis using ts(4) that by blast
  qed
  have "\<forall>t \<in> set ts. \<exists>tr. tag_rows s' t = Some tr \<and>
       map (chans s') (tg_children tr) = map Some (filter (\<lambda>c. c_tag c = tg_key tr) ps) \<and>
       tg_status tr = (if list_ex (\<lambda>c. c_tag c = tg_key tr \<and> c_status c = 1) ps then Some 1 else None) \<and>
       tg_used_quota tr = foldl num_add (Fin 0) (map c_used_quota (filter (\<lambda>c. c_tag c = tg_key tr) ps))"
    using row unfolding tag_row_ok_def by blast
  then show ?thesis using run(1) rs ts(1,3) by blast
qed

text \<open>A channel tagged like a property of every object breaks the whole list.\<close>

theorem prototype_tag_breaks_list:
  assumes "prepare_all cs = Inr ps" "\<exists>c \<in> set ps. List.member prototype_names (c_tag c)"
  shows "setChannelFormat cs True s = Inl TypeError"
proof -
  have "format_rows True cs acc = Inl TypeError" for acc
    using assms
  proof (induction cs arbitrary: ps acc)
    case (Cons c cs)
    obtain rs st where acc: "acc = (rs, st)" by (cases acc)
    obtain c' cs' where "prepare_channel c = Inr c'" "prepare_all cs = Inr cs'" "ps = c' # cs'"
      using Cons.prems(1) by (auto split: sum.splits)
    then show ?case using Cons by (auto simp: acc split: option.splits prod.splits)
  qed auto
  then show ?thesis by (simp add: setChannelFormat_def)
qed

text \<open>A group whose name occurs inside the text collected so far is left out of the tag's groups.\<close>

theorem group_inside_name_lost: "merge_group ''svip'' ''vip'' = ''svip''"
  by code_simp

text \<open>The response time of a tag with one channel is half of the channel's.\<close>

theorem single_response_halved:
  "tg_response_time (merge_into_tag a c (fresh_tag_row tag)) = num_div (num_add (Fin 0) (c_response_time c)) (Fin 2)"
  by (simp add: merge_into_tag_def fresh_tag_row_def)

section \<open>Switching a tag\<close>

lemma change_chans:
  assumes "\<And>c. f (f c) = f c"
  shows "chans (foldl (\<lambda>st a. change_chan a f st) s as) a = (if a \<in> set as then map_option f (chans s a) else chans s a)"
    "tag_rows (foldl (\<lambda>st a. change_chan a f st) s as) = tag_rows s"
proof -
  show "chans (foldl (\<lambda>st a. change_chan a f st) s as) a = (if a \<in> set as then map_option f (chans s a) else chans s a)"
    by (induction as arbitrary: s) (auto simp: change_chan_def option.map_comp comp_def assms)
  show "tag_rows (foldl (\<lambda>st a. change_chan a f st) s as) = tag_rows s"
    by (induction as arbitrary: s) (simp_all add: change_chan_def)
qed

lemma row_is_only:
  assumes "tagged ps (map TagRow ts) s" "t \<in> set ts" "row_tag s (TagRow t) = Some tag"
  shows "filter (\<lambda>r. row_tag s r = Some tag) (map TagRow ts) = [TagRow t]"
proof -
  note ts = tagged_rows [OF assms(1)]
  have "filter (\<lambda>q. row_tag s (TagRow q) = Some tag) ts = filter (\<lambda>q. q = t) ts"
    using row_tags_inj [OF ts(3) _ assms(2)] assms(3) by (intro filter_cong) auto
  also have "\<dots> = [t]" using ts(1) assms(2) by (induction ts) (auto simp: filter_empty_conv)
  finally show ?thesis by (simp add: filter_map comp_def del: row_tag.simps)
qed

lemma child_tag:
  assumes "tag_row_ok ps s tr" "a \<in> set (tg_children tr)"
  obtains c where "chans s a = Some c" "c_tag c = tg_key tr"
proof -
  have "chans s a \<in> set (map Some (filter (\<lambda>c. c_tag c = tg_key tr) ps))"
    using assms unfolding tag_row_ok_def by (metis imageI set_map)
  with that show ?thesis by auto
qed

lemma map_filter_same: "(\<And>a. a \<in> set xs \<Longrightarrow> f a = g a) \<Longrightarrow> List.map_filter f xs = List.map_filter g xs"
  by (induction xs) (auto simp: map_filter_simps split: option.splits)

lemma map_filter_map_option: "List.map_filter (\<lambda>a. map_option g (f a)) xs = map g (List.map_filter f xs)"
  by (induction xs) (auto simp: map_filter_simps split: option.splits)

lemma listed_channels_update:
  assumes "\<And>r. r \<in> set rs \<Longrightarrow> row_channels s' r = row_channels s r"
    "\<And>r a. r \<in> set rs \<Longrightarrow> a \<in> set (row_channels s r) \<Longrightarrow> chans s' a = map_option g (chans s a)"
  shows "listed_channels s' rs = map g (listed_channels s rs)"
proof -
  have "concat (map (row_channels s') rs) = concat (map (row_channels s) rs)"
    using assms(1) by (intro arg_cong [where f = concat] map_cong) auto
  moreover have "List.map_filter (chans s') (concat (map (row_channels s) rs)) =
      List.map_filter (\<lambda>a. map_option g (chans s a)) (concat (map (row_channels s) rs))"
    using assms(2) by (intro map_filter_same) auto
  ultimately show ?thesis by (simp add: listed_channels_def map_filter_map_option)
qed

lemma manage_row:
  assumes "tagged ps (map TagRow ts) s" "t \<in> set ts" "tag_rows s t = Some tr"
  shows "listed_channels (set_row_status v s (TagRow t)) (map TagRow ts) =
    map (\<lambda>c. if c_tag c = tg_key tr then c\<lparr>c_status := v\<rparr> else c) (listed_channels s (map TagRow ts))"
proof (rule listed_channels_update)
  let ?s = "set_row_status v s (TagRow t)"
  note ts = tagged_rows [OF assms(1)]
  have rows: "tag_rows ?s = (tag_rows s)(t \<mapsto> tr\<lparr>tg_status := Some v\<rparr>)"
    using assms(3) by (simp add: change_tag_row_def change_chans(2))
  then show "row_channels ?s r = row_channels s r" if "r \<in> set (map TagRow ts)" for r
    using that assms(3) by (auto simp del: set_row_status.simps)
  fix r a
  assume "r \<in> set (map TagRow ts)" "a \<in> set (row_channels s r)"
  then obtain q where "q \<in> set ts" "a \<in> set (row_channels s (TagRow q))" by auto
  then obtain trq where q: "q \<in> set ts" "tag_rows s q = Some trq" "a \<in> set (tg_children trq)"
    by (cases "tag_rows s q") simp_all
  from child_tag [OF ts(4) [OF q(1,2)] q(3)] obtain c where c: "chans s a = Some c" "c_tag c = tg_key trq" .
  have "c_tag c = tg_key tr \<longleftrightarrow> a \<in> set (tg_children tr)"
  proof
    assume "c_tag c = tg_key tr"
    then have "row_tag s (TagRow q) = row_tag s (TagRow t)" by (simp add: q(2) assms(3) c(2) [symmetric])
    then have "q = t" by (rule row_tags_inj [OF ts(3) q(1) assms(2)])
    then show "a \<in> set (tg_children tr)" using q assms(3) by simp
  next
    assume "a \<in> set (tg_children tr)"
    then show "c_tag c = tg_key tr" using child_tag [OF ts(4) [OF assms(2,3)]] c(1) by (metis option.inject)
  qed
  then show "chans ?s a = map_option (\<lambda>c. if c_tag c = tg_key tr then c\<lparr>c_status := v\<rparr> else c) (chans s a)"
    using c(1) assms(3) by (simp add: change_tag_row_def change_chans(1))
qed

text \<open>
  Enabling or disabling a tag in the table of tags gives the new status to every channel of that
  tag and to no other; the row of the tag shows it too, and the list of rows stays.
\<close>

theorem tag_switch:
  assumes "prepare_all cs = Inr ps" "\<forall>c \<in> set ps. \<not> List.member prototype_names (c_tag c)"
    "setChannelFormat cs True s0 = Inr (rs, s)" "manageTag rs tag action s = (rs', s')" "r \<in> set rs" "row_tag s r = Some tag"
  shows "rs' = rs \<and>
    listed_channels s' rs =
      map (\<lambda>c. if c_tag c = tag then c\<lparr>c_status := (if action = EnableTag then 1 else 2)\<rparr> else c) (listed_channels s rs) \<and>
    map_option tg_status (tag_rows s' (row_addr r)) = Some (Some (if action = EnableTag then 1 else 2))"
proof -
  let ?v = "if action = EnableTag then 1 else 2 :: int"
  have "tagged [] (map TagRow []) s0" by (rule tagged_intro) (simp_all add: uniq_def)
  from format_tagged [OF this assms(1,2)] have tg: "tagged ps rs s" using assms(3) by (simp add: setChannelFormat_def)
  then obtain ts where rs: "rs = map TagRow ts" by (auto simp: tagged_def)
  then obtain t tr where t: "r = TagRow t" "t \<in> set ts" "tag_rows s t = Some tr" "tg_key tr = tag"
    using assms(5,6) by auto
  have "filter (\<lambda>r. row_tag s r = Some tag) rs = [TagRow t]"
    unfolding rs by (rule row_is_only [OF tg [unfolded rs] t(2)]) (simp add: t)
  then have s': "s' = set_row_status ?v s (TagRow t)" "rs' = rs"
    using assms(4) by (auto simp: manageTag_def Let_def)
  have "map_option tg_status (tag_rows s' t) = Some (Some ?v)"
    unfolding s' using t(3) by (simp add: change_tag_row_def change_chans(2))
  then show ?thesis using s' t(1,4) manage_row [OF tg [unfolded rs] t(2,3), of ?v] by (simp add: rs del: set_row_status.simps)
qed

section \<open>Example\<close>

definition example_chan :: chan where
  "example_chan =
     \<lparr>c_id = 1, c_name = ''one'', c_type = 1, c_tag = ''a'', c_group = ''default'', c_models = ''a,b,c,d,e,f'', c_status = 1,
      c_priority = Num (Fin 0), c_weight = Num (Fin 0), c_used_quota = Fin 10, c_response_time = Fin 0, c_test_time = Fin 0,
      c_balance = Num (Fin 0), c_balance_updated_time = Fin 0, c_settings = Null, c_key = ''1'', c_upstreamUpdateMeta = no_updates\<rparr>"

definition example_list :: "chan list" where
  "example_list =
     [example_chan, example_chan\<lparr>c_id := 2, c_tag := ''b'', c_key := ''2''\<rparr>, example_chan\<lparr>c_id := 3, c_status := 2, c_key := ''3''\<rparr>]"

lemma example_prepared: "prepare_all example_list = Inr example_list"
  by code_simp

lemma example_tags: "\<forall>c \<in> set example_list. \<not> List.member prototype_names (c_tag c)"
proof -
  have "list_all (\<lambda>c. \<not> List.member prototype_names (c_tag c)) example_list" by code_simp
  then show ?thesis by (simp add: list_all_iff)
qed

theorem rows_by_tag_witness:
  "\<exists>ts s'. setChannelFormat example_list True empty_store = Inr (map TagRow ts, s') \<and> distinct ts \<and>
     map (row_tag s') (map TagRow ts) = [Some ''a'', Some ''b'']"
proof -
  have "map Some (uniq (map c_tag example_list)) = [Some ''a'', Some ''b'']" by code_simp
  with rows_by_tag [OF example_prepared example_tags, of empty_store] show ?thesis by metis
qed

theorem tag_switch_witness:
  "\<exists>rs s s'. setChannelFormat example_list True empty_store = Inr (rs, s) \<and> manageTag rs ''a'' DisableTag s = (rs, s') \<and>
     map c_status (listed_channels s' rs) = [2, 2, 1]"
proof -
  define f where "f = setChannelFormat example_list True empty_store"
  define rs where "rs = fst (projr f)"
  define s where "s = snd (projr f)"
  have "\<not> isl f" unfolding f_def by code_simp
  then have run: "setChannelFormat example_list True empty_store = Inr (rs, s)" by (simp add: rs_def s_def f_def [symmetric])
  have row: "hd rs \<in> set rs" "row_tag s (hd rs) = Some ''a''" unfolding rs_def s_def f_def by code_simp+
  have before: "map (\<lambda>c. (c_tag c, c_status c)) (listed_channels s rs) = [(''a'', 1), (''a'', 2), (''b'', 1)]"
    unfolding rs_def s_def f_def by code_simp
  obtain rs' s' where manage: "manageTag rs ''a'' DisableTag s = (rs', s')" by fastforce
  note switch = tag_switch [OF example_prepared example_tags run manage row]
  obtain x y z where listed: "listed_channels s rs = [x, y, z]" "c_tag x = ''a''" "c_tag y = ''a''" "c_tag z = ''b''" "c_status z = 1"
    using before by (auto simp: map_eq_Cons_conv)
  have "map c_status (listed_channels s' rs) = [2, 2, 1]" using switch listed by simp
  then show ?thesis using manage switch run by (intro exI [of _ rs] exI [of _ s] exI [of _ s']) simp
qed

end
