(* ===== verification/Channel_List_Proofs.thy ===== *)
theory Channel_List_Proofs
  imports Channels_Page Channel_Rows_Proofs JS_Interfaces
begin

text \<open>
  The channel list under all events and answers: the spinner, superseded loads, late searches, and the
  settings kept in the browser.
\<close>


section \<open>The flags\<close>

text \<open>A request that will clear \<open>loading\<close> when it is answered well.\<close>

definition ends_loading :: "nat \<Rightarrow> list_request \<Rightarrow> bool" where
  "ends_loading counter rq \<longleftrightarrow>
     rq_clearsLoading rq \<and> (case rq_kind rq of Load n \<Rightarrow> n = counter | Search page \<Rightarrow> True)"

definition flags_ok :: "nat \<Rightarrow> list_world \<Rightarrow> bool" where
  "flags_ok deletions w \<longleftrightarrow>
     (listLoading (snd w) \<longrightarrow> deletions > 0 \<or> (\<exists>rq \<in> set (fst w). ends_loading (requestCounter (snd w)) rq)) \<and>
     (searching (snd w) \<longrightarrow> (\<exists>rq \<in> set (fst w). rq_clearsSearching rq))"

text \<open>An answer that is neither a failed request nor one whose rows cannot be built.\<close>

definition good_answer :: "list_request \<Rightarrow> list_answer \<Rightarrow> channels_page \<Rightarrow> bool" where
  "good_answer rq answer st \<longleftrightarrow>
     (case answer of
        ListGiven items tot counts \<Rightarrow> \<not> isl (setChannelFormat items (rq_tagMode rq) (store st))
      | ListRefused msg \<Rightarrow> True
      | ListThrown msg \<Rightarrow> False)"

text \<open>
  Runs in which every list request is answered well and no request of a batch deletion is rejected, with the number of
  batch deletions under way. A deletion sets \<open>loading\<close> and posts; when it is refused it ends at once, otherwise it
  refreshes the list (with the settings it was started with) and ends after that; its end clears \<open>loading\<close>. A later
  end than the code has is allowed, and so are the late refreshes of other actions and of the timer after a deletion.
\<close>

inductive served :: "nat \<Rightarrow> list_world \<Rightarrow> bool" where
  served_mount: "mountChannels ls = (rq, st) \<Longrightarrow> served 0 ([rq], st)"
| served_ask: "served n (rqs, st) \<Longrightarrow> event_offered ev \<Longrightarrow> handleListEvent ev st = (rq, st') \<Longrightarrow> served n (rq # rqs, st')"
| served_form: "served n (rqs, st) \<Longrightarrow> served n (rqs, st\<lparr>listForm := f\<rparr>)"
| served_batch_switch: "served n (rqs, st) \<Longrightarrow> served n (rqs, changeBatchDelete v st)"
| served_late_load: "served n (rqs, st) \<Longrightarrow> loadChannels page psize byId tagMode typeKey statusF st = (rq, st') \<Longrightarrow>
    served n (rq # rqs, st')"
| served_late_search: "served n (rqs, st) \<Longrightarrow> searchChannels tagMode typeKey statusF page psize byId st = (rq, st') \<Longrightarrow>
    served n (rq # rqs, st')"
| served_delete: "served n (rqs, st) \<Longrightarrow> served (Suc n) (rqs, st\<lparr>listLoading := True\<rparr>)"
| served_deleted: "served (Suc n) (rqs, st) \<Longrightarrow> served n (rqs, st\<lparr>listLoading := False\<rparr>)"
| served_reply: "served n (rqs, st) \<Longrightarrow> rq \<in> set rqs \<Longrightarrow> good_answer rq answer st \<Longrightarrow>
    served n (remove1 rq rqs, receiveList rq answer st)"

lemma served_reach: "served n w \<Longrightarrow> list_reach w"
  by (induction rule: served.induct) (blast intro: list_reach.intros list_step.intros)+

text \<open>What every handler leaves: the two shapes a call can have.\<close>

definition asked :: "list_request \<Rightarrow> channels_page \<Rightarrow> channels_page \<Rightarrow> bool" where
  "asked rq st st' \<longleftrightarrow>
     (case rq_kind rq of
        Load n \<Rightarrow> n = Suc (requestCounter st) \<and> requestCounter st' = n \<and> rq_clearsLoading rq \<and>
          (searching st' \<longrightarrow> searching st \<or> rq_clearsSearching rq)
      | Search page \<Rightarrow> requestCounter st' = requestCounter st \<and> rq_clearsSearching rq \<and>
          (listLoading st' \<longrightarrow> listLoading st \<or> rq_clearsLoading rq))"

lemma asked_load: "loadChannels page psize byId tagMode typeKey statusF st = (rq, st') \<Longrightarrow> asked rq st st'"
  by (auto simp: loadChannels_def asked_def split: if_splits)

lemma asked_search: "searchChannels tagMode typeKey statusF page psize byId st = (rq, st') \<Longrightarrow> asked rq st st'"
  by (auto simp: searchChannels_def loadChannels_def asked_def split: if_splits prod.splits)

lemma asked_cong:
  "asked rq s st' \<Longrightarrow> requestCounter s = requestCounter st \<Longrightarrow> searching s = searching st \<Longrightarrow> listLoading s = listLoading st \<Longrightarrow>
   asked rq st st'"
  by (auto simp: asked_def split: list_kind.splits)

text \<open>Every handler changes its settings and then loads or searches.\<close>

fun prepare_event :: "list_event \<Rightarrow> channels_page \<Rightarrow> channels_page" where
  "prepare_event Reload st = st"
| "prepare_event (ReloadAt page) st = st"
| "prepare_event PressRefresh st = st"
| "prepare_event (TurnPage page) st = st\<lparr>listPage := PageNo page\<rparr>"
| "prepare_event (ResizePage psize) st = (storage_set ''page-size'' (show_num psize) st)\<lparr>listPageSize := psize, listPage := PageNo 1\<rparr>"
| "prepare_event SubmitSearch st = st"
| "prepare_event (SwitchIdSort v) st = (storage_set ''id-sort'' (show_bool v) st)\<lparr>idSort := v\<rparr>"
| "prepare_event (SwitchTagMode v) st = (storage_set ''enable-tag-mode'' (show_bool v) st)\<lparr>enableTagMode := v, listPage := PageNo 1\<rparr>"
| "prepare_event (FilterStatus v) st = (storage_set ''channel-status-filter'' v st)\<lparr>statusFilter := v, listPage := PageNo 1\<rparr>"
| "prepare_event (PickTab key) st = st\<lparr>activeTypeKey := key, listPage := PageNo 1\<rparr>"

lemma handler_shape:
  "\<exists>page. handleListEvent ev st = load_default page (prepare_event ev st) \<or> handleListEvent ev st = search_default page (prepare_event ev st)"
  by (cases ev) (simp_all only: handleListEvent.simps prepare_event.simps refresh_def handlePageChange_def handlePageSizeChange_def
      submitSearch_def changeIdSort_def changeTagMode_def changeStatusFilter_def handleTabChange_def Let_def, metis+)

lemma handler_cases:
  assumes "handleListEvent ev st = (rq, st')"
  obtains page where "load_default page (prepare_event ev st) = (rq, st')"
    | page where "search_default page (prepare_event ev st) = (rq, st')"
  using handler_shape [of ev st] assms that by metis

lemma prepare_event_flags [simp]:
  "requestCounter (prepare_event ev st) = requestCounter st" "searching (prepare_event ev st) = searching st"
  "listLoading (prepare_event ev st) = listLoading st"
  by (cases ev; simp add: storage_set_def)+

lemma handler_asks:
  assumes "handleListEvent ev st = (rq, st')"
  shows "asked rq st st'"
proof (rule asked_cong)
  show "asked rq (prepare_event ev st) st'"
    using assms by (rule handler_cases) (unfold load_default_def search_default_def, auto dest: asked_load asked_search)
qed simp_all

lemma flags_ask:
  assumes "flags_ok n (rqs, st)" "asked rq st st'"
  shows "flags_ok n (rq # rqs, st')"
  using assms by (auto simp: flags_ok_def asked_def ends_loading_def split: list_kind.splits)

lemma receive_counter [simp]: "requestCounter (receiveList rq answer st) = requestCounter st"
  by (auto simp: receiveList_def answer_load_def answer_search_def show_items_def Let_def
      split: list_kind.splits list_answer.splits sum.splits prod.splits option.splits)

lemma receive_flags:
  assumes "good_answer rq answer st"
  shows "listLoading (receiveList rq answer st) \<longleftrightarrow> listLoading st \<and> \<not> ends_loading (requestCounter st) rq"
    "searching (receiveList rq answer st) \<longleftrightarrow> searching st \<and> \<not> rq_clearsSearching rq"
  using assms by (auto simp: receiveList_def answer_load_def answer_search_def show_items_def good_answer_def ends_loading_def Let_def
      split: list_kind.splits list_answer.splits sum.splits prod.splits option.splits)

lemma flags_reply:
  assumes "flags_ok n (rqs, st)" "good_answer rq answer st"
  shows "flags_ok n (remove1 rq rqs, receiveList rq answer st)"
proof -
  have kept: "\<exists>r \<in> set (remove1 rq rqs). P r" if "\<exists>r \<in> set rqs. P r" "\<not> P rq" for P
    using that in_set_remove1 by metis
  have "\<exists>r \<in> set (remove1 rq rqs). ends_loading (requestCounter st) r" if "listLoading (receiveList rq answer st)" "n = 0"
    using that assms(1) receive_flags [OF assms(2)] by (intro kept) (simp_all add: flags_ok_def)
  moreover have "\<exists>r \<in> set (remove1 rq rqs). rq_clearsSearching r" if "searching (receiveList rq answer st)"
    using that assms(1) receive_flags [OF assms(2)] by (intro kept) (simp_all add: flags_ok_def)
  ultimately show ?thesis by (auto simp: flags_ok_def)
qed

lemma served_flags: "served n w \<Longrightarrow> flags_ok n w"
proof (induction rule: served.induct)
  case (served_mount ls rq st)
  then show ?case
    by (auto simp: mountChannels_def load_default_def loadChannels_def flags_ok_def ends_loading_def split: if_splits)
next
  case (served_ask n rqs st ev rq st')
  then show ?case using flags_ask handler_asks by blast
next
  case (served_late_load n rqs st page psize byId tagMode typeKey statusF rq st')
  then show ?case using flags_ask asked_load by blast
next
  case (served_late_search n rqs st tagMode typeKey statusF page psize byId rq st')
  then show ?case using flags_ask asked_search by blast
next
  case (served_reply n rqs st rq answer)
  then show ?case using flags_reply by blast
qed (simp_all add: flags_ok_def changeBatchDelete_def storage_set_def)

text \<open>
  C29: the spinner stops: whatever the user does and in whatever order the answers come, when no list
  request and no batch deletion is under way, every list answer was one that could be shown and no request of a
  batch deletion was rejected, neither \<open>loading\<close> nor \<open>searching\<close> is set.
\<close>

theorem loading_ends:
  assumes "served n (rqs, st)" "n = 0" "rqs = []"
  shows "\<not> listLoading st \<and> \<not> searching st"
  using served_flags [OF assms(1)] assms(2,3) by (simp add: flags_ok_def)

text \<open>A failed load leaves the spinner on: \<open>loading\<close> is not cleared in a \<open>finally\<close>.\<close>

theorem failed_load_spins:
  assumes "mountChannels ls = (rq, st)"
  shows "listLoading (receiveList rq (ListThrown msg) st)"
  using assms by (auto simp: mountChannels_def load_default_def loadChannels_def receiveList_def answer_load_def Let_def
      no_search_def empty_form_def split: if_splits)

section \<open>Superseded requests\<close>

text \<open>No load under way has a number above the counter.\<close>

definition load_at_most :: "nat \<Rightarrow> list_request \<Rightarrow> bool" where
  "load_at_most k rq \<longleftrightarrow> (case rq_kind rq of Load n \<Rightarrow> n \<le> k | Search page \<Rightarrow> True)"

definition loads_ok :: "list_world \<Rightarrow> bool" where
  "loads_ok w \<longleftrightarrow> (\<forall>rq \<in> set (fst w). load_at_most (requestCounter (snd w)) rq)"

lemma counter_step: "list_step w w' \<Longrightarrow> requestCounter (snd w) \<le> requestCounter (snd w')"
proof (induction rule: list_step.induct)
  case (list_ask ev st rq st' rqs)
  then show ?case using handler_asks [OF list_ask(2)] by (simp add: asked_def split: list_kind.splits)
next
  case (list_late_load page psize byId tagMode typeKey statusF st rq st' rqs)
  then show ?case using asked_load [OF list_late_load] by (simp add: asked_def split: list_kind.splits)
next
  case (list_late_search tagMode typeKey statusF page psize byId st rq st' rqs)
  then show ?case using asked_search [OF list_late_search] by (simp add: asked_def split: list_kind.splits)
qed (simp_all add: changeBatchDelete_def storage_set_def)

lemma loads_asked: "asked rq st st' \<Longrightarrow> loads_ok (rqs, st) \<Longrightarrow> loads_ok (rq # rqs, st')"
  by (fastforce simp: loads_ok_def load_at_most_def asked_def split: list_kind.splits)

lemma loads_step: "list_step w w' \<Longrightarrow> loads_ok w \<Longrightarrow> loads_ok w'"
proof (induction rule: list_step.induct)
  case (list_ask ev st rq st' rqs)
  then show ?case using loads_asked handler_asks by blast
next
  case (list_late_load page psize byId tagMode typeKey statusF st rq st' rqs)
  then show ?case using loads_asked asked_load by blast
next
  case (list_late_search tagMode typeKey statusF page psize byId st rq st' rqs)
  then show ?case using loads_asked asked_search by blast
next
  case (list_reply rq rqs st answer)
  then show ?case using set_remove1_subset [of rq rqs] by (auto simp: loads_ok_def)
qed (auto simp: loads_ok_def changeBatchDelete_def storage_set_def)

lemma loads_reach: "list_reach w \<Longrightarrow> loads_ok w"
proof (induction rule: list_reach.induct)
  case (list_mount ls rq st)
  then show ?case by (auto simp: mountChannels_def load_default_def loadChannels_def loads_ok_def load_at_most_def split: if_splits)
qed (use loads_step in blast)

text \<open>The counter of the list is the number of \<open>numbered_requests\<close>; a load's answer shows rows and counts.\<close>

definition deliver_load :: "nat \<Rightarrow> list_request \<times> list_answer \<Rightarrow> list_world \<Rightarrow> list_world" where
  "deliver_load n = (\<lambda>(rq, answer) (rqs, st). (rqs, receiveList (rq\<lparr>rq_kind := Load n\<rparr>) answer st))"

definition shown_list :: "list_world \<Rightarrow> row list \<times> obj_store \<times> int \<times> nat jsobj \<times> page_arg \<times> bool" where
  "shown_list = (\<lambda>(rqs, st). (rows st, store st, channelCount st, typeCounts st, listPage st, listLoading st))"

interpretation loads: numbered_requests list_step "\<lambda>w. requestCounter (snd w)" deliver_load shown_list
proof unfold_locales
  show "requestCounter (snd w) \<le> requestCounter (snd w')" if "list_step w w'" for w w'
    using that by (rule counter_step)
  show "shown_list (deliver_load n a w) = shown_list w" if "n < requestCounter (snd w)" for n a w
    using that by (cases a; cases w)
      (auto simp: shown_list_def deliver_load_def receiveList_def answer_load_def Let_def split: list_answer.splits)
qed

text \<open>
  C9: a load that has been superseded never changes what the table shows: once a newer load was sent,
  an older one's answer leaves the rows, the objects behind them, the counts, the page and the flag \<open>loading\<close>
  alone, however many events and answers lie between.
\<close>

theorem superseded_load_ignored:
  assumes "list_reach (rqs, st)" "rq \<in> set rqs" "rq_kind rq = Load m"
    "handleListEvent ev st = (rq', st1)" "rq_kind rq' = Load n" "list_step\<^sup>*\<^sup>* (rq' # rqs, st1) (rqs2, st2)"
  shows "rows (receiveList rq answer st2) = rows st2 \<and> store (receiveList rq answer st2) = store st2 \<and>
    channelCount (receiveList rq answer st2) = channelCount st2 \<and> typeCounts (receiveList rq answer st2) = typeCounts st2 \<and>
    listPage (receiveList rq answer st2) = listPage st2 \<and> listLoading (receiveList rq answer st2) = listLoading st2"
proof -
  have "m \<le> requestCounter st" using loads_reach [OF assms(1)] assms(2,3) by (fastforce simp: loads_ok_def load_at_most_def)
  moreover have "requestCounter st1 = Suc (requestCounter st)" using handler_asks [OF assms(4)] assms(5) by (simp add: asked_def)
  ultimately have "m < requestCounter (snd (rq' # rqs, st1))" by simp
  from loads.superseded [OF this assms(6), of "(rq, answer)"] assms(3) show ?thesis
    by (simp add: shown_list_def deliver_load_def flip: list_request.surjective) (metis list_request.surjective list_request.update_convs(1))
qed

text \<open>Searches carry no number: an earlier search answered last is what the table shows.\<close>

theorem late_search_wins:
  assumes "rq_kind rq = Search page" "setChannelFormat items (rq_tagMode rq) (store st) = Inr (rs, s)"
  shows "rows (receiveList rq (ListGiven items tot counts) st) = rs \<and>
    channelCount (receiveList rq (ListGiven items tot counts) st) = tot \<and>
    listPage (receiveList rq (ListGiven items tot counts) st) = page"
  using assms by (auto simp: receiveList_def answer_search_def show_items_def Let_def)

text \<open>The search texts go into the address as they are: two different searches can send the same request.\<close>

theorem search_url_collision:
  "search_url \<lparr>formKeyword = ''x&group=g'', formGroup = [], formModel = []\<rparr> page psize byId tagMode typeKey statusF =
   search_url \<lparr>formKeyword = ''x'', formGroup = ''g&group='', formModel = []\<rparr> page psize byId tagMode typeKey statusF"
  by (simp add: search_url_def)

text \<open>The refresh button asks for a page that is no number, whatever page is shown.\<close>

theorem refresh_button_asks_for_event:
  assumes "no_search (listForm st)"
  shows "take 32 (rq_url (fst (handleListEvent PressRefresh st))) = ''/api/channel/?p=[object Object]&''"
  using assms by (simp add: refresh_def load_default_def loadChannels_def load_url_def)

section \<open>Settings\<close>

definition settings_ok :: "channels_page \<Rightarrow> bool" where
  "settings_ok st \<longleftrightarrow>
     listPageSize st = stored_size (localStorage st) \<and> idSort st = stored_flag (localStorage st) ''id-sort'' \<and>
     enableTagMode st = stored_flag (localStorage st) ''enable-tag-mode'' \<and>
     enableBatchDelete st = stored_flag (localStorage st) ''enable-batch-delete'' \<and>
     statusFilter st = stored_status (localStorage st)"

lemma stored_set:
  "stored_size (obj_set k v ls) = (if k = ''page-size'' then stored_size [(''page-size'', v)] else stored_size ls)"
  "stored_flag (obj_set k v ls) k' = (if k = k' then v = ''true'' else stored_flag ls k')"
  "stored_status (obj_set k v ls) = (if k = ''channel-status-filter'' then (if v = [] then ''all'' else v) else stored_status ls)"
  by (simp_all add: stored_size_def stored_flag_def stored_status_def)

lemma size_read_back: "psize \<in> {10, 20, 50, 100} \<Longrightarrow> stored_size [(''page-size'', show_num psize)] = psize"
proof -
  have "stored_size [(''page-size'', show_num 10)] = 10" "stored_size [(''page-size'', show_num 20)] = 20"
    "stored_size [(''page-size'', show_num 50)] = 50" "stored_size [(''page-size'', show_num 100)] = 100" by code_simp+
  then show "psize \<in> {10, 20, 50, 100} \<Longrightarrow> stored_size [(''page-size'', show_num psize)] = psize" by auto
qed

lemma flag_read_back: "show_bool v = ''true'' \<longleftrightarrow> v"
  by (simp add: show_bool_def)

lemma settings_flags [simp]:
  "settings_ok (st\<lparr>listLoading := x\<rparr>) = settings_ok st" "settings_ok (st\<lparr>searching := x\<rparr>) = settings_ok st"
  "settings_ok (st\<lparr>requestCounter := n\<rparr>) = settings_ok st"
  by (simp_all add: settings_ok_def)

lemma settings_load: "settings_ok (snd (loadChannels page psize byId tagMode typeKey statusF st)) = settings_ok st"
  by (simp add: loadChannels_def)

lemma settings_search: "settings_ok (snd (searchChannels tagMode typeKey statusF page psize byId st)) = settings_ok st"
  by (simp add: searchChannels_def settings_load split_beta)

lemma prepare_settings: "settings_ok st \<Longrightarrow> event_offered ev \<Longrightarrow> settings_ok (prepare_event ev st)"
  by (cases ev) (simp_all add: settings_ok_def storage_set_def stored_set size_read_back flag_read_back, auto)

lemma settings_ask:
  assumes "settings_ok st" "event_offered ev" "handleListEvent ev st = (rq, st')"
  shows "settings_ok st'"
  using assms(3) prepare_settings [OF assms(1,2)]
  by (elim handler_cases) (metis load_default_def settings_load snd_conv, metis search_default_def settings_search snd_conv)

lemma settings_reply: "settings_ok (receiveList rq answer st) = settings_ok st"
  by (auto simp: receiveList_def answer_load_def answer_search_def show_items_def settings_ok_def Let_def
      split: list_kind.splits list_answer.splits sum.splits prod.splits option.splits)

lemma settings_step: "list_step w w' \<Longrightarrow> settings_ok (snd w) \<Longrightarrow> settings_ok (snd w')"
proof (induction rule: list_step.induct)
  case (list_ask ev st rq st' rqs)
  then show ?case using settings_ask by simp
next
  case (list_batch_switch rqs st v)
  then show ?case by (simp add: settings_ok_def changeBatchDelete_def storage_set_def stored_set flag_read_back)
next
  case (list_form rqs st f)
  then show ?case by (simp add: settings_ok_def)
next
  case (list_late_load page psize byId tagMode typeKey statusF st rq st' rqs)
  then show ?case using settings_load [of page psize byId tagMode typeKey statusF st] by simp
next
  case (list_late_search tagMode typeKey statusF page psize byId st rq st' rqs)
  then show ?case using settings_search [of tagMode typeKey statusF page psize byId st] by simp
qed (simp_all add: settings_reply)

lemma mount_settings: "mountChannels ls = (rq, st) \<Longrightarrow> settings_ok st \<and> localStorage st = ls"
  by (auto simp: mountChannels_def load_default_def loadChannels_def settings_ok_def split: if_splits)

lemma settings_reach: "list_reach w \<Longrightarrow> settings_ok (snd w)"
  by (induction rule: list_reach.induct) (use mount_settings settings_step in auto)

text \<open>
  The settings of the list survive a reload: whatever the user has done, opening the page again
  with the browser's storage as it is gives the same page size, order, tag mode, batch switch and
  status filter as the page has now.
\<close>

theorem settings_survive_reload:
  assumes "list_reach (rqs, st)" "mountChannels (localStorage st) = (rq, st')"
  shows "listPageSize st' = listPageSize st \<and> idSort st' = idSort st \<and> enableTagMode st' = enableTagMode st \<and>
    enableBatchDelete st' = enableBatchDelete st \<and> statusFilter st' = statusFilter st"
  using settings_reach [OF assms(1)] mount_settings [OF assms(2)] by (simp add: settings_ok_def)

section \<open>Examples\<close>

definition first_load :: list_request where "first_load = fst (mountChannels [])"

definition first_page :: channels_page where "first_page = snd (mountChannels [])"

lemma mount_example: "mountChannels [] = (first_load, first_page)"
  by (simp add: first_load_def first_page_def)

theorem loading_ends_witness:
  "\<exists>st. served 0 ([], st) \<and> \<not> listLoading st \<and> \<not> searching st"
proof -
  let ?deleting = "first_page\<lparr>listLoading := True\<rparr>"
  let ?loaded = "receiveList first_load (ListGiven [] 0 None) ?deleting"
  have "served (Suc 0) (remove1 first_load [first_load], ?loaded)"
    by (rule served_reply [OF served_delete [OF served_mount [OF mount_example]]]) (simp_all add: good_answer_def setChannelFormat_def)
  from served_deleted [OF this] have "served 0 ([], ?loaded\<lparr>listLoading := False\<rparr>)" by simp
  with loading_ends [OF this] show ?thesis by blast
qed

theorem superseded_load_ignored_witness:
  "rows (receiveList first_load (ListGiven [example_chan] 1 None) (snd (refresh (PageNo 1) first_page))) = rows first_page"
proof -
  let ?next = "handleListEvent (ReloadAt 1) first_page"
  have next': "?next = (fst ?next, snd ?next)" by simp
  have kinds: "rq_kind first_load = Load 1" "rq_kind (fst ?next) = Load 2" "rows (snd ?next) = rows first_page" by code_simp+
  from superseded_load_ignored [OF list_mount [OF mount_example] _ kinds(1) next' kinds(2) rtranclp.rtrancl_refl,
      of "ListGiven [example_chan] 1 None"] kinds(3)
  show ?thesis by simp
qed

theorem settings_survive_reload_witness:
  "listPageSize (snd (mountChannels (localStorage (snd (handlePageSizeChange 50 first_page))))) = 50"
proof -
  let ?next = "handleListEvent (ResizePage 50) first_page"
  have "list_step ([first_load], first_page) (fst ?next # [first_load], snd ?next)"
    by (rule list_ask [of "ResizePage 50"]) simp_all
  from list_next [OF list_mount [OF mount_example] this] have reach: "list_reach (fst ?next # [first_load], snd ?next)" .
  have "listPageSize (snd ?next) = 50" by code_simp
  with settings_survive_reload [OF reach prod.collapse [symmetric]] show ?thesis by simp
qed

end
