(* ===== verification/Channel_Tests.thy ===== *)
theory Channel_Tests
  imports Channels_Page
begin

text \<open>
  Model tests of a channel (\<open>testChannel\<close>, \<open>batchTestModels\<close>, \<open>handleCloseModal\<close> of
  \<open>src/web/src/hooks/channels/useChannelsData.jsx\<close>, with the buttons of \<open>ModelTestModal.jsx\<close>). Test
  requests and batch loops run concurrently: a loop starts five tests, waits until all of them are
  settled, pauses and goes on. Every function of the hook sees the state variables of the render it
  comes from; a closure keeps the two that matter here. The stop flag is a ref, shared by all.
  \<open>lower\<close> is \<open>toLowerCase\<close>; an answer carries the time it arrives at; times are numbers. Every test has its own
  answer; that the HTTP client lets equal requests under way share one is the special case in which their answers
  come together.
\<close>

section \<open>State\<close>

record model_test =
  mt_success :: bool
  mt_message :: string
  mt_time :: jsnum
  mt_timestamp :: jsnum
  mt_errorCode :: jsval

record tests_page = channels_page +
  showModelTestModal :: bool
  currentTestChannel :: "chan option"
  modelSearchKeyword :: string
  modelTestResults :: "model_test jsobj"
  testingModels :: "string list"
  isBatchTesting :: bool
  selectedModelKeys :: "string list"
  modelTablePage :: int
  selectedEndpointType :: string
  isStreamTest :: bool
  shouldStopBatchTesting :: bool

text \<open>The state variables a function was created with.\<close>

record closure =
  cl_channels :: "row list"
  cl_isBatchTesting :: bool

text \<open>A test request under way, with the loop that waits for it.\<close>

record test_flight =
  fl_channel :: chan
  fl_model :: string
  fl_url :: string
  fl_closure :: closure
  fl_owner :: "nat option"

datatype run_phase = WaitingForTests | Pausing | Concluding

record batch_run =
  run_id :: nat
  run_channel :: chan
  run_models :: "string list"
  run_next :: nat
  run_closure :: closure
  run_endpoint :: string
  run_stream :: bool
  run_phase :: run_phase

record tests_world =
  w_page :: tests_page
  w_flights :: "test_flight list"
  w_runs :: "batch_run list"
  w_fresh :: nat

definition closure_of :: "tests_page \<Rightarrow> closure" where
  "closure_of st = \<lparr>cl_channels = rows st, cl_isBatchTesting = isBatchTesting st\<rparr>"

section \<open>One test\<close>

definition testKey :: "int \<Rightarrow> string \<Rightarrow> string" where
  "testKey i model = chan_key i @ ''-'' @ model"

definition test_url :: "int \<Rightarrow> string \<Rightarrow> string \<Rightarrow> bool \<Rightarrow> string" where
  "test_url i model endpointType stream =
     ''/api/channel/test/'' @ chan_key i @ ''?model='' @ model @
     (if endpointType \<noteq> [] then ''&endpoint_type='' @ endpointType else []) @
     (if stream then ''&stream=true'' else [])"

text \<open>The part before the answer; \<open>None\<close> when the test is skipped because the batch was stopped.\<close>

definition beginTest ::
  "closure \<Rightarrow> nat option \<Rightarrow> chan \<Rightarrow> string \<Rightarrow> string \<Rightarrow> bool \<Rightarrow> tests_page \<Rightarrow> (test_flight \<times> tests_page) option" where
  "beginTest cl owner record model endpointType stream st =
     (if shouldStopBatchTesting st \<and> cl_isBatchTesting cl then None
      else Some
        (\<lparr>fl_channel = record, fl_model = model, fl_url = test_url (c_id record) model endpointType stream,
          fl_closure = cl, fl_owner = owner\<rparr>,
         st\<lparr>testingModels := uniq (testingModels st @ [model])\<rparr>))"

datatype test_answer = TestGiven bool string jsnum jsval | TestThrown string

definition put_result :: "test_flight \<Rightarrow> model_test \<Rightarrow> tests_page \<Rightarrow> tests_page" where
  "put_result fl r st =
     st\<lparr>modelTestResults := obj_set (testKey (c_id (fl_channel fl)) (fl_model fl)) r (modelTestResults st)\<rparr>"

definition touch_channel :: "closure \<Rightarrow> int \<Rightarrow> jsnum \<Rightarrow> jsnum \<Rightarrow> tests_page \<Rightarrow> tests_page" where
  "touch_channel cl i time now st =
     (let (rs, s) = updateChannelProperty (cl_channels cl) i
            (\<lambda>c. c\<lparr>c_response_time := num_mult time (Fin 1000), c_test_time := num_div now (Fin 1000)\<rparr>)
            (rows st, store st) in
      st\<lparr>rows := rs, store := s\<rparr>)"

definition endTest :: "test_flight \<Rightarrow> jsnum \<Rightarrow> test_answer \<Rightarrow> tests_page \<Rightarrow> tests_page" where
  "endTest fl now answer st =
     (let st1 =
            (case answer of
               TestGiven success message time error_code \<Rightarrow>
                 if shouldStopBatchTesting st \<and> cl_isBatchTesting (fl_closure fl) then st
                 else
                   (let recorded = put_result fl
                          \<lparr>mt_success = success, mt_message = message,
                           mt_time = (if truthy (Num time) then time else Fin 0), mt_timestamp = now,
                           mt_errorCode = (if truthy error_code then error_code else Null)\<rparr> st in
                    if success then touch_channel (fl_closure fl) (c_id (fl_channel fl)) time now recorded else recorded)
             | TestThrown message \<Rightarrow>
                 put_result fl \<lparr>mt_success = False, mt_message = message, mt_time = Fin 0, mt_timestamp = now,
                   mt_errorCode = Null\<rparr> st) in
      st1\<lparr>testingModels := filter (\<lambda>m. m \<noteq> fl_model fl) (testingModels st1)\<rparr>)"

section \<open>Batches\<close>

definition concurrencyLimit :: nat where "concurrencyLimit = 5"

definition batch_models :: "(string \<Rightarrow> string) \<Rightarrow> tests_page \<Rightarrow> string list" where
  "batch_models lower st =
     (case currentTestChannel st of
        None \<Rightarrow> []
      | Some c \<Rightarrow>
          if c_models c = [] then []
          else filter (\<lambda>model. js_includes (lower model) (lower (modelSearchKeyword st))) (split_char CHR '','' (c_models c)))"

definition clear_results :: "int \<Rightarrow> string list \<Rightarrow> tests_page \<Rightarrow> tests_page" where
  "clear_results i models st =
     st\<lparr>modelTestResults := foldl (\<lambda>res model. obj_del (testKey i model) res) (modelTestResults st) models\<rparr>"

text \<open>The tests of one slice are started one after the other.\<close>

fun begin_tests :: "batch_run \<Rightarrow> string list \<Rightarrow> test_flight list \<times> tests_page \<Rightarrow> test_flight list \<times> tests_page" where
  "begin_tests r [] acc = acc"
| "begin_tests r (model # models) (fls, st) =
     (case beginTest (run_closure r) (Some (run_id r)) (run_channel r) model (run_endpoint r) (run_stream r) st of
        None \<Rightarrow> begin_tests r models (fls, st)
      | Some (fl, st') \<Rightarrow> begin_tests r models (fls @ [fl], st'))"

definition drop_run :: "nat \<Rightarrow> tests_world \<Rightarrow> tests_world" where
  "drop_run i w =
     w\<lparr>w_runs := filter (\<lambda>r. run_id r \<noteq> i) (w_runs w), w_page := (w_page w)\<lparr>isBatchTesting := False\<rparr>\<rparr>"

definition put_run :: "batch_run \<Rightarrow> tests_world \<Rightarrow> tests_world" where
  "put_run r w = w\<lparr>w_runs := map (\<lambda>q. if run_id q = run_id r then r else q) (w_runs w)\<rparr>"

text \<open>The head of the loop: stop, or start the next slice.\<close>

definition next_slice :: "batch_run \<Rightarrow> tests_world \<Rightarrow> tests_world" where
  "next_slice r w =
     (if shouldStopBatchTesting (w_page w) then drop_run (run_id r) w
      else
        (let (fls, st) = begin_tests r (take concurrencyLimit (drop (run_next r) (run_models r))) (w_flights w, w_page w) in
         put_run (r\<lparr>run_next := run_next r + concurrencyLimit, run_phase := WaitingForTests\<rparr>)
           (w\<lparr>w_flights := fls, w_page := st\<rparr>)))"

definition batchTestModels :: "(string \<Rightarrow> string) \<Rightarrow> tests_world \<Rightarrow> tests_world" where
  "batchTestModels lower w =
     (let st = w_page w; models = batch_models lower st in
      case currentTestChannel st of
        None \<Rightarrow> w
      | Some c \<Rightarrow>
          if models = [] then w
          else
            (let r = \<lparr>run_id = w_fresh w, run_channel = c, run_models = models, run_next = 0,
                      run_closure = closure_of st, run_endpoint = selectedEndpointType st,
                      run_stream = isStreamTest st, run_phase = Pausing\<rparr> in
             next_slice r
               (w\<lparr>w_page := clear_results (c_id c) models (st\<lparr>isBatchTesting := True, shouldStopBatchTesting := False\<rparr>),
                  w_runs := w_runs w @ [r], w_fresh := Suc (w_fresh w)\<rparr>)))"

text \<open>All tests of the slice are settled: stop, pause before the next slice, or conclude.\<close>

definition settled_slice :: "batch_run \<Rightarrow> tests_world \<Rightarrow> tests_world" where
  "settled_slice r w =
     (if shouldStopBatchTesting (w_page w) then drop_run (run_id r) w
      else if run_next r < length (run_models r) then put_run (r\<lparr>run_phase := Pausing\<rparr>) w
      else put_run (r\<lparr>run_phase := Concluding\<rparr>) w)"

text \<open>The counts of the final message.\<close>

definition batch_counts :: "batch_run \<Rightarrow> tests_page \<Rightarrow> nat \<times> nat \<times> nat" where
  "batch_counts r st =
     (let ok = (\<lambda>model. case map_of (modelTestResults st) (testKey (c_id (run_channel r)) model) of
                  Some res \<Rightarrow> mt_success res | None \<Rightarrow> False) in
      (length (filter ok (run_models r)), length (filter (\<lambda>m. \<not> ok m) (run_models r)), length (run_models r)))"

definition handleCloseModal :: "tests_page \<Rightarrow> tests_page" where
  "handleCloseModal st =
     st\<lparr>shouldStopBatchTesting := (if isBatchTesting st then True else shouldStopBatchTesting st),
        showModelTestModal := False, modelSearchKeyword := [], isBatchTesting := False, testingModels := [],
        selectedModelKeys := [], modelTablePage := 1, selectedEndpointType := [], isStreamTest := False\<rparr>"

definition stopBatchTesting :: "tests_page \<Rightarrow> tests_page" where
  "stopBatchTesting st = st\<lparr>shouldStopBatchTesting := True, isBatchTesting := False, testingModels := []\<rparr>"

definition clearTestResults :: "tests_page \<Rightarrow> tests_page" where
  "clearTestResults st = st\<lparr>modelTestResults := []\<rparr>"

section \<open>Runs\<close>

datatype test_event =
    OpenDialog chan
  | CloseDialog
  | TypeKeyword string
  | PickEndpoint string bool
  | TestOne string
  | TestAll
  | TestAnswered nat jsnum test_answer
  | SliceSettled nat
  | PauseOver nat
  | Conclude nat

text \<open>\<open>None\<close> when the event cannot happen: no such control, request or loop.\<close>

definition find_run :: "nat \<Rightarrow> tests_world \<Rightarrow> batch_run option" where
  "find_run i w = List.find (\<lambda>r. run_id r = i) (w_runs w)"

definition on_page :: "(tests_page \<Rightarrow> tests_page) \<Rightarrow> tests_world \<Rightarrow> tests_world" where
  "on_page f w = w\<lparr>w_page := f (w_page w)\<rparr>"

fun test_step :: "(string \<Rightarrow> string) \<Rightarrow> test_event \<Rightarrow> tests_world \<Rightarrow> tests_world option" where
  "test_step lower (OpenDialog c) w =
     (if showModelTestModal (w_page w) then None
      else Some (on_page (\<lambda>st. st\<lparr>currentTestChannel := Some c, showModelTestModal := True\<rparr>) w))"
| "test_step lower CloseDialog w =
     (if showModelTestModal (w_page w) then Some (on_page handleCloseModal w) else None)"
| "test_step lower (TypeKeyword s) w =
     (if showModelTestModal (w_page w) then Some (on_page (\<lambda>st. st\<lparr>modelSearchKeyword := s, modelTablePage := 1\<rparr>) w) else None)"
| "test_step lower (PickEndpoint e b) w =
     (if showModelTestModal (w_page w) then Some (on_page (\<lambda>st. st\<lparr>selectedEndpointType := e, isStreamTest := b\<rparr>) w) else None)"
| "test_step lower (TestOne model) w =
     (case (showModelTestModal (w_page w), currentTestChannel (w_page w)) of
        (True, Some c) \<Rightarrow>
          (case beginTest (closure_of (w_page w)) None c model (selectedEndpointType (w_page w)) (isStreamTest (w_page w)) (w_page w) of
             None \<Rightarrow> Some w
           | Some (fl, st) \<Rightarrow> Some (w\<lparr>w_flights := w_flights w @ [fl], w_page := st\<rparr>))
      | _ \<Rightarrow> None)"
| "test_step lower TestAll w =
     (if showModelTestModal (w_page w) \<and> \<not> isBatchTesting (w_page w) then Some (batchTestModels lower w) else None)"
| "test_step lower (TestAnswered k now answer) w =
     (if k < length (w_flights w)
      then Some (w\<lparr>w_flights := take k (w_flights w) @ drop (Suc k) (w_flights w),
                   w_page := endTest (w_flights w ! k) now answer (w_page w)\<rparr>)
      else None)"
| "test_step lower (SliceSettled i) w =
     (case find_run i w of
        Some r \<Rightarrow>
          if run_phase r = WaitingForTests \<and> list_all (\<lambda>fl. fl_owner fl \<noteq> Some i) (w_flights w)
          then Some (settled_slice r w) else None
      | None \<Rightarrow> None)"
| "test_step lower (PauseOver i) w =
     (case find_run i w of
        Some r \<Rightarrow> if run_phase r = Pausing then Some (next_slice r w) else None
      | None \<Rightarrow> None)"
| "test_step lower (Conclude i) w =
     (case find_run i w of
        Some r \<Rightarrow> if run_phase r = Concluding then Some (drop_run i w) else None
      | None \<Rightarrow> None)"

fun test_run :: "(string \<Rightarrow> string) \<Rightarrow> test_event list \<Rightarrow> tests_world \<Rightarrow> tests_world option" where
  "test_run lower [] w = Some w"
| "test_run lower (ev # evs) w =
     (case test_step lower ev w of None \<Rightarrow> None | Some w' \<Rightarrow> test_run lower evs w')"

definition idle_world :: "tests_world \<Rightarrow> bool" where
  "idle_world w \<longleftrightarrow> w_flights w = [] \<and> w_runs w = [] \<and> \<not> isBatchTesting (w_page w) \<and> \<not> showModelTestModal (w_page w)"

end
