(* ===== verification/Channel_Tests_Proofs.thy ===== *)
theory Channel_Tests_Proofs
  imports Channel_Tests Channel_Rows_Proofs
begin

text \<open>
  Model tests of a channel: the number of requests a batch has under way, its end, and what stopping
  a batch does.
\<close>


section \<open>Starting a slice\<close>

definition flight_of :: "batch_run \<Rightarrow> string \<Rightarrow> test_flight" where
  "flight_of r model =
     \<lparr>fl_channel = run_channel r, fl_model = model,
      fl_url = test_url (c_id (run_channel r)) model (run_endpoint r) (run_stream r),
      fl_closure = run_closure r, fl_owner = Some (run_id r)\<rparr>"

lemma begin_tests_open:
  "\<not> cl_isBatchTesting (run_closure r) \<Longrightarrow>
   \<exists>tm. begin_tests r ms (fls, st) = (fls @ map (flight_of r) ms, st\<lparr>testingModels := tm\<rparr>)"
proof (induction ms arbitrary: fls st)
  case Nil
  have "begin_tests r [] (fls, st) = (fls @ map (flight_of r) [], st\<lparr>testingModels := testingModels st\<rparr>)" by simp
  then show ?case by blast
next
  case (Cons m ms)
  let ?st = "st\<lparr>testingModels := uniq (testingModels st @ [m])\<rparr>"
  have "begin_tests r (m # ms) (fls, st) = begin_tests r ms (fls @ [flight_of r m], ?st)"
    using Cons.prems by (simp add: beginTest_def flight_of_def)
  moreover obtain tm where "begin_tests r ms (fls @ [flight_of r m], ?st) =
      ((fls @ [flight_of r m]) @ map (flight_of r) ms, ?st\<lparr>testingModels := tm\<rparr>)"
    using Cons.IH [OF Cons.prems] by blast
  ultimately show ?case by auto
qed

definition owned :: "nat \<Rightarrow> tests_world \<Rightarrow> test_flight list" where
  "owned i w = filter (\<lambda>fl. fl_owner fl = Some i) (w_flights w)"

section \<open>The invariant of loops and requests\<close>

definition run_ok :: "tests_world \<Rightarrow> batch_run \<Rightarrow> bool" where
  "run_ok w r \<longleftrightarrow> run_id r < w_fresh w \<and> \<not> cl_isBatchTesting (run_closure r) \<and> length (owned (run_id r) w) \<le> concurrencyLimit \<and>
     (run_phase r = WaitingForTests \<or> owned (run_id r) w = [])"

definition flight_ok :: "tests_world \<Rightarrow> test_flight \<Rightarrow> bool" where
  "flight_ok w fl \<longleftrightarrow> (case fl_owner fl of
       Some i \<Rightarrow> i \<in> run_id ` set (w_runs w) \<and> \<not> cl_isBatchTesting (fl_closure fl)
     | None \<Rightarrow> True)"

definition tests_ok :: "tests_world \<Rightarrow> bool" where
  "tests_ok w \<longleftrightarrow> distinct (map run_id (w_runs w)) \<and> (\<forall>r \<in> set (w_runs w). run_ok w r) \<and> (\<forall>fl \<in> set (w_flights w). flight_ok w fl)"

lemma idle_ok: "idle_world w \<Longrightarrow> tests_ok w"
  by (simp add: idle_world_def tests_ok_def)

lemma find_run_Some: "find_run i w = Some r \<Longrightarrow> r \<in> set (w_runs w) \<and> run_id r = i"
  unfolding find_run_def by (induction "w_runs w") (auto simp: find_Some_iff)

lemma on_page_ok: "tests_ok (on_page f w) \<longleftrightarrow> tests_ok w"
  by (simp add: tests_ok_def on_page_def run_ok_def flight_ok_def owned_def cong: option.case_cong)

lemma put_run_ids: "map run_id (w_runs (put_run r w)) = map run_id (w_runs w)"
  by (auto simp: put_run_def)

lemma owned_put_run [simp]: "owned i (put_run r w) = owned i w"
  by (simp add: owned_def put_run_def)

text \<open>Only one loop and its own requests change.\<close>

lemma put_run_ok:
  assumes "tests_ok w" "r \<in> set (w_runs w)" "run_id r' = run_id r" "run_closure r' = run_closure r"
    "w_flights w' = w_flights w @ map (flight_of r) ms" "w_runs w' = w_runs w" "w_fresh w' = w_fresh w"
    "owned (run_id r) w = []" "length ms \<le> concurrencyLimit" "run_phase r' = WaitingForTests \<or> ms = []"
  shows "tests_ok (put_run r' w')"
proof -
  have own: "owned i w' = owned i w @ (if i = run_id r then map (flight_of r) ms else [])" for i
    using assms(5) by (auto simp: owned_def flight_of_def filter_map comp_def filter_empty_conv intro!: filter_True)
  have r: "run_ok w r" using assms(1,2) by (simp add: tests_ok_def)
  have runs: "set (w_runs (put_run r' w')) \<subseteq> insert r' {q \<in> set (w_runs w). run_id q \<noteq> run_id r}"
    using assms(3,6) by (auto simp: put_run_def)
  have fresh: "w_fresh (put_run r' w') = w_fresh w" using assms(7) by (simp add: put_run_def)
  have "run_ok (put_run r' w') r'"
    using r assms(3,4,8-10) fresh own by (auto simp: run_ok_def)
  moreover have "run_ok (put_run r' w') q" if "q \<in> set (w_runs w)" "run_id q \<noteq> run_id r" for q
    using that assms(1) fresh own by (auto simp: run_ok_def tests_ok_def)
  ultimately have runs_ok: "\<forall>q \<in> set (w_runs (put_run r' w')). run_ok (put_run r' w') q" using runs by blast
  have ids: "run_id ` set (w_runs (put_run r' w')) = run_id ` set (w_runs w)"
    using put_run_ids [of r' w'] assms(6) by (metis list.set_map)
  have "flight_ok (put_run r' w') fl" if "fl \<in> set (w_flights (put_run r' w'))" for fl
  proof -
    have "fl \<in> set (w_flights w) \<or> fl \<in> flight_of r ` set ms" using that assms(5) by (auto simp: put_run_def)
    then show ?thesis
    proof
      assume "fl \<in> set (w_flights w)"
      then show ?thesis using assms(1) ids by (auto simp: tests_ok_def flight_ok_def split: option.splits)
    next
      assume "fl \<in> flight_of r ` set ms"
      then show ?thesis using r assms(2) ids by (auto simp: flight_ok_def flight_of_def run_ok_def)
    qed
  qed
  moreover have "distinct (map run_id (w_runs (put_run r' w')))" using assms(1,6) put_run_ids by (simp add: tests_ok_def)
  ultimately show ?thesis using runs_ok by (simp add: tests_ok_def)
qed

lemma drop_run_ok:
  assumes "tests_ok w" "owned i w = []"
  shows "tests_ok (drop_run i w)"
proof -
  have "fl_owner fl \<noteq> Some i" if "fl \<in> set (w_flights w)" for fl
    using that assms(2) by (auto simp: owned_def filter_empty_conv)
  then have "flight_ok (drop_run i w) fl" if "fl \<in> set (w_flights w)" for fl
    using that assms(1) by (force simp: tests_ok_def flight_ok_def drop_run_def split: option.splits)
  moreover have "run_ok (drop_run i w) r = run_ok w r" for r by (simp add: run_ok_def drop_run_def owned_def)
  moreover have "set (w_runs (drop_run i w)) \<subseteq> set (w_runs w)" "w_flights (drop_run i w) = w_flights w"
    "distinct (map run_id (w_runs (drop_run i w)))"
    using assms(1) by (auto simp: drop_run_def tests_ok_def distinct_map_filter)
  ultimately show ?thesis using assms(1) unfolding tests_ok_def by auto
qed

lemma next_slice_ok:
  assumes "tests_ok w" "r \<in> set (w_runs w)" "owned (run_id r) w = []"
  shows "tests_ok (next_slice r w)"
proof (cases "shouldStopBatchTesting (w_page w)")
  case True
  then show ?thesis using drop_run_ok [OF assms(1,3)] by (simp add: next_slice_def)
next
  case False
  let ?ms = "take concurrencyLimit (drop (run_next r) (run_models r))"
  have "\<not> cl_isBatchTesting (run_closure r)" using assms(1,2) by (simp add: tests_ok_def run_ok_def)
  from begin_tests_open [OF this] obtain tm where
    "begin_tests r ?ms (w_flights w, w_page w) = (w_flights w @ map (flight_of r) ?ms, (w_page w)\<lparr>testingModels := tm\<rparr>)"
    by blast
  then have "next_slice r w = put_run (r\<lparr>run_next := run_next r + concurrencyLimit, run_phase := WaitingForTests\<rparr>)
      (w\<lparr>w_flights := w_flights w @ map (flight_of r) ?ms, w_page := (w_page w)\<lparr>testingModels := tm\<rparr>\<rparr>)"
    using False by (simp add: next_slice_def)
  also have "tests_ok \<dots>"
    by (rule put_run_ok [OF assms(1,2), where ms = ?ms]) (simp_all add: assms(3))
  finally show ?thesis .
qed

lemma batch_start_ok:
  assumes "tests_ok w" "\<not> isBatchTesting (w_page w)"
  shows "tests_ok (batchTestModels lower w)"
proof (cases "currentTestChannel (w_page w) = None \<or> batch_models lower (w_page w) = []")
  case False
  then obtain c where c: "currentTestChannel (w_page w) = Some c" by auto
  let ?st = "w_page w" let ?ms = "batch_models lower (w_page w)"
  let ?r = "\<lparr>run_id = w_fresh w, run_channel = c, run_models = ?ms, run_next = 0, run_closure = closure_of ?st,
     run_endpoint = selectedEndpointType ?st, run_stream = isStreamTest ?st, run_phase = Pausing\<rparr>"
  let ?w = "w\<lparr>w_page := clear_results (c_id c) ?ms (?st\<lparr>isBatchTesting := True, shouldStopBatchTesting := False\<rparr>),
     w_runs := w_runs w @ [?r], w_fresh := Suc (w_fresh w)\<rparr>"
  have fresh: "w_fresh w \<notin> run_id ` set (w_runs w)" using assms(1) by (force simp: tests_ok_def run_ok_def)
  have none: "owned (w_fresh w) w = []"
    using assms(1) fresh by (auto simp: owned_def filter_empty_conv tests_ok_def flight_ok_def split: option.splits)
  have own: "owned i ?w = owned i w" for i by (simp add: owned_def)
  have "tests_ok ?w"
    using assms fresh none own
    by (auto simp: tests_ok_def run_ok_def flight_ok_def closure_of_def split: option.splits)
  moreover have "batchTestModels lower w = next_slice ?r ?w" using c False by (simp add: batchTestModels_def Let_def)
  ultimately show ?thesis using next_slice_ok [of ?w ?r] none own by simp
qed (auto simp: batchTestModels_def Let_def assms split: option.splits)

lemma answer_ok:
  assumes "tests_ok w" "k < length (w_flights w)"
  shows "tests_ok (w\<lparr>w_flights := take k (w_flights w) @ drop (Suc k) (w_flights w), w_page := st\<rparr>)" (is "tests_ok ?w")
proof -
  define a where "a = take k (w_flights w)"
  define b where "b = drop (Suc k) (w_flights w)"
  have split: "w_flights w = a @ w_flights w ! k # b" unfolding a_def b_def by (rule id_take_nth_drop [OF assms(2)])
  have own: "owned i ?w = filter (\<lambda>fl. fl_owner fl = Some i) a @ filter (\<lambda>fl. fl_owner fl = Some i) b" for i
    by (simp add: owned_def a_def b_def)
  have old: "owned i w = filter (\<lambda>fl. fl_owner fl = Some i) a @
      (if fl_owner (w_flights w ! k) = Some i then [w_flights w ! k] else []) @ filter (\<lambda>fl. fl_owner fl = Some i) b" for i
    unfolding owned_def by (subst split) simp
  have fewer: "length (owned i ?w) \<le> length (owned i w) \<and> (owned i w = [] \<longrightarrow> owned i ?w = [])" for i
    unfolding own old by simp
  have "run_ok ?w r" if "run_ok w r" for r
    using fewer [of "run_id r"] that by (auto simp: run_ok_def)
  moreover have "flight_ok ?w fl" if "flight_ok w fl" for fl using that by (simp add: flight_ok_def cong: option.case_cong)
  moreover have "set (w_flights ?w) \<subseteq> set (w_flights w)" by (auto dest: in_set_takeD in_set_dropD)
  ultimately show ?thesis using assms(1) unfolding tests_ok_def by auto
qed

lemma phase_owned:
  assumes "tests_ok w" "r \<in> set (w_runs w)" "run_phase r \<noteq> WaitingForTests"
  shows "owned (run_id r) w = []"
  using assms by (auto simp: tests_ok_def run_ok_def)

lemma settled_ok:
  assumes "tests_ok w" "r \<in> set (w_runs w)" "list_all (\<lambda>fl. fl_owner fl \<noteq> Some (run_id r)) (w_flights w)"
  shows "tests_ok (settled_slice r w)"
proof -
  have none: "owned (run_id r) w = []" using assms(3) by (auto simp: owned_def list_all_iff filter_empty_conv)
  have "tests_ok (put_run (r\<lparr>run_phase := ph\<rparr>) w)" for ph
    by (rule put_run_ok [OF assms(1,2), where ms = "[]"]) (simp_all add: none)
  then show ?thesis using drop_run_ok [OF assms(1) none] by (simp add: settled_slice_def)
qed

lemma test_one_ok:
  assumes "tests_ok w" "fl_owner fl = None"
  shows "tests_ok (w\<lparr>w_flights := w_flights w @ [fl], w_page := st\<rparr>)"
  using assms by (auto simp: tests_ok_def run_ok_def flight_ok_def owned_def cong: option.case_cong split: option.splits)

lemma test_step_ok: "test_step lower ev w = Some w' \<Longrightarrow> tests_ok w \<Longrightarrow> tests_ok w'"
proof (induction lower ev w rule: test_step.induct)
  case (5 lower model w)
  then show ?case
    by (auto simp: beginTest_def split: option.splits bool.splits if_splits intro!: test_one_ok)
next
  case (6 lower w)
  then show ?case by (auto intro: batch_start_ok split: if_splits)
next
  case (7 lower k now answer w)
  then show ?case by (auto intro: answer_ok split: if_splits)
next
  case (8 lower i w)
  then obtain r where r: "find_run i w = Some r" "list_all (\<lambda>fl. fl_owner fl \<noteq> Some i) (w_flights w)" "w' = settled_slice r w"
    by (auto split: option.splits if_splits)
  with find_run_Some [OF r(1)] 8 show ?case using settled_ok by auto
next
  case (9 lower i w)
  then obtain r where r: "find_run i w = Some r" "run_phase r = Pausing" "w' = next_slice r w"
    by (auto split: option.splits if_splits)
  with find_run_Some [OF r(1)] 9 show ?case using next_slice_ok phase_owned by auto
next
  case (10 lower i w)
  then obtain r where r: "find_run i w = Some r" "run_phase r = Concluding" "w' = drop_run i w"
    by (auto split: option.splits if_splits)
  with find_run_Some [OF r(1)] 10 show ?case using drop_run_ok phase_owned by auto
qed (auto simp: on_page_ok split: if_splits)

lemma test_run_ok: "test_run lower evs w = Some w' \<Longrightarrow> tests_ok w \<Longrightarrow> tests_ok w'"
  by (induction evs arbitrary: w) (auto dest: test_step_ok split: option.splits)

text \<open>
  C8: whatever is clicked and in whatever order the answers come, a batch never has more than five
  test requests under way.
\<close>

theorem at_most_five:
  assumes "idle_world w" "test_run lower evs w = Some w'"
  shows "length (filter (\<lambda>fl. fl_owner fl = Some i) (w_flights w')) \<le> concurrencyLimit"
proof (cases "i \<in> run_id ` set (w_runs w')")
  case True
  then show ?thesis
    using test_run_ok [OF assms(2) idle_ok [OF assms(1)]] by (auto simp: tests_ok_def run_ok_def owned_def)
next
  case False
  then have "filter (\<lambda>fl. fl_owner fl = Some i) (w_flights w') = []"
    using test_run_ok [OF assms(2) idle_ok [OF assms(1)]]
    by (fastforce simp: tests_ok_def flight_ok_def filter_empty_conv split: option.splits)
  then show ?thesis by simp
qed


section \<open>A batch left alone\<close>

fun quiet :: "test_event \<Rightarrow> bool" where
  "quiet (TestAnswered k now answer) = True"
| "quiet (SliceSettled i) = True"
| "quiet (PauseOver i) = True"
| "quiet (Conclude i) = True"
| "quiet _ = False"

definition has_result :: "chan \<Rightarrow> tests_page \<Rightarrow> string \<Rightarrow> bool" where
  "has_result c st m \<longleftrightarrow> map_of (modelTestResults st) (testKey (c_id c) m) \<noteq> None"

lemma touch_channel_simps [simp]:
  "modelTestResults (touch_channel cl i t n st) = modelTestResults st"
  "shouldStopBatchTesting (touch_channel cl i t n st) = shouldStopBatchTesting st"
  "isBatchTesting (touch_channel cl i t n st) = isBatchTesting st"
  by (simp_all add: touch_channel_def Let_def case_prod_unfold)

lemma endTest_flags [simp]:
  "shouldStopBatchTesting (endTest fl now answer st) = shouldStopBatchTesting st"
  "isBatchTesting (endTest fl now answer st) = isBatchTesting st"
  by (simp_all add: endTest_def put_result_def Let_def split: test_answer.split)

lemma endTest_result:
  assumes "\<not> cl_isBatchTesting (fl_closure fl)"
  shows "has_result c (endTest fl now answer st) m \<longleftrightarrow>
    has_result c st m \<or> testKey (c_id c) m = testKey (c_id (fl_channel fl)) (fl_model fl)"
  using assms by (auto simp: has_result_def endTest_def put_result_def Let_def split: test_answer.split)

definition batch_inv :: "chan \<Rightarrow> string list \<Rightarrow> tests_world \<Rightarrow> bool" where
  "batch_inv c ms w \<longleftrightarrow>
     (w_runs w = [] \<and> w_flights w = [] \<and> \<not> isBatchTesting (w_page w) \<and> (\<forall>m \<in> set ms. has_result c (w_page w) m)) \<or>
     (\<exists>r. w_runs w = [r] \<and> run_channel r = c \<and> run_models r = ms \<and> \<not> cl_isBatchTesting (run_closure r) \<and>
        \<not> shouldStopBatchTesting (w_page w) \<and> set (w_flights w) \<subseteq> flight_of r ` set ms \<and>
        (\<forall>m \<in> set (take (run_next r) ms). has_result c (w_page w) m \<or> m \<in> fl_model ` set (w_flights w)) \<and>
        (run_phase r = Pausing \<longrightarrow> w_flights w = [] \<and> run_next r < length ms) \<and>
        (run_phase r = Concluding \<longrightarrow> w_flights w = [] \<and> length ms \<le> run_next r))"

definition work :: "tests_world \<Rightarrow> nat" where
  "work w =
     (case w_runs w of
        [] \<Rightarrow> 0
      | r # _ \<Rightarrow>
          (case run_phase r of
             WaitingForTests \<Rightarrow> 4 * (length (run_models r) - run_next r) + length (w_flights w) + 2
           | Pausing \<Rightarrow> 4 * (length (run_models r) - run_next r) + 1
           | Concluding \<Rightarrow> 1))"

lemma flight_of_simps [simp]:
  "fl_model (flight_of r m) = m" "fl_owner (flight_of r m) = Some (run_id r)" "fl_channel (flight_of r m) = run_channel r"
  "fl_closure (flight_of r m) = run_closure r"
  by (simp_all add: flight_of_def)

lemma flight_of_update [simp]:
  "flight_of (r\<lparr>run_next := n, run_phase := ph\<rparr>) = flight_of r" "flight_of (r\<lparr>run_next := n\<rparr>) = flight_of r" "flight_of (r\<lparr>run_phase := ph\<rparr>) = flight_of r"
  by (simp_all add: flight_of_def fun_eq_iff)

text \<open>Starting a slice from a batch with no request under way.\<close>

lemma next_slice_inv:
  assumes "w_runs w = [r]" "run_channel r = c" "run_models r = ms" "\<not> cl_isBatchTesting (run_closure r)"
    "\<not> shouldStopBatchTesting (w_page w)" "w_flights w = []" "run_next r < length ms"
    "\<forall>m \<in> set (take (run_next r) ms). has_result c (w_page w) m"
  shows "batch_inv c ms (next_slice r w) \<and> work (next_slice r w) \<le> 4 * (length ms - run_next r)"
proof -
  let ?new = "take concurrencyLimit (drop (run_next r) ms)"
  let ?r = "r\<lparr>run_next := run_next r + concurrencyLimit, run_phase := WaitingForTests\<rparr>"
  obtain tm where "begin_tests r ?new (w_flights w, w_page w) = (w_flights w @ map (flight_of r) ?new, (w_page w)\<lparr>testingModels := tm\<rparr>)"
    using begin_tests_open [OF assms(4)] by blast
  then have ns: "next_slice r w = w\<lparr>w_flights := map (flight_of r) ?new, w_page := (w_page w)\<lparr>testingModels := tm\<rparr>, w_runs := [?r]\<rparr>"
    using assms by (simp add: next_slice_def put_run_def)
  have new: "take (run_next r + concurrencyLimit) ms = take (run_next r) ms @ ?new" by (rule take_add)
  have models: "set ?new \<subseteq> set ms" by (auto dest: in_set_takeD in_set_dropD)
  have "batch_inv c ms (next_slice r w)"
    unfolding ns batch_inv_def using assms new models by (auto simp: has_result_def image_iff)
  moreover have "work (next_slice r w) \<le> 4 * (length ms - run_next r)"
    using assms(3,7) by (auto simp: ns work_def concurrencyLimit_def)
  ultimately show ?thesis ..
qed

lemma quiet_step:
  assumes "batch_inv c ms w" "quiet ev" "test_step lower ev w = Some w'"
  shows "batch_inv c ms w' \<and> work w' < work w"
proof (cases "w_runs w")
  case Nil
  then show ?thesis using assms by (cases ev) (auto simp: batch_inv_def find_run_def split: if_splits)
next
  case (Cons r0 rs)
  then obtain r where r: "w_runs w = [r]" "run_channel r = c" "run_models r = ms" "\<not> cl_isBatchTesting (run_closure r)"
      "\<not> shouldStopBatchTesting (w_page w)" "set (w_flights w) \<subseteq> flight_of r ` set ms"
      "\<forall>m \<in> set (take (run_next r) ms). has_result c (w_page w) m \<or> m \<in> fl_model ` set (w_flights w)"
      "run_phase r = Pausing \<Longrightarrow> w_flights w = [] \<and> run_next r < length ms"
      "run_phase r = Concluding \<Longrightarrow> w_flights w = [] \<and> length ms \<le> run_next r"
    using assms(1) by (auto simp: batch_inv_def)
  have found: "q = r \<and> i = run_id r" if "find_run i w = Some q" for i q
    using that r(1) by (auto simp: find_run_def split: if_splits)
  have ids: "\<forall>fl \<in> set (w_flights w). fl_owner fl = Some (run_id r)" using r(6) by auto
  show ?thesis
  proof (cases ev)
    case (TestAnswered k now answer)
    then have k: "k < length (w_flights w)"
      and w': "w' = w\<lparr>w_flights := take k (w_flights w) @ drop (Suc k) (w_flights w),
         w_page := endTest (w_flights w ! k) now answer (w_page w)\<rparr>"
      using assms(3) by (auto split: if_splits)
    have split: "w_flights w = take k (w_flights w) @ w_flights w ! k # drop (Suc k) (w_flights w)"
      by (rule id_take_nth_drop [OF k])
    obtain m0 where m0: "m0 \<in> set ms" "w_flights w ! k = flight_of r m0" using r(6) nth_mem [OF k] by blast
    have waiting: "run_phase r = WaitingForTests" using r(8,9) k by (cases "run_phase r") auto
    have res: "has_result c (w_page w') m \<longleftrightarrow> has_result c (w_page w) m \<or> testKey (c_id c) m = testKey (c_id c) m0" for m
      using endTest_result [of "w_flights w ! k"] m0 r(2,4) by (simp add: w')
    have "m \<in> fl_model ` set (w_flights w) \<Longrightarrow> m = m0 \<or> m \<in> fl_model ` set (w_flights w')" for m
      using m0 by (subst (asm) split) (auto simp: w')
    then have "\<forall>m \<in> set (take (run_next r) ms). has_result c (w_page w') m \<or> m \<in> fl_model ` set (w_flights w')"
      using r(7) res by blast
    moreover have "set (w_flights w') \<subseteq> set (w_flights w)" by (auto simp: w' dest: in_set_takeD in_set_dropD)
    moreover have "length (w_flights w') < length (w_flights w)" using k by (simp add: w')
    ultimately show ?thesis
      using r waiting by (auto simp: batch_inv_def work_def w')
  next
    case (SliceSettled i)
    then obtain q where q: "find_run i w = Some q" "run_phase q = WaitingForTests"
        "list_all (\<lambda>fl. fl_owner fl \<noteq> Some i) (w_flights w)" "w' = settled_slice q w"
      using assms(3) by (auto split: option.splits if_splits)
    then have none: "w_flights w = []" "q = r" using found [OF q(1)] ids by (auto simp: list_all_iff)
    show ?thesis
      using q(2,4) none r by (auto simp: settled_slice_def put_run_def batch_inv_def work_def)
  next
    case (PauseOver i)
    then obtain q where q: "find_run i w = Some q" "run_phase q = Pausing" "w' = next_slice q w"
      using assms(3) by (auto split: option.splits if_splits)
    with found have "q = r" by blast
    with q r next_slice_inv [of w r c ms] show ?thesis by (simp add: work_def)
  next
    case (Conclude i)
    then obtain q where q: "find_run i w = Some q" "run_phase q = Concluding" "w' = drop_run i w"
      using assms(3) by (auto split: option.splits if_splits)
    with found have "q = r" "i = run_id r" by blast+
    with q r show ?thesis by (auto simp: drop_run_def batch_inv_def work_def has_result_def)
  qed (use assms(2) in simp_all)
qed

lemma quiet_run:
  assumes "batch_inv c ms w" "list_all quiet evs" "test_run lower evs w = Some w'"
  shows "batch_inv c ms w' \<and> length evs + work w' \<le> work w"
  using assms
proof (induction evs arbitrary: w)
  case (Cons ev evs)
  then obtain w1 where w1: "test_step lower ev w = Some w1" "test_run lower evs w1 = Some w'" by (auto split: option.splits)
  with quiet_step [of c ms w ev lower w1] Cons show ?case by fastforce
qed simp

lemma quiet_progress:
  assumes "batch_inv c ms w" "w_runs w \<noteq> []"
  shows "\<exists>ev. quiet ev \<and> test_step lower ev w \<noteq> None"
proof -
  obtain r where r: "w_runs w = [r]" using assms by (auto simp: batch_inv_def)
  then have f: "find_run (run_id r) w = Some r" by (simp add: find_run_def)
  show ?thesis
  proof (cases "w_flights w")
    case Nil
    then show ?thesis
      using f by (cases "run_phase r")
        (auto intro: exI [of _ "SliceSettled (run_id r)"] exI [of _ "PauseOver (run_id r)"] exI [of _ "Conclude (run_id r)"])
  next
    case (Cons fl fls)
    then show ?thesis by (intro exI [of _ "TestAnswered 0 NaN (TestThrown [])"]) simp
  qed
qed

text \<open>
  C19: a batch that is left alone finishes: once started, whatever the answers and their order, the
  loop takes at most four steps per model and two more, something always remains to happen until it
  has ended, and when it has ended every model of the batch has a result and no request is under way.
\<close>

theorem batch_completes:
  assumes "w_flights w = []" "w_runs w = []" "currentTestChannel (w_page w) = Some c"
    "batch_models lower (w_page w) = ms" "ms \<noteq> []" "\<not> isBatchTesting (w_page w)"
    "list_all quiet evs" "test_run lower evs (batchTestModels lower w) = Some w'"
  shows "length evs \<le> 4 * length ms \<and>
    (if w_runs w' = []
     then w_flights w' = [] \<and> \<not> isBatchTesting (w_page w') \<and>
       list_all (\<lambda>m. map_of (modelTestResults (w_page w')) (testKey (c_id c) m) \<noteq> None) ms
     else \<exists>ev. quiet ev \<and> test_step lower ev w' \<noteq> None)"
proof -
  let ?st = "w_page w"
  let ?r = "\<lparr>run_id = w_fresh w, run_channel = c, run_models = ms, run_next = 0, run_closure = closure_of ?st,
     run_endpoint = selectedEndpointType ?st, run_stream = isStreamTest ?st, run_phase = Pausing\<rparr>"
  let ?w = "w\<lparr>w_page := clear_results (c_id c) ms (?st\<lparr>isBatchTesting := True, shouldStopBatchTesting := False\<rparr>),
     w_runs := [?r], w_fresh := Suc (w_fresh w)\<rparr>"
  have "batchTestModels lower w = next_slice ?r ?w" using assms(2-5) by (simp add: batchTestModels_def Let_def)
  moreover have "batch_inv c ms (next_slice ?r ?w) \<and> work (next_slice ?r ?w) \<le> 4 * (length ms - run_next ?r)"
    by (rule next_slice_inv) (use assms in \<open>simp_all add: closure_of_def clear_results_def\<close>)
  ultimately have start: "batch_inv c ms (batchTestModels lower w)" "work (batchTestModels lower w) \<le> 4 * length ms" by simp_all
  from quiet_run [OF this(1) assms(7,8)] have run: "batch_inv c ms w'" "length evs \<le> 4 * length ms" using start(2) by auto
  show ?thesis
  proof (cases "w_runs w' = []")
    case True
    then show ?thesis using run by (auto simp: batch_inv_def has_result_def list_all_iff)
  next
    case False
    then show ?thesis using run quiet_progress [OF run(1)] by simp
  qed
qed


section \<open>Stopping\<close>

text \<open>
  The check for a stop inside \<open>testChannel\<close> looks at the \<open>isBatchTesting\<close> of the render in which the
  batch was started, where it is false: answers that come after the dialog was closed are recorded.
\<close>

theorem late_answers_recorded:
  assumes "idle_world w" "test_run lower evs w = Some w'" "k < length (w_flights w')" "fl_owner (w_flights w' ! k) = Some i"
  shows "has_result (fl_channel (w_flights w' ! k)) (endTest (w_flights w' ! k) now answer (w_page w')) (fl_model (w_flights w' ! k))"
proof -
  have "flight_ok w' (w_flights w' ! k)"
    using test_run_ok [OF assms(2) idle_ok [OF assms(1)]] nth_mem [OF assms(3)] by (simp add: tests_ok_def)
  then have "\<not> cl_isBatchTesting (fl_closure (w_flights w' ! k))" using assms(4) by (simp add: flight_ok_def)
  from endTest_result [OF this] show ?thesis by simp
qed

definition example_world :: tests_world where
  "example_world =
     \<lparr>w_page =
        \<lparr>rows = [], store = empty_store, listLoading = False, searching = False, listPage = PageNo 1, listPageSize = 10,
         idSort = False, enableTagMode = False, enableBatchDelete = False, channelCount = 0, typeCounts = [],
         activeTypeKey = ''all'', statusFilter = ''all'', listForm = empty_form, requestCounter = 0, localStorage = [],
         showModelTestModal = False, currentTestChannel = None, modelSearchKeyword = [], modelTestResults = [],
         testingModels = [], isBatchTesting = False, selectedModelKeys = [], modelTablePage = 1,
         selectedEndpointType = [], isStreamTest = False, shouldStopBatchTesting = False\<rparr>,
      w_flights = [], w_runs = [], w_fresh = 0\<rparr>"

lemma example_idle: "idle_world example_world"
  by (simp add: idle_world_def example_world_def)

definition answered :: test_event where
  "answered = TestAnswered 0 (Fin 1000) (TestGiven True [] (Fin 1) Null)"

text \<open>
  The dialog is closed during the first slice, opened for another channel and a second batch is started; then the five
  tests of the first batch are answered. The two batches have different addresses, so that no request is shared.
\<close>

definition restart_start :: "test_event list" where
  "restart_start = [OpenDialog example_chan, TestAll, CloseDialog, OpenDialog (example_chan\<lparr>c_id := 2\<rparr>)]"

definition restart_events :: "test_event list" where
  "restart_events = restart_start @ [TestAll] @ replicate 5 answered @ [SliceSettled 0, PauseOver 0]"

fun is_answer :: "test_event \<Rightarrow> bool" where
  "is_answer (TestAnswered k now answer) = True"
| "is_answer _ = False"

lemma answers_keep:
  "list_all is_answer evs \<Longrightarrow> test_run lower evs w = Some w' \<Longrightarrow>
   w_runs w' = w_runs w \<and> shouldStopBatchTesting (w_page w') = shouldStopBatchTesting (w_page w)"
proof (induction evs arbitrary: w)
  case (Cons ev evs)
  then obtain k now answer where ev: "ev = TestAnswered k now answer" by (cases ev) auto
  with Cons.prems(2) have "k < length (w_flights w)" by (auto split: if_splits)
  with Cons ev show ?case by fastforce
qed simp

lemma find_run_cong: "w_runs w' = w_runs w \<Longrightarrow> find_run i w' = find_run i w"
  by (simp add: find_run_def)

lemma find_put_run: "find_run (run_id r) w = Some q \<Longrightarrow> find_run (run_id r) (put_run r w) = Some r"
proof -
  have "List.find (\<lambda>p. run_id p = run_id r) rs = Some q \<Longrightarrow>
      List.find (\<lambda>p. run_id p = run_id r) (map (\<lambda>p. if run_id p = run_id r then r else p) rs) = Some r" for rs
    by (induction rs) (auto split: if_splits)
  then show "find_run (run_id r) w = Some q \<Longrightarrow> find_run (run_id r) (put_run r w) = Some r"
    by (simp add: find_run_def put_run_def)
qed

lemma find_put_other: "i \<noteq> run_id r \<Longrightarrow> find_run i (put_run r w) = find_run i w"
proof -
  assume ne: "i \<noteq> run_id r"
  have "List.find (\<lambda>p. run_id p = i) (map (\<lambda>p. if run_id p = run_id r then r else p) rs) = List.find (\<lambda>p. run_id p = i) rs" for rs
    using ne by (induction rs) auto
  then show ?thesis by (simp add: find_run_def put_run_def)
qed

text \<open>A new batch clears the stop flag and leaves the loops that are there alone.\<close>

lemma batch_start_keeps:
  assumes "batch_models lower (w_page w) \<noteq> []" "find_run i w = Some r" "i < w_fresh w" "\<not> isBatchTesting (w_page w)"
  shows "find_run i (batchTestModels lower w) = Some r \<and> \<not> shouldStopBatchTesting (w_page (batchTestModels lower w))"
proof -
  obtain c where c: "currentTestChannel (w_page w) = Some c" using assms(1) by (auto simp: batch_models_def split: option.splits)
  let ?st = "w_page w" let ?ms = "batch_models lower (w_page w)"
  let ?r = "\<lparr>run_id = w_fresh w, run_channel = c, run_models = ?ms, run_next = 0, run_closure = closure_of ?st,
     run_endpoint = selectedEndpointType ?st, run_stream = isStreamTest ?st, run_phase = Pausing\<rparr>"
  let ?w = "w\<lparr>w_page := clear_results (c_id c) ?ms (?st\<lparr>isBatchTesting := True, shouldStopBatchTesting := False\<rparr>),
     w_runs := w_runs w @ [?r], w_fresh := Suc (w_fresh w)\<rparr>"
  have find_append: "List.find P xs = Some x \<Longrightarrow> List.find P (xs @ ys) = Some x" for P xs ys and x :: batch_run
    by (induction xs) (auto split: if_splits)
  have f: "find_run i ?w = Some r" using assms(2) find_append by (simp add: find_run_def)
  have "\<not> cl_isBatchTesting (run_closure ?r)" using assms(4) by (simp add: closure_of_def)
  from begin_tests_open [OF this] obtain tm where
    "begin_tests ?r (take concurrencyLimit (drop (run_next ?r) (run_models ?r))) (w_flights ?w, w_page ?w) =
      (w_flights ?w @ map (flight_of ?r) (take concurrencyLimit (drop (run_next ?r) (run_models ?r))), (w_page ?w)\<lparr>testingModels := tm\<rparr>)"
    by blast
  then have "\<exists>r' fls. run_id r' = w_fresh w \<and> next_slice ?r ?w = put_run r' (?w\<lparr>w_flights := fls, w_page := (w_page ?w)\<lparr>testingModels := tm\<rparr>\<rparr>)"
    by (simp add: next_slice_def clear_results_def) (metis batch_run.select_convs(1))
  then obtain r' fls where r': "run_id r' = w_fresh w"
    "next_slice ?r ?w = put_run r' (?w\<lparr>w_flights := fls, w_page := (w_page ?w)\<lparr>testingModels := tm\<rparr>\<rparr>)" by blast
  have start: "batchTestModels lower w = next_slice ?r ?w" using c assms(1) by (simp add: batchTestModels_def Let_def)
  have "find_run i (next_slice ?r ?w) = Some r"
    unfolding r'(2) using find_put_other [of i r'] r'(1) assms(3) f by (simp add: find_run_def)
  moreover have "\<not> shouldStopBatchTesting (w_page (next_slice ?r ?w))" unfolding r'(2) by (simp add: put_run_def clear_results_def)
  ultimately show ?thesis unfolding start ..
qed

text \<open>The loop goes on: the settled slice is followed by the next one.\<close>

lemma slice_goes_on:
  assumes "find_run i w = Some r" "run_phase r = WaitingForTests" "run_next r < length (run_models r)"
    "\<not> cl_isBatchTesting (run_closure r)" "\<not> shouldStopBatchTesting (w_page w)" "list_all (\<lambda>fl. fl_owner fl \<noteq> Some i) (w_flights w)"
  shows "\<exists>w'. test_run lower [SliceSettled i, PauseOver i] w = Some w' \<and> find_run i w' = Some (r\<lparr>run_next := run_next r + concurrencyLimit\<rparr>) \<and>
    filter (\<lambda>fl. fl_owner fl = Some i) (w_flights w') = map (flight_of r) (take concurrencyLimit (drop (run_next r) (run_models r)))"
proof -
  have i: "run_id r = i" using find_run_Some [OF assms(1)] by simp
  let ?p = "r\<lparr>run_phase := Pausing\<rparr>" let ?w = "put_run ?p w"
  let ?n = "?p\<lparr>run_next := run_next ?p + concurrencyLimit, run_phase := WaitingForTests\<rparr>"
  let ?ms = "take concurrencyLimit (drop (run_next r) (run_models r))"
  have 1: "test_step lower (SliceSettled i) w = Some ?w" using assms by (simp add: settled_slice_def)
  have f: "find_run i ?w = Some ?p" using find_put_run [of ?p w r] assms(1) i by simp
  have page: "w_page ?w = w_page w" "w_flights ?w = w_flights w" by (simp_all add: put_run_def)
  have "\<not> cl_isBatchTesting (run_closure ?p)" using assms(4) by simp
  from begin_tests_open [OF this] obtain tm where
    "begin_tests ?p ?ms (w_flights ?w, w_page ?w) = (w_flights ?w @ map (flight_of ?p) ?ms, (w_page ?w)\<lparr>testingModels := tm\<rparr>)" by blast
  then have ns: "next_slice ?p ?w = put_run ?n (?w\<lparr>w_flights := w_flights w @ map (flight_of r) ?ms, w_page := (w_page w)\<lparr>testingModels := tm\<rparr>\<rparr>)"
    using assms(5) by (simp add: next_slice_def page)
  have 2: "test_step lower (PauseOver i) ?w = Some (next_slice ?p ?w)" using f by simp
  have n: "?n = r\<lparr>run_next := run_next r + concurrencyLimit\<rparr>" using assms(2) by simp
  have "find_run i (next_slice ?p ?w) = Some ?n"
    unfolding ns using find_put_run [of ?n _ ?p] f i by (simp add: find_run_def)
  moreover have "filter (\<lambda>fl. fl_owner fl = Some i) (w_flights (next_slice ?p ?w)) = map (flight_of r) ?ms"
    unfolding ns using assms(6) i by (simp add: put_run_def list_all_iff filter_empty_conv filter_map comp_def)
  ultimately show ?thesis using 1 2 unfolding n by (intro exI [of _ "next_slice ?p ?w"]) (simp del: test_step.simps)
qed

text \<open>
  C38: a batch that was stopped comes back. In every run, a batch with models left that was stopped while it waits for
  a slice ends when that slice is settled, if nothing else happens; but if another batch is started before, which clears
  the stop flag, then after the same slice is settled, whatever the answers, the stopped batch goes on: it starts the
  tests of its next slice.
\<close>

theorem stopped_batch_revives:
  assumes "idle_world w0" "test_run lower evs w0 = Some w" "find_run i w = Some r" "run_phase r = WaitingForTests"
    "run_next r < length (run_models r)" "shouldStopBatchTesting (w_page w)" "list_all is_answer answers"
  shows "(\<forall>w2. test_run lower answers w = Some w2 \<and> list_all (\<lambda>fl. fl_owner fl \<noteq> Some i) (w_flights w2) \<longrightarrow>
      (\<exists>w3. test_step lower (SliceSettled i) w2 = Some w3 \<and> find_run i w3 = None)) \<and>
    (\<forall>w1 w2. test_step lower TestAll w = Some w1 \<and> batch_models lower (w_page w) \<noteq> [] \<and> test_run lower answers w1 = Some w2 \<and>
       list_all (\<lambda>fl. fl_owner fl \<noteq> Some i) (w_flights w2) \<longrightarrow>
      (\<exists>w3. test_run lower [SliceSettled i, PauseOver i] w2 = Some w3 \<and> find_run i w3 = Some (r\<lparr>run_next := run_next r + concurrencyLimit\<rparr>) \<and>
        filter (\<lambda>fl. fl_owner fl = Some i) (w_flights w3) = map (flight_of r) (take concurrencyLimit (drop (run_next r) (run_models r)))))"
proof (intro conjI allI impI; elim conjE)
  have r: "r \<in> set (w_runs w)" "run_id r = i" using find_run_Some [OF assms(3)] by auto
  have ok: "i < w_fresh w" "\<not> cl_isBatchTesting (run_closure r)"
    using test_run_ok [OF assms(2) idle_ok [OF assms(1)]] r by (auto simp: tests_ok_def run_ok_def)
  show "\<exists>w3. test_step lower (SliceSettled i) w2 = Some w3 \<and> find_run i w3 = None"
    if "test_run lower answers w = Some w2" "list_all (\<lambda>fl. fl_owner fl \<noteq> Some i) (w_flights w2)" for w2
  proof -
    have "find_run i w2 = Some r" "shouldStopBatchTesting (w_page w2)"
      using answers_keep [OF assms(7) that(1)] assms(3,6) find_run_cong [of w2 w i] by simp_all
    moreover have "find_run i (drop_run i w2) = None" by (simp add: find_run_def drop_run_def find_None_iff)
    ultimately show ?thesis using that(2) assms(4) r(2) by (simp add: settled_slice_def)
  qed
  show "\<exists>w3. test_run lower [SliceSettled i, PauseOver i] w2 = Some w3 \<and> find_run i w3 = Some (r\<lparr>run_next := run_next r + concurrencyLimit\<rparr>) \<and>
        filter (\<lambda>fl. fl_owner fl = Some i) (w_flights w3) = map (flight_of r) (take concurrencyLimit (drop (run_next r) (run_models r)))"
    if "test_step lower TestAll w = Some w1" "batch_models lower (w_page w) \<noteq> []" "test_run lower answers w1 = Some w2"
      "list_all (\<lambda>fl. fl_owner fl \<noteq> Some i) (w_flights w2)" for w1 w2
  proof -
    have "w1 = batchTestModels lower w" "\<not> isBatchTesting (w_page w)" using that(1) by (auto split: if_splits)
    then have "find_run i w1 = Some r" "\<not> shouldStopBatchTesting (w_page w1)"
      using batch_start_keeps [OF that(2) assms(3) ok(1)] by auto
    then have "find_run i w2 = Some r" "\<not> shouldStopBatchTesting (w_page w2)"
      using answers_keep [OF assms(7) that(3)] find_run_cong [of w2 w1 i] by simp_all
    then show ?thesis using slice_goes_on [OF _ assms(4,5) ok(2) _ that(4)] by blast
  qed
qed

lemma restart_facts:
  "\<exists>w w1 w2 r. test_run id restart_start example_world = Some w \<and> find_run 0 w = Some r \<and> run_phase r = WaitingForTests \<and>
     run_next r < length (run_models r) \<and> shouldStopBatchTesting (w_page w) \<and>
     test_step id TestAll w = Some w1 \<and> batch_models id (w_page w) \<noteq> [] \<and> test_run id (replicate 5 answered) w1 = Some w2 \<and>
     list_all (\<lambda>fl. fl_owner fl \<noteq> Some 0) (w_flights w2)"
proof -
  let ?w = "the (test_run id restart_start example_world)"
  let ?r = "the (find_run 0 ?w)" let ?w1 = "the (test_step id TestAll ?w)" let ?w2 = "the (test_run id (replicate 5 answered) ?w1)"
  have "test_run id restart_start example_world \<noteq> None" "find_run 0 ?w \<noteq> None" "run_phase ?r = WaitingForTests"
     "run_next ?r < length (run_models ?r)" "shouldStopBatchTesting (w_page ?w)"
     "test_step id TestAll ?w \<noteq> None" "batch_models id (w_page ?w) \<noteq> []" "test_run id (replicate 5 answered) ?w1 \<noteq> None"
     "list_all (\<lambda>fl. fl_owner fl \<noteq> Some 0) (w_flights ?w2)" by code_simp+
  then show ?thesis by (intro exI [of _ ?w] exI [of _ ?w1] exI [of _ ?w2] exI [of _ ?r]) auto
qed

theorem stopped_batch_revives_witness:
  "\<exists>w1 w2 w3 r. test_run id (restart_start @ [TestAll]) example_world = Some w1 \<and> test_run id (replicate 5 answered) w1 = Some w2 \<and>
     test_run id [SliceSettled 0, PauseOver 0] w2 = Some w3 \<and> find_run 0 w3 = Some r"
proof -
  obtain w w1 w2 r where w: "test_run id restart_start example_world = Some w" "find_run 0 w = Some r" "run_phase r = WaitingForTests"
     "run_next r < length (run_models r)" "shouldStopBatchTesting (w_page w)"
     "test_step id TestAll w = Some w1" "batch_models id (w_page w) \<noteq> []" "test_run id (replicate 5 answered) w1 = Some w2"
     "list_all (\<lambda>fl. fl_owner fl \<noteq> Some 0) (w_flights w2)" using restart_facts by blast
  have "list_all is_answer (replicate 5 answered)" by (simp add: list_all_iff answered_def)
  from stopped_batch_revives [OF example_idle w(1-5) this] w(6-9) obtain w3 where
    "test_run id [SliceSettled 0, PauseOver 0] w2 = Some w3" "find_run 0 w3 = Some (r\<lparr>run_next := run_next r + concurrencyLimit\<rparr>)"
    by blast
  moreover have "test_run id (xs @ [TestAll]) v = (case test_run id xs v of None \<Rightarrow> None | Some v' \<Rightarrow> test_step id TestAll v')" for xs v
    by (induction xs arbitrary: v) (auto simp del: test_step.simps split: option.split)
  ultimately show ?thesis using w(1,6,8) by (auto simp del: test_step.simps test_run.simps)
qed

theorem at_most_five_witness:
  "length (filter (\<lambda>fl. fl_owner fl = Some 1) (w_flights (the (test_run id restart_events example_world)))) \<le> concurrencyLimit"
proof -
  have "test_run id restart_events example_world \<noteq> None" by code_simp
  then obtain w where "test_run id restart_events example_world = Some w" by blast
  with at_most_five [OF example_idle this, of 1] show ?thesis by simp
qed

definition open_world :: tests_world where
  "open_world = on_page (\<lambda>st. st\<lparr>currentTestChannel := Some (example_chan\<lparr>c_models := ''a,b''\<rparr>), showModelTestModal := True\<rparr>) example_world"

theorem batch_completes_witness:
  "\<exists>w'. test_run id [answered, answered, SliceSettled 0, Conclude 0] (batchTestModels id open_world) = Some w' \<and>
     w_runs w' = [] \<and> list_all (\<lambda>m. map_of (modelTestResults (w_page w')) (testKey 1 m) \<noteq> None) [''a'', ''b'']"
proof -
  let ?evs = "[answered, answered, SliceSettled 0, Conclude 0]"
  have models: "batch_models id (w_page open_world) = [''a'', ''b'']" by code_simp
  have run: "test_run id ?evs (batchTestModels id open_world) \<noteq> None \<and>
      w_runs (the (test_run id ?evs (batchTestModels id open_world))) = []" by code_simp
  then obtain w' where w': "test_run id ?evs (batchTestModels id open_world) = Some w'" "w_runs w' = []" by auto
  from batch_completes [OF _ _ _ models _ _ _ this(1), of "example_chan\<lparr>c_models := ''a,b''\<rparr>"] w' show ?thesis
    by (simp add: open_world_def on_page_def example_world_def answered_def example_chan_def)
qed

end
