(* ===== verification/Channel_Updates.thy ===== *)
theory Channel_Updates
  imports Channels_Data
begin

text \<open>
  Pending model updates of a channel: the hook \<open>src/web/src/hooks/channels/useChannelUpstreamUpdates.jsx\<close>
  and its dialog \<open>components/table/channels/modals/ChannelUpstreamUpdateModal.jsx\<close>. The hook sends four
  kinds of requests, each guarded by a flag of its own that is set until the list has been loaded
  again. \<open>lower\<close> is \<open>toLowerCase\<close>; toasts are left out.
\<close>

section \<open>State\<close>

datatype update_tab = AddTab | RemoveTab

record updates_hook =
  showUpstreamUpdateModal :: bool
  upstreamUpdateChannel :: "chan option"
  upstreamUpdateAddModels :: "string list"
  upstreamUpdateRemoveModels :: "string list"
  upstreamUpdatePreferredTab :: update_tab
  upstreamApplyLoading :: bool
  detectAllUpstreamUpdatesLoading :: bool
  applyAllUpstreamUpdatesLoading :: bool
  applyUpstreamUpdatesInFlight :: bool
  detectChannelUpstreamUpdatesInFlight :: bool
  detectAllUpstreamUpdatesInFlight :: bool
  applyAllUpstreamUpdatesInFlight :: bool

record updates_dialog =
  selectedAddModels :: "string list"
  selectedRemoveModels :: "string list"
  dialogKeyword :: string
  activeTab :: update_tab
  partialSubmitConfirmed :: bool

record apply_body =
  ab_id :: int
  ab_add_models :: "string list"
  ab_ignore_models :: "string list"
  ab_remove_models :: "string list"

datatype update_call = ApplyUpdates apply_body | ApplyAll | DetectChannel int | DetectAll

text \<open>A call waits for the answer to its request, then for the list to be loaded again.\<close>

datatype call_phase = Posted | Refreshing

text \<open>
  The question about a partial submission holds the functions of the render it was asked in, so it
  keeps the channel, its pending models and the ticks of that moment.
\<close>

record partial_question =
  pq_channel :: "chan option"
  pq_pending :: "string list"
  pq_add :: "string list"
  pq_remove :: "string list"

record updates_world =
  u_hook :: updates_hook
  u_dialog :: updates_dialog
  u_question :: "partial_question option"
  u_calls :: "(update_call \<times> call_phase) list"

section \<open>The dialog\<close>

definition normalizeModels :: "string list \<Rightarrow> string list" where
  "normalizeModels models = uniq (filter (\<lambda>s. s \<noteq> []) (map trim models))"

definition filterByKeyword :: "(string \<Rightarrow> string) \<Rightarrow> string list \<Rightarrow> string \<Rightarrow> string list" where
  "filterByKeyword lower models kw =
     (let k = lower (trim kw) in if k = [] then models else filter (\<lambda>m. js_includes (lower m) k) models)"

definition pendingModels :: "update_tab \<Rightarrow> updates_hook \<Rightarrow> string list" where
  "pendingModels tab h =
     normalizeModels (if tab = AddTab then upstreamUpdateAddModels h else upstreamUpdateRemoveModels h)"

definition currentModels :: "(string \<Rightarrow> string) \<Rightarrow> updates_hook \<Rightarrow> updates_dialog \<Rightarrow> string list" where
  "currentModels lower h d = filterByKeyword lower (pendingModels (activeTab d) h) (dialogKeyword d)"

definition currentSelectedModels :: "updates_dialog \<Rightarrow> string list" where
  "currentSelectedModels d = (if activeTab d = AddTab then selectedAddModels d else selectedRemoveModels d)"

definition currentSetSelectedModels :: "string list \<Rightarrow> updates_dialog \<Rightarrow> updates_dialog" where
  "currentSetSelectedModels ms d =
     (if activeTab d = AddTab then d\<lparr>selectedAddModels := ms\<rparr> else d\<lparr>selectedRemoveModels := ms\<rparr>)"

text \<open>The effect of a dialog that has become visible.\<close>

definition resetDialog :: "updates_hook \<Rightarrow> updates_dialog" where
  "resetDialog h =
     (let addTabEnabled = pendingModels AddTab h \<noteq> []; removeTabEnabled = pendingModels RemoveTab h \<noteq> [] in
      \<lparr>selectedAddModels = [], selectedRemoveModels = [], dialogKeyword = [],
       activeTab =
         (if upstreamUpdatePreferredTab h = RemoveTab \<and> removeTabEnabled then RemoveTab
          else if upstreamUpdatePreferredTab h = AddTab \<and> addTabEnabled then AddTab
          else if addTabEnabled then AddTab else RemoveTab),
       partialSubmitConfirmed = False\<rparr>)"

definition tickModel :: "string \<Rightarrow> updates_dialog \<Rightarrow> updates_dialog" where
  "tickModel m d =
     (let cur = currentSelectedModels d in
      currentSetSelectedModels (normalizeModels (if m \<in> set cur then filter (\<lambda>x. x \<noteq> m) cur else cur @ [m])) d)"

definition handleToggleAllCurrent :: "(string \<Rightarrow> string) \<Rightarrow> bool \<Rightarrow> updates_hook \<Rightarrow> updates_dialog \<Rightarrow> updates_dialog" where
  "handleToggleAllCurrent lower checked h d =
     (let cur = currentSelectedModels d; ms = currentModels lower h d in
      currentSetSelectedModels
        (if checked then normalizeModels (cur @ ms) else filter (\<lambda>m. m \<notin> set ms) cur) d)"

definition checkedCount :: "(string \<Rightarrow> string) \<Rightarrow> updates_hook \<Rightarrow> updates_dialog \<Rightarrow> nat" where
  "checkedCount lower h d = length (filter (\<lambda>m. m \<in> set (currentSelectedModels d)) (currentModels lower h d))"

definition isAllChecked :: "(string \<Rightarrow> string) \<Rightarrow> updates_hook \<Rightarrow> updates_dialog \<Rightarrow> bool" where
  "isAllChecked lower h d \<longleftrightarrow>
     currentModels lower h d \<noteq> [] \<and> checkedCount lower h d = length (currentModels lower h d)"

section \<open>The hook\<close>

text \<open>\<open>record?.id\<close> is falsy for no channel and for the id 0.\<close>

definition openUpstreamUpdateModal ::
  "chan option \<Rightarrow> string list \<Rightarrow> string list \<Rightarrow> update_tab \<Rightarrow> updates_hook \<Rightarrow> updates_hook" where
  "openUpstreamUpdateModal channel pendingAdd pendingRemove tab h =
     (let add = normalizeModels pendingAdd; rem = normalizeModels pendingRemove in
      if (case channel of None \<Rightarrow> True | Some c \<Rightarrow> c_id c = 0) \<or> (add = [] \<and> rem = []) then h
      else h\<lparr>upstreamUpdateChannel := channel, upstreamUpdateAddModels := add, upstreamUpdateRemoveModels := rem,
             upstreamUpdatePreferredTab := tab, showUpstreamUpdateModal := True\<rparr>)"

definition closeUpstreamUpdateModal :: "updates_hook \<Rightarrow> updates_hook" where
  "closeUpstreamUpdateModal h =
     h\<lparr>showUpstreamUpdateModal := False, upstreamUpdateChannel := None, upstreamUpdateAddModels := [],
       upstreamUpdateRemoveModels := [], upstreamUpdatePreferredTab := AddTab\<rparr>"

definition start_call :: "update_call \<Rightarrow> updates_world \<Rightarrow> updates_world" where
  "start_call call w = w\<lparr>u_calls := u_calls w @ [(call, Posted)]\<rparr>"

definition applyUpstreamUpdates ::
  "chan option \<Rightarrow> string list \<Rightarrow> string list \<Rightarrow> string list \<Rightarrow> updates_world \<Rightarrow> updates_world" where
  "applyUpstreamUpdates channel pendingAdd selectedAdd selectedRemove w =
     (let h = u_hook w in
      if applyUpstreamUpdatesInFlight h then w
      else
        (case channel of
           None \<Rightarrow> w\<lparr>u_hook := closeUpstreamUpdateModal h\<rparr>
         | Some c \<Rightarrow>
             if c_id c = 0 then w\<lparr>u_hook := closeUpstreamUpdateModal h\<rparr>
             else
               (let add = normalizeModels selectedAdd in
                start_call
                  (ApplyUpdates \<lparr>ab_id = c_id c, ab_add_models = add,
                     ab_ignore_models = filter (\<lambda>m. m \<notin> set add) pendingAdd,
                     ab_remove_models = normalizeModels selectedRemove\<rparr>)
                  (w\<lparr>u_hook := h\<lparr>applyUpstreamUpdatesInFlight := True, upstreamApplyLoading := True\<rparr>\<rparr>))))"

definition applyAllUpstreamUpdates :: "updates_world \<Rightarrow> updates_world" where
  "applyAllUpstreamUpdates w =
     (if applyAllUpstreamUpdatesInFlight (u_hook w) then w
      else start_call ApplyAll
        (w\<lparr>u_hook := (u_hook w)\<lparr>applyAllUpstreamUpdatesInFlight := True, applyAllUpstreamUpdatesLoading := True\<rparr>\<rparr>))"

definition detectChannelUpstreamUpdates :: "chan option \<Rightarrow> updates_world \<Rightarrow> updates_world" where
  "detectChannelUpstreamUpdates channel w =
     (if detectChannelUpstreamUpdatesInFlight (u_hook w) then w
      else
        (case channel of
           None \<Rightarrow> w
         | Some c \<Rightarrow>
             if c_id c = 0 then w
             else start_call (DetectChannel (c_id c))
               (w\<lparr>u_hook := (u_hook w)\<lparr>detectChannelUpstreamUpdatesInFlight := True\<rparr>\<rparr>)))"

definition detectAllUpstreamUpdates :: "updates_world \<Rightarrow> updates_world" where
  "detectAllUpstreamUpdates w =
     (if detectAllUpstreamUpdatesInFlight (u_hook w) then w
      else start_call DetectAll
        (w\<lparr>u_hook := (u_hook w)\<lparr>detectAllUpstreamUpdatesInFlight := True, detectAllUpstreamUpdatesLoading := True\<rparr>\<rparr>))"

text \<open>The \<open>finally\<close> blocks.\<close>

fun release :: "update_call \<Rightarrow> updates_hook \<Rightarrow> updates_hook" where
  "release (ApplyUpdates b) h = h\<lparr>applyUpstreamUpdatesInFlight := False, upstreamApplyLoading := False\<rparr>"
| "release ApplyAll h = h\<lparr>applyAllUpstreamUpdatesInFlight := False, applyAllUpstreamUpdatesLoading := False\<rparr>"
| "release (DetectChannel i) h = h\<lparr>detectChannelUpstreamUpdatesInFlight := False\<rparr>"
| "release DetectAll h = h\<lparr>detectAllUpstreamUpdatesInFlight := False, detectAllUpstreamUpdatesLoading := False\<rparr>"

text \<open>The settings in a successful answer are counted for the message, which may throw.\<close>

definition getManualIgnoredModelCountFromSettings :: "jsval \<Rightarrow> js_error + nat" where
  "getManualIgnoredModelCountFromSettings settings =
     (let parsed = settings_value settings in
      if \<not> is_objectlike parsed then Inr 0
      else map_sum id length (normalizeModelList (get_prop parsed ''upstream_model_update_ignored_models'')))"

datatype update_answer = UpdateDone jsval | UpdateRefused | UpdateThrown

definition drop_call :: "nat \<Rightarrow> updates_world \<Rightarrow> updates_world" where
  "drop_call k w =
     w\<lparr>u_hook := release (fst (u_calls w ! k)) (u_hook w), u_calls := take k (u_calls w) @ drop (Suc k) (u_calls w)\<rparr>"

definition answer_call :: "nat \<Rightarrow> update_answer \<Rightarrow> updates_world \<Rightarrow> updates_world" where
  "answer_call k answer w =
     (case answer of
        UpdateDone settings \<Rightarrow>
          (case fst (u_calls w ! k) of
             ApplyUpdates b \<Rightarrow>
               (case getManualIgnoredModelCountFromSettings settings of
                  Inl e \<Rightarrow> drop_call k w
                | Inr n \<Rightarrow>
                    w\<lparr>u_hook := closeUpstreamUpdateModal (u_hook w), u_calls := (u_calls w)[k := (ApplyUpdates b, Refreshing)]\<rparr>)
           | call \<Rightarrow> w\<lparr>u_calls := (u_calls w)[k := (call, Refreshing)]\<rparr>)
      | _ \<Rightarrow> drop_call k w)"

section \<open>Submitting\<close>

definition submitSelectedChanges :: "partial_question \<Rightarrow> updates_world \<Rightarrow> updates_world" where
  "submitSelectedChanges q = applyUpstreamUpdates (pq_channel q) (pq_pending q) (pq_add q) (pq_remove q)"

definition current_submission :: "updates_world \<Rightarrow> partial_question" where
  "current_submission w =
     \<lparr>pq_channel = upstreamUpdateChannel (u_hook w), pq_pending = upstreamUpdateAddModels (u_hook w),
      pq_add = selectedAddModels (u_dialog w), pq_remove = selectedRemoveModels (u_dialog w)\<rparr>"

definition handleUpdateSubmit :: "updates_world \<Rightarrow> updates_world" where
  "handleUpdateSubmit w =
     (let h = u_hook w; d = u_dialog w;
          addTabEnabled = (pendingModels AddTab h \<noteq> []); removeTabEnabled = (pendingModels RemoveTab h \<noteq> []);
          hasUnselectedAdd = (addTabEnabled \<and> selectedAddModels d = []);
          hasUnselectedRemove = (removeTabEnabled \<and> selectedRemoveModels d = []) in
      if selectedAddModels d = [] \<and> selectedRemoveModels d = [] then submitSelectedChanges (current_submission w) w
      else if addTabEnabled \<and> removeTabEnabled \<and> (hasUnselectedAdd \<or> hasUnselectedRemove) then
        if partialSubmitConfirmed d then submitSelectedChanges (current_submission w) w
        else w\<lparr>u_dialog := d\<lparr>activeTab := (if hasUnselectedAdd then AddTab else RemoveTab)\<rparr>,
               u_question := Some (current_submission w)\<rparr>
      else submitSelectedChanges (current_submission w) w)"

definition confirmPartial :: "updates_world \<Rightarrow> updates_world" where
  "confirmPartial w =
     (case u_question w of
        None \<Rightarrow> w
      | Some q \<Rightarrow>
          submitSelectedChanges q (w\<lparr>u_question := None, u_dialog := (u_dialog w)\<lparr>partialSubmitConfirmed := True\<rparr>\<rparr>))"

section \<open>Runs\<close>

datatype update_event =
    OpenUpdates "chan option" "string list" "string list" update_tab
  | CloseUpdates
  | PickUpdateTab update_tab
  | TypeUpdateKeyword string
  | TickModel string
  | TickAll bool
  | SubmitUpdates
  | ConfirmPartial
  | CancelPartial
  | StartApplyAll
  | StartDetect "chan option"
  | StartDetectAll
  | CallAnswered nat update_answer
  | ListLoaded nat

text \<open>
  The dialog lies over the table and the question over the dialog: \<open>None\<close> when the control of the
  event cannot be reached or there is no such call.
\<close>

definition on_dialog :: "(updates_dialog \<Rightarrow> updates_dialog) \<Rightarrow> updates_world \<Rightarrow> updates_world option" where
  "on_dialog f w =
     (if showUpstreamUpdateModal (u_hook w) \<and> u_question w = None then Some (w\<lparr>u_dialog := f (u_dialog w)\<rparr>) else None)"

definition open_updates :: "chan option \<Rightarrow> string list \<Rightarrow> string list \<Rightarrow> update_tab \<Rightarrow> updates_world \<Rightarrow> updates_world" where
  "open_updates channel adds rems tab w =
     (let h = openUpstreamUpdateModal channel adds rems tab (u_hook w) in
      w\<lparr>u_hook := h, u_dialog := (if showUpstreamUpdateModal h then resetDialog h else u_dialog w)\<rparr>)"

fun update_step :: "(string \<Rightarrow> string) \<Rightarrow> update_event \<Rightarrow> updates_world \<Rightarrow> updates_world option" where
  "update_step lower (OpenUpdates channel adds rems tab) w =
     (if showUpstreamUpdateModal (u_hook w) \<or> u_question w \<noteq> None then None else Some (open_updates channel adds rems tab w))"
| "update_step lower CloseUpdates w =
     (if showUpstreamUpdateModal (u_hook w) \<and> u_question w = None
      then Some (w\<lparr>u_hook := closeUpstreamUpdateModal (u_hook w)\<rparr>) else None)"
| "update_step lower (PickUpdateTab tab) w =
     (if pendingModels tab (u_hook w) = [] then None else on_dialog (\<lambda>d. d\<lparr>activeTab := tab\<rparr>) w)"
| "update_step lower (TypeUpdateKeyword s) w = on_dialog (\<lambda>d. d\<lparr>dialogKeyword := s\<rparr>) w"
| "update_step lower (TickModel m) w =
     (if m \<in> set (currentModels lower (u_hook w) (u_dialog w)) then on_dialog (tickModel m) w else None)"
| "update_step lower (TickAll checked) w = on_dialog (handleToggleAllCurrent lower checked (u_hook w)) w"
| "update_step lower SubmitUpdates w =
     (if showUpstreamUpdateModal (u_hook w) \<and> u_question w = None then Some (handleUpdateSubmit w) else None)"
| "update_step lower ConfirmPartial w = (if u_question w = None then None else Some (confirmPartial w))"
| "update_step lower CancelPartial w = (if u_question w = None then None else Some (w\<lparr>u_question := None\<rparr>))"
| "update_step lower StartApplyAll w =
     (if showUpstreamUpdateModal (u_hook w) \<or> u_question w \<noteq> None then None else Some (applyAllUpstreamUpdates w))"
| "update_step lower (StartDetect channel) w =
     (if showUpstreamUpdateModal (u_hook w) \<or> u_question w \<noteq> None then None else Some (detectChannelUpstreamUpdates channel w))"
| "update_step lower StartDetectAll w =
     (if showUpstreamUpdateModal (u_hook w) \<or> u_question w \<noteq> None then None else Some (detectAllUpstreamUpdates w))"
| "update_step lower (CallAnswered k answer) w =
     (if k < length (u_calls w) \<and> snd (u_calls w ! k) = Posted then Some (answer_call k answer w) else None)"
| "update_step lower (ListLoaded k) w =
     (if k < length (u_calls w) \<and> snd (u_calls w ! k) = Refreshing then Some (drop_call k w) else None)"

fun update_run :: "(string \<Rightarrow> string) \<Rightarrow> update_event list \<Rightarrow> updates_world \<Rightarrow> updates_world option" where
  "update_run lower [] w = Some w"
| "update_run lower (ev # evs) w =
     (case update_step lower ev w of None \<Rightarrow> None | Some w' \<Rightarrow> update_run lower evs w')"

definition initial_updates :: updates_world where
  "initial_updates =
     \<lparr>u_hook =
        \<lparr>showUpstreamUpdateModal = False, upstreamUpdateChannel = None, upstreamUpdateAddModels = [],
         upstreamUpdateRemoveModels = [], upstreamUpdatePreferredTab = AddTab, upstreamApplyLoading = False,
         detectAllUpstreamUpdatesLoading = False, applyAllUpstreamUpdatesLoading = False,
         applyUpstreamUpdatesInFlight = False, detectChannelUpstreamUpdatesInFlight = False,
         detectAllUpstreamUpdatesInFlight = False, applyAllUpstreamUpdatesInFlight = False\<rparr>,
      u_dialog =
        \<lparr>selectedAddModels = [], selectedRemoveModels = [], dialogKeyword = [], activeTab = AddTab,
         partialSubmitConfirmed = False\<rparr>,
      u_question = None, u_calls = []\<rparr>"

end
