(* ===== verification/Channel_Updates_Proofs.thy ===== *)
theory Channel_Updates_Proofs
  imports Channel_Updates
begin

text \<open>
  Pending model updates: at most one call of each kind, and what a submission of the dialog sends.
\<close>


section \<open>One call of each kind\<close>

datatype call_kind = KApply | KApplyAll | KDetect | KDetectAll

fun kind_of :: "update_call \<Rightarrow> call_kind" where
  "kind_of (ApplyUpdates b) = KApply"
| "kind_of ApplyAll = KApplyAll"
| "kind_of (DetectChannel i) = KDetect"
| "kind_of DetectAll = KDetectAll"

fun in_flight :: "call_kind \<Rightarrow> updates_hook \<Rightarrow> bool" where
  "in_flight KApply h = applyUpstreamUpdatesInFlight h"
| "in_flight KApplyAll h = applyAllUpstreamUpdatesInFlight h"
| "in_flight KDetect h = detectChannelUpstreamUpdatesInFlight h"
| "in_flight KDetectAll h = detectAllUpstreamUpdatesInFlight h"

definition calls_of :: "call_kind \<Rightarrow> updates_world \<Rightarrow> (update_call \<times> call_phase) list" where
  "calls_of k w = filter (\<lambda>cp. kind_of (fst cp) = k) (u_calls w)"

definition calls_ok :: "updates_world \<Rightarrow> bool" where
  "calls_ok w \<longleftrightarrow>
     (\<forall>k. length (calls_of k w) = (if in_flight k (u_hook w) then 1 else 0)) \<and>
     upstreamApplyLoading (u_hook w) = applyUpstreamUpdatesInFlight (u_hook w) \<and>
     applyAllUpstreamUpdatesLoading (u_hook w) = applyAllUpstreamUpdatesInFlight (u_hook w) \<and>
     detectAllUpstreamUpdatesLoading (u_hook w) = detectAllUpstreamUpdatesInFlight (u_hook w)"

lemma kind_all: "(\<forall>k. P k) \<longleftrightarrow> P KApply \<and> P KApplyAll \<and> P KDetect \<and> P KDetectAll"
  by (metis call_kind.exhaust)

lemma calls_ok_same:
  assumes "calls_ok w" "u_calls w' = u_calls w" "\<And>k. in_flight k (u_hook w') = in_flight k (u_hook w)"
    "upstreamApplyLoading (u_hook w') = upstreamApplyLoading (u_hook w)"
    "applyAllUpstreamUpdatesLoading (u_hook w') = applyAllUpstreamUpdatesLoading (u_hook w)"
    "detectAllUpstreamUpdatesLoading (u_hook w') = detectAllUpstreamUpdatesLoading (u_hook w)"
  shows "calls_ok w'"
  using assms(1,2,4-6) assms(3) [of KApply] assms(3) [of KApplyAll] assms(3) [of KDetect] assms(3) [of KDetectAll]
  by (simp add: calls_ok_def calls_of_def kind_all)

lemma flags_close [simp]:
  "in_flight k (closeUpstreamUpdateModal h) = in_flight k h"
  "upstreamApplyLoading (closeUpstreamUpdateModal h) = upstreamApplyLoading h"
  "applyAllUpstreamUpdatesLoading (closeUpstreamUpdateModal h) = applyAllUpstreamUpdatesLoading h"
  "detectAllUpstreamUpdatesLoading (closeUpstreamUpdateModal h) = detectAllUpstreamUpdatesLoading h"
  by (cases k; simp add: closeUpstreamUpdateModal_def)+

lemma flags_open [simp]:
  "in_flight k (openUpstreamUpdateModal c adds rems tab h) = in_flight k h"
  "upstreamApplyLoading (openUpstreamUpdateModal c adds rems tab h) = upstreamApplyLoading h"
  "applyAllUpstreamUpdatesLoading (openUpstreamUpdateModal c adds rems tab h) = applyAllUpstreamUpdatesLoading h"
  "detectAllUpstreamUpdatesLoading (openUpstreamUpdateModal c adds rems tab h) = detectAllUpstreamUpdatesLoading h"
  by (cases k; simp add: openUpstreamUpdateModal_def Let_def)+

lemma calls_ok_frame [simp]:
  "calls_ok (w\<lparr>u_dialog := d\<rparr>) = calls_ok w" "calls_ok (w\<lparr>u_question := q\<rparr>) = calls_ok w"
  by (simp_all add: calls_ok_def calls_of_def)

lemma calls_ok_dialog [simp]:
  "calls_ok w \<Longrightarrow> calls_ok (w\<lparr>u_hook := closeUpstreamUpdateModal (u_hook w)\<rparr>)"
  "calls_ok w \<Longrightarrow> calls_ok (w\<lparr>u_hook := openUpstreamUpdateModal c adds rems tab (u_hook w)\<rparr>)"
  by (erule calls_ok_same; simp)+

lemma start_calls [simp]: "calls_of k (start_call call w) = calls_of k w @ (if kind_of call = k then [(call, Posted)] else [])"
  by (simp add: calls_of_def start_call_def)

lemma start_hook [simp]: "u_hook (start_call call w) = u_hook w"
  by (simp add: start_call_def)

lemma calls_of_hook [simp]: "calls_of k (w\<lparr>u_hook := h\<rparr>) = calls_of k w"
  by (simp add: calls_of_def)

lemma calls_ok_apply: "calls_ok w \<Longrightarrow> calls_ok (applyUpstreamUpdates c pend adds rems w)"
  by (simp add: applyUpstreamUpdates_def Let_def split: option.splits) (simp add: calls_ok_def kind_all)

lemma calls_ok_submit: "calls_ok w \<Longrightarrow> calls_ok (submitSelectedChanges q w)"
  by (simp add: submitSelectedChanges_def calls_ok_apply)

lemma calls_ok_starts:
  assumes "calls_ok w"
  shows "calls_ok (applyAllUpstreamUpdates w)" "calls_ok (detectAllUpstreamUpdates w)" "calls_ok (detectChannelUpstreamUpdates c w)"
  using assms by (auto simp: applyAllUpstreamUpdates_def detectAllUpstreamUpdates_def detectChannelUpstreamUpdates_def
      calls_ok_def kind_all split: option.splits)

lemma calls_ok_drop:
  assumes "calls_ok w" "k < length (u_calls w)"
  shows "calls_ok (drop_call k w)"
proof -
  obtain call ph where call: "u_calls w ! k = (call, ph)" by fastforce
  have "u_calls w = take k (u_calls w) @ (call, ph) # drop (Suc k) (u_calls w)"
    using id_take_nth_drop [OF assms(2)] call by simp
  from arg_cong [where f = "\<lambda>cs. length (filter (\<lambda>cp. kind_of (fst cp) = j) cs)" for j, OF this]
  have "length (calls_of j w) = length (calls_of j (drop_call k w)) + (if kind_of call = j then 1 else 0)" for j
    by (simp add: calls_of_def drop_call_def)
  moreover have "u_hook (drop_call k w) = release call (u_hook w)" by (simp add: drop_call_def call)
  ultimately show ?thesis
    using assms(1) unfolding calls_ok_def kind_all by (cases call) (simp_all split: if_splits)
qed

lemma calls_ok_answer:
  assumes "calls_ok w" "k < length (u_calls w)"
  shows "calls_ok (answer_call k answer w)"
proof -
  have len: "length (filter (\<lambda>cp. kind_of (fst cp) = j) ((u_calls w)[k := (fst (u_calls w ! k), Refreshing)])) =
      length (filter (\<lambda>cp. kind_of (fst cp) = j) (u_calls w))" for j
  proof -
    have "map fst ((u_calls w)[k := (fst (u_calls w ! k), Refreshing)]) = map fst (u_calls w)"
      using assms(2) by (simp add: map_update list_update_same_conv)
    then have "length (filter (\<lambda>c. kind_of c = j) (map fst ((u_calls w)[k := (fst (u_calls w ! k), Refreshing)]))) =
        length (filter (\<lambda>c. kind_of c = j) (map fst (u_calls w)))" by simp
    then show ?thesis by (simp add: filter_map comp_def)
  qed
  have kept: "calls_ok (w\<lparr>u_hook := h, u_calls := (u_calls w)[k := (call, Refreshing)]\<rparr>)"
    if "call = fst (u_calls w ! k)" "h = u_hook w \<or> h = closeUpstreamUpdateModal (u_hook w)" for call h
    using that assms(1) len flags_close unfolding calls_ok_def calls_of_def
    by (auto simp: closeUpstreamUpdateModal_def)
  have same: "calls_ok (w\<lparr>u_calls := (u_calls w)[k := (fst (u_calls w ! k), Refreshing)]\<rparr>)"
    using kept [OF refl disjI1 [OF refl]] by simp
  show ?thesis
  proof (cases answer)
    case (UpdateDone settings)
    then show ?thesis
      using kept [OF refl disjI2 [OF refl]] calls_ok_drop [OF assms] same
      by (auto simp: answer_call_def split: update_call.splits sum.splits)
  qed (simp_all add: answer_call_def calls_ok_drop assms)
qed

lemma calls_ok_step:
  assumes "calls_ok w" "update_step lower ev w = Some w'"
  shows "calls_ok w'"
proof -
  have submit: "calls_ok (handleUpdateSubmit w)" "calls_ok (confirmPartial w)"
    using assms(1) by (simp_all add: handleUpdateSubmit_def confirmPartial_def Let_def calls_ok_submit split: option.splits)
  show ?thesis
    using assms submit
    by (cases ev) (auto simp: on_dialog_def open_updates_def Let_def calls_ok_starts calls_ok_drop calls_ok_answer split: if_splits)
qed

lemma calls_ok_run: "update_run lower evs w = Some w' \<Longrightarrow> calls_ok w \<Longrightarrow> calls_ok w'"
  by (induction evs arbitrary: w) (auto split: option.splits dest: calls_ok_step)

lemma initial_calls_ok: "calls_ok initial_updates"
  by (simp add: calls_ok_def calls_of_def initial_updates_def kind_all)

text \<open>
  C21: however the user clicks and whatever the answers, there is at most one call of each of the four
  kinds, from its request until the list has been loaded again; its flag is set exactly while there
  is one, and the spinners show exactly that.
\<close>

theorem updates_exclusive:
  assumes "update_run lower evs initial_updates = Some w"
  shows "length (calls_of k w) \<le> 1 \<and> (in_flight k (u_hook w) \<longleftrightarrow> calls_of k w \<noteq> []) \<and>
    (upstreamApplyLoading (u_hook w) \<longleftrightarrow> calls_of KApply w \<noteq> []) \<and>
    (applyAllUpstreamUpdatesLoading (u_hook w) \<longleftrightarrow> calls_of KApplyAll w \<noteq> []) \<and>
    (detectAllUpstreamUpdatesLoading (u_hook w) \<longleftrightarrow> calls_of KDetectAll w \<noteq> [])"
proof -
  have ok: "calls_ok w" by (rule calls_ok_run [OF assms initial_calls_ok])
  have len: "length (calls_of j w) = (if in_flight j (u_hook w) then 1 else 0)" for j using ok by (simp add: calls_ok_def)
  have iff: "in_flight j (u_hook w) \<longleftrightarrow> calls_of j w \<noteq> []" for j using len [of j] by (cases "in_flight j (u_hook w)") auto
  have "upstreamApplyLoading (u_hook w) = in_flight KApply (u_hook w)"
    "applyAllUpstreamUpdatesLoading (u_hook w) = in_flight KApplyAll (u_hook w)"
    "detectAllUpstreamUpdatesLoading (u_hook w) = in_flight KDetectAll (u_hook w)" using ok by (simp_all add: calls_ok_def)
  moreover have "length (calls_of k w) \<le> 1" using len [of k] by simp
  ultimately show ?thesis unfolding iff by simp
qed


section \<open>What a submission sends\<close>

definition clean :: "string list \<Rightarrow> bool" where
  "clean ms \<longleftrightarrow> distinct ms \<and> (\<forall>m \<in> set ms. m \<noteq> [] \<and> trim m = m)"

lemma clean_normalize [simp]: "clean (normalizeModels ms)"
  by (auto simp: clean_def normalizeModels_def)

lemma normalize_clean: "clean ms \<Longrightarrow> normalizeModels ms = ms"
proof -
  assume c: "clean ms"
  then have "map trim ms = ms" by (simp add: clean_def map_idI)
  moreover have "filter (\<lambda>s. s \<noteq> []) ms = ms" using c by (simp add: clean_def)
  ultimately show ?thesis using c by (simp add: normalizeModels_def uniq_distinct clean_def)
qed

lemma set_normalize: "(\<forall>m \<in> set ms. m \<noteq> [] \<and> trim m = m) \<Longrightarrow> set (normalizeModels ms) = set ms"
  by (force simp: normalizeModels_def)

lemma pending_clean [simp]: "clean (pendingModels tab h)"
  by (simp add: pendingModels_def)

definition ticks_ok :: "updates_world \<Rightarrow> bool" where
  "ticks_ok w \<longleftrightarrow> (showUpstreamUpdateModal (u_hook w) \<longrightarrow>
     upstreamUpdateChannel (u_hook w) \<noteq> None \<and> clean (upstreamUpdateAddModels (u_hook w)) \<and> clean (upstreamUpdateRemoveModels (u_hook w)) \<and>
     clean (selectedAddModels (u_dialog w)) \<and> set (selectedAddModels (u_dialog w)) \<subseteq> set (upstreamUpdateAddModels (u_hook w)) \<and>
     clean (selectedRemoveModels (u_dialog w)) \<and> set (selectedRemoveModels (u_dialog w)) \<subseteq> set (upstreamUpdateRemoveModels (u_hook w)))"

lemma ticks_ok_hidden: "\<not> showUpstreamUpdateModal (u_hook w) \<Longrightarrow> ticks_ok w"
  by (simp add: ticks_ok_def)

lemma ticks_ok_same:
  assumes "ticks_ok w" "showUpstreamUpdateModal (u_hook w') \<Longrightarrow> showUpstreamUpdateModal (u_hook w)"
    "upstreamUpdateChannel (u_hook w') = upstreamUpdateChannel (u_hook w)"
    "upstreamUpdateAddModels (u_hook w') = upstreamUpdateAddModels (u_hook w)"
    "upstreamUpdateRemoveModels (u_hook w') = upstreamUpdateRemoveModels (u_hook w)"
    "selectedAddModels (u_dialog w') = selectedAddModels (u_dialog w)" "selectedRemoveModels (u_dialog w') = selectedRemoveModels (u_dialog w)"
  shows "ticks_ok w'"
  using assms by (simp add: ticks_ok_def)

lemma close_hidden [simp]: "\<not> showUpstreamUpdateModal (closeUpstreamUpdateModal h)"
  by (simp add: closeUpstreamUpdateModal_def)

lemma release_dialog [simp]:
  "showUpstreamUpdateModal (release c h) = showUpstreamUpdateModal h" "upstreamUpdateChannel (release c h) = upstreamUpdateChannel h"
  "upstreamUpdateAddModels (release c h) = upstreamUpdateAddModels h" "upstreamUpdateRemoveModels (release c h) = upstreamUpdateRemoveModels h"
  by (cases c; simp)+

text \<open>Ticking changes one side, within the models shown.\<close>

lemma shown_pending: "set (currentModels lower h d) \<subseteq> set (pendingModels (activeTab d) h)"
  by (auto simp: currentModels_def filterByKeyword_def Let_def split: if_splits)

lemma ticks_ok_set:
  assumes "ticks_ok w" "showUpstreamUpdateModal (u_hook w)" "clean ms" "set ms \<subseteq> set (pendingModels (activeTab (u_dialog w)) (u_hook w))"
  shows "ticks_ok (w\<lparr>u_dialog := currentSetSelectedModels ms (u_dialog w)\<rparr>)"
  using assms by (cases "activeTab (u_dialog w)") (auto simp: ticks_ok_def currentSetSelectedModels_def pendingModels_def normalize_clean)

lemma current_ticks:
  assumes "ticks_ok w" "showUpstreamUpdateModal (u_hook w)"
  shows "clean (currentSelectedModels (u_dialog w))"
    "set (currentSelectedModels (u_dialog w)) \<subseteq> set (pendingModels (activeTab (u_dialog w)) (u_hook w))"
  using assms by (cases "activeTab (u_dialog w)"; simp add: ticks_ok_def currentSelectedModels_def pendingModels_def normalize_clean)+

lemma normalize_within:
  assumes "set ms \<subseteq> set (pendingModels tab h)"
  shows "set (normalizeModels ms) = set ms"
  using assms pending_clean [of tab h] by (intro set_normalize) (auto simp: clean_def)

lemma ticks_ok_ticking:
  assumes "ticks_ok w" "showUpstreamUpdateModal (u_hook w)" 
  shows "m \<in> set (currentModels lower (u_hook w) (u_dialog w)) \<Longrightarrow> ticks_ok (w\<lparr>u_dialog := tickModel m (u_dialog w)\<rparr>)"
    "ticks_ok (w\<lparr>u_dialog := handleToggleAllCurrent lower checked (u_hook w) (u_dialog w)\<rparr>)"
proof -
  note cur = current_ticks [OF assms] and shown = shown_pending [of lower "u_hook w" "u_dialog w"]
  show "ticks_ok (w\<lparr>u_dialog := tickModel m (u_dialog w)\<rparr>)" if "m \<in> set (currentModels lower (u_hook w) (u_dialog w))"
    unfolding tickModel_def Let_def
  proof (rule ticks_ok_set [OF assms clean_normalize])
    have "set (if m \<in> set (currentSelectedModels (u_dialog w)) then filter (\<lambda>x. x \<noteq> m) (currentSelectedModels (u_dialog w))
        else currentSelectedModels (u_dialog w) @ [m]) \<subseteq> set (pendingModels (activeTab (u_dialog w)) (u_hook w))"
      using that cur shown by auto
    then show "set (normalizeModels (if m \<in> set (currentSelectedModels (u_dialog w)) then filter (\<lambda>x. x \<noteq> m) (currentSelectedModels (u_dialog w))
        else currentSelectedModels (u_dialog w) @ [m])) \<subseteq> set (pendingModels (activeTab (u_dialog w)) (u_hook w))"
      by (subst normalize_within)
  qed
  show "ticks_ok (w\<lparr>u_dialog := handleToggleAllCurrent lower checked (u_hook w) (u_dialog w)\<rparr>)"
    unfolding handleToggleAllCurrent_def Let_def
  proof (rule ticks_ok_set [OF assms])
    let ?ms = "currentSelectedModels (u_dialog w) @ currentModels lower (u_hook w) (u_dialog w)"
    let ?new = "if checked then normalizeModels ?ms else filter (\<lambda>m. m \<notin> set (currentModels lower (u_hook w) (u_dialog w))) (currentSelectedModels (u_dialog w))"
    show "clean ?new" using cur(1) by (auto simp: clean_def [of "filter _ _"] clean_def [of "currentSelectedModels _"])
    have "set ?ms \<subseteq> set (pendingModels (activeTab (u_dialog w)) (u_hook w))" using cur shown by auto
    then show "set ?new \<subseteq> set (pendingModels (activeTab (u_dialog w)) (u_hook w))"
      using normalize_within [of ?ms] by auto
  qed
qed

lemma ticks_ok_apply: "ticks_ok w \<Longrightarrow> ticks_ok (applyUpstreamUpdates c pend adds rems w)"
  by (auto simp: applyUpstreamUpdates_def Let_def start_call_def split: option.splits intro: ticks_ok_hidden elim: ticks_ok_same)

lemma ticks_ok_calls:
  assumes "ticks_ok w"
  shows "ticks_ok (drop_call k w)" "ticks_ok (answer_call k answer w)" "ticks_ok (applyAllUpstreamUpdates w)"
    "ticks_ok (detectAllUpstreamUpdates w)" "ticks_ok (detectChannelUpstreamUpdates c w)"
proof -
  show drop: "ticks_ok (drop_call k w)" using assms by (rule ticks_ok_same) (simp_all add: drop_call_def)
  have "ticks_ok (w\<lparr>u_calls := cs\<rparr>)" for cs using assms by (rule ticks_ok_same) simp_all
  with drop show "ticks_ok (answer_call k answer w)"
    by (auto simp: answer_call_def intro: ticks_ok_hidden split: update_answer.splits update_call.splits sum.splits)
  show "ticks_ok (applyAllUpstreamUpdates w)" "ticks_ok (detectAllUpstreamUpdates w)" "ticks_ok (detectChannelUpstreamUpdates c w)"
    using assms by (simp_all add: ticks_ok_def applyAllUpstreamUpdates_def detectAllUpstreamUpdates_def
        detectChannelUpstreamUpdates_def start_call_def split: option.splits)
qed

lemma ticks_ok_open: "ticks_ok w \<Longrightarrow> ticks_ok (open_updates c adds rems tab w)"
  by (auto simp: open_updates_def openUpstreamUpdateModal_def resetDialog_def Let_def ticks_ok_def clean_def [of "[]"] split: option.splits)

lemma ticks_ok_step:
  assumes "ticks_ok w" "update_step lower ev w = Some w'"
  shows "ticks_ok w'"
proof -
  have same: "ticks_ok (w\<lparr>u_dialog := (u_dialog w)\<lparr>activeTab := tab\<rparr>\<rparr>)" "ticks_ok (w\<lparr>u_dialog := (u_dialog w)\<lparr>dialogKeyword := s\<rparr>\<rparr>)"
    "ticks_ok (w\<lparr>u_question := q\<rparr>)" "ticks_ok (w\<lparr>u_dialog := (u_dialog w)\<lparr>activeTab := tab\<rparr>, u_question := q\<rparr>)"
    "ticks_ok (w\<lparr>u_question := q, u_dialog := (u_dialog w)\<lparr>partialSubmitConfirmed := b\<rparr>\<rparr>)" for tab s q b
    using assms(1) by (rule ticks_ok_same; simp)+
  have "ticks_ok (handleUpdateSubmit w)" "ticks_ok (confirmPartial w)"
    using assms(1) same by (simp_all add: handleUpdateSubmit_def confirmPartial_def submitSelectedChanges_def ticks_ok_apply Let_def split: option.splits)
  then show ?thesis
    using assms same by (cases ev) (auto simp: on_dialog_def ticks_ok_calls ticks_ok_open ticks_ok_ticking intro: ticks_ok_hidden split: if_splits)
qed

lemma ticks_ok_run: "update_run lower evs w = Some w' \<Longrightarrow> ticks_ok w \<Longrightarrow> ticks_ok w'"
  by (induction evs arbitrary: w) (auto split: option.splits dest: ticks_ok_step)

text \<open>
  C22: submitting the dialog decides every pending new model once: the ticked ones are added, all
  others ignored, nothing else is named; the removals are the ticked ones and all are pending.
\<close>

theorem submission_decides_all:
  assumes "update_run lower evs initial_updates = Some w" "update_step lower SubmitUpdates w = Some w'"
    "u_calls w' = u_calls w @ [(ApplyUpdates b, Posted)]"
  shows "map_option c_id (upstreamUpdateChannel (u_hook w)) = Some (ab_id b) \<and>
    ab_add_models b = selectedAddModels (u_dialog w) \<and>
    ab_ignore_models b = filter (\<lambda>m. m \<notin> set (ab_add_models b)) (upstreamUpdateAddModels (u_hook w)) \<and>
    set (ab_add_models b) \<union> set (ab_ignore_models b) = set (upstreamUpdateAddModels (u_hook w)) \<and>
    distinct (ab_add_models b @ ab_ignore_models b) \<and>
    ab_remove_models b = selectedRemoveModels (u_dialog w) \<and> set (ab_remove_models b) \<subseteq> set (upstreamUpdateRemoveModels (u_hook w))"
proof -
  have "ticks_ok w" by (rule ticks_ok_run [OF assms(1)]) (simp add: ticks_ok_def initial_updates_def)
  moreover have shown: "showUpstreamUpdateModal (u_hook w)" "w' = handleUpdateSubmit w" using assms(2) by (simp_all split: if_splits)
  ultimately have ok: "clean (upstreamUpdateAddModels (u_hook w))" "clean (selectedAddModels (u_dialog w))"
      "set (selectedAddModels (u_dialog w)) \<subseteq> set (upstreamUpdateAddModels (u_hook w))" "clean (selectedRemoveModels (u_dialog w))"
      "set (selectedRemoveModels (u_dialog w)) \<subseteq> set (upstreamUpdateRemoveModels (u_hook w))"
    by (simp_all add: ticks_ok_def)
  have "u_calls (submitSelectedChanges (current_submission w) w) = u_calls w @ [(ApplyUpdates b, Posted)]"
    using assms(3) shown(2) by (auto simp: handleUpdateSubmit_def Let_def split: if_splits)
  then obtain c where c: "upstreamUpdateChannel (u_hook w) = Some c"
      "b = \<lparr>ab_id = c_id c, ab_add_models = selectedAddModels (u_dialog w),
         ab_ignore_models = filter (\<lambda>m. m \<notin> set (selectedAddModels (u_dialog w))) (upstreamUpdateAddModels (u_hook w)),
         ab_remove_models = selectedRemoveModels (u_dialog w)\<rparr>"
    using ok by (auto simp: submitSelectedChanges_def current_submission_def applyUpstreamUpdates_def start_call_def Let_def
        normalize_clean split: option.splits if_splits)
  show ?thesis using ok by (auto simp: c clean_def)
qed

section \<open>Runs\<close>

definition update_chan :: "int \<Rightarrow> chan" where
  "update_chan i =
     \<lparr>c_id = i, c_name = ''one'', c_type = 1, c_tag = [], c_group = ''default'', c_models = ''a'', c_status = 1,
      c_priority = Num (Fin 0), c_weight = Num (Fin 0), c_used_quota = Fin 0, c_response_time = Fin 0, c_test_time = Fin 0,
      c_balance = Num (Fin 0), c_balance_updated_time = Fin 0, c_settings = Null, c_key = [], c_upstreamUpdateMeta = no_updates\<rparr>"

definition ticked_run :: "update_event list" where
  "ticked_run =
     [StartDetectAll, CallAnswered 0 (UpdateDone Null), ListLoaded 0,
      OpenUpdates (Some (update_chan 1)) ['' gpt-4o'', ''o1'', ''gpt-4o''] [] AddTab, TickModel ''o1'']"

theorem submission_decides_all_witness:
  "\<exists>w w' b. update_run id ticked_run initial_updates = Some w \<and> update_step id SubmitUpdates w = Some w' \<and>
     u_calls w' = [(ApplyUpdates b, Posted)] \<and> ab_add_models b = [''o1''] \<and>
     set (ab_add_models b) \<union> set (ab_ignore_models b) = set (upstreamUpdateAddModels (u_hook w))"
proof -
  define b where "b = \<lparr>ab_id = 1, ab_add_models = [''o1''], ab_ignore_models = [''gpt-4o''], ab_remove_models = []\<rparr>"
  let ?w = "the (update_run id ticked_run initial_updates)"
  have run: "update_run id ticked_run initial_updates = Some ?w" by code_simp
  have step: "update_step id SubmitUpdates ?w = Some (handleUpdateSubmit ?w)" by code_simp
  have calls: "u_calls (handleUpdateSubmit ?w) = u_calls ?w @ [(ApplyUpdates b, Posted)] \<and> u_calls ?w = []" unfolding b_def by code_simp
  then have sent: "u_calls (handleUpdateSubmit ?w) = [(ApplyUpdates b, Posted)]" by simp
  have "ab_add_models b = [''o1'']" by (simp add: b_def)
  with submission_decides_all [OF run step conjunct1 [OF calls]] run step sent show ?thesis by blast
qed

theorem updates_exclusive_witness:
  "\<exists>w. update_run id (ticked_run @ [SubmitUpdates, SubmitUpdates]) initial_updates = Some w \<and>
     length (calls_of KApply w) \<le> 1 \<and> in_flight KApply (u_hook w)"
proof -
  let ?w = "the (update_run id (ticked_run @ [SubmitUpdates, SubmitUpdates]) initial_updates)"
  have run: "update_run id (ticked_run @ [SubmitUpdates, SubmitUpdates]) initial_updates = Some ?w" by code_simp
  have "in_flight KApply (u_hook ?w)" by code_simp
  with updates_exclusive [OF run, of KApply] run show ?thesis by blast
qed

text \<open>
  A successful answer closes whatever dialog is open: when the user has gone on to another channel
  meanwhile, that channel's dialog disappears with its ticks.
\<close>

theorem answer_closes_other_dialog:
  "\<exists>w w'. update_run id
       (ticked_run @ [SubmitUpdates, CloseUpdates, OpenUpdates (Some (update_chan 2)) [''o3''] [] AddTab, TickModel ''o3''])
       initial_updates = Some w \<and>
     map_option c_id (upstreamUpdateChannel (u_hook w)) = Some 2 \<and> showUpstreamUpdateModal (u_hook w) \<and>
     update_step id (CallAnswered 0 (UpdateDone Null)) w = Some w' \<and> \<not> showUpstreamUpdateModal (u_hook w')"
proof -
  let ?evs = "ticked_run @ [SubmitUpdates, CloseUpdates, OpenUpdates (Some (update_chan 2)) [''o3''] [] AddTab, TickModel ''o3'']"
  let ?w = "the (update_run id ?evs initial_updates)"
  let ?w' = "the (update_step id (CallAnswered 0 (UpdateDone Null)) ?w)"
  have "update_run id ?evs initial_updates = Some ?w" by code_simp
  moreover have "update_step id (CallAnswered 0 (UpdateDone Null)) ?w = Some ?w'" by code_simp
  moreover have "map_option c_id (upstreamUpdateChannel (u_hook ?w)) = Some 2 \<and> showUpstreamUpdateModal (u_hook ?w) \<and>
      \<not> showUpstreamUpdateModal (u_hook ?w')" by code_simp
  ultimately show ?thesis by blast
qed

end
