(* ===== verification/Channels_Actions.thy ===== *)
theory Channels_Actions
  imports Channels_Page
begin

text \<open>
  The other actions of the channel list (\<open>src/web/src/hooks/channels/useChannelsData.jsx\<close>): which columns
  are shown, actions on the selected rows, edits of a tag, balances, and the flag read from the
  options. An action that needs the server is split into the request it sends, if any, and what its
  answer does; most answers only load the list again.
\<close>

section \<open>Columns\<close>

definition COLUMN_KEYS :: "string list" where
  "COLUMN_KEYS =
     [''id'', ''name'', ''group'', ''type'', ''status'', ''response_time'', ''balance'', ''priority'', ''weight'', ''operate'']"

definition getDefaultColumnVisibility :: "jsval jsobj" where
  "getDefaultColumnVisibility = map (\<lambda>k. (k, Bool True)) COLUMN_KEYS"

definition loadColumns :: "string jsobj \<Rightarrow> jsval jsobj" where
  "loadColumns ls =
     (case map_of ls ''channels-table-columns'' of
        None \<Rightarrow> getDefaultColumnVisibility
      | Some saved \<Rightarrow>
          if saved = [] then getDefaultColumnVisibility
          else
            (case json_parse saved of
               None \<Rightarrow> getDefaultColumnVisibility
             | Some parsed \<Rightarrow> obj_spread getDefaultColumnVisibility (spread_props parsed)))"

text \<open>The effect that follows every change.\<close>

definition saveColumns :: "jsval jsobj \<Rightarrow> string jsobj \<Rightarrow> string jsobj" where
  "saveColumns cols ls =
     (if cols = [] then ls
      else (case json_stringify (Obj cols) of Some t \<Rightarrow> obj_set ''channels-table-columns'' t ls | None \<Rightarrow> ls))"

definition handleColumnVisibilityChange :: "string \<Rightarrow> bool \<Rightarrow> jsval jsobj \<Rightarrow> jsval jsobj" where
  "handleColumnVisibilityChange columnKey checked cols = obj_set columnKey (Bool checked) cols"

definition handleSelectAll :: "bool \<Rightarrow> jsval jsobj" where
  "handleSelectAll checked = foldl (\<lambda>cols k. obj_set k (Bool checked) cols) [] COLUMN_KEYS"

definition getVisibleColumns :: "string list \<Rightarrow> jsval jsobj \<Rightarrow> string list" where
  "getVisibleColumns allColumns cols =
     filter (\<lambda>k. case map_of cols k of Some v \<Rightarrow> truthy v | None \<Rightarrow> False) allColumns"

datatype column_event = TickColumn string bool | TickColumns bool | ResetColumns

fun column_step :: "jsval jsobj \<times> string jsobj \<Rightarrow> column_event \<Rightarrow> jsval jsobj \<times> string jsobj" where
  "column_step (cols, ls) ev =
     (let cols' =
            (case ev of
               TickColumn k b \<Rightarrow> handleColumnVisibilityChange k b cols
             | TickColumns b \<Rightarrow> handleSelectAll b
             | ResetColumns \<Rightarrow> getDefaultColumnVisibility) in
      (cols', saveColumns cols' ls))"

section \<open>Actions on the selection\<close>

record list_actions =
  a_page :: channels_page
  selectedRows :: "row list"
  showBatchSetTag :: bool
  batchSetTagValue :: string
  globalPassThroughEnabled :: bool
  groupOptions :: "string list"

text \<open>The id of a tag row is its tag.\<close>

fun row_id :: "obj_store \<Rightarrow> row \<Rightarrow> jsval" where
  "row_id s (ChanRow a) = (case chans s a of Some c \<Rightarrow> Num (Fin (of_int (c_id c))) | None \<Rightarrow> Undef)"
| "row_id s (TagRow t) = (case tag_rows s t of Some tr \<Rightarrow> Str (tg_key tr) | None \<Rightarrow> Undef)"

definition selected_ids :: "list_actions \<Rightarrow> jsval" where
  "selected_ids st = Arr (map (row_id (store (a_page st))) (selectedRows st))"

text \<open>\<open>await refresh()\<close> on the page shown.\<close>

definition reload_list :: "list_actions \<Rightarrow> list_request \<times> list_actions" where
  "reload_list st = (let (rq, p) = refresh (listPage (a_page st)) (a_page st) in (rq, st\<lparr>a_page := p\<rparr>))"

definition batchSetChannelTag :: "list_actions \<Rightarrow> jsval jsobj option" where
  "batchSetChannelTag st =
     (if selectedRows st = [] then None
      else if batchSetTagValue st = [] then None
      else Some [(''ids'', selected_ids st), (''tag'', Str (batchSetTagValue st))])"

text \<open>The dialog closes when the list has been loaded.\<close>

definition batchTagListed :: "list_actions \<Rightarrow> list_actions" where
  "batchTagListed st = st\<lparr>showBatchSetTag := False\<rparr>"

definition batchDeleteChannels :: "list_actions \<Rightarrow> (jsval jsobj \<times> list_actions) option" where
  "batchDeleteChannels st =
     (if selectedRows st = [] then None
      else Some ([(''ids'', selected_ids st)], st\<lparr>a_page := (a_page st)\<lparr>listLoading := True\<rparr>\<rparr>))"

definition batchDeleteDone :: "list_actions \<Rightarrow> list_actions" where
  "batchDeleteDone st = st\<lparr>a_page := (a_page st)\<lparr>listLoading := False\<rparr>\<rparr>"

text \<open>
  The timer after a deletion looks at the rows and the page of the render in which the deletion was
  started, and may step back a page.
\<close>

definition stepBackPage :: "row list \<Rightarrow> int \<Rightarrow> int option" where
  "stepBackPage startedRows startedPage =
     (if startedRows = [] \<and> startedPage > 1 then Some (startedPage - 1) else None)"

section \<open>Edits of a tag, balances, options\<close>

datatype tag_edit = TagPriority "string option" | TagWeight "string option" | TagOther "jsval jsobj"

definition submitTagEdit :: "string \<Rightarrow> tag_edit \<Rightarrow> jsval jsobj option" where
  "submitTagEdit tag edit =
     (case edit of
        TagPriority v \<Rightarrow>
          (case v of
             None \<Rightarrow> None
           | Some s \<Rightarrow> if s = [] then None else Some [(''tag'', Str tag), (''priority'', Num (parse_int s))])
      | TagWeight v \<Rightarrow>
          (case v of
             None \<Rightarrow> None
           | Some s \<Rightarrow>
               if num_less (string_to_number s) (Fin 0) \<or> s = [] then None
               else Some [(''tag'', Str tag), (''weight'', Num (parse_int s))])
      | TagOther ob \<Rightarrow> Some (obj_spread [(''tag'', Str tag)] ob))"

text \<open>\<open>None\<close>: the channel type has a dialog of its own.\<close>

definition balance_url :: "chan \<Rightarrow> string option" where
  "balance_url c =
     (if c_type c = 57 then None else Some (''/api/channel/update_balance/'' @ chan_key (c_id c) @ ''/''))"

definition balanceUpdated :: "row list \<Rightarrow> int \<Rightarrow> jsval \<Rightarrow> jsnum \<Rightarrow> list_actions \<Rightarrow> list_actions" where
  "balanceUpdated closureRows i balance now st =
     (let (rs, s) = updateChannelProperty closureRows i
            (\<lambda>c. c\<lparr>c_balance := balance, c_balance_updated_time := num_div now (Fin 1000)\<rparr>)
            (rows (a_page st), store (a_page st)) in
      st\<lparr>a_page := (a_page st)\<lparr>rows := rs, store := s\<rparr>\<rparr>)"

text \<open>An answer, or \<open>None\<close> for a request that failed.\<close>

definition fetchGlobalPassThroughEnabled :: "(string \<Rightarrow> string) \<Rightarrow> (bool \<times> jsval) option \<Rightarrow> list_actions \<Rightarrow> list_actions" where
  "fetchGlobalPassThroughEnabled lower answer st =
     (case answer of
        None \<Rightarrow> st\<lparr>globalPassThroughEnabled := False\<rparr>
      | Some (success, Arr xs) \<Rightarrow>
          if \<not> success then st
          else
            (case List.find (\<lambda>item. get_prop item ''key'' = Str ''global.pass_through_request_enabled'') xs of
               Some option \<Rightarrow> st\<lparr>globalPassThroughEnabled := toBoolean lower (get_prop option ''value'')\<rparr>
             | None \<Rightarrow> st)
      | Some (success, v) \<Rightarrow> st)"

definition fetchGroups :: "string list option \<Rightarrow> list_actions \<Rightarrow> list_actions" where
  "fetchGroups answer st = (case answer of None \<Rightarrow> st | Some gs \<Rightarrow> st\<lparr>groupOptions := gs\<rparr>)"

section \<open>Properties\<close>

definition regular_columns :: "jsval jsobj \<Rightarrow> bool" where
  "regular_columns cols \<longleftrightarrow> (\<exists>f. cols = map (\<lambda>k. (k, Bool (f k))) COLUMN_KEYS)"

fun known_column :: "column_event \<Rightarrow> bool" where
  "known_column (TickColumn k b) = (k \<in> set COLUMN_KEYS)"
| "known_column _ = True"

lemma set_key: "distinct ks \<Longrightarrow> k \<in> set ks \<Longrightarrow> obj_set k v (map (\<lambda>j. (j, g j)) ks) = map (\<lambda>j. (j, (g(k := v)) j)) ks"
  by (induction ks) auto

lemma distinct_columns: "distinct COLUMN_KEYS"
  by code_simp

lemma select_all_columns: "handleSelectAll b = map (\<lambda>k. (k, Bool b)) COLUMN_KEYS"
  by (simp add: handleSelectAll_def COLUMN_KEYS_def)

lemma regular_step:
  assumes "regular_columns cols" "known_column ev" "column_step (cols, ls) ev = (cols', ls')"
  shows "regular_columns cols'"
proof -
  obtain f where f: "cols = map (\<lambda>k. (k, Bool (f k))) COLUMN_KEYS" using assms(1) by (auto simp: regular_columns_def)
  show ?thesis
  proof (cases ev)
    case (TickColumn k b)
    then have "cols' = map (\<lambda>j. (j, ((\<lambda>j. Bool (f j))(k := Bool b)) j)) COLUMN_KEYS"
      using assms(2,3) set_key [OF distinct_columns, of k "Bool b" "\<lambda>j. Bool (f j)"]
      by (simp add: f handleColumnVisibilityChange_def Let_def)
    then show ?thesis unfolding regular_columns_def by (intro exI [of _ "f(k := b)"]) (simp add: fun_upd_def if_distrib)
  qed (use assms(3) in \<open>auto simp: regular_columns_def select_all_columns getDefaultColumnVisibility_def Let_def\<close>)
qed

lemma regular_read_back:
  assumes "regular_columns cols"
  shows "loadColumns (saveColumns cols ls) = cols"
proof -
  obtain f where f: "cols = map (\<lambda>k. (k, Bool (f k))) COLUMN_KEYS" using assms by (auto simp: regular_columns_def)
  have "list_all (\<lambda>k. \<not> is_index k) COLUMN_KEYS" by code_simp
  then have "obj_entries cols = cols" unfolding f by (intro obj_entries_named) (auto simp: list_all_iff)
  then have data: "json_data (Obj cols)" using distinct_columns by (auto simp: f list_all_iff comp_def)
  obtain t where t: "json_stringify (Obj cols) = Some t" using stringify_Some [OF data] by blast
  then have read: "json_parse t = Some (Obj cols)" using json.parse_print [OF data] by simp
  have "json_parse [] = None" by code_simp
  with read have "t \<noteq> []" by auto
  moreover have "cols \<noteq> []" by (simp add: f COLUMN_KEYS_def)
  moreover have "obj_spread getDefaultColumnVisibility cols = cols"
    by (simp add: f getDefaultColumnVisibility_def COLUMN_KEYS_def obj_spread_def)
  ultimately show ?thesis
    using t read by (simp add: saveColumns_def loadColumns_def del: json_stringify.simps)
qed

text \<open>
  The choice of columns survives a reload: from any regular choice, after any ticks and resets,
  what is stored is read back as the choice shown.
\<close>

theorem columns_survive_reload:
  assumes "regular_columns (loadColumns ls)" "list_all known_column evs" "evs \<noteq> []"
    "foldl column_step (loadColumns ls, ls) evs = (cols, ls')"
  shows "loadColumns ls' = cols"
proof -
  have "regular_columns cols' \<and> (es \<noteq> [] \<longrightarrow> loadColumns l' = cols')"
    if "foldl column_step (c, l) es = (cols', l')" "regular_columns c" "list_all known_column es" for c l cols' l' es
    using that
  proof (induction es arbitrary: cols' l' rule: rev_induct)
    case (snoc e es)
    obtain c1 l1 where c1: "foldl column_step (c, l) es = (c1, l1)" by fastforce
    with snoc have reg: "regular_columns c1" and step: "column_step (c1, l1) e = (cols', l')" by simp_all
    have "regular_columns cols'" using regular_step [OF reg _ step] snoc.prems(3) by simp
    moreover have "l' = saveColumns cols' l1" using step by (auto simp: Let_def)
    ultimately show ?case using regular_read_back by simp
  qed simp
  from this [OF assms(4,1,2)] assms(3) show ?thesis by blast
qed

text \<open>The timer never steps back: rows were selected, so there were rows when the deletion was started.\<close>

theorem deletion_stays_on_page: "startedRows \<noteq> [] \<Longrightarrow> stepBackPage startedRows startedPage = None"
  by (simp add: stepBackPage_def)

end
