(* ===== verification/Channel_Affinity.thy ===== *)
theory Channel_Affinity
  imports Param_Override_Editor
begin

text \<open>
  The rules of channel affinity (\<open>src/web/src/pages/Setting/Operation/SettingsChannelAffinity.jsx\<close>): a JSON
  text that is edited as a table of rules, in a dialog for one rule, or as it stands. Rules are
  objects read from JSON, so their properties may be missing or of any type; an exception outside a
  \<open>try\<close> block is a left value. The template of a rule is edited by the parameter override dialog.
  \<open>lower\<close> is \<open>toLowerCase\<close>. The copy of the values that the form component keeps and the toasts are left out.
\<close>

section \<open>Rules as text\<close>

definition normalizeStringList :: "string \<Rightarrow> string list" where
  "normalizeStringList txt =
     (if txt = [] then [] else filter (\<lambda>s. s \<noteq> []) (map trim (split_char CHR 0x0A txt)))"

definition stringifyPretty :: "jsval \<Rightarrow> string" where
  "stringifyPretty v = the (json_pretty [] v)"

definition stringifyCompact :: "jsval \<Rightarrow> string" where
  "stringifyCompact v = the (json_stringify v)"

definition or_brackets :: "string \<Rightarrow> string" where
  "or_brackets txt = (if txt = [] then ''[]'' else txt)"

type_synonym affinity_rule = "jsval jsobj"

definition int_val :: "nat \<Rightarrow> jsval" where
  "int_val i = Num (Fin (of_nat i))"

text \<open>\<open>{ id: index, ...(rule || {}) }\<close>: an id in the text overrides the index.\<close>

definition read_rule :: "nat \<Rightarrow> jsval \<Rightarrow> affinity_rule" where
  "read_rule i rule = obj_spread [(''id'', int_val i)] (if truthy rule then spread_props rule else [])"

definition parseRulesJson :: "string \<Rightarrow> affinity_rule list" where
  "parseRulesJson txt =
     (case json_parse (or_brackets txt) of
        Some (Arr xs) \<Rightarrow> map (\<lambda>(i, rule). read_rule i rule) (List.enumerate 0 xs)
      | _ \<Rightarrow> [])"

definition rulesToJson :: "affinity_rule list \<Rightarrow> string" where
  "rulesToJson rules = stringifyPretty (Arr (map (\<lambda>r. Obj (obj_del ''id'' r)) rules))"

definition reindex :: "affinity_rule list \<Rightarrow> affinity_rule list" where
  "reindex rules = map (\<lambda>(i, r). obj_set ''id'' (int_val i) r) (List.enumerate 0 rules)"

definition rule_prop :: "affinity_rule \<Rightarrow> string \<Rightarrow> jsval" where
  "rule_prop r k = get_prop (Obj r) k"

text \<open>\<open>(v || '').trim()\<close>\<close>

definition trimmed_text :: "jsval \<Rightarrow> js_error + string" where
  "trimmed_text v =
     (if \<not> truthy v then Inr [] else case v of Str s \<Rightarrow> Inr (trim s) | _ \<Rightarrow> Inl TypeError)"

section \<open>Sources of the key\<close>

record key_source =
  ks_type :: string
  ks_key :: string
  ks_path :: string

definition normalizeKeySource :: "jsval \<Rightarrow> js_error + key_source" where
  "normalizeKeySource src =
     (case trimmed_text (get_prop src ''type'') of
        Inl e \<Rightarrow> Inl e
      | Inr ty \<Rightarrow>
          (case trimmed_text (get_prop src ''key'') of
             Inl e \<Rightarrow> Inl e
           | Inr key \<Rightarrow>
               (case trimmed_text (get_prop src ''path'') of
                  Inl e \<Rightarrow> Inl e
                | Inr path \<Rightarrow>
                    Inr (if ty = ''gjson'' then \<lparr>ks_type = ty, ks_key = [], ks_path = path\<rparr>
                         else \<lparr>ks_type = ty, ks_key = key, ks_path = []\<rparr>))))"

definition ks_value :: "key_source \<Rightarrow> jsval" where
  "ks_value s = Obj [(''type'', Str (ks_type s)), (''key'', Str (ks_key s)), (''path'', Str (ks_path s))]"

fun map_err :: "('a \<Rightarrow> 'e + 'b) \<Rightarrow> 'a list \<Rightarrow> 'e + 'b list" where
  "map_err f [] = Inr []"
| "map_err f (x # xs) =
     (case f x of
        Inl e \<Rightarrow> Inl e
      | Inr y \<Rightarrow> (case map_err f xs of Inl e \<Rightarrow> Inl e | Inr ys \<Rightarrow> Inr (y # ys)))"

text \<open>The messages the page shows; \<open>CheckInput\<close> stands for every exception inside the save handler.\<close>

datatype affinity_error =
    ModelRegexEmpty | KeySourcesEmpty | KeyEmpty | PathEmpty | BadSourceType | TemplateInvalid | TemplateNotObject
  | NameEmpty | RuleNotFound | CheckInput

fun source_error :: "key_source \<Rightarrow> affinity_error option" where
  "source_error s =
     (if ks_type s = ''context_int'' \<or> ks_type s = ''context_string''
      then (if ks_key s = [] then Some KeyEmpty else None)
      else if ks_type s = ''gjson'' then (if ks_path s = [] then Some PathEmpty else None)
      else Some BadSourceType)"

definition validateKeySources :: "jsval list \<Rightarrow> affinity_error + key_source list" where
  "validateKeySources keySources =
     (case map_err normalizeKeySource keySources of
        Inl e \<Rightarrow> Inl CheckInput
      | Inr ys \<Rightarrow>
          (let xs = filter (\<lambda>s. ks_type s \<noteq> []) ys in
           if xs = [] then Inl KeySourcesEmpty
           else (case List.map_filter source_error xs of e # _ \<Rightarrow> Inl e | [] \<Rightarrow> Inr xs)))"

section \<open>Names of templates\<close>

definition numbered_name :: "string \<Rightarrow> nat \<Rightarrow> string" where
  "numbered_name base i = base @ ''-'' @ show_nat i"

definition makeUniqueName :: "nat \<Rightarrow> string list \<Rightarrow> string \<Rightarrow> string" where
  "makeUniqueName now existingNames baseName =
     (let base = (if trim baseName = [] then ''rule'' else trim baseName) in
      if base \<notin> set existingNames then base
      else
        (case List.find (\<lambda>i. numbered_name base i \<notin> set existingNames) [2..<1000] of
           Some i \<Rightarrow> numbered_name base i
         | None \<Rightarrow> numbered_name base now))"

definition affinity_template :: "string \<Rightarrow> string \<Rightarrow> string \<Rightarrow> string \<Rightarrow> string list \<Rightarrow> affinity_rule" where
  "affinity_template name model path gjson headers =
     [(''name'', Str name), (''model_regex'', Arr [Str model]), (''path_regex'', Arr [Str path]),
      (''key_sources'', Arr [Obj [(''type'', Str ''gjson''), (''path'', Str gjson)]]),
      (''param_override_template'', Obj [(''operations'', Arr (buildPassHeadersTemplate headers))]),
      (''value_regex'', Str []), (''ttl_seconds'', Num (Fin 0)), (''skip_retry_on_failure'', Bool True),
      (''include_using_group'', Bool True), (''include_rule_name'', Bool True)]"

definition CHANNEL_AFFINITY_RULE_TEMPLATES :: "affinity_rule list" where
  "CHANNEL_AFFINITY_RULE_TEMPLATES =
     [affinity_template ''codex cli trace'' ''^gpt-.*$'' ''/v1/responses'' ''prompt_cache_key'' CODEX_CLI_HEADER_PASSTHROUGH_HEADERS,
      affinity_template ''claude cli trace'' ''^claude-.*$'' ''/v1/messages'' ''metadata.user_id'' CLAUDE_CLI_HEADER_PASSTHROUGH_HEADERS]"

definition cloneChannelAffinityTemplate :: "affinity_rule \<Rightarrow> affinity_rule" where
  "cloneChannelAffinityTemplate tpl =
     (case json_parse (stringifyCompact (Obj tpl)) of Some (Obj ob) \<Rightarrow> ob | _ \<Rightarrow> [])"

fun name_templates :: "nat \<Rightarrow> string list \<Rightarrow> affinity_rule list \<Rightarrow> affinity_rule list" where
  "name_templates now names [] = []"
| "name_templates now names (tpl # tpls) =
     (let name = makeUniqueName now names (js_String (rule_prop tpl ''name'')) in
      obj_set ''name'' (Str name) (cloneChannelAffinityTemplate tpl) # name_templates now (name # names) tpls)"

text \<open>The trimmed names of the rules, without the empty ones.\<close>

definition existing_names :: "affinity_rule list \<Rightarrow> js_error + string list" where
  "existing_names rules =
     map_sum id (filter (\<lambda>s. s \<noteq> [])) (map_err (\<lambda>r. trimmed_text (rule_prop r ''name'')) rules)"

section \<open>The form of a rule\<close>

record affinity_form =
  fm_name :: jsval
  fm_model_regex_text :: string
  fm_path_regex_text :: string
  fm_user_agent_include_text :: string
  fm_value_regex :: jsval
  fm_ttl_seconds :: jsnum
  fm_skip_retry_on_failure :: bool
  fm_include_using_group :: jsval
  fm_include_model_name :: bool
  fm_include_rule_name :: jsval

text \<open>\<open>(v || []).join('\n')\<close> and \<open>v ?? true\<close>\<close>

definition joined_lines :: "jsval \<Rightarrow> js_error + string" where
  "joined_lines v =
     (if \<not> truthy v then Inr [] else case v of Arr xs \<Rightarrow> Inr (js_join [CHR 0x0A] (map arr_item xs)) | _ \<Rightarrow> Inl TypeError)"

definition or_true :: "jsval \<Rightarrow> jsval" where
  "or_true v = (if v = Undef \<or> v = Null then Bool True else v)"

definition or_empty_text :: "jsval \<Rightarrow> jsval" where
  "or_empty_text v = (if truthy v then v else Str [])"

definition num_or_zero :: "jsval \<Rightarrow> jsnum" where
  "num_or_zero v = (if truthy v then js_Number v else Fin 0)"

definition template_text :: "affinity_rule \<Rightarrow> string" where
  "template_text r =
     (let tpl = rule_prop r ''param_override_template'' in if truthy tpl then stringifyPretty tpl else [])"

definition buildModalFormValues :: "affinity_rule \<Rightarrow> js_error + affinity_form" where
  "buildModalFormValues r =
     (case joined_lines (rule_prop r ''model_regex'') of
        Inl e \<Rightarrow> Inl e
      | Inr model \<Rightarrow>
          (case joined_lines (rule_prop r ''path_regex'') of
             Inl e \<Rightarrow> Inl e
           | Inr path \<Rightarrow>
               map_sum id (\<lambda>agents.
                 \<lparr>fm_name = or_empty_text (rule_prop r ''name''), fm_model_regex_text = model, fm_path_regex_text = path,
                  fm_user_agent_include_text = agents, fm_value_regex = or_empty_text (rule_prop r ''value_regex''),
                  fm_ttl_seconds = num_or_zero (rule_prop r ''ttl_seconds''),
                  fm_skip_retry_on_failure = truthy (rule_prop r ''skip_retry_on_failure''),
                  fm_include_using_group = or_true (rule_prop r ''include_using_group''),
                  fm_include_model_name = truthy (rule_prop r ''include_model_name''),
                  fm_include_rule_name = or_true (rule_prop r ''include_rule_name'')\<rparr>)
                 (joined_lines (rule_prop r ''user_agent_include''))))"

definition parseOptionalObjectJson :: "string \<Rightarrow> affinity_error + jsval jsobj option" where
  "parseOptionalObjectJson txt =
     (let raw = trim txt in
      if raw = [] then Inr None
      else
        (case json_parse raw of
           None \<Rightarrow> Inl TemplateInvalid
         | Some (Obj ob) \<Rightarrow> Inr (Some ob)
         | Some v \<Rightarrow> Inl TemplateNotObject))"

definition buildChannelAffinityRulePayload ::
  "jsval \<Rightarrow> string \<Rightarrow> string \<Rightarrow> affinity_form \<Rightarrow> string list \<Rightarrow> string list \<Rightarrow> key_source list \<Rightarrow> string list \<Rightarrow>
   jsval jsobj option \<Rightarrow> affinity_rule" where
  "buildChannelAffinityRulePayload ident name value_regex f modelRegex pathRegex keySources userAgentInclude template =
     [(''id'', ident), (''name'', Str name), (''model_regex'', Arr (map Str modelRegex)),
      (''path_regex'', Arr (map Str pathRegex)), (''key_sources'', Arr (map ks_value keySources)),
      (''value_regex'', Str value_regex), (''ttl_seconds'', Num (num_or_zero (Num (fm_ttl_seconds f)))),
      (''include_using_group'', Bool (truthy (fm_include_using_group f))),
      (''include_model_name'', Bool (fm_include_model_name f)),
      (''include_rule_name'', Bool (truthy (fm_include_rule_name f))),
      (''skip_retry_on_failure'', Bool (fm_skip_retry_on_failure f))]
     @ (if userAgentInclude \<noteq> [] then [(''user_agent_include'', Arr (map Str userAgentInclude))] else [])
     @ (case template of Some ob \<Rightarrow> [(''param_override_template'', Obj ob)] | None \<Rightarrow> [])"

section \<open>The page\<close>

record affinity_inputs =
  in_enabled :: bool
  in_switch_on_success :: bool
  in_max_entries :: jsnum
  in_default_ttl :: jsnum
  in_rules :: string

record rule_dialog =
  dg_id :: jsval
  dg_name :: jsval
  dg_sources :: "jsval list"
  dg_isEdit :: bool
  dg_form :: affinity_form

record affinity_page =
  af_inputs :: affinity_inputs
  af_inputsRow :: affinity_inputs
  af_mode :: edit_mode
  af_rules :: "affinity_rule list"
  af_dialog :: "rule_dialog option"
  af_draft :: string
  af_templateEditor :: bool
  af_saving :: bool

definition default_inputs :: affinity_inputs where
  "default_inputs =
     \<lparr>in_enabled = False, in_switch_on_success = True, in_max_entries = Fin 100000, in_default_ttl = Fin 3600, in_rules = ''[]''\<rparr>"

definition initial_affinity :: affinity_page where
  "initial_affinity =
     \<lparr>af_inputs = default_inputs, af_inputsRow = default_inputs, af_mode = VisualEdit, af_rules = [], af_dialog = None,
      af_draft = [], af_templateEditor = False, af_saving = False\<rparr>"

definition effectiveDefaultTTLSeconds :: "affinity_page \<Rightarrow> jsnum" where
  "effectiveDefaultTTLSeconds st =
     (let n = num_or_zero (Num (in_default_ttl (af_inputs st))) in if num_less (Fin 0) n then n else Fin 3600)"

text \<open>The effect on the text of the rules and the mode.\<close>

definition settle_rules :: "affinity_page \<Rightarrow> affinity_page \<Rightarrow> affinity_page" where
  "settle_rules old st =
     (if (in_rules (af_inputs st) \<noteq> in_rules (af_inputs old) \<or> af_mode st \<noteq> af_mode old) \<and> af_mode st = VisualEdit
      then st\<lparr>af_rules := parseRulesJson (in_rules (af_inputs st))\<rparr> else st)"

definition put_rules_text :: "string \<Rightarrow> affinity_page \<Rightarrow> affinity_page" where
  "put_rules_text txt st = st\<lparr>af_inputs := (af_inputs st)\<lparr>in_rules := txt\<rparr>\<rparr>"

definition updateRulesState :: "affinity_rule list \<Rightarrow> affinity_page \<Rightarrow> affinity_page" where
  "updateRulesState nextRules st = put_rules_text (rulesToJson nextRules) (st\<lparr>af_rules := nextRules\<rparr>)"

definition affinityToJson :: "affinity_page \<Rightarrow> affinity_page" where
  "affinityToJson st = (put_rules_text (rulesToJson (af_rules st)) st)\<lparr>af_mode := JsonEdit\<rparr>"

datatype rules_check = RulesOk "jsval list" | RulesInvalid | RulesNotArray

definition tryParseRulesJsonArray :: "string \<Rightarrow> rules_check" where
  "tryParseRulesJsonArray txt =
     (case json_parse (or_brackets txt) of
        None \<Rightarrow> RulesInvalid
      | Some (Arr xs) \<Rightarrow> RulesOk xs
      | Some v \<Rightarrow> RulesNotArray)"

definition affinityToVisual :: "affinity_page \<Rightarrow> affinity_page" where
  "affinityToVisual st =
     (case tryParseRulesJsonArray (in_rules (af_inputs st)) of RulesOk xs \<Rightarrow> st\<lparr>af_mode := VisualEdit\<rparr> | _ \<Rightarrow> st)"

definition appendCodexAndClaudeCodeTemplates :: "nat \<Rightarrow> affinity_page \<Rightarrow> js_error + affinity_page" where
  "appendCodexAndClaudeCodeTemplates now st =
     map_sum id (\<lambda>names.
       updateRulesState (reindex (af_rules st @ name_templates now names CHANNEL_AFFINITY_RULE_TEMPLATES)) st)
       (existing_names (af_rules st))"

definition handleDeleteRule :: "jsval \<Rightarrow> affinity_page \<Rightarrow> affinity_page" where
  "handleDeleteRule ident st =
     updateRulesState (reindex (filter (\<lambda>r. \<not> strict_eq (rule_prop r ''id'') ident) (af_rules st))) st"

section \<open>The dialog\<close>

definition new_rule :: affinity_rule where
  "new_rule =
     [(''name'', Str []), (''model_regex'', Arr []), (''path_regex'', Arr []), (''user_agent_include'', Arr []),
      (''key_sources'', Arr [Obj [(''type'', Str ''gjson''), (''path'', Str [])]]), (''value_regex'', Str []),
      (''ttl_seconds'', Num (Fin 0)), (''skip_retry_on_failure'', Bool False), (''include_using_group'', Bool True),
      (''include_model_name'', Bool False), (''include_rule_name'', Bool True)]"

definition show_dialog :: "jsval list \<Rightarrow> bool \<Rightarrow> affinity_rule \<Rightarrow> affinity_page \<Rightarrow> js_error + affinity_page" where
  "show_dialog sources editing r st =
     map_sum id (\<lambda>f.
       st\<lparr>af_dialog := Some \<lparr>dg_id = rule_prop r ''id'', dg_name = rule_prop r ''name'', dg_sources = sources,
            dg_isEdit = editing, dg_form = f\<rparr>,
          af_draft := template_text r, af_templateEditor := False\<rparr>)
       (buildModalFormValues r)"

definition openAddModal :: "affinity_page \<Rightarrow> js_error + affinity_page" where
  "openAddModal st = show_dialog [Obj [(''type'', Str ''gjson''), (''path'', Str [])]] False new_rule st"

definition source_list :: "affinity_rule \<Rightarrow> js_error + jsval list" where
  "source_list r =
     (let v = rule_prop r ''key_sources'' in
      if \<not> truthy v then Inr [] else case v of Arr xs \<Rightarrow> Inr xs | _ \<Rightarrow> Inl TypeError)"

definition agents_array :: "affinity_rule \<Rightarrow> affinity_rule" where
  "agents_array r =
     obj_set ''user_agent_include''
       (case rule_prop r ''user_agent_include'' of Arr xs \<Rightarrow> Arr xs | _ \<Rightarrow> Arr []) r"

definition handleEditRule :: "affinity_rule \<Rightarrow> affinity_page \<Rightarrow> js_error + affinity_page" where
  "handleEditRule r st =
     (case source_list r of
        Inl e \<Rightarrow> Inl e
      | Inr xs \<Rightarrow>
          (case map_err normalizeKeySource xs of
             Inl e \<Rightarrow> Inl e
           | Inr ys \<Rightarrow> show_dialog (map ks_value ys) True (agents_array r) st))"

text \<open>The form rejects an empty name and an empty list of model patterns before the handler goes on.\<close>

definition form_complete :: "affinity_form \<Rightarrow> bool" where
  "form_complete f \<longleftrightarrow> truthy (fm_name f) \<and> fm_model_regex_text f \<noteq> []"

definition form_payload :: "affinity_page \<Rightarrow> rule_dialog \<Rightarrow> affinity_error + affinity_rule" where
  "form_payload st d =
     (let f = dg_form d; modelRegex = normalizeStringList (fm_model_regex_text f) in
      if \<not> form_complete f then Inl CheckInput
      else if modelRegex = [] then Inl ModelRegexEmpty
      else
        (case validateKeySources (dg_sources d) of
           Inl e \<Rightarrow> Inl e
         | Inr sources \<Rightarrow>
             (case parseOptionalObjectJson (af_draft st) of
                Inl e \<Rightarrow> Inl e
              | Inr template \<Rightarrow>
                  (case (trimmed_text (fm_name f), trimmed_text (fm_value_regex f)) of
                     (Inr name, Inr value_regex) \<Rightarrow>
                       if name = [] then Inl NameEmpty
                       else Inr (buildChannelAffinityRulePayload
                              (if dg_isEdit d then dg_id d else int_val (length (af_rules st)))
                              name value_regex f modelRegex (normalizeStringList (fm_path_regex_text f)) sources
                              (normalizeStringList (fm_user_agent_include_text f)) template)
                   | _ \<Rightarrow> Inl CheckInput))))"

fun find_named :: "jsval \<Rightarrow> affinity_rule list \<Rightarrow> js_error + nat option" where
  "find_named name [] = Inr None"
| "find_named name (r # rs) =
     (case (trimmed_text (rule_prop r ''name''), trimmed_text name) of
        (Inr n, Inr m) \<Rightarrow> if n = m then Inr (Some 0) else map_sum id (map_option Suc) (find_named name rs)
      | _ \<Rightarrow> Inl TypeError)"

text \<open>The edited rule is found by its id, or else by the name typed into the form.\<close>

definition rule_index :: "rule_dialog \<Rightarrow> affinity_rule list \<Rightarrow> affinity_error + nat" where
  "rule_index d rules =
     (case find_index (\<lambda>r. strict_eq (rule_prop r ''id'') (dg_id d)) rules of
        Some i \<Rightarrow> Inr i
      | None \<Rightarrow>
          if truthy (dg_name d)
          then (case find_named (dg_name d) rules of Inl e \<Rightarrow> Inl CheckInput | Inr None \<Rightarrow> Inl RuleNotFound | Inr (Some i) \<Rightarrow> Inr i)
          else Inl RuleNotFound)"

definition close_dialog :: "affinity_page \<Rightarrow> affinity_page" where
  "close_dialog st = st\<lparr>af_dialog := None, af_draft := [], af_templateEditor := False\<rparr>"

definition handleModalSave :: "rule_dialog \<Rightarrow> affinity_page \<Rightarrow> affinity_error + affinity_page" where
  "handleModalSave d st =
     (case form_payload st d of
        Inl e \<Rightarrow> Inl e
      | Inr payload \<Rightarrow>
          if dg_isEdit d then
            (case rule_index d (af_rules st) of
               Inl e \<Rightarrow> Inl e
             | Inr i \<Rightarrow> Inr (close_dialog (updateRulesState (reindex ((af_rules st)[i := payload])) st)))
          else Inr (close_dialog (updateRulesState (reindex (af_rules st @ [payload])) st)))"

text \<open>Edits of the sources; a changed source that cannot be normalised throws.\<close>

definition updateKeySource :: "nat \<Rightarrow> jsval jsobj \<Rightarrow> rule_dialog \<Rightarrow> js_error + rule_dialog" where
  "updateKeySource i patch d =
     (let old = (if i < length (dg_sources d) then dg_sources d ! i else Undef);
          merged = Obj (obj_spread (if truthy old then spread_props old else []) patch) in
      map_sum id (\<lambda>s. d\<lparr>dg_sources := (dg_sources d)[i := ks_value s]\<rparr>) (normalizeKeySource merged))"

definition addKeySource :: "rule_dialog \<Rightarrow> rule_dialog" where
  "addKeySource d = d\<lparr>dg_sources := dg_sources d @ [Obj [(''type'', Str ''gjson''), (''path'', Str [])]]\<rparr>"

definition removeKeySource :: "nat \<Rightarrow> rule_dialog \<Rightarrow> rule_dialog" where
  "removeKeySource i d = d\<lparr>dg_sources := take i (dg_sources d) @ drop (Suc i) (dg_sources d)\<rparr>"

definition typeName :: "string \<Rightarrow> rule_dialog \<Rightarrow> rule_dialog" where
  "typeName s d = d\<lparr>dg_name := Str s, dg_form := (dg_form d)\<lparr>fm_name := Str s\<rparr>\<rparr>"

definition updateParamTemplateDraft :: "string \<Rightarrow> affinity_page \<Rightarrow> affinity_page" where
  "updateParamTemplateDraft s st = st\<lparr>af_draft := s\<rparr>"

definition formatParamTemplateDraft :: "affinity_page \<Rightarrow> affinity_page" where
  "formatParamTemplateDraft st =
     (let raw = trim (af_draft st) in
      if raw = [] then st
      else (case json_parse raw of None \<Rightarrow> st | Some v \<Rightarrow> updateParamTemplateDraft (stringifyPretty v) st))"

text \<open>The override dialog hands back its text.\<close>

definition templateSaved :: "string \<Rightarrow> affinity_page \<Rightarrow> affinity_page" where
  "templateSaved txt st = (updateParamTemplateDraft txt st)\<lparr>af_templateEditor := False\<rparr>"

section \<open>The table and the cache\<close>

text \<open>What the dialog shows of the template.\<close>

datatype template_preview = TemplateUnset | TemplateBroken string | TemplateShown string

definition paramTemplatePreviewMeta :: "affinity_page \<Rightarrow> template_preview" where
  "paramTemplatePreviewMeta st =
     (let raw = trim (af_draft st) in
      if raw = [] then TemplateUnset
      else (case json_parse raw of None \<Rightarrow> TemplateBroken raw | Some v \<Rightarrow> TemplateShown (stringifyPretty v)))"

definition openParamTemplatePreview :: "affinity_rule \<Rightarrow> string option" where
  "openParamTemplatePreview r =
     (case rule_prop r ''param_override_template'' of
        Obj ob \<Rightarrow> Some (stringifyPretty (Obj ob))
      | Arr xs \<Rightarrow> Some (stringifyPretty (Arr xs))
      | _ \<Rightarrow> None)"

datatype scope_tag = GroupScope | ModelScope | RuleScope

definition scope_tags :: "affinity_rule \<Rightarrow> scope_tag list" where
  "scope_tags r =
     (if truthy (rule_prop r ''include_using_group'') then [GroupScope] else [])
     @ (if truthy (rule_prop r ''include_model_name'') then [ModelScope] else [])
     @ (if truthy (rule_prop r ''include_rule_name'') then [RuleScope] else [])"

record cache_panel =
  cp_loading :: bool
  cp_stats :: jsval

text \<open>The answers to a request for the statistics: none, a refusal, or data.\<close>

datatype cache_reply = CacheFailed | CacheRefused | CacheData jsval

definition refreshCacheStats :: "cache_panel \<Rightarrow> cache_panel" where
  "refreshCacheStats p = p\<lparr>cp_loading := True\<rparr>"

definition cacheStatsAnswered :: "cache_reply \<Rightarrow> cache_panel \<Rightarrow> cache_panel" where
  "cacheStatsAnswered reply p =
     (case reply of
        CacheData d \<Rightarrow> p\<lparr>cp_stats := if truthy d then d else Obj []\<rparr>
      | _ \<Rightarrow> p)\<lparr>cp_loading := False\<rparr>"

text \<open>The number of entries in the row of a rule; \<open>None\<close> is shown as not available.\<close>

definition cache_entries :: "cache_panel \<Rightarrow> affinity_rule \<Rightarrow> js_error + jsnum option" where
  "cache_entries p r =
     (case trimmed_text (rule_prop r ''name'') of
        Inl e \<Rightarrow> Inl e
      | Inr name \<Rightarrow>
          if name = [] \<or> \<not> truthy (rule_prop r ''include_rule_name'') then Inr None
          else Inr (Some (num_or_zero (get_prop (get_prop (cp_stats p) ''by_rule_name'') name))))"

datatype clear_choice = NoRuleName | RuleNotScoped | ConfirmClear string

definition confirmClearRuleCache :: "affinity_rule \<Rightarrow> js_error + clear_choice" where
  "confirmClearRuleCache r =
     (case trimmed_text (rule_prop r ''name'') of
        Inl e \<Rightarrow> Inl e
      | Inr name \<Rightarrow>
          Inr (if name = [] then NoRuleName
               else if \<not> truthy (rule_prop r ''include_rule_name'') then RuleNotScoped
               else ConfirmClear name))"

section \<open>Saving and loading\<close>

definition KEY_ENABLED :: string where "KEY_ENABLED = ''channel_affinity_setting.enabled''"
definition KEY_SWITCH_ON_SUCCESS :: string where "KEY_SWITCH_ON_SUCCESS = ''channel_affinity_setting.switch_on_success''"
definition KEY_MAX_ENTRIES :: string where "KEY_MAX_ENTRIES = ''channel_affinity_setting.max_entries''"
definition KEY_DEFAULT_TTL :: string where "KEY_DEFAULT_TTL = ''channel_affinity_setting.default_ttl_seconds''"
definition KEY_RULES :: string where "KEY_RULES = ''channel_affinity_setting.rules''"

definition affinity_values :: "affinity_inputs \<Rightarrow> jsval jsobj" where
  "affinity_values i =
     [(KEY_ENABLED, Bool (in_enabled i)), (KEY_SWITCH_ON_SUCCESS, Bool (in_switch_on_success i)),
      (KEY_MAX_ENTRIES, Num (in_max_entries i)), (KEY_DEFAULT_TTL, Num (in_default_ttl i)), (KEY_RULES, Str (in_rules i))]"

definition compareObjects :: "jsval jsobj \<Rightarrow> jsval jsobj \<Rightarrow> string list" where
  "compareObjects oldObject newObject =
     map fst (filter (\<lambda>(k, v). case map_of newObject k of Some w \<Rightarrow> \<not> strict_eq v w | None \<Rightarrow> False) (obj_entries oldObject))"

datatype affinity_submit = NothingChanged | RulesNotJson | PutRequests "(string \<times> string) list"

definition onSubmit :: "affinity_page \<Rightarrow> affinity_submit" where
  "onSubmit st =
     (let vals = affinity_values (af_inputs st); changed = compareObjects vals (affinity_values (af_inputsRow st)) in
      if changed = [] then NothingChanged
      else
        (case json_parse (or_brackets (in_rules (af_inputs st))) of
           None \<Rightarrow> RulesNotJson
         | Some v \<Rightarrow>
             PutRequests (map (\<lambda>k. (k, if k = KEY_RULES then stringifyCompact v
                                    else (case map_of vals k of Some w \<Rightarrow> js_String w | None \<Rightarrow> []))) changed)))"

definition load_option :: "(string \<Rightarrow> string) \<Rightarrow> string \<Rightarrow> jsval \<Rightarrow> affinity_inputs \<Rightarrow> affinity_inputs" where
  "load_option lower k v i =
     (if k = KEY_ENABLED then i\<lparr>in_enabled := toBoolean lower v\<rparr>
      else if k = KEY_SWITCH_ON_SUCCESS then i\<lparr>in_switch_on_success := toBoolean lower v\<rparr>
      else if k = KEY_MAX_ENTRIES then i\<lparr>in_max_entries := num_or_zero (Num (num_or_zero v))\<rparr>
      else if k = KEY_DEFAULT_TTL then i\<lparr>in_default_ttl := num_or_zero (Num (num_or_zero v))\<rparr>
      else if k = KEY_RULES then
        (let txt = (if truthy v then js_String v else ''[]'') in
         i\<lparr>in_rules := (case json_parse txt of Some ob \<Rightarrow> stringifyPretty ob | None \<Rightarrow> txt)\<rparr>)
      else i)"

definition loadAffinityOptions :: "(string \<Rightarrow> string) \<Rightarrow> jsval jsobj \<Rightarrow> affinity_page \<Rightarrow> affinity_page" where
  "loadAffinityOptions lower options st =
     (let i = foldl (\<lambda>i (k, v). load_option lower k v i) (af_inputs st) (obj_entries options) in
      st\<lparr>af_inputs := i, af_inputsRow := i, af_rules := parseRulesJson (in_rules i)\<rparr>)"

section \<open>Runs\<close>

datatype source_patch = PatchType string | PatchKey string | PatchPath string

fun patch_props :: "source_patch \<Rightarrow> jsval jsobj" where
  "patch_props (PatchType v) = [(''type'', Str v)]"
| "patch_props (PatchKey v) = [(''key'', Str v)]"
| "patch_props (PatchPath v) = [(''path'', Str v)]"

datatype affinity_event =
    SetEnabled bool
  | SetSwitchOnSuccess bool
  | SetMaxEntries jsnum
  | SetDefaultTtl jsnum
  | TypeRules string
  | PressJson
  | PressVisual
  | AppendTemplates nat
  | AddRule
  | EditRule nat
  | DeleteRule nat
  | TypeRuleName string
  | FillForm affinity_form
  | PatchSource nat source_patch
  | AddSource
  | RemoveSource nat
  | FormatTemplate
  | ClearTemplate
  | OpenTemplateEditor
  | TemplateSaved string
  | TemplateCancelled
  | CancelDialog
  | SaveDialog
  | PressSave
  | SaveSettled
  | OptionsLoaded "jsval jsobj"

text \<open>A handler that throws or refuses leaves the page as it is.\<close>

definition kept :: "affinity_page \<Rightarrow> 'e + affinity_page \<Rightarrow> affinity_page" where
  "kept st r = (case r of Inl e \<Rightarrow> st | Inr st' \<Rightarrow> st')"

definition on_rule_dialog :: "(rule_dialog \<Rightarrow> affinity_page) \<Rightarrow> affinity_page \<Rightarrow> affinity_page option" where
  "on_rule_dialog f st =
     (case af_dialog st of Some d \<Rightarrow> if af_templateEditor st then None else Some (f d) | None \<Rightarrow> None)"

definition on_page_controls :: "affinity_page \<Rightarrow> affinity_page \<Rightarrow> affinity_page option" where
  "on_page_controls st st' = (if af_dialog st = None then Some st' else None)"

definition put_dialog :: "rule_dialog \<Rightarrow> affinity_page \<Rightarrow> affinity_page" where
  "put_dialog d st = st\<lparr>af_dialog := Some d\<rparr>"

definition put_inputs :: "affinity_inputs \<Rightarrow> affinity_page \<Rightarrow> affinity_page" where
  "put_inputs i st = st\<lparr>af_inputs := i\<rparr>"

text \<open>The dialog covers the page, the override dialog covers the dialog.\<close>

fun affinity_handler :: "(string \<Rightarrow> string) \<Rightarrow> affinity_event \<Rightarrow> affinity_page \<Rightarrow> affinity_page option" where
  "affinity_handler lower (SetEnabled b) st = on_page_controls st (put_inputs ((af_inputs st)\<lparr>in_enabled := b\<rparr>) st)"
| "affinity_handler lower (SetSwitchOnSuccess b) st = on_page_controls st (put_inputs ((af_inputs st)\<lparr>in_switch_on_success := b\<rparr>) st)"
| "affinity_handler lower (SetMaxEntries n) st =
     on_page_controls st (put_inputs ((af_inputs st)\<lparr>in_max_entries := num_or_zero (Num n)\<rparr>) st)"
| "affinity_handler lower (SetDefaultTtl n) st =
     on_page_controls st (put_inputs ((af_inputs st)\<lparr>in_default_ttl := num_or_zero (Num n)\<rparr>) st)"
| "affinity_handler lower (TypeRules s) st =
     (if af_mode st = JsonEdit then on_page_controls st (put_rules_text s st) else None)"
| "affinity_handler lower PressJson st = on_page_controls st (affinityToJson st)"
| "affinity_handler lower PressVisual st = on_page_controls st (affinityToVisual st)"
| "affinity_handler lower (AppendTemplates now) st = on_page_controls st (kept st (appendCodexAndClaudeCodeTemplates now st))"
| "affinity_handler lower AddRule st = on_page_controls st (kept st (openAddModal st))"
| "affinity_handler lower (EditRule k) st =
     (if af_mode st = VisualEdit \<and> k < length (af_rules st)
      then on_page_controls st (kept st (handleEditRule (af_rules st ! k) st)) else None)"
| "affinity_handler lower (DeleteRule k) st =
     (if af_mode st = VisualEdit \<and> k < length (af_rules st)
      then on_page_controls st (handleDeleteRule (rule_prop (af_rules st ! k) ''id'') st) else None)"
| "affinity_handler lower (TypeRuleName s) st = on_rule_dialog (\<lambda>d. put_dialog (typeName s d) st) st"
| "affinity_handler lower (FillForm f) st =
     on_rule_dialog (\<lambda>d. put_dialog (d\<lparr>dg_form := f\<lparr>fm_name := fm_name (dg_form d)\<rparr>\<rparr>) st) st"
| "affinity_handler lower (PatchSource k p) st =
     on_rule_dialog (\<lambda>d. if k < length (dg_sources d)
       then kept st (map_sum id (\<lambda>d'. put_dialog d' st) (updateKeySource k (patch_props p) d)) else st) st"
| "affinity_handler lower AddSource st = on_rule_dialog (\<lambda>d. put_dialog (addKeySource d) st) st"
| "affinity_handler lower (RemoveSource k) st = on_rule_dialog (\<lambda>d. put_dialog (removeKeySource k d) st) st"
| "affinity_handler lower FormatTemplate st = on_rule_dialog (\<lambda>d. formatParamTemplateDraft st) st"
| "affinity_handler lower ClearTemplate st = on_rule_dialog (\<lambda>d. updateParamTemplateDraft [] st) st"
| "affinity_handler lower OpenTemplateEditor st = on_rule_dialog (\<lambda>d. st\<lparr>af_templateEditor := True\<rparr>) st"
| "affinity_handler lower (TemplateSaved s) st = (if af_templateEditor st then Some (templateSaved s st) else None)"
| "affinity_handler lower TemplateCancelled st =
     (if af_templateEditor st then Some (st\<lparr>af_templateEditor := False\<rparr>) else None)"
| "affinity_handler lower CancelDialog st = on_rule_dialog (\<lambda>d. close_dialog st) st"
| "affinity_handler lower SaveDialog st = on_rule_dialog (\<lambda>d. kept st (handleModalSave d st)) st"
| "affinity_handler lower PressSave st =
     on_page_controls st (case onSubmit st of PutRequests _ \<Rightarrow> st\<lparr>af_saving := True\<rparr> | _ \<Rightarrow> st)"
| "affinity_handler lower SaveSettled st = (if af_saving st then Some (st\<lparr>af_saving := False\<rparr>) else None)"
| "affinity_handler lower (OptionsLoaded options) st = Some (loadAffinityOptions lower options st)"

definition affinity_step :: "(string \<Rightarrow> string) \<Rightarrow> affinity_event \<Rightarrow> affinity_page \<Rightarrow> affinity_page option" where
  "affinity_step lower ev st = map_option (settle_rules st) (affinity_handler lower ev st)"

fun affinity_run :: "(string \<Rightarrow> string) \<Rightarrow> affinity_event list \<Rightarrow> affinity_page \<Rightarrow> affinity_page option" where
  "affinity_run lower [] st = Some st"
| "affinity_run lower (ev # evs) st =
     (case affinity_step lower ev st of None \<Rightarrow> None | Some st' \<Rightarrow> affinity_run lower evs st')"

end
