(* ===== verification/Channel_Affinity_Proofs.thy ===== *)
theory Channel_Affinity_Proofs
  imports Channel_Affinity Param_Override_Proofs
begin

text \<open>
  The rules of channel affinity: the text and the table say the same, switching the mode and
  reopening a rule change nothing, appended templates get fresh names, the text of the override
  dialog is accepted, and a save read back gives the saved inputs.
\<close>

section \<open>Text and table\<close>

text \<open>Rules as the page keeps them: the id is the index and the rest is JSON data.\<close>

definition ordered_rules :: "affinity_rule list \<Rightarrow> bool" where
  "ordered_rules rs \<longleftrightarrow>
     list_all (\<lambda>(i, r). case r of [] \<Rightarrow> False | p # rest \<Rightarrow> p = (''id'', int_val i) \<and> ''id'' \<notin> fst ` set rest) (List.enumerate 0 rs)"

definition json_rule :: "affinity_rule \<Rightarrow> bool" where
  "json_rule r \<longleftrightarrow> json_data (Obj (obj_del ''id'' r))"

lemma obj_del_fresh: "k \<notin> fst ` set ps \<Longrightarrow> obj_del k ps = ps"
  by (auto simp: obj_del_def filter_id_conv)

lemma ordered_rule:
  assumes "ordered_rules rs" "i < length rs"
  shows "rs ! i = (''id'', int_val i) # obj_del ''id'' (rs ! i)" "''id'' \<notin> fst ` set (obj_del ''id'' (rs ! i))"
    "rule_prop (rs ! i) ''id'' = int_val i"
proof -
  have "case rs ! i of [] \<Rightarrow> False | p # rest \<Rightarrow> p = (''id'', int_val i) \<and> ''id'' \<notin> fst ` set rest"
    using assms by (auto simp: ordered_rules_def list_all_length nth_enumerate_eq)
  then obtain rest where r: "rs ! i = (''id'', int_val i) # rest" "''id'' \<notin> fst ` set rest"
    by (cases "rs ! i") auto
  then have "obj_del ''id'' (rs ! i) = rest" using obj_del_fresh [of "''id''" rest] by (simp add: obj_del_def)
  with r show "rs ! i = (''id'', int_val i) # obj_del ''id'' (rs ! i)" "''id'' \<notin> fst ` set (obj_del ''id'' (rs ! i))"
    "rule_prop (rs ! i) ''id'' = int_val i" by (simp_all add: rule_prop_def)
qed

lemma read_printed_rule:
  assumes "distinct (map fst rest)" "''id'' \<notin> fst ` set rest"
  shows "read_rule i (Obj rest) = (''id'', int_val i) # rest"
  using obj_spread_fresh [of "[(''id'', int_val i)]" rest] assms by (simp add: read_rule_def)

lemma reindex_ordered: "ordered_rules rs \<Longrightarrow> reindex rs = rs"
proof (rule nth_equalityI)
  assume o: "ordered_rules rs"
  show "length (reindex rs) = length rs" by (simp add: reindex_def)
  fix i assume "i < length (reindex rs)"
  then have i: "i < length rs" by (simp add: reindex_def)
  then show "reindex rs ! i = rs ! i"
    using ordered_rule(1) [OF o i] by (metis (no_types, lifting) enumerate_eq_zip length_enumerate nth_enumerate_eq nth_map obj_set.simps(2) plus_nat.add_0 prod.case reindex_def)
qed

lemma printed_rules:
  assumes "list_all json_rule rs"
  shows "json_parse (rulesToJson rs) = Some (Arr (map (\<lambda>r. Obj (obj_del ''id'' r)) rs))" "rulesToJson rs \<noteq> []"
proof -
  let ?rests = "map (\<lambda>r. Obj (obj_del ''id'' r)) rs"
  have "json_data (Arr ?rests)" using assms by (simp add: list_all_iff json_rule_def)
  then show printed: "json_parse (rulesToJson rs) = Some (Arr ?rests)"
    unfolding rulesToJson_def stringifyPretty_def by (rule json2.parse_print)
  have "json_parse [] = None" by code_simp
  with printed show "rulesToJson rs \<noteq> []" by auto
qed

lemma rules_text_back:
  assumes "ordered_rules rs" "list_all json_rule rs"
  shows "parseRulesJson (rulesToJson rs) = rs"
proof -
  let ?rests = "map (\<lambda>r. Obj (obj_del ''id'' r)) rs"
  have parse: "parseRulesJson (rulesToJson rs) = map (\<lambda>(i, rule). read_rule i rule) (List.enumerate 0 ?rests)"
    using printed_rules [OF assms(2)] by (simp add: parseRulesJson_def or_brackets_def)
  show ?thesis unfolding parse
  proof (rule nth_equalityI)
    fix i assume "i < length (map (\<lambda>(i, rule). read_rule i rule) (List.enumerate 0 ?rests))"
    then have i: "i < length rs" by simp
    then have "json_rule (rs ! i)" using assms(2) by (simp add: list_all_length)
    then have "distinct (map fst (obj_del ''id'' (rs ! i)))" by (simp add: json_rule_def)
    from read_printed_rule [OF this ordered_rule(2) [OF assms(1) i], of i] ordered_rule(1) [OF assms(1) i] i
    show "map (\<lambda>(i, rule). read_rule i rule) (List.enumerate 0 ?rests) ! i = rs ! i" by (simp add: nth_enumerate_eq)
  qed simp
qed

text \<open>The table and the text stay together in the visual mode.\<close>

definition in_step :: "affinity_page \<Rightarrow> bool" where
  "in_step st \<longleftrightarrow> af_mode st = VisualEdit \<longrightarrow>
     af_rules st = parseRulesJson (in_rules (af_inputs st)) \<or> in_rules (af_inputs st) = rulesToJson (af_rules st)"

lemma in_step_settle:
  assumes "in_step old"
    "in_rules (af_inputs st) = in_rules (af_inputs old) \<Longrightarrow> af_rules st = af_rules old \<or> in_rules (af_inputs st) = rulesToJson (af_rules st)"
  shows "in_step (settle_rules old st)"
  using assms by (auto simp: in_step_def settle_rules_def)

lemma map_sum_Inr [simp]: "map_sum f g x = Inr y \<longleftrightarrow> (\<exists>z. x = Inr z \<and> y = g z)"
  by (cases x) auto

lemma show_dialog_rules:
  "show_dialog xs b r st = Inr h \<Longrightarrow> af_rules h = af_rules st \<and> af_inputs h = af_inputs st \<and> af_mode h = af_mode st"
  by (auto simp: show_dialog_def)

lemma update_in_step: "in_rules (af_inputs (updateRulesState rs st)) = rulesToJson (af_rules (updateRulesState rs st))"
  by (simp add: updateRulesState_def put_rules_text_def)

lemma in_step_step:
  assumes "in_step st" "affinity_step lower ev st = Some st'"
  shows "in_step st'"
proof -
  obtain h where h: "affinity_handler lower ev st = Some h" "st' = settle_rules st h"
    using assms(2) by (auto simp: affinity_step_def)
  show ?thesis
  proof (cases ev)
    case (OptionsLoaded options)
    then have "af_rules h = parseRulesJson (in_rules (af_inputs h))" using h(1) by (auto simp: loadAffinityOptions_def Let_def)
    then show ?thesis using h(2) by (simp add: in_step_def settle_rules_def)
  next
    case (AppendTemplates now)
    then show ?thesis using h assms(1) by (cases "existing_names (af_rules st)")
      (auto simp: on_page_controls_def kept_def appendCodexAndClaudeCodeTemplates_def update_in_step
          intro!: in_step_settle split: if_splits)
  next
    case (EditRule k)
    then show ?thesis using h assms(1)
      by (auto simp: on_page_controls_def kept_def handleEditRule_def intro!: in_step_settle dest!: show_dialog_rules split: if_splits sum.splits)
  next
    case (DeleteRule k)
    then show ?thesis using h assms(1)
      by (auto simp: on_page_controls_def handleDeleteRule_def update_in_step intro!: in_step_settle split: if_splits)
  next
    case (PatchSource k p)
    then show ?thesis using h assms(1)
      by (auto simp: on_rule_dialog_def kept_def put_dialog_def intro!: in_step_settle split: if_splits sum.splits option.splits)
  next
    case SaveDialog
    then show ?thesis using h assms(1)
      by (auto simp: on_rule_dialog_def kept_def handleModalSave_def close_dialog_def update_in_step
          intro!: in_step_settle split: if_splits sum.splits option.splits)
  qed (use h assms(1) in \<open>auto simp: on_page_controls_def on_rule_dialog_def put_inputs_def put_rules_text_def affinityToJson_def
      affinityToVisual_def kept_def openAddModal_def put_dialog_def formatParamTemplateDraft_def
      updateParamTemplateDraft_def templateSaved_def close_dialog_def Let_def intro!: in_step_settle dest!: show_dialog_rules
      split: if_splits sum.splits option.splits rules_check.splits affinity_submit.splits\<close>)
qed


lemma in_step_run: "in_step st \<Longrightarrow> affinity_run lower evs st = Some st' \<Longrightarrow> in_step st'"
  by (induction evs arbitrary: st) (auto intro: in_step_step split: option.splits)

text \<open>
  C14: after any run of the page, while the rules are shown as a table: when every rule has its
  index as its id and is JSON data, the text that would be saved reads back as exactly the rules of
  the table.
\<close>

theorem affinity_text_is_table:
  assumes "affinity_run lower evs initial_affinity = Some st" "af_mode st = VisualEdit"
    "ordered_rules (af_rules st)" "list_all json_rule (af_rules st)"
  shows "parseRulesJson (in_rules (af_inputs st)) = af_rules st"
proof -
  have "parseRulesJson ''[]'' = []" by code_simp
  then have "in_step initial_affinity" by (simp add: in_step_def initial_affinity_def default_inputs_def)
  from in_step_run [OF this assms(1)] assms(2) rules_text_back [OF assms(3,4)] show ?thesis
    by (auto simp: in_step_def)
qed

text \<open>
  Looking at the JSON text and going back to the table changes no rule.
\<close>

theorem mode_switch_keeps_rules:
  assumes "af_mode st = VisualEdit" "af_dialog st = None" "ordered_rules (af_rules st)" "list_all json_rule (af_rules st)"
  shows "affinity_run lower [PressJson, PressVisual] st = Some (put_rules_text (rulesToJson (af_rules st)) st)"
proof -
  note text_back = rules_text_back [OF assms(3,4)]
  have "\<exists>xs. tryParseRulesJsonArray (rulesToJson (af_rules st)) = RulesOk xs"
    using printed_rules [OF assms(4)] by (simp add: tryParseRulesJsonArray_def or_brackets_def)
  then obtain xs where xs: "tryParseRulesJsonArray (rulesToJson (af_rules st)) = RulesOk xs" by (rule exE)
  have "affinity_page.more st = ()" by simp
  with assms(1,2) xs text_back show ?thesis
    by (cases st) (simp add: affinity_step_def on_page_controls_def affinityToJson_def affinityToVisual_def put_rules_text_def settle_rules_def)
qed

text \<open>
  In the JSON mode, pressing the JSON button again throws away what was typed since the mode
  was entered: the page becomes what it would be without the typing.
\<close>

theorem json_typing_lost:
  assumes "af_mode st = JsonEdit" "af_dialog st = None"
  shows "affinity_run lower [TypeRules s, PressJson] st = affinity_run lower [PressJson] st"
  using assms by (simp add: affinity_step_def on_page_controls_def affinityToJson_def put_rules_text_def settle_rules_def)

section \<open>The dialog\<close>

definition line_ok :: "string \<Rightarrow> bool" where
  "line_ok s \<longleftrightarrow> trim s = s \<and> s \<noteq> [] \<and> CHR 0x0A \<notin> set s"

lemma split_char_parts: "x \<in> set (split_char c s) \<Longrightarrow> c \<notin> set x"
  by (induction s arbitrary: x) (auto split: if_splits list.splits)

lemma normalize_lines: "list_all line_ok (normalizeStringList txt)"
  using split_char_parts set_trim by (fastforce simp: normalizeStringList_def list_all_iff line_ok_def)

lemma normalize_joined:
  assumes "list_all line_ok xs"
  shows "normalizeStringList (js_join [CHR 0x0A] xs) = xs"
proof (cases "xs = []")
  case False
  then have "split_char CHR 0x0A (js_join [CHR 0x0A] xs) = xs"
    using assms by (intro split_char_join) (auto simp: list_all_iff line_ok_def)
  moreover have "js_join [CHR 0x0A] xs \<noteq> []"
    using False assms by (cases "tl xs"; cases xs) (auto simp: line_ok_def js_join_Cons)
  moreover have "map trim xs = xs" "filter (\<lambda>s. s \<noteq> []) xs = xs"
    using assms by (auto simp: list_all_iff line_ok_def intro: map_idI)
  ultimately show ?thesis by (simp add: normalizeStringList_def)
qed (simp add: normalizeStringList_def)

lemma joined_texts: "joined_lines (Arr (map Str xs)) = Inr (js_join [CHR 0x0A] xs)"
  by (simp add: joined_lines_def comp_def)

definition source_ok :: "key_source \<Rightarrow> bool" where
  "source_ok s \<longleftrightarrow> normalizeKeySource (ks_value s) = Inr s \<and> source_error s = None"

lemma map_err_results: "map_err f xs = Inr ys \<Longrightarrow> y \<in> set ys \<Longrightarrow> \<exists>x \<in> set xs. f x = Inr y"
  by (induction xs arbitrary: ys) (auto split: sum.splits)

lemma map_err_total: "list_all (\<lambda>y. f (g y) = Inr y) ys \<Longrightarrow> map_err f (map g ys) = Inr ys"
  by (induction ys) auto

lemma trimmed_text_idem: "trimmed_text v = Inr s \<Longrightarrow> trimmed_text (Str s) = Inr s \<and> trim s = s"
  by (auto simp: trimmed_text_def split: if_splits jsval.splits)

lemma normalize_idem: "normalizeKeySource v = Inr s \<Longrightarrow> normalizeKeySource (ks_value s) = Inr s"
  using trimmed_text_idem
  by (auto simp: normalizeKeySource_def ks_value_def split: sum.splits if_splits) (fastforce simp: trimmed_text_def)+

lemma no_errors: "List.map_filter f xs = [] \<longleftrightarrow> list_all (\<lambda>x. f x = None) xs"
  by (induction xs) (auto simp: List.map_filter_def)

lemma validated_ok:
  assumes "validateKeySources vs = Inr xs"
  shows "list_all source_ok xs" "xs \<noteq> []"
proof -
  obtain ys where ys: "map_err normalizeKeySource vs = Inr ys" "xs = filter (\<lambda>s. ks_type s \<noteq> []) ys"
    "xs \<noteq> []" "list_all (\<lambda>s. source_error s = None) xs"
    using assms by (auto simp: validateKeySources_def Let_def no_errors split: sum.splits if_splits list.splits)
  from map_err_results [OF ys(1)] have "normalizeKeySource (ks_value s) = Inr s" if "s \<in> set xs" for s
    using that ys(2) normalize_idem by auto
  with ys(3,4) show "list_all source_ok xs" "xs \<noteq> []" by (auto simp: list_all_iff source_ok_def)
qed

lemma validate_again:
  assumes "list_all source_ok xs" "xs \<noteq> []"
  shows "validateKeySources (map ks_value xs) = Inr xs" "map_err normalizeKeySource (map ks_value xs) = Inr xs"
proof -
  show m: "map_err normalizeKeySource (map ks_value xs) = Inr xs"
    using assms(1) by (intro map_err_total) (auto simp: list_all_iff source_ok_def)
  have "list_all (\<lambda>s. source_error s = None) xs" using assms(1) by (simp add: list_all_iff source_ok_def)
  moreover from this have "filter (\<lambda>s. ks_type s \<noteq> []) xs = xs" by (auto simp: list_all_iff filter_id_conv split: if_splits)
  ultimately show "validateKeySources (map ks_value xs) = Inr xs"
    using m assms(2) by (simp add: validateKeySources_def no_errors [symmetric] del: source_error.simps)
qed

text \<open>A rule as the dialog writes it.\<close>

definition saved_rule :: "affinity_rule \<Rightarrow> bool" where
  "saved_rule r \<longleftrightarrow>
     (\<exists>ident name value_regex f modelRegex pathRegex keySources agents template.
        r = buildChannelAffinityRulePayload ident name value_regex f modelRegex pathRegex keySources agents template \<and>
        trim name = name \<and> name \<noteq> [] \<and> trim value_regex = value_regex \<and> modelRegex \<noteq> [] \<and>
        list_all line_ok (modelRegex @ pathRegex @ agents) \<and> list_all source_ok keySources \<and> keySources \<noteq> [] \<and>
        pred_option (\<lambda>ob. json_data (Obj ob)) template)"

lemma trimmed_name: "trimmed_text v = Inr s \<Longrightarrow> trim s = s"
  using trimmed_text_idem by blast

lemma form_saved:
  assumes "form_payload st d = Inr r" "pred_option (\<lambda>ob. json_data (Obj ob)) (case parseOptionalObjectJson (af_draft st) of Inr t \<Rightarrow> t | _ \<Rightarrow> None)"
  shows "saved_rule r"
  using assms unfolding saved_rule_def form_payload_def Let_def
  by (auto split: sum.splits if_splits prod.splits dest: validated_ok trimmed_name simp: normalize_lines
      intro!: exI conjI)


lemma payload_props:
  assumes r: "r = buildChannelAffinityRulePayload ident name value_regex f modelRegex pathRegex keySources agents template"
  shows "rule_prop r ''id'' = ident" "rule_prop r ''name'' = Str name" "rule_prop r ''model_regex'' = Arr (map Str modelRegex)"
    "rule_prop r ''path_regex'' = Arr (map Str pathRegex)" "rule_prop r ''key_sources'' = Arr (map ks_value keySources)"
    "rule_prop r ''value_regex'' = Str value_regex" "rule_prop r ''ttl_seconds'' = Num (num_or_zero (Num (fm_ttl_seconds f)))"
    "rule_prop r ''include_using_group'' = Bool (truthy (fm_include_using_group f))"
    "rule_prop r ''include_model_name'' = Bool (fm_include_model_name f)"
    "rule_prop r ''include_rule_name'' = Bool (truthy (fm_include_rule_name f))"
    "rule_prop r ''skip_retry_on_failure'' = Bool (fm_skip_retry_on_failure f)"
    "rule_prop r ''user_agent_include'' = (if agents = [] then Undef else Arr (map Str agents))"
    "rule_prop r ''param_override_template'' = (case template of Some ob \<Rightarrow> Obj ob | None \<Rightarrow> Undef)"
  by (simp_all add: r rule_prop_def buildChannelAffinityRulePayload_def split: option.splits)

lemma agents_array_prop:
  "rule_prop (agents_array r) k =
     (if k = ''user_agent_include'' then (case rule_prop r k of Arr xs \<Rightarrow> Arr xs | _ \<Rightarrow> Arr []) else rule_prop r k)"
  by (simp add: rule_prop_def agents_array_def)

lemma template_back:
  assumes "pred_option (\<lambda>ob. json_data (Obj ob)) template"
    "rule_prop r ''param_override_template'' = (case template of Some ob \<Rightarrow> Obj ob | None \<Rightarrow> Undef)"
  shows "parseOptionalObjectJson (template_text r) = Inr template"
proof (cases template)
  case (Some ob)
  then have ob: "json_data (Obj ob)" "template_text r = the (json_pretty [] (Obj ob))"
    using assms by (simp_all add: template_text_def stringifyPretty_def del: json_pretty.simps json_data.simps)
  have "json_parse [] = None" by code_simp
  with json2.parse_print [OF ob(1)] pretty_object_trim [OF ob(1)] show ?thesis
    unfolding ob(2) parseOptionalObjectJson_def Let_def by (auto simp: Some simp del: json_pretty.simps)
qed (use assms in \<open>simp add: template_text_def parseOptionalObjectJson_def\<close>)

lemma num_or_zero_idem: "num_or_zero (Num (num_or_zero (Num n))) = num_or_zero (Num n)"
  by (simp add: num_or_zero_def)

lemma dialog_back:
  assumes "saved_rule r"
  obtains d where "handleEditRule r st = Inr (st\<lparr>af_dialog := Some d, af_draft := template_text r, af_templateEditor := False\<rparr>)"
    "dg_isEdit d" "dg_id d = rule_prop r ''id''"
    "form_payload (st\<lparr>af_dialog := Some d, af_draft := template_text r, af_templateEditor := False\<rparr>) d = Inr r"
proof -
  obtain ident name value_regex f models paths sources agents template where
    r: "r = buildChannelAffinityRulePayload ident name value_regex f models paths sources agents template"
    and name: "trim name = name" "name \<noteq> []" "trim value_regex = value_regex"
    and lines: "models \<noteq> []" "list_all line_ok models" "list_all line_ok paths" "list_all line_ok agents"
    and sources: "list_all source_ok sources" "sources \<noteq> []"
    and template: "pred_option (\<lambda>ob. json_data (Obj ob)) template"
    using assms by (auto simp: saved_rule_def)
  note props = payload_props [OF r]
  let ?ar = "agents_array r"
  let ?f = "\<lparr>fm_name = Str name, fm_model_regex_text = js_join [CHR 0x0A] models, fm_path_regex_text = js_join [CHR 0x0A] paths,
    fm_user_agent_include_text = js_join [CHR 0x0A] agents, fm_value_regex = Str value_regex,
    fm_ttl_seconds = num_or_zero (Num (fm_ttl_seconds f)), fm_skip_retry_on_failure = fm_skip_retry_on_failure f,
    fm_include_using_group = Bool (truthy (fm_include_using_group f)), fm_include_model_name = fm_include_model_name f,
    fm_include_rule_name = Bool (truthy (fm_include_rule_name f))\<rparr>"
  have form_lines: "js_join [CHR 0x0A] models \<noteq> []"
    using normalize_joined [OF lines(2)] lines(1) by (auto simp: normalizeStringList_def)
  have payload_again: "buildChannelAffinityRulePayload ident name value_regex ?f models paths sources agents template =
    buildChannelAffinityRulePayload ident name value_regex f models paths sources agents template"
    by (simp add: buildChannelAffinityRulePayload_def num_or_zero_idem)
  have texts: "trimmed_text (Str name) = Inr name" "trimmed_text (Str value_regex) = Inr value_regex"
    using name by (simp_all add: trimmed_text_def)
  have form: "buildModalFormValues ?ar = Inr ?f"
    using name joined_texts [of "[]"]
    by (simp add: buildModalFormValues_def agents_array_prop props joined_texts or_empty_text_def or_true_def num_or_zero_idem
        num_or_zero_def)
  let ?d = "\<lparr>dg_id = ident, dg_name = Str name, dg_sources = map ks_value sources, dg_isEdit = True, dg_form = ?f\<rparr>"
  let ?st = "st\<lparr>af_dialog := Some ?d, af_draft := template_text r, af_templateEditor := False\<rparr>"
  have "handleEditRule r st = Inr ?st"
    using form validate_again [OF sources]
    by (simp add: handleEditRule_def source_list_def props show_dialog_def agents_array_prop template_text_def)
  moreover have "form_payload ?st ?d = Inr r"
    using form_lines lines(1) name(2) validate_again(1) [OF sources] template_back [OF template props(13)]
    by (simp add: form_payload_def form_complete_def normalize_joined [OF lines(2)] normalize_joined [OF lines(3)]
        normalize_joined [OF lines(4)] texts payload_again [folded r] Let_def)
  ultimately show ?thesis using that [of ?d] props(1) by simp
qed


lemma ordered_index:
  assumes "ordered_rules rs" "k < length rs"
  shows "find_index (\<lambda>r. strict_eq (rule_prop r ''id'') (int_val k)) rs = Some k"
proof (rule find_index_unique)
  show "\<not> strict_eq (rule_prop (rs ! i) ''id'') (int_val k)" if "i < k" for i
    using that assms(2) ordered_rule(3) [OF assms(1), of i] by (simp add: int_val_def)
qed (use assms ordered_rule(3) [OF assms] in \<open>simp_all add: int_val_def\<close>)

text \<open>
  C10: opening the dialog on a rule the dialog once wrote and saving it again without a change
  leaves the page as it was, the rule in its place.
\<close>

theorem edit_without_change:
  assumes "af_mode st = VisualEdit" "af_dialog st = None" "af_draft st = []" "\<not> af_templateEditor st"
    "ordered_rules (af_rules st)" "in_rules (af_inputs st) = rulesToJson (af_rules st)"
    "k < length (af_rules st)" "saved_rule (af_rules st ! k)"
  shows "affinity_run lower [EditRule k, SaveDialog] st = Some st"
proof -
  let ?r = "af_rules st ! k"
  obtain d where d: "handleEditRule ?r st = Inr (st\<lparr>af_dialog := Some d, af_draft := template_text ?r, af_templateEditor := False\<rparr>)"
    "dg_isEdit d" "dg_id d = int_val k"
    "form_payload (st\<lparr>af_dialog := Some d, af_draft := template_text ?r, af_templateEditor := False\<rparr>) d = Inr ?r"
    using dialog_back [OF assms(8)] ordered_rule(3) [OF assms(5,7)] by metis
  let ?st = "st\<lparr>af_dialog := Some d, af_draft := template_text ?r, af_templateEditor := False\<rparr>"
  have step: "affinity_step lower (EditRule k) st = Some ?st"
    using assms(1,2,7) d(1) by (simp add: affinity_step_def on_page_controls_def kept_def settle_rules_def)
  have "rule_index d (af_rules st) = Inr k"
    using ordered_index [OF assms(5,7)] d(3) by (simp add: rule_index_def)
  then have "handleModalSave d ?st = Inr (close_dialog (updateRulesState (af_rules st) ?st))"
    using d(2,4) by (simp add: handleModalSave_def reindex_ordered [OF assms(5)])
  moreover have "close_dialog (updateRulesState (af_rules st) ?st) = st"
    using assms(2,3,4,6) by (cases st) (simp add: close_dialog_def updateRulesState_def put_rules_text_def)
  ultimately have "affinity_step lower SaveDialog ?st = Some st"
    by (simp add: affinity_step_def on_rule_dialog_def kept_def settle_rules_def)
  with step show ?thesis by simp
qed


section \<open>Names of appended templates\<close>

lemma numbered_inj: "numbered_name base i = numbered_name base j \<longleftrightarrow> i = j"
  by (auto simp: numbered_name_def) (metis parse_show_nat)

lemma find_numbered:
  assumes "length names < Suc (length ns)" "distinct ns" "base \<in> set names"
  obtains i where "List.find (\<lambda>i. numbered_name base i \<notin> set names) ns = Some i" "numbered_name base i \<notin> set names"
proof (cases "List.find (\<lambda>i. numbered_name base i \<notin> set names) ns")
  case None
  then have "set (base # map (numbered_name base) ns) \<subseteq> set names" using assms(3) by (auto simp: find_None_iff)
  then have "card (set (base # map (numbered_name base) ns)) \<le> length names"
    using card_mono [OF finite_set] card_length [of names] le_trans by blast
  moreover have "distinct (base # map (numbered_name base) ns)"
    using assms(2) by (auto simp: distinct_map inj_on_def numbered_inj) (simp add: numbered_name_def)
  ultimately show ?thesis using assms(1) distinct_card by fastforce
next
  case (Some i)
  then have "numbered_name base i \<notin> set names" by (auto simp: find_Some_iff)
  with Some show ?thesis by (rule that)
qed

lemma unique_name_fresh:
  assumes "length names < 999"
  shows "makeUniqueName now names name \<notin> set names"
proof -
  define base where "base = (if trim name = [] then ''rule'' else trim name)"
  define ns where "ns = [2..<1000::nat]"
  have ns: "length names < Suc (length ns)" "distinct ns" using assms unfolding ns_def by (simp_all only: length_upt distinct_upt)
  have "makeUniqueName now names name =
    (if base \<notin> set names then base
     else (case List.find (\<lambda>i. numbered_name base i \<notin> set names) ns of Some i \<Rightarrow> numbered_name base i | None \<Rightarrow> numbered_name base now))"
    unfolding makeUniqueName_def base_def ns_def Let_def by (rule refl)
  then show ?thesis by (cases "base \<in> set names") (use find_numbered [OF ns, of base] in \<open>force+\<close>)
qed

definition rule_names :: "affinity_rule list \<Rightarrow> jsval list" where
  "rule_names rs = map (\<lambda>r. rule_prop r ''name'') rs"

lemma rule_names_reindex: "rule_names (reindex rs) = rule_names rs"
  by (rule nth_equalityI) (auto simp: rule_names_def reindex_def rule_prop_def nth_enumerate_eq)

text \<open>
  C26: the templates are appended behind the rules of the table, which keep their names, and get
  names that differ from each other and from every name in use, as long as fewer than 998 are in use.
\<close>

theorem appended_names_fresh:
  assumes "existing_names (af_rules st) = Inr names" "length names < 998"
    "appendCodexAndClaudeCodeTemplates now st = Inr st'"
  shows "\<exists>a b. rule_names (af_rules st') = rule_names (af_rules st) @ [Str a, Str b] \<and> a \<noteq> b \<and> a \<notin> set names \<and> b \<notin> set names"
proof -
  define a where "a = makeUniqueName now names ''codex cli trace''"
  define b where "b = makeUniqueName now (a # names) ''claude cli trace''"
  have "rule_names (name_templates now names CHANNEL_AFFINITY_RULE_TEMPLATES) = [Str a, Str b]"
    by (simp add: CHANNEL_AFFINITY_RULE_TEMPLATES_def affinity_template_def rule_names_def rule_prop_def a_def b_def Let_def)
  then have "rule_names (af_rules st') = rule_names (af_rules st) @ [Str a, Str b]"
    using assms(1,3) rule_names_reindex
    by (auto simp: appendCodexAndClaudeCodeTemplates_def updateRulesState_def put_rules_text_def) (simp add: rule_names_def)
  moreover have "a \<notin> set names" using assms(2) unfolding a_def by (intro unique_name_fresh) simp
  moreover have "b \<notin> set (a # names)" using assms(2) unfolding b_def by (intro unique_name_fresh) simp
  ultimately show ?thesis by auto
qed

section \<open>The override dialog\<close>

text \<open>
  C20: what the override dialog saves in its visual operations view, for a non-empty list of rules in
  normal form none of which is blank, is accepted as the template of the rule: a form that can be saved
  without a template can be saved with this text, and the rule then carries exactly these operations.
\<close>

theorem override_text_in_rule:
  assumes "editMode ed = VisualEdit" "visualMode ed = OperationsView" "operations ed \<noteq> []"
    "list_all operation_ok (operations ed)" "list_all (\<lambda>op. \<not> isOperationBlank op) (operations ed)"
    "overrideSave ed = Inr txt" "form_payload (updateParamTemplateDraft [] st) d = Inr r"
  shows "form_payload (templateSaved txt st) d =
    Inr (r @ [(''param_override_template'', Obj [(''operations'', Arr (map operationPayload (operations ed)))])])"
proof -
  have "buildOperationsJson True (operations ed) = Inr txt"
    using assms(1,2,6) by (simp add: overrideSave_def buildVisualJson_def)
  from rules_text [OF assms(4,5,3) this]
  have "parseOptionalObjectJson txt = Inr (Some [(''operations'', Arr (map operationPayload (operations ed)))])"
    by (simp add: parseOptionalObjectJson_def)
  with assms(7) show ?thesis
    by (auto simp: form_payload_def Let_def templateSaved_def updateParamTemplateDraft_def parseOptionalObjectJson_def
        buildChannelAffinityRulePayload_def split: if_splits sum.splits prod.splits)
qed


section \<open>Saving and loading\<close>

lemmas affinity_keys = KEY_ENABLED_def KEY_SWITCH_ON_SUCCESS_def KEY_MAX_ENTRIES_def KEY_DEFAULT_TTL_def KEY_RULES_def

lemma affinity_keys_named:
  "\<not> is_index KEY_ENABLED" "\<not> is_index KEY_SWITCH_ON_SUCCESS" "\<not> is_index KEY_MAX_ENTRIES" "\<not> is_index KEY_DEFAULT_TTL"
  "\<not> is_index KEY_RULES"
  by code_simp+

lemma compare_values:
  "compareObjects (affinity_values i) (affinity_values j) =
     (if in_enabled i = in_enabled j then [] else [KEY_ENABLED]) @
     (if in_switch_on_success i = in_switch_on_success j then [] else [KEY_SWITCH_ON_SUCCESS]) @
     (if in_max_entries i \<noteq> NaN \<and> in_max_entries i = in_max_entries j then [] else [KEY_MAX_ENTRIES]) @
     (if in_default_ttl i \<noteq> NaN \<and> in_default_ttl i = in_default_ttl j then [] else [KEY_DEFAULT_TTL]) @
     (if in_rules i = in_rules j then [] else [KEY_RULES])"
proof -
  have "obj_entries (affinity_values i) = affinity_values i"
    by (rule obj_entries_named) (simp add: affinity_values_def affinity_keys_named)
  then show ?thesis unfolding compareObjects_def by (simp add: affinity_values_def affinity_keys)
qed


lemma load_option_flags:
  assumes "lower ''true'' = ''true''" "lower ''false'' = ''false''"
  shows "load_option lower KEY_ENABLED (Str (if b then ''true'' else ''false'')) i = i\<lparr>in_enabled := b\<rparr>"
    "load_option lower KEY_SWITCH_ON_SUCCESS (Str (if b then ''true'' else ''false'')) i = i\<lparr>in_switch_on_success := b\<rparr>"
  using assms by (simp_all add: load_option_def affinity_keys toBoolean_def)

lemma load_option_numbers:
  assumes "string_to_number (number_to_string n) = n" "n \<noteq> NaN"
  shows "load_option lower KEY_MAX_ENTRIES (Str (number_to_string n)) i = i\<lparr>in_max_entries := n\<rparr>"
    "load_option lower KEY_DEFAULT_TTL (Str (number_to_string n)) i = i\<lparr>in_default_ttl := n\<rparr>"
proof -
  have "string_to_number [] = Fin 0" by code_simp
  then have "num_or_zero (Num (num_or_zero (Str (number_to_string n)))) = n"
    using assms by (auto simp: num_or_zero_def)
  then show "load_option lower KEY_MAX_ENTRIES (Str (number_to_string n)) i = i\<lparr>in_max_entries := n\<rparr>"
    "load_option lower KEY_DEFAULT_TTL (Str (number_to_string n)) i = i\<lparr>in_default_ttl := n\<rparr>"
    by (simp_all add: load_option_def affinity_keys)
qed

lemma load_option_rules:
  "json_parse s = Some v \<Longrightarrow> s \<noteq> [] \<Longrightarrow> load_option lower KEY_RULES (Str s) i = i\<lparr>in_rules := stringifyPretty v\<rparr>"
  by (simp add: load_option_def affinity_keys)

definition options_of :: "(string \<times> string) list \<Rightarrow> jsval jsobj" where
  "options_of reqs = map (\<lambda>(k, s). (k, Str s)) reqs"

text \<open>
  C24: the requests of a save, read back as options into a page that shows the saved values, give the
  inputs that were saved; the rules come back as the indented text of the same JSON value.
\<close>

theorem submit_load:
  assumes "onSubmit st = PutRequests reqs" "lower ''true'' = ''true''" "lower ''false'' = ''false''"
    "json_parse (or_brackets (in_rules (af_inputs st))) = Some v" "json_data v"
    "in_max_entries (af_inputs st) \<noteq> NaN" "in_default_ttl (af_inputs st) \<noteq> NaN"
    "string_to_number (number_to_string (in_max_entries (af_inputs st))) = in_max_entries (af_inputs st)"
    "string_to_number (number_to_string (in_default_ttl (af_inputs st))) = in_default_ttl (af_inputs st)"
  shows "af_inputs (loadAffinityOptions lower (options_of reqs) (st\<lparr>af_inputs := af_inputsRow st\<rparr>)) =
    (af_inputs st)\<lparr>in_rules := if in_rules (af_inputs st) = in_rules (af_inputsRow st) then in_rules (af_inputs st) else stringifyPretty v\<rparr>"
proof -
  define i j where "i = af_inputs st" and "j = af_inputsRow st"
  define val where "val k = (if k = KEY_RULES then stringifyCompact v
     else (case map_of (affinity_values (af_inputs st)) k of Some w \<Rightarrow> js_String w | None \<Rightarrow> []))" for k
  have reqs: "reqs = map (\<lambda>k. (k, val k)) (compareObjects (affinity_values i) (affinity_values j))"
    using assms(1,4) by (auto simp: onSubmit_def Let_def i_def j_def val_def split: if_splits)
  have named: "obj_entries (options_of reqs) = options_of reqs"
    by (rule obj_entries_named) (auto simp: options_of_def reqs compare_values affinity_keys_named)
  have "json_parse (stringifyCompact v) = Some v" unfolding stringifyCompact_def by (rule json.parse_print [OF assms(5)])
  moreover have "json_parse [] = None" by code_simp
  ultimately have stored: "json_parse (stringifyCompact v) = Some v" "stringifyCompact v \<noteq> []" by auto
  have vals: "val KEY_ENABLED = (if in_enabled i then ''true'' else ''false'')"
    "val KEY_SWITCH_ON_SUCCESS = (if in_switch_on_success i then ''true'' else ''false'')"
    "val KEY_MAX_ENTRIES = number_to_string (in_max_entries i)" "val KEY_DEFAULT_TTL = number_to_string (in_default_ttl i)"
    "val KEY_RULES = stringifyCompact v"
    by (simp_all add: val_def affinity_values_def affinity_keys i_def)
  note loads = load_option_flags [OF assms(2,3)] load_option_numbers [OF assms(8,6), folded i_def]
    load_option_numbers [OF assms(9,7), folded i_def] load_option_rules [OF stored]
  have "foldl (\<lambda>i (k, v). load_option lower k v i) j (options_of reqs) =
    i\<lparr>in_rules := if in_rules i = in_rules j then in_rules i else stringifyPretty v\<rparr>"
    unfolding options_of_def reqs compare_values
    by (rule affinity_inputs.equality) (simp_all add: loads vals assms(6,7) [folded i_def])
  then show ?thesis by (simp add: loadAffinityOptions_def named Let_def i_def j_def)
qed

text \<open>Entries can be counted for exactly the rules whose entries can be cleared, under the same name.\<close>

lemma counted_iff_clearable:
  "(\<exists>n. cache_entries p r = Inr (Some n)) \<longleftrightarrow> (\<exists>name. confirmClearRuleCache r = Inr (ConfirmClear name))"
  by (auto simp: cache_entries_def confirmClearRuleCache_def split: sum.splits)

lemma cleared_entries_gone:
  assumes "confirmClearRuleCache r = Inr (ConfirmClear name)" "truthy d" "get_prop (get_prop d ''by_rule_name'') name = Undef"
  shows "cache_entries (cacheStatsAnswered (CacheData d) (refreshCacheStats p)) r = Inr (Some (Fin 0))"
  using assms by (auto simp: cache_entries_def confirmClearRuleCache_def cacheStatsAnswered_def refreshCacheStats_def
      num_or_zero_def split: sum.splits if_splits)

section \<open>Sample inputs\<close>

definition sample_form :: affinity_form where
  "sample_form =
     \<lparr>fm_name = Str ''gpt'', fm_model_regex_text = ''^gpt'', fm_path_regex_text = [], fm_user_agent_include_text = [],
      fm_value_regex = Str [], fm_ttl_seconds = Fin 0, fm_skip_retry_on_failure = False, fm_include_using_group = Bool True,
      fm_include_model_name = False, fm_include_rule_name = Bool True\<rparr>"

definition sample_source :: key_source where
  "sample_source = \<lparr>ks_type = ''gjson'', ks_key = [], ks_path = ''user''\<rparr>"

definition sample_affinity_rule :: affinity_rule where
  "sample_affinity_rule =
     buildChannelAffinityRulePayload (int_val 0) ''gpt'' [] sample_form [''^gpt''] [] [sample_source] [] None"

definition sample_affinity :: affinity_page where
  "sample_affinity = updateRulesState [sample_affinity_rule] initial_affinity"

lemma sample_affinity_ok:
  "ordered_rules [sample_affinity_rule]" "list_all json_rule [sample_affinity_rule]"
  by code_simp+

lemma sample_source_ok: "source_ok sample_source"
  by code_simp

lemma sample_rule_saved: "saved_rule sample_affinity_rule"
  unfolding saved_rule_def sample_affinity_rule_def
  by (intro exI conjI, rule refl) (simp_all add: sample_source_ok line_ok_def, code_simp+)

theorem mode_switch_keeps_rules_witness:
  "affinity_run id [PressJson, PressVisual] sample_affinity =
     Some (put_rules_text (rulesToJson [sample_affinity_rule]) sample_affinity)"
  using mode_switch_keeps_rules [of sample_affinity id] sample_affinity_ok
  by (simp add: sample_affinity_def updateRulesState_def put_rules_text_def initial_affinity_def default_inputs_def)

theorem json_typing_lost_witness:
  "affinity_run id [TypeRules ''[1]'', PressJson] (sample_affinity\<lparr>af_mode := JsonEdit\<rparr>) =
   affinity_run id [PressJson] (sample_affinity\<lparr>af_mode := JsonEdit\<rparr>)"
  by (rule json_typing_lost) (simp_all add: sample_affinity_def updateRulesState_def put_rules_text_def initial_affinity_def)

theorem edit_without_change_witness:
  "affinity_run id [EditRule 0, SaveDialog] sample_affinity = Some sample_affinity"
  using sample_affinity_ok sample_rule_saved
  by (intro edit_without_change) (simp_all add: sample_affinity_def updateRulesState_def put_rules_text_def initial_affinity_def)

theorem appended_names_fresh_witness:
  "existing_names (af_rules sample_affinity) = Inr [''gpt''] \<and>
   (\<exists>st' a b. appendCodexAndClaudeCodeTemplates 7 sample_affinity = Inr st' \<and>
     rule_names (af_rules st') = [Str ''gpt'', Str a, Str b] \<and> a \<noteq> b \<and> a \<noteq> ''gpt'' \<and> b \<noteq> ''gpt'')"
proof -
  have names: "existing_names (af_rules sample_affinity) = Inr [''gpt'']" "rule_names (af_rules sample_affinity) = [Str ''gpt'']"
    by code_simp+
  then obtain st' where st': "appendCodexAndClaudeCodeTemplates 7 sample_affinity = Inr st'"
    by (simp add: appendCodexAndClaudeCodeTemplates_def)
  with appended_names_fresh [OF names(1) _ st'] names show ?thesis by auto
qed

definition sample_rule_dialog :: rule_dialog where
  "sample_rule_dialog = \<lparr>dg_id = Undef, dg_name = Str ''gpt'', dg_sources = [ks_value sample_source], dg_isEdit = False, dg_form = sample_form\<rparr>"

theorem override_text_in_rule_witness:
  "\<exists>txt. overrideSave (sample_state sample_rules) = Inr txt \<and>
    form_payload (templateSaved txt initial_affinity) sample_rule_dialog =
      Inr (sample_affinity_rule @ [(''param_override_template'', Obj [(''operations'', Arr (map operationPayload sample_rules))])])"
proof -
  obtain saved where s: "overrideSave (sample_state sample_rules) = Inr saved" using sample_saved by (rule exE)
  have "operations (sample_state sample_rules) = sample_rules" "sample_rules \<noteq> []" by (simp_all add: sample_state_def sample_rules_def)
  moreover have "form_payload (updateParamTemplateDraft [] initial_affinity) sample_rule_dialog = Inr sample_affinity_rule" by code_simp
  ultimately show ?thesis
    using override_text_in_rule [of "sample_state sample_rules" saved initial_affinity sample_rule_dialog sample_affinity_rule]
      sample_rules_ok s by (auto simp: sample_state_def)
qed

definition sample_stored :: string where
  "sample_stored = stringifyCompact (Arr [Obj [(''name'', Str ''a'')], Obj [(''name'', Str ''b'')]])"

theorem affinity_text_is_table_witness:
  "\<exists>st. affinity_run id [OptionsLoaded [(KEY_RULES, Str sample_stored)], DeleteRule 0] initial_affinity = Some st \<and> af_mode st = VisualEdit \<and>
    rule_names (af_rules st) = [Str ''b''] \<and> parseRulesJson (in_rules (af_inputs st)) = af_rules st"
proof -
  let ?run = "affinity_run id [OptionsLoaded [(KEY_RULES, Str sample_stored)], DeleteRule 0] initial_affinity"
  have "case ?run of None \<Rightarrow> False | Some st \<Rightarrow>
      af_mode st = VisualEdit \<and> ordered_rules (af_rules st) \<and> list_all json_rule (af_rules st) \<and> rule_names (af_rules st) = [Str ''b'']"
    by code_simp
  then obtain st where st: "?run = Some st" "af_mode st = VisualEdit" "ordered_rules (af_rules st)"
    "list_all json_rule (af_rules st)" "rule_names (af_rules st) = [Str ''b'']"
    by (cases ?run) (simp_all del: affinity_run.simps)
  then show ?thesis using affinity_text_is_table [OF st(1-4)] by (intro exI [of _ st] conjI)
qed

definition sample_saving :: affinity_page where
  "sample_saving = initial_affinity\<lparr>af_inputs := default_inputs\<lparr>in_enabled := True, in_max_entries := Fin 50, in_rules := ''[ ]''\<rparr>\<rparr>"

theorem submit_load_witness:
  "\<exists>reqs. onSubmit sample_saving = PutRequests reqs \<and>
    af_inputs (loadAffinityOptions id (options_of reqs) initial_affinity) = (af_inputs sample_saving)\<lparr>in_rules := ''[]''\<rparr>"
proof -
  have "case onSubmit sample_saving of PutRequests reqs \<Rightarrow> True | _ \<Rightarrow> False" by code_simp
  then obtain reqs where reqs: "onSubmit sample_saving = PutRequests reqs" by (auto split: affinity_submit.splits)
  have "json_parse (or_brackets (in_rules (af_inputs sample_saving))) = Some (Arr [])"
    "string_to_number (number_to_string (in_max_entries (af_inputs sample_saving))) = in_max_entries (af_inputs sample_saving)"
    "string_to_number (number_to_string (in_default_ttl (af_inputs sample_saving))) = in_default_ttl (af_inputs sample_saving)"
    "stringifyPretty (Arr []) = ''[]''" "sample_saving\<lparr>af_inputs := af_inputsRow sample_saving\<rparr> = initial_affinity"
    "in_rules (af_inputs sample_saving) \<noteq> in_rules (af_inputsRow sample_saving)"
    by code_simp+
  with submit_load [OF reqs, of id "Arr []"] reqs show ?thesis
    by (simp add: sample_saving_def initial_affinity_def default_inputs_def)
qed

section \<open>Findings\<close>

text \<open>A text that is JSON but not an array is saved from the JSON mode.\<close>

lemma non_array_saved:
  "onSubmit (put_rules_text ''{}'' initial_affinity) = PutRequests [(KEY_RULES, ''{}'')]"
  by code_simp

text \<open>Ids in the text are kept, so deleting one row removes every rule with its id.\<close>

definition twin_ids :: string where
  "twin_ids = stringifyCompact (Arr [Obj [(''id'', int_val 5)], Obj [(''id'', int_val 5)]])"

lemma deletion_removes_twins:
  "length (parseRulesJson twin_ids) = 2 \<and>
   af_rules (handleDeleteRule (int_val 5) (initial_affinity\<lparr>af_rules := parseRulesJson twin_ids\<rparr>)) = []"
  by code_simp

end
