(* ===== verification/Tokens_Page.thy ===== *)
theory Tokens_Page
  imports JS_Json
begin

text \<open>
  The list of API tokens: \<open>src/web/src/hooks/tokens/useTokensData.jsx\<close> with \<open>src/web/src/helpers/token.js\<close>,
  \<open>base64.js\<close> and the controls of \<open>src/web/src/components/table/tokens\<close>. Rows are objects in a store, because an
  action writes to the row it was given. The calls under way are a list, with the values that their
  continuations have captured; an answer may come for any of them. Objects indexed by the id of a token
  and never enumerated are functions. Toasts are left out, texts that are copied and links
  that are opened are logged. Every call has its own answer; that the HTTP client lets equal requests share one is a
  special case.
\<close>

section \<open>Encodings of the language\<close>

definition uri_unreserved :: "char \<Rightarrow> bool" where
  "uri_unreserved c \<longleftrightarrow>
     (let n = (of_char c :: nat) in 48 \<le> n \<and> n \<le> 57 \<or> 65 \<le> n \<and> n \<le> 90 \<or> 97 \<le> n \<and> n \<le> 122) \<or> c \<in> set ''-_.!~*()'' \<or> c = CHR 0x27"

definition hex_upper :: "nat \<Rightarrow> char" where
  "hex_upper d = (if d < 10 then char_of (48 + d) else char_of (55 + d))"

definition uri_byte :: "char \<Rightarrow> string" where
  "uri_byte c =
     (if uri_unreserved c then [c]
      else let n = (of_char c :: nat) in [CHR ''%'', hex_upper (n div 16), hex_upper (n mod 16)])"

definition encodeURIComponent :: "string \<Rightarrow> string" where
  "encodeURIComponent s = concat (map uri_byte s)"

definition base64_digit :: "nat \<Rightarrow> char" where
  "base64_digit n =
     (if n < 26 then char_of (65 + n) else if n < 52 then char_of (71 + n) else if n < 62 then char_of (n - 4)
      else if n = 62 then CHR ''+'' else CHR ''/'')"

fun base64_bytes :: "nat list \<Rightarrow> string" where
  "base64_bytes [] = []"
| "base64_bytes [a] = [base64_digit (a div 4), base64_digit (a mod 4 * 16), CHR ''='', CHR ''='']"
| "base64_bytes [a, b] = [base64_digit (a div 4), base64_digit (a mod 4 * 16 + b div 16), base64_digit (b mod 16 * 4), CHR ''='']"
| "base64_bytes (a # b # c # r) =
     base64_digit (a div 4) # base64_digit (a mod 4 * 16 + b div 16) # base64_digit (b mod 16 * 4 + c div 64) #
     base64_digit (c mod 64) # base64_bytes r"

definition encodeToBase64 :: "string \<Rightarrow> string" where
  "encodeToBase64 s = base64_bytes (map of_char s)"

text \<open>
  \<open>s.replaceAll(pat, repl)\<close>: the signs \<open>$$\<close>, \<open>$&\<close>, \<open>$`\<close> and \<open>$'\<close> of the replacement stand for a dollar, the
  match and the texts before and after it.
\<close>

fun expand_repl :: "string \<Rightarrow> string \<Rightarrow> string \<Rightarrow> string \<Rightarrow> string" where
  "expand_repl before pat after [] = []"
| "expand_repl before pat after [c] = [c]"
| "expand_repl before pat after (c # d # r) =
     (if c \<noteq> CHR ''$'' then c # expand_repl before pat after (d # r)
      else if d = CHR ''$'' then CHR ''$'' # expand_repl before pat after r
      else if d = CHR ''&'' then pat @ expand_repl before pat after r
      else if d = CHR 0x60 then before @ expand_repl before pat after r
      else if d = CHR 0x27 then after @ expand_repl before pat after r
      else c # expand_repl before pat after (d # r))"

function replace_from :: "string \<Rightarrow> string \<Rightarrow> string \<Rightarrow> string \<Rightarrow> string" where
  "replace_from pat repl before [] = []"
| "replace_from pat repl before (c # s) =
     (if pat \<noteq> [] \<and> prefix pat (c # s)
      then let after = drop (length pat) (c # s) in
           expand_repl before pat after repl @ replace_from pat repl (before @ pat) after
      else c # replace_from pat repl (before @ [c]) s)"
  by pat_completeness auto
termination
  by (relation "measure (\<lambda>(pat, repl, before, s). length s)") auto

definition replaceAll :: "string \<Rightarrow> string \<Rightarrow> string \<Rightarrow> string" where
  "replaceAll s pat repl = replace_from pat repl [] s"

section \<open>Addresses and connection texts\<close>

text \<open>The item \<open>status\<close> of the local storage and the origin of the window.\<close>

record token_env =
  te_status :: "string option"
  te_origin :: string

definition token_status_item :: "token_env \<Rightarrow> string option" where
  "token_status_item env = (case te_status env of Some s \<Rightarrow> if s = [] then None else Some s | None \<Rightarrow> None)"

text \<open>Reading a property of null throws inside the \<open>try\<close> block.\<close>

definition getServerAddress :: "token_env \<Rightarrow> jsval" where
  "getServerAddress env =
     (let address = (case token_status_item env of
            None \<Rightarrow> Str []
          | Some s \<Rightarrow> (case json_parse s of
                None \<Rightarrow> Str []
              | Some v \<Rightarrow> let a = get_prop v ''server_address'' in if v \<noteq> Null \<and> truthy a then a else Str [])) in
      if truthy address then address else Str (te_origin env))"

definition CHANNEL_CONN_CLIPBOARD_TYPE :: string where
  "CHANNEL_CONN_CLIPBOARD_TYPE = ''newapi_channel_conn''"

definition encodeChannelConnectionString :: "jsval \<Rightarrow> jsval \<Rightarrow> string" where
  "encodeChannelConnectionString key url =
     the (json_stringify (Obj [(''_type'', Str CHANNEL_CONN_CLIPBOARD_TYPE), (''key'', key), (''url'', url)]))"

definition parseChannelConnectionString :: "string \<Rightarrow> (string \<times> string) option" where
  "parseChannelConnectionString txt =
     (if txt = [] then None
      else
        (case json_parse (trim txt) of
           None \<Rightarrow> None
         | Some parsed \<Rightarrow>
             if get_prop parsed ''_type'' = Str CHANNEL_CONN_CLIPBOARD_TYPE
             then (case (get_prop parsed ''key'', get_prop parsed ''url'') of
                     (Str k, Str u) \<Rightarrow> Some (k, u)
                   | _ \<Rightarrow> None)
             else None))"

datatype link_action = OpenSwitch string | OpenFluent string | OpenUrl string

definition sk :: "string \<Rightarrow> string" where
  "sk key = ''sk-'' @ key"

text \<open>The address that a link is filled with: here a status without an address gives \<open>undefined\<close>.\<close>

definition link_address :: "token_env \<Rightarrow> js_error + jsval" where
  "link_address env =
     (case token_status_item env of
        None \<Rightarrow> Inr (Str (te_origin env))
      | Some s \<Rightarrow>
          (case json_parse s of
             None \<Rightarrow> Inl SyntaxError
           | Some v \<Rightarrow>
               if v = Null then Inl TypeError
               else let a = get_prop v ''server_address'' in Inr (if a = Str [] then Str (te_origin env) else a)))"

definition link_config :: "string \<Rightarrow> jsval \<Rightarrow> string \<Rightarrow> string" where
  "link_config field address key =
     encodeURIComponent (encodeToBase64 (the (json_stringify
       (Obj [(field, Str ''new-api''), (''baseUrl'', address), (''apiKey'', Str (sk key))]))))"

definition open_link :: "token_env \<Rightarrow> string \<Rightarrow> string \<Rightarrow> js_error + link_action" where
  "open_link env url key =
     (if prefix ''ccswitch'' url then Inr (OpenSwitch key)
      else if prefix ''fluent'' url then Inr (OpenFluent key)
      else map_sum id (\<lambda>address.
             OpenUrl (if js_includes url ''{cherryConfig}'' then replaceAll url ''{cherryConfig}'' (link_config ''id'' address key)
                      else if js_includes url ''{aionuiConfig}'' then replaceAll url ''{aionuiConfig}'' (link_config ''platform'' address key)
                      else replaceAll (replaceAll url ''{address}'' (encodeURIComponent (js_String address))) ''{key}'' (sk key)))
             (link_address env))"

section \<open>Rows, calls and the state of the page\<close>

record token_row =
  tk_id :: int
  tk_name :: string
  tk_status :: int
  tk_key :: string

datatype manage_action = DeleteToken | EnableToken | DisableToken

datatype copy_type = NameAndKey | KeyOnly

text \<open>What a fetched key is wanted for.\<close>

datatype key_purpose = ShowKey | CopyKey | CopyConnection | FillLink string

text \<open>
  What follows a load: nothing, the clearing of the selection in \<open>refresh\<close>, or in addition the rest of a batch
  deletion with the number of rows, the page and the page size of the render it was started in.
\<close>

datatype after_load = JustLoad | RefreshList | AfterDeletion nat int int

text \<open>
  Calls: a load and a search with the page, the requested size and the captured page size; the key of a token;
  an action on a row with the captured page and page size; a batch deletion; a batch copy; the groups.
\<close>

datatype token_call =
    LoadCall int int int after_load
  | SearchCall string string int int int
  | KeyCall int
  | ManageCall manage_action nat "nat list" int int
  | BatchDeleteCall "int list" nat int int
  | BatchCopyCall copy_type "nat list"
  | GroupsCall

record page_payload =
  pl_items :: "token_row list"
  pl_total :: int
  pl_page :: int
  pl_page_size :: int

text \<open>A lost answer rejects the promise; a denied one has \<open>success\<close> false. A missing number is 0.\<close>

datatype token_answer =
    LostAnswer
  | DeniedAnswer
  | PageAnswer page_payload
  | KeyAnswer string
  | KeysAnswer "(int \<times> string) list"
  | StatusAnswer int
  | DoneAnswer
  | GroupsAnswer "jsval jsobj"

text \<open>
  What leaves the page: with the id of the token a copied key and connection, with the id and the address
  template an opened link, with the rows it was made for a batch.
\<close>

datatype token_output =
    CopiedKey int string
  | CopiedConnection int string
  | CopiedBatch copy_type "token_row list" string
  | Linked int string link_action

record tokens_page =
  tp_store :: "token_row list"
  tp_tokens :: "nat list"
  tp_loading :: bool
  tp_activePage :: int
  tp_tokenCount :: int
  tp_pageSize :: int
  tp_searching :: bool
  tp_searchMode :: bool
  tp_selectedKeys :: "nat list"
  tp_showEdit :: bool
  tp_editingToken :: "int option"
  tp_showKeys :: "int \<Rightarrow> bool"
  tp_resolved :: "int \<Rightarrow> string option"
  tp_loadingKeys :: "int \<Rightarrow> bool"
  tp_keyRequests :: "int \<Rightarrow> bool"
  tp_waiters :: "(int \<times> key_purpose) list"
  tp_keyword :: string
  tp_searchToken :: string
  tp_groupRatios :: "jsval jsobj"
  tp_calls :: "token_call list"
  tp_timers :: "(nat \<times> int \<times> int) list"
  tp_resets :: "int list"
  tp_editTimers :: nat
  tp_log :: "token_output list"

definition row_at :: "tokens_page \<Rightarrow> nat \<Rightarrow> token_row" where
  "row_at st a = tp_store st ! a"

definition begin_token_call :: "token_call \<Rightarrow> tokens_page \<Rightarrow> tokens_page" where
  "begin_token_call c st = st\<lparr>tp_calls := tp_calls st @ [c]\<rparr>"

definition log_output :: "token_output \<Rightarrow> tokens_page \<Rightarrow> tokens_page" where
  "log_output out st = st\<lparr>tp_log := tp_log st @ [out]\<rparr>"

text \<open>\<open>x || y\<close> on numbers\<close>

definition int_or :: "int \<Rightarrow> int \<Rightarrow> int" where
  "int_or x y = (if x = 0 then y else x)"

section \<open>Loading and searching\<close>

definition syncPageData :: "int \<Rightarrow> page_payload \<Rightarrow> tokens_page \<Rightarrow> tokens_page" where
  "syncPageData pageSize payload st =
     (let n = length (tp_store st) in
      st\<lparr>tp_store := tp_store st @ pl_items payload, tp_tokens := [n..<n + length (pl_items payload)],
         tp_tokenCount := pl_total payload, tp_activePage := int_or (pl_page payload) 1,
         tp_pageSize := int_or (pl_page_size payload) pageSize, tp_showKeys := (\<lambda>_. False)\<rparr>)"

definition loadTokens :: "int \<Rightarrow> int \<Rightarrow> int \<Rightarrow> after_load \<Rightarrow> tokens_page \<Rightarrow> tokens_page" where
  "loadTokens page sz pageSize after st =
     begin_token_call (LoadCall page sz pageSize after) (st\<lparr>tp_loading := True, tp_searchMode := False\<rparr>)"

definition refreshTokens :: "int \<Rightarrow> int \<Rightarrow> tokens_page \<Rightarrow> tokens_page" where
  "refreshTokens page pageSize st = loadTokens page pageSize pageSize RefreshList st"

definition tk_num :: "int \<Rightarrow> string" where
  "tk_num n = number_to_string (Fin (of_int n))"

definition token_load_url :: "int \<Rightarrow> int \<Rightarrow> string" where
  "token_load_url page sz = ''/api/token/?p='' @ tk_num page @ ''&size='' @ tk_num sz"

definition token_search_url :: "string \<Rightarrow> string \<Rightarrow> int \<Rightarrow> int \<Rightarrow> string" where
  "token_search_url keyword token page sz =
     ''/api/token/search?keyword='' @ encodeURIComponent keyword @ ''&token='' @ encodeURIComponent token @
     ''&p='' @ tk_num page @ ''&size='' @ tk_num sz"

definition searchTokens :: "int \<Rightarrow> int \<Rightarrow> int \<Rightarrow> tokens_page \<Rightarrow> tokens_page" where
  "searchTokens pageSize page sz st =
     (let normalizedPage = (if 0 < page then page else 1);
          normalizedSize = (if 0 < sz then sz else pageSize) in
      if tp_keyword st = [] \<and> tp_searchToken st = []
      then loadTokens 1 pageSize pageSize JustLoad (st\<lparr>tp_searchMode := False\<rparr>)
      else begin_token_call (SearchCall (tp_keyword st) (tp_searchToken st) normalizedPage normalizedSize pageSize)
             (st\<lparr>tp_searching := True\<rparr>))"

definition handleTokenPageChange :: "int \<Rightarrow> tokens_page \<Rightarrow> tokens_page" where
  "handleTokenPageChange page st =
     (if tp_searchMode st then searchTokens (tp_pageSize st) page (tp_pageSize st) st
      else loadTokens page (tp_pageSize st) (tp_pageSize st) JustLoad st)"

text \<open>The call reads the page size of the render, the state has the new one.\<close>

definition handleTokenPageSizeChange :: "int \<Rightarrow> tokens_page \<Rightarrow> tokens_page" where
  "handleTokenPageSizeChange sz st =
     (let st' = (if tp_searchMode st then searchTokens (tp_pageSize st) 1 sz st
                 else loadTokens 1 sz (tp_pageSize st) JustLoad st) in
      st'\<lparr>tp_pageSize := sz\<rparr>)"

text \<open>The rest of a load, after its answer: \<open>None\<close> when the answer does not fit.\<close>

definition finish_load :: "after_load \<Rightarrow> tokens_page \<Rightarrow> tokens_page" where
  "finish_load after st =
     (case after of
        JustLoad \<Rightarrow> st
      | RefreshList \<Rightarrow> st\<lparr>tp_selectedKeys := []\<rparr>
      | AfterDeletion rows page sz \<Rightarrow>
          st\<lparr>tp_selectedKeys := [], tp_timers := tp_timers st @ [(rows, page, sz)], tp_loading := False\<rparr>)"

definition answer_load_call :: "int \<Rightarrow> after_load \<Rightarrow> token_answer \<Rightarrow> tokens_page \<Rightarrow> tokens_page option" where
  "answer_load_call pageSize after ans st =
     (case ans of
        LostAnswer \<Rightarrow> Some (case after of AfterDeletion _ _ _ \<Rightarrow> st\<lparr>tp_loading := False\<rparr> | _ \<Rightarrow> st)
      | DeniedAnswer \<Rightarrow> Some (finish_load after (st\<lparr>tp_loading := False\<rparr>))
      | PageAnswer payload \<Rightarrow> Some (finish_load after ((syncPageData pageSize payload st)\<lparr>tp_loading := False\<rparr>))
      | _ \<Rightarrow> None)"

definition answer_search_call :: "int \<Rightarrow> token_answer \<Rightarrow> tokens_page \<Rightarrow> tokens_page option" where
  "answer_search_call pageSize ans st =
     (case ans of
        LostAnswer \<Rightarrow> Some st
      | DeniedAnswer \<Rightarrow> Some (st\<lparr>tp_searching := False\<rparr>)
      | PageAnswer payload \<Rightarrow> Some ((syncPageData pageSize payload (st\<lparr>tp_searchMode := True\<rparr>))\<lparr>tp_searching := False\<rparr>)
      | _ \<Rightarrow> None)"

section \<open>Keys\<close>

definition resolved_key :: "tokens_page \<Rightarrow> int \<Rightarrow> string option" where
  "resolved_key st i = (case tp_resolved st i of Some k \<Rightarrow> if k = [] then None else Some k | None \<Rightarrow> None)"

definition use_key :: "token_env \<Rightarrow> int \<Rightarrow> string \<Rightarrow> key_purpose \<Rightarrow> tokens_page \<Rightarrow> tokens_page" where
  "use_key env i key purpose st =
     (case purpose of
        ShowKey \<Rightarrow> if key = [] then st else st\<lparr>tp_showKeys := (tp_showKeys st)(i := True)\<rparr>
      | CopyKey \<Rightarrow> log_output (CopiedKey i (sk key)) st
      | CopyConnection \<Rightarrow>
          log_output (CopiedConnection i (encodeChannelConnectionString (Str (sk key)) (getServerAddress env))) st
      | FillLink url \<Rightarrow> (case open_link env url key of Inl e \<Rightarrow> st | Inr act \<Rightarrow> log_output (Linked i url act) st))"

definition fetchTokenKey :: "token_env \<Rightarrow> int \<Rightarrow> key_purpose \<Rightarrow> tokens_page \<Rightarrow> tokens_page" where
  "fetchTokenKey env i purpose st =
     (if i = 0 then st
      else
        (case resolved_key st i of
           Some key \<Rightarrow> use_key env i key purpose st
         | None \<Rightarrow>
             let st' = st\<lparr>tp_waiters := tp_waiters st @ [(i, purpose)]\<rparr> in
             if tp_keyRequests st i then st'
             else begin_token_call (KeyCall i)
                    (st'\<lparr>tp_loadingKeys := (tp_loadingKeys st)(i := True), tp_keyRequests := (tp_keyRequests st)(i := True)\<rparr>)))"

definition toggleTokenVisibility :: "token_env \<Rightarrow> int \<Rightarrow> tokens_page \<Rightarrow> tokens_page" where
  "toggleTokenVisibility env i st =
     (if i = 0 then st
      else if tp_showKeys st i then st\<lparr>tp_showKeys := (tp_showKeys st)(i := False)\<rparr>
      else fetchTokenKey env i ShowKey st)"

text \<open>The end of a request for a key; every caller that waits for it goes on, or sees the error.\<close>

definition end_key_request :: "int \<Rightarrow> tokens_page \<Rightarrow> tokens_page" where
  "end_key_request i st =
     st\<lparr>tp_keyRequests := (tp_keyRequests st)(i := False), tp_loadingKeys := (tp_loadingKeys st)(i := False),
        tp_waiters := filter (\<lambda>w. fst w \<noteq> i) (tp_waiters st)\<rparr>"

definition answer_key_call :: "token_env \<Rightarrow> int \<Rightarrow> token_answer \<Rightarrow> tokens_page \<Rightarrow> tokens_page option" where
  "answer_key_call env i ans st =
     (case ans of
        LostAnswer \<Rightarrow> Some (end_key_request i st)
      | DeniedAnswer \<Rightarrow> Some (end_key_request i st)
      | KeyAnswer key \<Rightarrow>
          Some (if key = [] then end_key_request i st
                else foldl (\<lambda>s p. use_key env i key p s)
                       (end_key_request i (st\<lparr>tp_resolved := (tp_resolved st)(i := Some key)\<rparr>))
                       (map snd (filter (\<lambda>w. fst w = i) (tp_waiters st))))
      | _ \<Rightarrow> None)"

definition displayedKey :: "tokens_page \<Rightarrow> token_row \<Rightarrow> string" where
  "displayedKey st row =
     (let keyValue = (case resolved_key st (tk_id row) of
            Some key \<Rightarrow> if tp_showKeys st (tk_id row) then key else tk_key row
          | None \<Rightarrow> tk_key row) in
      if keyValue = [] then [] else sk keyValue)"

section \<open>Actions\<close>

text \<open>The page and the page size are those of the render, for the \<open>refresh\<close> that follows.\<close>

definition manageToken :: "manage_action \<Rightarrow> nat \<Rightarrow> tokens_page \<Rightarrow> tokens_page" where
  "manageToken action a st =
     begin_token_call (ManageCall action a (tp_tokens st) (tp_activePage st) (tp_pageSize st)) (st\<lparr>tp_loading := True\<rparr>)"

definition answer_manage_call ::
  "manage_action \<Rightarrow> nat \<Rightarrow> nat list \<Rightarrow> int \<Rightarrow> int \<Rightarrow> token_answer \<Rightarrow> tokens_page \<Rightarrow> tokens_page option" where
  "answer_manage_call action a rows page pageSize ans st =
     (case ans of
        LostAnswer \<Rightarrow> Some st
      | DeniedAnswer \<Rightarrow> Some (refreshTokens page pageSize (st\<lparr>tp_loading := False\<rparr>))
      | StatusAnswer s \<Rightarrow>
          Some (refreshTokens page pageSize
            (st\<lparr>tp_store := (if action = DeleteToken then tp_store st else (tp_store st)[a := (row_at st a)\<lparr>tk_status := s\<rparr>]),
                tp_tokens := rows, tp_loading := False\<rparr>))
      | _ \<Rightarrow> None)"

definition batchDeleteTokens :: "tokens_page \<Rightarrow> tokens_page" where
  "batchDeleteTokens st =
     (if tp_selectedKeys st = [] then st
      else begin_token_call (BatchDeleteCall (map (\<lambda>a. tk_id (row_at st a)) (tp_selectedKeys st))
             (length (tp_tokens st)) (tp_activePage st) (tp_pageSize st)) (st\<lparr>tp_loading := True\<rparr>))"

definition answer_delete_call :: "nat \<Rightarrow> int \<Rightarrow> int \<Rightarrow> token_answer \<Rightarrow> tokens_page \<Rightarrow> tokens_page option" where
  "answer_delete_call rows page pageSize ans st =
     (case ans of
        LostAnswer \<Rightarrow> Some (st\<lparr>tp_loading := False\<rparr>)
      | DeniedAnswer \<Rightarrow> Some (st\<lparr>tp_loading := False\<rparr>)
      | DoneAnswer \<Rightarrow> Some (loadTokens page pageSize pageSize (AfterDeletion rows page pageSize) st)
      | _ \<Rightarrow> None)"

text \<open>The timer looks at the rows of the render in which the deletion was started.\<close>

definition batch_timer :: "nat \<Rightarrow> int \<Rightarrow> int \<Rightarrow> tokens_page \<Rightarrow> tokens_page" where
  "batch_timer rows page pageSize st = (if rows = 0 \<and> 1 < page then refreshTokens (page - 1) pageSize st else st)"

definition batchCopyTokens :: "copy_type \<Rightarrow> tokens_page \<Rightarrow> tokens_page" where
  "batchCopyTokens ct st = (if tp_selectedKeys st = [] then st else begin_token_call (BatchCopyCall ct (tp_selectedKeys st)) st)"

definition copied_line :: "copy_type \<Rightarrow> (int \<Rightarrow> string option) \<Rightarrow> token_row \<Rightarrow> string" where
  "copied_line ct keysMap row =
     (case keysMap (tk_id row) of
        None \<Rightarrow> []
      | Some key \<Rightarrow>
          if key = [] then []
          else (case ct of NameAndKey \<Rightarrow> tk_name row @ ''    '' | KeyOnly \<Rightarrow> []) @ sk key @ [CHR 0x0A])"

definition answer_copy_call :: "copy_type \<Rightarrow> nat list \<Rightarrow> token_answer \<Rightarrow> tokens_page \<Rightarrow> tokens_page option" where
  "answer_copy_call ct rows ans st =
     (case ans of
        LostAnswer \<Rightarrow> Some st
      | DeniedAnswer \<Rightarrow> Some st
      | KeysAnswer keys \<Rightarrow>
          Some (log_output (CopiedBatch ct (map (row_at st) rows) (concat (map (copied_line ct (map_of keys)) (map (row_at st) rows))))
            (st\<lparr>tp_resolved := tp_resolved st ++ map_of keys\<rparr>))
      | _ \<Rightarrow> None)"

definition group_ratios :: "jsval jsobj \<Rightarrow> jsval jsobj" where
  "group_ratios ob = map (\<lambda>(name, info). (name, get_prop info ''ratio'')) (obj_entries ob)"

definition answer_groups_call :: "token_answer \<Rightarrow> tokens_page \<Rightarrow> tokens_page option" where
  "answer_groups_call ans st =
     (case ans of
        LostAnswer \<Rightarrow> Some st
      | DeniedAnswer \<Rightarrow> Some st
      | GroupsAnswer ob \<Rightarrow> Some (st\<lparr>tp_groupRatios := group_ratios ob\<rparr>)
      | _ \<Rightarrow> None)"

text \<open>\<open>cmp\<close> is \<open>localeCompare\<close> on the column, not positive.\<close>

definition sortToken :: "(token_row \<Rightarrow> token_row \<Rightarrow> bool) \<Rightarrow> tokens_page \<Rightarrow> tokens_page" where
  "sortToken cmp st =
     (if tp_tokens st = [] then st
      else
        let sorted = sort_by (\<lambda>a b. cmp (row_at st a) (row_at st b)) (tp_tokens st) in
        st\<lparr>tp_tokens := (if tk_id (row_at st (hd sorted)) = tk_id (row_at st (hd (tp_tokens st))) then rev sorted else sorted),
           tp_loading := False\<rparr>)"

section \<open>Runs\<close>

definition answer_token_call :: "token_env \<Rightarrow> token_call \<Rightarrow> token_answer \<Rightarrow> tokens_page \<Rightarrow> tokens_page option" where
  "answer_token_call env c ans st =
     (case c of
        LoadCall _ _ pageSize after \<Rightarrow> answer_load_call pageSize after ans st
      | SearchCall _ _ _ _ pageSize \<Rightarrow> answer_search_call pageSize ans st
      | KeyCall i \<Rightarrow> answer_key_call env i ans st
      | ManageCall action a rows page pageSize \<Rightarrow> answer_manage_call action a rows page pageSize ans st
      | BatchDeleteCall _ rows page pageSize \<Rightarrow> answer_delete_call rows page pageSize ans st
      | BatchCopyCall ct rows \<Rightarrow> answer_copy_call ct rows ans st
      | GroupsCall \<Rightarrow> answer_groups_call ans st)"

text \<open>The dialog that edits a token calls \<open>refresh\<close> with the page and page size it has captured.\<close>

datatype token_event =
    TypeTokenKeyword string
  | TypeSearchToken string
  | PressSearch
  | ResetSearch
  | ResetTimer
  | GoToPage int
  | SetPageSize int
  | SelectRows "nat list"
  | ToggleKey nat
  | WantKey nat key_purpose
  | ManageRow manage_action nat
  | AddToken
  | EditRow nat
  | CloseEdit
  | EditTimer
  | DialogSaved int int
  | DeleteSelected
  | CopySelected copy_type
  | DeletionTimer nat
  | SortRows "token_row \<Rightarrow> token_row \<Rightarrow> bool"
  | Answered nat token_answer

definition remove_nth :: "nat \<Rightarrow> 'a list \<Rightarrow> 'a list" where
  "remove_nth k xs = take k xs @ drop (Suc k) xs"

text \<open>The row with a number, and what is done with it.\<close>

definition on_row :: "(nat \<Rightarrow> tokens_page) \<Rightarrow> nat \<Rightarrow> tokens_page \<Rightarrow> tokens_page option" where
  "on_row f k st = (if k < length (tp_tokens st) then Some (f (tp_tokens st ! k)) else None)"

fun token_handler :: "token_env \<Rightarrow> token_event \<Rightarrow> tokens_page \<Rightarrow> tokens_page option" where
  "token_handler env (TypeTokenKeyword s) st = Some (st\<lparr>tp_keyword := s\<rparr>)"
| "token_handler env (TypeSearchToken s) st = Some (st\<lparr>tp_searchToken := s\<rparr>)"
| "token_handler env PressSearch st = Some (searchTokens (tp_pageSize st) 1 (tp_pageSize st) st)"
| "token_handler env ResetSearch st =
     Some (st\<lparr>tp_keyword := [], tp_searchToken := [], tp_resets := tp_resets st @ [tp_pageSize st]\<rparr>)"
| "token_handler env ResetTimer st =
     (case tp_resets st of
        [] \<Rightarrow> None
      | pageSize # rest \<Rightarrow> Some (searchTokens pageSize 1 pageSize (st\<lparr>tp_resets := rest\<rparr>)))"
| "token_handler env (GoToPage p) st = Some (handleTokenPageChange p st)"
| "token_handler env (SetPageSize n) st = (if 0 < n then Some (handleTokenPageSizeChange n st) else None)"
| "token_handler env (SelectRows ks) st =
     (if list_all (\<lambda>k. k < length (tp_tokens st)) ks then Some (st\<lparr>tp_selectedKeys := map (\<lambda>k. tp_tokens st ! k) ks\<rparr>) else None)"
| "token_handler env (ToggleKey k) st = on_row (\<lambda>a. toggleTokenVisibility env (tk_id (row_at st a)) st) k st"
| "token_handler env (WantKey k purpose) st =
     (if purpose = ShowKey then None else on_row (\<lambda>a. fetchTokenKey env (tk_id (row_at st a)) purpose st) k st)"
| "token_handler env (ManageRow action k) st = on_row (\<lambda>a. manageToken action a st) k st"
| "token_handler env AddToken st = Some (st\<lparr>tp_editingToken := None, tp_showEdit := True\<rparr>)"
| "token_handler env (EditRow k) st =
     on_row (\<lambda>a. st\<lparr>tp_editingToken := Some (tk_id (row_at st a)), tp_showEdit := True\<rparr>) k st"
| "token_handler env CloseEdit st = Some (st\<lparr>tp_showEdit := False, tp_editTimers := Suc (tp_editTimers st)\<rparr>)"
| "token_handler env EditTimer st =
     (case tp_editTimers st of 0 \<Rightarrow> None | Suc n \<Rightarrow> Some (st\<lparr>tp_editingToken := None, tp_editTimers := n\<rparr>))"
| "token_handler env (DialogSaved page pageSize) st = Some (refreshTokens page pageSize st)"
| "token_handler env DeleteSelected st = Some (batchDeleteTokens st)"
| "token_handler env (CopySelected ct) st = Some (batchCopyTokens ct st)"
| "token_handler env (DeletionTimer k) st =
     (if k < length (tp_timers st)
      then case tp_timers st ! k of (rows, page, pageSize) \<Rightarrow>
             Some (batch_timer rows page pageSize (st\<lparr>tp_timers := remove_nth k (tp_timers st)\<rparr>))
      else None)"
| "token_handler env (SortRows cmp) st = Some (sortToken cmp st)"
| "token_handler env (Answered k ans) st =
     (if k < length (tp_calls st)
      then answer_token_call env (tp_calls st ! k) ans (st\<lparr>tp_calls := remove_nth k (tp_calls st)\<rparr>) else None)"

text \<open>The effect on the page size loads the first page and the groups.\<close>

definition size_effect :: "tokens_page \<Rightarrow> tokens_page" where
  "size_effect st = begin_token_call GroupsCall (loadTokens 1 (tp_pageSize st) (tp_pageSize st) JustLoad st)"

definition token_step :: "token_env \<Rightarrow> token_event \<Rightarrow> tokens_page \<Rightarrow> tokens_page option" where
  "token_step env ev st =
     map_option (\<lambda>st'. if tp_pageSize st' = tp_pageSize st then st' else size_effect st') (token_handler env ev st)"

fun token_run :: "token_env \<Rightarrow> token_event list \<Rightarrow> tokens_page \<Rightarrow> tokens_page option" where
  "token_run env [] st = Some st"
| "token_run env (ev # evs) st =
     (case token_step env ev st of None \<Rightarrow> None | Some st' \<Rightarrow> token_run env evs st')"

text \<open>The page after its first render.\<close>

definition initial_tokens :: tokens_page where
  "initial_tokens = size_effect
     \<lparr>tp_store = [], tp_tokens = [], tp_loading = True, tp_activePage = 1, tp_tokenCount = 0, tp_pageSize = ITEMS_PER_PAGE,
      tp_searching = False, tp_searchMode = False, tp_selectedKeys = [], tp_showEdit = False, tp_editingToken = None,
      tp_showKeys = (\<lambda>_. False), tp_resolved = (\<lambda>_. None), tp_loadingKeys = (\<lambda>_. False), tp_keyRequests = (\<lambda>_. False),
      tp_waiters = [], tp_keyword = [], tp_searchToken = [], tp_groupRatios = [], tp_calls = [], tp_timers = [], tp_resets = [], tp_editTimers = 0, tp_log = []\<rparr>"

end
