(* ===== verification/Tokens_Proofs.thy ===== *)
theory Tokens_Proofs
  imports Tokens_Page
begin

text \<open>
  The list of API tokens: what is asked for is encoded without collisions, a key is requested once and
  serves everybody who waits for it, only revealed keys are shown, and what loads of different page sizes do.
\<close>

section \<open>Encodings\<close>

lemma hex_upper_inj: "m < 16 \<Longrightarrow> n < 16 \<Longrightarrow> hex_upper m = hex_upper n \<Longrightarrow> m = n"
  by (auto simp: hex_upper_def split: if_splits dest!: arg_cong [of _ _ "of_char :: char \<Rightarrow> nat"])

lemma of_char_less: "(of_char c :: nat) < 256"
  by (metis of_char_mod_256 mod_less_divisor zero_less_numeral)

lemma uri_byte_split:
  assumes "uri_byte c @ r = uri_byte d @ s"
  shows "c = d" "r = s"
proof -
  have pc: "\<not> uri_unreserved CHR ''%''" by code_simp
  have hex: "m = n" if "hex_upper (m div 16) = hex_upper (n div 16)" "hex_upper (m mod 16) = hex_upper (n mod 16)" "m < 256" "n < 256"
    for m n :: nat
  proof -
    have "m div 16 < 16" "n div 16 < 16" "m mod 16 < 16" "n mod 16 < 16" using that(3,4) by auto
    then have "m div 16 = n div 16" "m mod 16 = n mod 16" using that(1,2) hex_upper_inj by blast+
    then show ?thesis by (metis div_mult_mod_eq)
  qed
  show "c = d"
    using assms pc hex [of "of_char c" "of_char d"] of_char_less [of c] of_char_less [of d]
    by (auto simp: uri_byte_def Let_def split: if_splits)
  with assms show "r = s" by simp
qed

lemma uri_byte_nonempty: "uri_byte c \<noteq> []"
  by (simp add: uri_byte_def Let_def)

lemma encodeURIComponent_inj: "encodeURIComponent s = encodeURIComponent t \<longleftrightarrow> s = t"
proof (induction s arbitrary: t)
  case Nil
  then show ?case by (cases t) (simp_all add: encodeURIComponent_def uri_byte_nonempty)
next
  case (Cons c s)
  show ?case
  proof (cases t)
    case (Cons d t')
    then show ?thesis using uri_byte_split [of c "encodeURIComponent s" d "encodeURIComponent t'"] Cons.IH [of t']
      by (auto simp: encodeURIComponent_def)
  qed (simp add: encodeURIComponent_def uri_byte_nonempty)
qed

lemma hex_upper_free: "d < 16 \<Longrightarrow> hex_upper d \<noteq> CHR ''&''"
  by (auto simp: hex_upper_def split: if_splits dest!: arg_cong [of _ _ "of_char :: char \<Rightarrow> nat"])

lemma encoded_free: "CHR ''&'' \<notin> set (encodeURIComponent s)"
proof -
  have "\<not> uri_unreserved CHR ''&''" by code_simp
  moreover have "(of_char c :: nat) div 16 < 16" for c :: char
    using of_char_less [of c] by (intro less_mult_imp_div_less) simp
  ultimately have "CHR ''&'' \<notin> set (uri_byte c)" for c
    using hex_upper_free [of "of_char c div 16"] hex_upper_free [of "of_char c mod 16"] by (auto simp: uri_byte_def Let_def)
  then show ?thesis by (auto simp: encodeURIComponent_def)
qed

lemma split_at_free:
  "x \<notin> set as \<Longrightarrow> x \<notin> set bs \<Longrightarrow> as @ x # cs = bs @ x # ds \<Longrightarrow> as = bs \<and> cs = ds"
  by (induction as arbitrary: bs) (auto simp: Cons_eq_append_conv)

text \<open>
  Searches for different texts ask for different addresses, whatever the texts contain.
\<close>

theorem token_search_url_injective:
  assumes "token_search_url k t p n = token_search_url k' t' p n"
  shows "k = k' \<and> t = t'"
proof -
  have "encodeURIComponent k = encodeURIComponent k' \<and>
     ''token='' @ encodeURIComponent t @ ''&p='' @ tk_num p @ ''&size='' @ tk_num n =
     ''token='' @ encodeURIComponent t' @ ''&p='' @ tk_num p @ ''&size='' @ tk_num n"
    using assms by (intro split_at_free [OF encoded_free encoded_free]) (simp add: token_search_url_def)
  then show ?thesis by (simp add: encodeURIComponent_inj)
qed

text \<open>
  A connection text is read back as the key and the address it was made of.
\<close>

theorem connection_roundtrip:
  "parseChannelConnectionString (encodeChannelConnectionString (Str key) (Str url)) = Some (key, url)"
proof -
  let ?ps = "[(''_type'', Str CHANNEL_CONN_CLIPBOARD_TYPE), (''key'', Str key), (''url'', Str url)]"
  let ?t = "the (json_stringify (Obj ?ps))"
  have "\<not> is_index ''_type''" "\<not> is_index ''key''" "\<not> is_index ''url''" by code_simp+
  then have data: "json_data (Obj ?ps)" by (intro json_data_named) simp_all
  have "json_parse [] = None" by code_simp
  with json.parse_print [OF data] have "?t \<noteq> []" by (auto simp del: json_stringify.simps)
  with json.parse_print [OF data] quoted_object_trim [OF data] show ?thesis
    by (simp add: parseChannelConnectionString_def encodeChannelConnectionString_def del: json_stringify.simps)
qed

section \<open>Runs with honest answers\<close>

text \<open>The answers about keys agree with the keys the server holds.\<close>

fun honest_answer :: "(int \<Rightarrow> string) \<Rightarrow> token_call \<Rightarrow> token_answer \<Rightarrow> bool" where
  "honest_answer keys (KeyCall i) (KeyAnswer key) = (key = keys i)"
| "honest_answer keys (BatchCopyCall ct rows) (KeysAnswer ks) = list_all (\<lambda>(i, key). key = keys i) ks"
| "honest_answer keys c ans = True"

fun honest_event :: "(int \<Rightarrow> string) \<Rightarrow> tokens_page \<Rightarrow> token_event \<Rightarrow> bool" where
  "honest_event keys st (Answered k ans) = (k < length (tp_calls st) \<longrightarrow> honest_answer keys (tp_calls st ! k) ans)"
| "honest_event keys st ev = True"

inductive token_reach :: "(int \<Rightarrow> string) \<Rightarrow> token_env \<Rightarrow> tokens_page \<Rightarrow> bool" for keys env where
  token_init: "token_reach keys env initial_tokens"
| token_next: "token_reach keys env st \<Longrightarrow> honest_event keys st ev \<Longrightarrow> token_step env ev st = Some st' \<Longrightarrow> token_reach keys env st'"

section \<open>The parts of the state that concern keys\<close>

text \<open>
  Of the calls only the requests for keys matter. An operation that leaves all of this as it is keeps every
  statement about keys.
\<close>

definition key_view :: "tokens_page \<Rightarrow> (int \<Rightarrow> nat) \<times> (int \<Rightarrow> bool) \<times> (int \<Rightarrow> bool) \<times> (int \<times> key_purpose) list \<times>
    (int \<Rightarrow> string option) \<times> token_output list" where
  "key_view st = ((\<lambda>i. count_list (tp_calls st) (KeyCall i)), tp_keyRequests st, tp_loadingKeys st, tp_waiters st, tp_resolved st, tp_log st)"

definition hides_only :: "tokens_page \<Rightarrow> tokens_page \<Rightarrow> bool" where
  "hides_only st st' \<longleftrightarrow> key_view st' = key_view st \<and> (\<forall>i. tp_showKeys st' i \<longrightarrow> tp_showKeys st i)"

lemma hides_onlyI:
  assumes "\<And>i. count_list (tp_calls st') (KeyCall i) = count_list (tp_calls st) (KeyCall i)"
    "tp_keyRequests st' = tp_keyRequests st" "tp_loadingKeys st' = tp_loadingKeys st" "tp_waiters st' = tp_waiters st"
    "tp_resolved st' = tp_resolved st" "tp_log st' = tp_log st" "\<And>i. tp_showKeys st' i \<Longrightarrow> tp_showKeys st i"
  shows "hides_only st st'"
  using assms by (simp add: hides_only_def key_view_def)

lemma hides_only_trans: "hides_only a b \<Longrightarrow> hides_only b c \<Longrightarrow> hides_only a c"
  by (simp add: hides_only_def)

lemma hides_only_refl: "hides_only st st"
  by (simp add: hides_only_def)

named_theorems hide_ops

lemma begin_token_call_hides [hide_ops]: "(\<And>i. c \<noteq> KeyCall i) \<Longrightarrow> hides_only st (begin_token_call c st)"
  by (rule hides_onlyI) (auto simp: begin_token_call_def)

lemma loadTokens_hides [hide_ops]: "hides_only st (loadTokens p n m after st)"
  by (rule hides_onlyI) (auto simp: loadTokens_def begin_token_call_def)

lemma refreshTokens_hides [hide_ops]: "hides_only st (refreshTokens p n st)"
  by (simp add: refreshTokens_def loadTokens_hides)

lemma searchTokens_hides [hide_ops]: "hides_only st (searchTokens m p n st)"
  by (rule hides_onlyI) (auto simp: searchTokens_def Let_def loadTokens_def begin_token_call_def split: if_splits)

lemma syncPageData_hides [hide_ops]: "hides_only st (syncPageData m payload st)"
  by (rule hides_onlyI) (auto simp: syncPageData_def Let_def)

lemma finish_load_hides [hide_ops]: "hides_only st (finish_load after st)"
  by (rule hides_onlyI) (auto simp: finish_load_def split: after_load.splits)

lemma size_effect_hides [hide_ops]: "hides_only st (size_effect st)"
  by (rule hides_onlyI) (auto simp: size_effect_def loadTokens_def begin_token_call_def)

lemma answer_load_hides: "answer_load_call m after ans st = Some st' \<Longrightarrow> hides_only st st'"
  by (rule hides_onlyI)
    (auto simp: answer_load_call_def finish_load_def syncPageData_def Let_def split: token_answer.splits after_load.splits)

lemma answer_search_hides: "answer_search_call m ans st = Some st' \<Longrightarrow> hides_only st st'"
  by (rule hides_onlyI) (auto simp: answer_search_call_def syncPageData_def Let_def split: token_answer.splits)

lemma answer_manage_hides: "answer_manage_call action a rows p m ans st = Some st' \<Longrightarrow> hides_only st st'"
  by (rule hides_onlyI)
    (auto simp: answer_manage_call_def refreshTokens_def loadTokens_def begin_token_call_def split: token_answer.splits)

lemma answer_delete_hides: "answer_delete_call rows p m ans st = Some st' \<Longrightarrow> hides_only st st'"
  by (rule hides_onlyI) (auto simp: answer_delete_call_def loadTokens_def begin_token_call_def split: token_answer.splits)

lemma answer_groups_hides: "answer_groups_call ans st = Some st' \<Longrightarrow> hides_only st st'"
  by (rule hides_onlyI) (auto simp: answer_groups_call_def split: token_answer.splits)

lemmas answer_hides = answer_load_hides answer_search_hides answer_manage_hides answer_delete_hides answer_groups_hides

section \<open>Keys\<close>

definition requests_ok :: "tokens_page \<Rightarrow> bool" where
  "requests_ok st \<longleftrightarrow>
     (\<forall>i. count_list (tp_calls st) (KeyCall i) = (if tp_keyRequests st i then 1 else 0)) \<and>
     tp_loadingKeys st = tp_keyRequests st \<and> (\<forall>w \<in> set (tp_waiters st). tp_keyRequests st (fst w))"

text \<open>
  An output belongs to its token: a link is the template filled with the key of the token, and a batch has
  for each of its rows, in order, no line or the line with the key of that row.
\<close>

fun genuine_output :: "(int \<Rightarrow> string) \<Rightarrow> token_env \<Rightarrow> token_output \<Rightarrow> bool" where
  "genuine_output keys env (CopiedKey i s) = (s = sk (keys i))"
| "genuine_output keys env (CopiedConnection i s) = (s = encodeChannelConnectionString (Str (sk (keys i))) (getServerAddress env))"
| "genuine_output keys env (Linked i url act) = (open_link env url (keys i) = Inr act)"
| "genuine_output keys env (CopiedBatch ct rows s) =
     (\<exists>answered. s = concat (map (copied_line ct (\<lambda>i. if i \<in> answered then Some (keys i) else None)) rows))"

definition keys_ok :: "(int \<Rightarrow> string) \<Rightarrow> token_env \<Rightarrow> tokens_page \<Rightarrow> bool" where
  "keys_ok keys env st \<longleftrightarrow>
     (\<forall>i key. tp_resolved st i = Some key \<longrightarrow> key = keys i) \<and> (\<forall>i. tp_showKeys st i \<longrightarrow> tp_resolved st i = Some (keys i)) \<and>
     (\<forall>out \<in> set (tp_log st). genuine_output keys env out)"

lemma keys_okI:
  assumes "\<And>i key. tp_resolved st i = Some key \<Longrightarrow> key = keys i" "\<And>i. tp_showKeys st i \<Longrightarrow> tp_resolved st i = Some (keys i)"
    "\<And>out. out \<in> set (tp_log st) \<Longrightarrow> genuine_output keys env out"
  shows "keys_ok keys env st"
  using assms unfolding keys_ok_def by blast

lemma keys_okD:
  assumes "keys_ok keys env st"
  shows "tp_resolved st i = Some key \<Longrightarrow> key = keys i" "tp_showKeys st i \<Longrightarrow> tp_resolved st i = Some (keys i)"
    "out \<in> set (tp_log st) \<Longrightarrow> genuine_output keys env out"
  using assms unfolding keys_ok_def by blast+

lemma requests_ok_hides: "hides_only st st' \<Longrightarrow> requests_ok st \<Longrightarrow> requests_ok st'"
  unfolding hides_only_def key_view_def requests_ok_def prod.inject by metis

lemma keys_ok_hides: "hides_only st st' \<Longrightarrow> keys_ok keys env st \<Longrightarrow> keys_ok keys env st'"
  unfolding hides_only_def key_view_def keys_ok_def prod.inject by metis

lemma count_remove_nth:
  assumes "k < length xs"
  shows "count_list (remove_nth k xs) y + (if xs ! k = y then 1 else 0) = count_list xs y"
proof -
  have "count_list xs y = count_list (take k xs @ xs ! k # drop (Suc k) xs) y" using id_take_nth_drop [OF assms] by simp
  also have "\<dots> = count_list (remove_nth k xs) y + (if xs ! k = y then 1 else 0)" by (simp add: remove_nth_def)
  finally show ?thesis by simp
qed

definition drop_token_call :: "nat \<Rightarrow> tokens_page \<Rightarrow> tokens_page" where
  "drop_token_call k st = st\<lparr>tp_calls := remove_nth k (tp_calls st)\<rparr>"

lemma drop_token_call_hides:
  "k < length (tp_calls st) \<Longrightarrow> (\<And>i. tp_calls st ! k \<noteq> KeyCall i) \<Longrightarrow> hides_only st (drop_token_call k st)"
  using count_remove_nth [of k "tp_calls st", symmetric] by (intro hides_onlyI) (simp_all add: drop_token_call_def)

text \<open>Using a key leaves the requests alone and logs only what belongs to the key.\<close>

lemma use_key_requests: "requests_ok (use_key env i key p st) \<longleftrightarrow> requests_ok st"
  by (auto simp: requests_ok_def use_key_def log_output_def split: key_purpose.splits sum.splits)

lemma use_key_ok:
  assumes "keys_ok keys env st" "tp_resolved st i = Some (keys i)"
  shows "keys_ok keys env (use_key env i (keys i) p st)" "tp_resolved (use_key env i (keys i) p st) i = Some (keys i)"
proof -
  note ok = keys_okD [OF assms(1)]
  show "tp_resolved (use_key env i (keys i) p st) i = Some (keys i)"
    using assms(2) by (simp add: use_key_def log_output_def split: key_purpose.split sum.split)
  show "keys_ok keys env (use_key env i (keys i) p st)"
  proof (cases p)
    case ShowKey
    then show ?thesis using assms(2) by (intro keys_okI) (auto simp: use_key_def dest: ok split: if_splits)
  next
    case (FillLink url)
    then show ?thesis
      by (intro keys_okI) (auto simp: use_key_def log_output_def dest: ok split: sum.splits)
  qed (intro keys_okI; auto simp: use_key_def log_output_def dest: ok)+
qed

lemma use_keys_requests: "requests_ok (foldl (\<lambda>s p. use_key env i key p s) st ps) \<longleftrightarrow> requests_ok st"
  by (induction ps arbitrary: st) (simp_all add: use_key_requests)

lemma use_keys_ok:
  "keys_ok keys env st \<Longrightarrow> tp_resolved st i = Some (keys i) \<Longrightarrow> keys_ok keys env (foldl (\<lambda>s p. use_key env i (keys i) p s) st ps)"
  by (induction ps arbitrary: st) (simp_all add: use_key_ok)

lemma fetch_requests: "requests_ok st \<Longrightarrow> requests_ok (fetchTokenKey env i p st)"
  by (auto simp: fetchTokenKey_def Let_def use_key_requests split: option.splits)
    (auto simp: requests_ok_def begin_token_call_def)

lemma fetch_keys: "keys_ok keys env st \<Longrightarrow> keys_ok keys env (fetchTokenKey env i p st)"
proof -
  assume ok: "keys_ok keys env st"
  show ?thesis
  proof (cases "resolved_key st i")
    case (Some key)
    then have "tp_resolved st i = Some (keys i)" "key = keys i"
      using ok by (auto simp: resolved_key_def keys_ok_def split: option.splits if_splits)
    with Some ok show ?thesis by (simp add: fetchTokenKey_def use_key_ok)
  next
    case None
    then show ?thesis
      by (intro keys_okI) (auto simp: fetchTokenKey_def Let_def begin_token_call_def dest: keys_okD [OF ok] split: if_splits)
  qed
qed

lemma key_answer_ok:
  assumes "requests_ok st" "keys_ok keys env st" "k < length (tp_calls st)" "tp_calls st ! k = KeyCall i"
    "honest_answer keys (KeyCall i) ans" "answer_key_call env i ans (drop_token_call k st) = Some st'"
  shows "requests_ok st'" "keys_ok keys env st'"
proof -
  have req: "requests_ok (end_key_request i (drop_token_call k st\<lparr>tp_resolved := r\<rparr>))" for r
  proof -
    have "count_list (remove_nth k (tp_calls st)) (KeyCall j) = (if j \<noteq> i \<and> tp_keyRequests st j then 1 else 0)" for j
      using count_remove_nth [OF assms(3), of "KeyCall j"] assms(1,4) by (auto simp: requests_ok_def split: if_splits)
    then show ?thesis using assms(1) by (auto simp: requests_ok_def end_key_request_def drop_token_call_def)
  qed
  have keys: "keys_ok keys env (end_key_request i (drop_token_call k st))"
    "keys_ok keys env (end_key_request i (drop_token_call k st\<lparr>tp_resolved := (tp_resolved st)(i := Some (keys i))\<rparr>))"
    by (intro keys_okI; auto simp: end_key_request_def drop_token_call_def dest: keys_okD [OF assms(2)] split: if_splits)+
  show "requests_ok st'"
    using assms(5,6) req [of "tp_resolved st"] req
    by (auto simp: answer_key_call_def use_keys_requests drop_token_call_def split: token_answer.splits if_splits)
  show "keys_ok keys env st'"
    using assms(5,6) keys
    by (auto simp: answer_key_call_def drop_token_call_def split: token_answer.splits if_splits intro!: use_keys_ok) (simp add: end_key_request_def)
qed

lemma batch_answer_ok:
  assumes "requests_ok st" "keys_ok keys env st" "honest_answer keys (BatchCopyCall ct rows) ans" "answer_copy_call ct rows ans st = Some st'"
  shows "requests_ok st'" "keys_ok keys env st'"
proof -
  show "requests_ok st'"
    using assms(1,4) by (cases ans) (simp_all add: answer_copy_call_def requests_ok_def log_output_def, clarsimp)
  show "keys_ok keys env st'"
  proof (cases ans)
    case (KeysAnswer ks)
    have km: "map_of ks i = Some key \<Longrightarrow> key = keys i" for i key
      using assms(3) KeysAnswer by (auto simp: list_all_iff dest: map_of_SomeD)
    have st': "st' = log_output (CopiedBatch ct (map (row_at st) rows) (concat (map (copied_line ct (map_of ks)) (map (row_at st) rows))))
        (st\<lparr>tp_resolved := tp_resolved st ++ map_of ks\<rparr>)"
      using assms(4) KeysAnswer by (simp add: answer_copy_call_def)
    show ?thesis
    proof (rule keys_okI)
      fix i key assume "tp_resolved st' i = Some key"
      then show "key = keys i" unfolding st' by (auto simp: log_output_def map_add_Some_iff dest: km keys_okD [OF assms(2)])
    next
      fix i assume "tp_showKeys st' i"
      then have "tp_resolved st i = Some (keys i)" unfolding st' by (auto simp: log_output_def dest: keys_okD [OF assms(2)])
      then show "tp_resolved st' i = Some (keys i)" unfolding st'
        by (cases "map_of ks i") (auto simp: log_output_def map_add_def dest: km)
    next
      fix out assume "out \<in> set (tp_log st')"
      then consider "out \<in> set (tp_log st)" | "out = CopiedBatch ct (map (row_at st) rows) (concat (map (copied_line ct (map_of ks)) (map (row_at st) rows)))"
        unfolding st' by (auto simp: log_output_def)
      then show "genuine_output keys env out"
      proof cases
        case 2
        have "map_of ks = (\<lambda>i. if i \<in> dom (map_of ks) then Some (keys i) else None)" using km by (fastforce split: option.split)
        then show ?thesis unfolding 2 genuine_output.simps by metis
      qed (rule keys_okD [OF assms(2)])
    qed
  qed (use assms(2,4) in \<open>auto simp: answer_copy_call_def\<close>)
qed

lemma answered_ok:
  assumes "requests_ok st" "keys_ok keys env st" "k < length (tp_calls st)" "honest_answer keys (tp_calls st ! k) ans"
    "answer_token_call env (tp_calls st ! k) ans (drop_token_call k st) = Some st'"
  shows "requests_ok st' \<and> keys_ok keys env st'"
proof (cases "\<exists>i. tp_calls st ! k = KeyCall i")
  case True
  then show ?thesis using assms key_answer_ok [of st keys env k] by (auto simp: answer_token_call_def)
next
  case False
  then have d: "requests_ok (drop_token_call k st)" "keys_ok keys env (drop_token_call k st)"
    using drop_token_call_hides [OF assms(3)] assms(1,2) requests_ok_hides keys_ok_hides by blast+
  show ?thesis
  proof (cases "\<exists>ct rows. tp_calls st ! k = BatchCopyCall ct rows")
    case True
    then show ?thesis using assms(4,5) batch_answer_ok [OF d] by (auto simp: answer_token_call_def)
  next
    case False
    with \<open>\<nexists>i. tp_calls st ! k = KeyCall i\<close> have "hides_only (drop_token_call k st) st'"
      using assms(5) answer_hides by (auto simp: answer_token_call_def split: token_call.splits)
    with d show ?thesis using requests_ok_hides keys_ok_hides by blast
  qed
qed

lemma hide_key_hides: "hides_only st (st\<lparr>tp_showKeys := (tp_showKeys st)(i := False)\<rparr>)"
  by (rule hides_onlyI) (auto split: if_splits)

lemma toggle_keys_ok:
  assumes "requests_ok st" "keys_ok keys env st"
  shows "requests_ok (toggleTokenVisibility env i st) \<and> keys_ok keys env (toggleTokenVisibility env i st)"
  using assms fetch_requests [OF assms(1)] fetch_keys [OF assms(2)] requests_ok_hides [OF hide_key_hides] keys_ok_hides [OF hide_key_hides]
  by (simp add: toggleTokenVisibility_def)

text \<open>Every handler that is not about keys.\<close>

lemma handler_hides:
  assumes "token_handler env ev st = Some st'" "\<And>k. ev \<noteq> ToggleKey k" "\<And>k p. ev \<noteq> WantKey k p" "\<And>k ans. ev \<noteq> Answered k ans"
  shows "hides_only st st'"
proof (cases ev)
  case (SetPageSize n)
  then have "st' = handleTokenPageSizeChange n st" using assms(1) by (simp split: if_splits)
  then show ?thesis
    by (intro hides_onlyI)
      (auto simp: handleTokenPageSizeChange_def searchTokens_def loadTokens_def begin_token_call_def Let_def split: if_splits)
next
  case PressSearch
  then show ?thesis using assms(1) by (auto simp: searchTokens_hides)
next
  case (DialogSaved p n)
  then show ?thesis using assms(1) by (auto simp: refreshTokens_hides)
next
  case (GoToPage p)
  then show ?thesis using assms(1) by (auto simp: handleTokenPageChange_def searchTokens_hides loadTokens_hides)
next
  case ResetTimer
  then show ?thesis using assms(1)
    by (intro hides_onlyI) (auto simp: searchTokens_def loadTokens_def begin_token_call_def Let_def split: list.splits if_splits)
next
  case (DeletionTimer k)
  then show ?thesis using assms(1)
    by (intro hides_onlyI) (auto simp: batch_timer_def refreshTokens_def loadTokens_def begin_token_call_def split: prod.splits if_splits)
next
  case (ManageRow action k)
  then show ?thesis using assms(1) by (intro hides_onlyI) (auto simp: on_row_def manageToken_def begin_token_call_def split: if_splits)
next
  case DeleteSelected
  then show ?thesis using assms(1) by (intro hides_onlyI) (auto simp: batchDeleteTokens_def begin_token_call_def split: if_splits)
next
  case (CopySelected ct)
  then show ?thesis using assms(1) by (intro hides_onlyI) (auto simp: batchCopyTokens_def begin_token_call_def split: if_splits)
next
  case (SortRows cmp)
  then show ?thesis using assms(1) by (intro hides_onlyI) (auto simp: sortToken_def Let_def split: if_splits)
qed (use assms in \<open>auto simp: on_row_def intro!: hides_onlyI split: if_splits nat.splits\<close>)

lemma handler_ok:
  assumes "token_handler env ev st = Some st'" "honest_event keys st ev" "requests_ok st" "keys_ok keys env st"
  shows "requests_ok st' \<and> keys_ok keys env st'"
proof (cases "(\<exists>k. ev = ToggleKey k) \<or> (\<exists>k p. ev = WantKey k p) \<or> (\<exists>k ans. ev = Answered k ans)")
  case True
  then show ?thesis
    using assms answered_ok [OF assms(3,4)] toggle_keys_ok [OF assms(3,4)] fetch_requests [OF assms(3)] fetch_keys [OF assms(4)]
    by (auto simp: on_row_def drop_token_call_def split: if_splits)
next
  case False
  then have "hides_only st st'" using handler_hides [OF assms(1)] by blast
  with assms(3,4) show ?thesis using requests_ok_hides keys_ok_hides by blast
qed

lemma initial_tokens_ok: "requests_ok initial_tokens" "keys_ok keys env initial_tokens"
proof -
  show "requests_ok initial_tokens"
    by (simp add: requests_ok_def initial_tokens_def size_effect_def loadTokens_def begin_token_call_def)
  show "keys_ok keys env initial_tokens"
    by (rule keys_okI) (simp_all add: initial_tokens_def size_effect_def loadTokens_def begin_token_call_def)
qed

lemma reach_ok: "token_reach keys env st \<Longrightarrow> requests_ok st \<and> keys_ok keys env st"
proof (induction rule: token_reach.induct)
  case (token_next st ev st')
  then obtain h where h: "token_handler env ev st = Some h" "st' = (if tp_pageSize h = tp_pageSize st then h else size_effect h)"
    by (auto simp: token_step_def)
  with token_next handler_ok [OF h(1)] have "requests_ok h \<and> keys_ok keys env h" by blast
  with h(2) show ?case using requests_ok_hides [OF size_effect_hides] keys_ok_hides [OF size_effect_hides] by auto
qed (simp add: initial_tokens_ok)

text \<open>
  C13: in every run there is at most one request for the key of a token under way, exactly while its
  spinner is shown, and whoever waits for a key waits for such a request.
\<close>

theorem one_key_request:
  assumes "token_reach keys env st"
  shows "count_list (tp_calls st) (KeyCall i) = (if tp_loadingKeys st i then 1 else 0) \<and>
    ((i, purpose) \<in> set (tp_waiters st) \<longrightarrow> KeyCall i \<in> set (tp_calls st))"
proof -
  have r: "requests_ok st" using reach_ok [OF assms] by blast
  then have c: "count_list (tp_calls st) (KeyCall i) = (if tp_keyRequests st i then 1 else 0)" "tp_loadingKeys st = tp_keyRequests st"
    by (simp_all add: requests_ok_def)
  have "KeyCall i \<in> set (tp_calls st)" if "(i, purpose) \<in> set (tp_waiters st)"
  proof -
    have "tp_keyRequests st i" using r that by (force simp: requests_ok_def)
    with c(1) show ?thesis by (metis count_notin one_neq_zero)
  qed
  with c show ?thesis by simp
qed

text \<open>
  C11: with a server that hands out its own keys, none of them empty, the column shows the full key of a token exactly
  when it is revealed and otherwise the masked one, and everything that was copied or opened carries the key of
  the token it was asked for: a link is the chosen template filled with that key, and a batch pairs the name of
  every copied row with the key of that row, in the order of the rows.
\<close>

theorem keys_shown_and_copied:
  assumes "token_reach keys env st" "\<And>i. keys i \<noteq> []" "tk_key row \<noteq> []"
  shows "displayedKey st row = sk (if tp_showKeys st (tk_id row) then keys (tk_id row) else tk_key row) \<and>
    list_all (genuine_output keys env) (tp_log st)"
proof -
  have ok: "keys_ok keys env st" using reach_ok [OF assms(1)] by blast
  have "displayedKey st row = sk (if tp_showKeys st (tk_id row) then keys (tk_id row) else tk_key row)"
  proof (cases "tp_showKeys st (tk_id row)")
    case True
    with keys_okD(2) [OF ok] assms(2) show ?thesis by (simp add: displayedKey_def resolved_key_def)
  next
    case False
    with assms(3) show ?thesis by (simp add: displayedKey_def Let_def split: option.split)
  qed
  with keys_okD(3) [OF ok] show ?thesis by (simp add: list_all_iff)
qed


section \<open>No click is lost\<close>

text \<open>What a use of a key leaves in the log.\<close>

fun purpose_output :: "token_env \<Rightarrow> int \<Rightarrow> string \<Rightarrow> key_purpose \<Rightarrow> token_output list" where
  "purpose_output env i key ShowKey = []"
| "purpose_output env i key CopyKey = [CopiedKey i (sk key)]"
| "purpose_output env i key CopyConnection =
     [CopiedConnection i (encodeChannelConnectionString (Str (sk key)) (getServerAddress env))]"
| "purpose_output env i key (FillLink url) = (case open_link env url key of Inl e \<Rightarrow> [] | Inr act \<Rightarrow> [Linked i url act])"

lemma use_keys_effect:
  "key \<noteq> [] \<Longrightarrow>
   tp_log (foldl (\<lambda>s p. use_key env i key p s) st ps) = tp_log st @ concat (map (purpose_output env i key) ps) \<and>
   tp_showKeys (foldl (\<lambda>s p. use_key env i key p s) st ps) =
     (tp_showKeys st)(i := tp_showKeys st i \<or> ShowKey \<in> set ps) \<and>
   tp_waiters (foldl (\<lambda>s p. use_key env i key p s) st ps) = tp_waiters st"
proof (induction ps arbitrary: st)
  case (Cons p ps)
  from Cons.IH [OF Cons.prems, of "use_key env i key p st"] Cons.prems show ?case
    by (cases p) (auto simp: use_key_def log_output_def split: sum.split)
qed simp

lemma answered_key:
  assumes "calls = tp_calls st" "k < length calls" "calls ! k = KeyCall i" "key \<noteq> []"
  obtains st' where "token_step env (Answered k (KeyAnswer key)) st = Some st'"
    "tp_log st' = tp_log st @ concat (map (purpose_output env i key) (map snd (filter (\<lambda>w. fst w = i) (tp_waiters st))))"
    "tp_showKeys st' = (tp_showKeys st)(i := tp_showKeys st i \<or> (i, ShowKey) \<in> set (tp_waiters st))"
    "tp_waiters st' = filter (\<lambda>w. fst w \<noteq> i) (tp_waiters st)"
proof -
  let ?d = "end_key_request i (st\<lparr>tp_calls := remove_nth k (tp_calls st), tp_resolved := (tp_resolved st)(i := Some key)\<rparr>)"
  let ?ps = "map snd (filter (\<lambda>w. fst w = i) (tp_waiters st))"
  let ?r = "foldl (\<lambda>s p. use_key env i key p s) ?d ?ps"
  have size: "tp_pageSize (foldl (\<lambda>s p. use_key env i key p s) s ps) = tp_pageSize s" for s ps
    by (induction ps arbitrary: s) (simp_all add: use_key_def log_output_def split: key_purpose.split sum.split)
  have "token_step env (Answered k (KeyAnswer key)) st = Some ?r"
    using assms size [of ?d ?ps] by (simp add: token_step_def answer_token_call_def answer_key_call_def end_key_request_def)
  moreover have "ShowKey \<in> set ?ps \<longleftrightarrow> (i, ShowKey) \<in> set (tp_waiters st)" by force
  ultimately show ?thesis
    using that [of ?r] use_keys_effect [OF assms(4), of env i ?d ?ps] by (simp add: end_key_request_def)
qed

text \<open>
  C27: whoever waits for the key of a token gets it: the request is among the calls under way, and
  its answer serves all who wait for this key, reveals it if that was asked for, and leaves nobody waiting.
\<close>

theorem waiting_is_served:
  assumes "token_reach keys env st" "\<And>i. keys i \<noteq> []" "(i, purpose) \<in> set (tp_waiters st)"
  shows "\<exists>k st'. k < length (tp_calls st) \<and> tp_calls st ! k = KeyCall i \<and>
    token_step env (Answered k (KeyAnswer (keys i))) st = Some st' \<and> set (purpose_output env i (keys i) purpose) \<subseteq> set (tp_log st') \<and>
    (purpose = ShowKey \<longrightarrow> tp_showKeys st' i) \<and> i \<notin> fst ` set (tp_waiters st')"
proof -
  have "requests_ok st" using reach_ok [OF assms(1)] by blast
  then have "tp_keyRequests st i" "count_list (tp_calls st) (KeyCall i) = (if tp_keyRequests st i then 1 else 0)"
    using assms(3) by (force simp: requests_ok_def)+
  then have "KeyCall i \<in> set (tp_calls st)" by (metis count_notin one_neq_zero)
  then obtain k where k: "k < length (tp_calls st)" "tp_calls st ! k = KeyCall i" by (auto simp: in_set_conv_nth)
  obtain st' where st': "token_step env (Answered k (KeyAnswer (keys i))) st = Some st'"
    "tp_log st' = tp_log st @ concat (map (purpose_output env i (keys i)) (map snd (filter (\<lambda>w. fst w = i) (tp_waiters st))))"
    "tp_showKeys st' = (tp_showKeys st)(i := tp_showKeys st i \<or> (i, ShowKey) \<in> set (tp_waiters st))"
    "tp_waiters st' = filter (\<lambda>w. fst w \<noteq> i) (tp_waiters st)"
    using answered_key [OF refl k assms(2)] by metis
  have "purpose \<in> set (map snd (filter (\<lambda>w. fst w = i) (tp_waiters st)))" using assms(3) by force
  then have "set (purpose_output env i (keys i) purpose) \<subseteq> set (tp_log st')" unfolding st'(2) by auto
  then show ?thesis using k st' assms(3) by (intro exI [of _ k] exI [of _ st']) auto
qed

section \<open>The page size\<close>

text \<open>
  A new page size in the search view starts the search again and loads the whole list at the
  same time, and the page leaves the search view.
\<close>

theorem page_size_leaves_search:
  assumes "tp_searchMode st" "tp_keyword st \<noteq> []" "0 < n" "n \<noteq> tp_pageSize st"
  shows "\<exists>st'. token_step env (SetPageSize n) st = Some st' \<and> \<not> tp_searchMode st' \<and> tp_searching st' \<and> tp_loading st' \<and>
    tp_calls st' = tp_calls st @ [SearchCall (tp_keyword st) (tp_searchToken st) 1 n (tp_pageSize st), LoadCall 1 n n JustLoad, GroupsCall]"
  using assms
  by (simp add: token_step_def handleTokenPageSizeChange_def searchTokens_def begin_token_call_def size_effect_def loadTokens_def Let_def)

definition page_of :: "int \<Rightarrow> token_answer" where
  "page_of n = PageAnswer \<lparr>pl_items = [], pl_total = 0, pl_page = 1, pl_page_size = n\<rparr>"

definition two_loads :: "int \<Rightarrow> int \<Rightarrow> tokens_page \<Rightarrow> bool" where
  "two_loads a b st \<longleftrightarrow> tp_pageSize st = b \<and> tp_calls st = [LoadCall 1 a a JustLoad, LoadCall 1 b b JustLoad]"

lemma half_round:
  assumes "two_loads a b st" "a \<noteq> b" "a \<noteq> 0"
  obtains st' where "token_run env [Answered 0 (page_of a), Answered 2 DeniedAnswer] st = Some st'" "two_loads b a st'"
  using assms that
  by (auto simp: two_loads_def page_of_def token_step_def answer_token_call_def answer_load_call_def finish_load_def syncPageData_def
      int_or_def remove_nth_def size_effect_def loadTokens_def begin_token_call_def answer_groups_call_def Let_def)

lemma token_run_append:
  "token_run env (xs @ ys) st = (case token_run env xs st of None \<Rightarrow> None | Some st' \<Rightarrow> token_run env ys st')"
  by (induction xs arbitrary: st) (auto split: option.splits)

definition size_round :: "int \<Rightarrow> int \<Rightarrow> token_event list" where
  "size_round a b = [Answered 0 (page_of a), Answered 2 DeniedAnswer, Answered 0 (page_of b), Answered 2 DeniedAnswer]"

lemma full_round:
  assumes "two_loads a b st" "a \<noteq> b" "a \<noteq> 0" "b \<noteq> 0"
  obtains st' where "token_run env (size_round a b) st = Some st'" "two_loads a b st'"
proof -
  obtain st1 where 1: "token_run env [Answered 0 (page_of a), Answered 2 DeniedAnswer] st = Some st1" "two_loads b a st1"
    using half_round [OF assms(1-3)] by blast
  obtain st2 where 2: "token_run env [Answered 0 (page_of b), Answered 2 DeniedAnswer] st1 = Some st2" "two_loads a b st2"
    using half_round [OF 1(2) assms(2) [symmetric] assms(4)] by blast
  have "size_round a b = [Answered 0 (page_of a), Answered 2 DeniedAnswer] @ [Answered 0 (page_of b), Answered 2 DeniedAnswer]"
    by (simp add: size_round_def)
  with 1(1) 2 that [of st2] show ?thesis by (simp only: token_run_append) simp
qed

lemma rounds_alternate:
  assumes "two_loads a b st" "a \<noteq> b" "a \<noteq> 0" "b \<noteq> 0"
  shows "\<exists>st'. token_run env (concat (replicate n (size_round a b))) st = Some st' \<and> two_loads a b st'"
proof (induction n)
  case (Suc n)
  obtain st1 where 1: "token_run env (size_round a b) st = Some st1" "two_loads a b st1" using full_round [OF assms] by blast
  have "concat (replicate n (size_round a b)) @ size_round a b = concat (replicate (Suc n) (size_round a b))"
    by (induction n) simp_all
  moreover from Suc obtain st2 where 2: "token_run env (concat (replicate n (size_round a b))) st = Some st2" "two_loads a b st2" by blast
  moreover obtain st3 where "token_run env (size_round a b) st2 = Some st3" "two_loads a b st3"
    using full_round [OF 2(2) assms(2-4)] by blast
  ultimately show ?case by (metis (no_types, lifting) option.simps(5) token_run_append)
qed (use assms in simp)

lemma newer_first_rests:
  assumes "two_loads a b st" "a \<noteq> b" "a \<noteq> 0"
  shows "\<exists>st'. token_run env [Answered 1 (page_of b), Answered 0 (page_of a), Answered 1 DeniedAnswer, Answered 0 (page_of a)] st = Some st' \<and>
    tp_calls st' = [] \<and> tp_pageSize st' = a"
  using assms
  by (auto simp: two_loads_def page_of_def token_step_def answer_token_call_def answer_load_call_def finish_load_def syncPageData_def
      int_or_def remove_nth_def size_effect_def loadTokens_def begin_token_call_def answer_groups_call_def Let_def)

text \<open>
  C34: with two loads for different page sizes under way it depends on the order of the answers whether the
  page comes to rest. When the older load is always answered first, every answer sets the page size back to the
  one it was asked with, which starts the next load, so after any number of rounds the same two loads are under
  way again; when the newer one is answered first, four answers end it at the size of the older one.
\<close>

theorem page_sizes_alternate:
  assumes "two_loads a b st" "a \<noteq> b" "a \<noteq> 0" "b \<noteq> 0"
  shows "(\<exists>st'. token_run env (concat (replicate n (size_round a b))) st = Some st' \<and> two_loads a b st') \<and>
    (\<exists>st'. token_run env [Answered 1 (page_of b), Answered 0 (page_of a), Answered 1 DeniedAnswer, Answered 0 (page_of a)] st = Some st' \<and>
       tp_calls st' = [] \<and> tp_pageSize st' = a)"
  using rounds_alternate [OF assms] newer_first_rests [OF assms(1-3)] by blast

fun plain_load :: "token_call \<Rightarrow> bool" where
  "plain_load (LoadCall p n m after) = (after = JustLoad \<or> after = RefreshList)"
| "plain_load _ = False"

lemma one_load_answered:
  assumes "tp_calls st = c # cs" "plain_load c" "pl_page_size payload = tp_pageSize st" "tp_pageSize st \<noteq> 0"
  obtains st' where "token_step env (Answered 0 (PageAnswer payload)) st = Some st'" "tp_calls st' = cs"
    "tp_pageSize st' = tp_pageSize st" "\<not> tp_loading st'" "map (row_at st') (tp_tokens st') = pl_items payload"
proof -
  obtain p n m after where c: "c = LoadCall p n m after" "after = JustLoad \<or> after = RefreshList"
    using assms(2) by (cases c) auto
  let ?st = "finish_load after ((syncPageData m payload (st\<lparr>tp_calls := cs\<rparr>))\<lparr>tp_loading := False\<rparr>)"
  have rows: "map (row_at ?st) (tp_tokens ?st) = pl_items payload"
    using c(2) by (intro nth_equalityI) (auto simp: finish_load_def syncPageData_def row_at_def Let_def)
  have "token_step env (Answered 0 (PageAnswer payload)) st = Some ?st"
    using assms c by (auto simp: token_step_def answer_token_call_def answer_load_call_def remove_nth_def finish_load_def syncPageData_def
        int_or_def Let_def)
  with rows c(2) assms(3,4) that [of ?st] show ?thesis by (auto simp: finish_load_def syncPageData_def int_or_def Let_def)
qed

text \<open>
  C30: when only plain loads are under way and they are answered in the order they were sent, every answer with
  the present page size of the page, the loads come to an end: after their answers nothing is under way, the
  spinner is off and the rows are those of the last answer.
\<close>

theorem loads_settle:
  assumes "tp_calls st \<noteq> []" "list_all plain_load (tp_calls st)" "length payloads = length (tp_calls st)"
    "list_all (\<lambda>p. pl_page_size p = tp_pageSize st) payloads" "tp_pageSize st \<noteq> 0"
  shows "\<exists>st'. token_run env (map (\<lambda>p. Answered 0 (PageAnswer p)) payloads) st = Some st' \<and> tp_calls st' = [] \<and>
    \<not> tp_loading st' \<and> tp_pageSize st' = tp_pageSize st \<and> map (row_at st') (tp_tokens st') = pl_items (last payloads)"
  using assms
proof (induction payloads arbitrary: st)
  case (Cons p ps)
  then obtain c cs where calls: "tp_calls st = c # cs" "plain_load c" "list_all plain_load cs" by (cases "tp_calls st") auto
  obtain s where s: "token_step env (Answered 0 (PageAnswer p)) st = Some s" "tp_calls s = cs"
    "tp_pageSize s = tp_pageSize st" "\<not> tp_loading s" "map (row_at s) (tp_tokens s) = pl_items p"
    using one_load_answered [OF calls(1,2), of p] Cons.prems(4,5) by auto
  show ?case
  proof (cases "ps = []")
    case True
    with s Cons.prems(3) calls(1) show ?thesis by simp
  next
    case False
    then have "cs \<noteq> []" using Cons.prems(3) calls(1) by auto
    with s calls Cons.prems Cons.IH [of s] False show ?thesis by simp
  qed
qed simp

section \<open>Sample inputs\<close>

definition sample_env :: token_env where
  "sample_env = \<lparr>te_status = None, te_origin = ''https://a.b''\<rparr>"

definition sample_keys :: "int \<Rightarrow> string" where
  "sample_keys i = (if i = 7 then ''seven'' else ''k'')"

definition sample_row :: token_row where
  "sample_row = \<lparr>tk_id = 7, tk_name = ''n'', tk_status = 1, tk_key = ''s**n''\<rparr>"

definition sample_page :: token_answer where
  "sample_page = PageAnswer \<lparr>pl_items = [sample_row], pl_total = 1, pl_page = 1, pl_page_size = 10\<rparr>"

theorem token_search_url_injective_witness:
  "token_search_url ''a&b'' [] 1 10 \<noteq> token_search_url ''a'' ''b'' 1 10"
  using token_search_url_injective [of "''a&b''" "[]" 1 10 "''a''" "''b''"] by auto

text \<open>A page with one row whose key has been asked for twice.\<close>

definition sample_tokens :: tokens_page where
  "sample_tokens = the (token_run sample_env [Answered 0 sample_page, ToggleKey 0, WantKey 0 CopyKey] initial_tokens)"

lemma sample_steps:
  "token_run sample_env [Answered 0 sample_page, ToggleKey 0, WantKey 0 CopyKey] initial_tokens = Some sample_tokens"
  "tp_calls sample_tokens = [GroupsCall, KeyCall 7]" "tp_waiters sample_tokens = [(7, ShowKey), (7, CopyKey)]"
  "\<not> tp_showKeys sample_tokens 7" "tp_loadingKeys sample_tokens 7"
  unfolding sample_tokens_def
  by (simp_all add: initial_tokens_def size_effect_def loadTokens_def begin_token_call_def token_step_def sample_page_def answer_token_call_def
      answer_load_call_def finish_load_def syncPageData_def int_or_def remove_nth_def on_row_def row_at_def sample_row_def
      toggleTokenVisibility_def fetchTokenKey_def resolved_key_def ITEMS_PER_PAGE_def Let_def)

lemma token_reach_run:
  "token_reach keys env st \<Longrightarrow> token_run env evs st = Some st' \<Longrightarrow>
   (\<And>ev s. ev \<in> set evs \<Longrightarrow> honest_event keys s ev) \<Longrightarrow> token_reach keys env st'"
proof (induction evs arbitrary: st)
  case (Cons ev evs)
  then obtain s where "token_step env ev st = Some s" "token_run env evs s = Some st'" by (auto split: option.splits)
  with Cons show ?case using token_next [of keys env st ev s] by simp
qed simp

lemma sample_reach: "token_reach sample_keys sample_env sample_tokens"
proof (rule token_reach_run [OF token_init sample_steps(1)])
  fix ev s assume "ev \<in> set [Answered 0 sample_page, ToggleKey 0, WantKey 0 CopyKey]"
  then show "honest_event sample_keys s ev" by (cases "tp_calls s ! 0") (auto simp: sample_page_def)
qed

theorem one_key_request_witness:
  "count_list (tp_calls sample_tokens) (KeyCall 7) = 1 \<and> KeyCall 7 \<in> set (tp_calls sample_tokens)"
  using one_key_request [OF sample_reach, of 7 CopyKey] sample_steps by simp

theorem keys_shown_and_copied_witness:
  "displayedKey sample_tokens sample_row = ''sk-s**n'' \<and> list_all (genuine_output sample_keys sample_env) (tp_log sample_tokens)"
proof -
  have "sample_keys i \<noteq> []" for i by (simp add: sample_keys_def)
  from keys_shown_and_copied [OF sample_reach this, of sample_row] sample_steps(4) show ?thesis
    by (simp add: sample_row_def sk_def)
qed

theorem waiting_is_served_witness:
  "\<exists>k st'. token_step sample_env (Answered k (KeyAnswer ''seven'')) sample_tokens = Some st' \<and>
    CopiedKey 7 ''sk-seven'' \<in> set (tp_log st') \<and> 7 \<notin> fst ` set (tp_waiters st')"
proof -
  have "sample_keys i \<noteq> []" for i by (simp add: sample_keys_def)
  from waiting_is_served [OF sample_reach this, of 7 CopyKey] sample_steps(3) show ?thesis
    by (auto simp: sample_keys_def sk_def)
qed

theorem page_size_leaves_search_witness:
  "\<exists>st'. token_step sample_env (SetPageSize 20) (initial_tokens\<lparr>tp_searchMode := True, tp_keyword := ''a''\<rparr>) = Some st' \<and> \<not> tp_searchMode st'"
proof -
  let ?st = "initial_tokens\<lparr>tp_searchMode := True, tp_keyword := ''a''\<rparr>"
  have "tp_pageSize ?st = 10" by (simp add: initial_tokens_def size_effect_def loadTokens_def begin_token_call_def ITEMS_PER_PAGE_def)
  with page_size_leaves_search [of ?st 20 sample_env] show ?thesis by auto
qed

text \<open>
  Two new page sizes, one after the other, lead to two such loads. Equal requests under way are answered together
  here, as they are when the HTTP client lets them share one request.
\<close>

definition size_events :: "token_event list" where
  "size_events = [Answered 0 (page_of 10), Answered 0 DeniedAnswer, SetPageSize 20, SetPageSize 50, Answered 2 DeniedAnswer,
     Answered 4 DeniedAnswer, Answered 0 (page_of 20), Answered 0 (page_of 20), Answered 3 DeniedAnswer,
     Answered 0 (page_of 50), Answered 0 (page_of 50), Answered 2 DeniedAnswer]"

lemma two_loads_reached:
  "\<exists>st. token_run sample_env size_events initial_tokens = Some st \<and> two_loads 20 50 st"
  by (simp add: size_events_def initial_tokens_def size_effect_def loadTokens_def begin_token_call_def token_step_def page_of_def answer_token_call_def
      answer_load_call_def answer_groups_call_def finish_load_def syncPageData_def int_or_def remove_nth_def two_loads_def
      handleTokenPageSizeChange_def ITEMS_PER_PAGE_def Let_def)

theorem page_sizes_alternate_witness:
  "\<exists>st st'. token_run sample_env size_events initial_tokens = Some st \<and>
    token_run sample_env (concat (replicate 1000 (size_round 20 50))) st = Some st' \<and> two_loads 20 50 st'"
proof -
  obtain st where st: "token_run sample_env size_events initial_tokens = Some st" "two_loads 20 50 st" using two_loads_reached by blast
  have "\<exists>st'. token_run sample_env (concat (replicate 1000 (size_round 20 50))) st = Some st' \<and> two_loads 20 50 st'"
    using page_sizes_alternate [OF st(2), of sample_env 1000] by simp
  with st(1) show ?thesis by blast
qed

theorem loads_settle_witness:
  "\<exists>st'. token_run sample_env [Answered 0 sample_page] (initial_tokens\<lparr>tp_calls := [LoadCall 1 10 10 JustLoad]\<rparr>) = Some st' \<and>
    tp_calls st' = [] \<and> \<not> tp_loading st' \<and> map (row_at st') (tp_tokens st') = [sample_row]"
proof -
  let ?st = "initial_tokens\<lparr>tp_calls := [LoadCall 1 10 10 JustLoad]\<rparr>"
  have "tp_pageSize ?st = 10" by (simp add: initial_tokens_def size_effect_def loadTokens_def begin_token_call_def ITEMS_PER_PAGE_def)
  with loads_settle [of ?st "[\<lparr>pl_items = [sample_row], pl_total = 1, pl_page = 1, pl_page_size = 10\<rparr>]" sample_env]
  show ?thesis by (auto simp: sample_page_def simp del: token_run.simps)
qed

end
