(* ===== verification/Spec2Isabelle.thy ===== *)
theory Spec2Isabelle
  imports Status_Codes Status_Code_Risk Request_Rules_Roundtrip Pricing_Proofs
    Playground_Messages_Proofs Playground_Chat Playground_Config_Proofs Playground_Sync_Proofs
    Param_Override_Invariant Tiered_Proofs Ratio_Sync_Safety
    Channel_List_Proofs Channel_Tests_Proofs Channel_Updates_Proofs Channels_Actions
    Channel_Affinity_Proofs Tokens_Proofs
begin

text \<open>
  Verification of the decision logic of the new-api-pool web front end (\<open>src/web/src\<close>).

  \<^bold>\<open>The program.\<close> The front end of an API gateway: pages that edit the gateway's options and a
  playground that talks to its models. Its own logic lies in hooks, helpers and editors; the pages around
  them are markup. The server in Go keeps the options as texts, so each editor turns a text into a form
  and the form into a text again, and most of what can go wrong is a text that is not read back as it was
  meant. The parts and the theories that model them:

    \<^item> Status code rules (\<open>helpers/statusCodeRules.js\<close>): \<^theory_text>\<open>Status_Codes\<close>; the guard for risky
      redirects (\<open>statusCodeRiskGuard.js\<close>): \<^theory_text>\<open>Status_Code_Risk\<close>.
    \<^item> Billing expressions with request rules (\<open>requestRuleExpr.js\<close>): \<^theory_text>\<open>Request_Rules\<close>, proofs in
      \<^theory_text>\<open>Request_Rules_Roundtrip\<close>.
    \<^item> Tiered prices (\<open>TieredPricingEditor.jsx\<close>, \<open>billing.constants.js\<close>): \<^theory_text>\<open>Tiered_Pricing\<close>, the
      matching of its regular expressions in \<^theory_text>\<open>Tiered_Match\<close>, properties in \<^theory_text>\<open>Tiered_Proofs\<close>.
    \<^item> The model pricing editor (\<open>useModelPricingEditorState.js\<close>): texts and numbers in
      \<^theory_text>\<open>Model_Pricing\<close>, the state and its handlers in \<^theory_text>\<open>Pricing_Editor\<close>, properties in \<^theory_text>\<open>Pricing_Proofs\<close>.
    \<^item> Playground messages (\<open>helpers/utils.jsx\<close>, \<open>helpers/api.js\<close>, \<open>useMessageActions.jsx\<close>,
      \<open>useMessageEdit.jsx\<close>, \<open>pages/Playground/index.jsx\<close>): \<^theory_text>\<open>Playground_Messages\<close> and its proofs.
    \<^item> Requests and streams (\<open>useApiRequest.jsx\<close>): \<^theory_text>\<open>Playground_Stream\<close>, its proofs, and the abstract
      chat it implements in \<^theory_text>\<open>Playground_Chat\<close>.
    \<^item> Stored configuration (\<open>configStorage.js\<close>, \<open>usePlaygroundState.js\<close>, \<open>ConfigManager.jsx\<close>):
      \<^theory_text>\<open>Playground_Config\<close> and its proofs.
    \<^item> The custom request body and the lists of models and groups
      (\<open>useSyncMessageAndCustomBody.js\<close>, \<open>useDataLoader.js\<close>): \<^theory_text>\<open>Playground_Sync\<close> and its proofs.
    \<^item> Parameter overrides (\<open>ParamOverrideEditorModal.jsx\<close>, \<open>channel-affinity-template.constants.js\<close>):
      the pure functions in \<^theory_text>\<open>Param_Override\<close>, the dialog in \<^theory_text>\<open>Param_Override_Editor\<close>, its inputs and
      runs in \<^theory_text>\<open>Param_Override_Form\<close>, properties in \<^theory_text>\<open>Param_Override_Proofs\<close> and
      \<^theory_text>\<open>Param_Override_Invariant\<close>.
    \<^item> Synchronisation of prices with upstream servers (\<open>UpstreamRatioSync.jsx\<close>): options and ticks in
      \<^theory_text>\<open>Ratio_Sync\<close>, the page with its requests under way in \<^theory_text>\<open>Ratio_Sync_Page\<close>, properties in
      \<^theory_text>\<open>Ratio_Sync_Proofs\<close> and \<^theory_text>\<open>Ratio_Sync_Safety\<close>.
    \<^item> The list of channels (\<open>useChannelsData.jsx\<close> with the controls of \<open>components/table/channels\<close>): rows as
      shared objects in \<^theory_text>\<open>Channels_Data\<close>, loading, searching and paging in \<^theory_text>\<open>Channels_Page\<close>, columns and the
      other actions in \<^theory_text>\<open>Channels_Actions\<close>, properties in \<^theory_text>\<open>Channel_Rows_Proofs\<close> and
      \<^theory_text>\<open>Channel_List_Proofs\<close>.
    \<^item> Model tests of a channel (the same hook, \<open>ModelTestModal.jsx\<close>): \<^theory_text>\<open>Channel_Tests\<close> and its proofs.
    \<^item> Pending model updates of a channel (\<open>useChannelUpstreamUpdates.jsx\<close>,
      \<open>ChannelUpstreamUpdateModal.jsx\<close>): \<^theory_text>\<open>Channel_Updates\<close> and its proofs.
    \<^item> Channel affinity settings (\<open>SettingsChannelAffinity.jsx\<close>, whose rules carry a template edited by the
      override dialog): \<^theory_text>\<open>Channel_Affinity\<close> and its proofs.
    \<^item> The list of API tokens (\<open>useTokensData.jsx\<close>, \<open>helpers/token.js\<close>): \<^theory_text>\<open>Tokens_Page\<close> and
      \<^theory_text>\<open>Tokens_Proofs\<close>.

  \<^bold>\<open>What the code uses of the language.\<close> \<^theory_text>\<open>JS_Prelude\<close> (strings as UTF-8 bytes, trimming, splitting,
  joining), \<^theory_text>\<open>JS_Number\<close> (doubles as rationals with rounding, reading and writing of numbers),
  \<^theory_text>\<open>JS_Value\<close> (values, objects as ordered property lists, \<open>JSON.parse\<close> and \<open>JSON.stringify\<close>),
  \<^theory_text>\<open>JS_Json\<close> (that parsing inverts printing, plain and indented) and \<^theory_text>\<open>JS_Regex\<close> (a backtracking
  matcher). \<^theory_text>\<open>JS_Interfaces\<close> states the contracts several parts share as locales: a normaliser with
  canonical forms, a printer with its parser, a store addressed by keys, and requests with numbers; they
  are interpreted on the status code ranges, the rule conditions and JSON, the option objects, and the
  loads of the channel list. \<^theory_text>\<open>Playground_Stream_Proofs\<close> has a contract for an update of the last message
  and interprets it on every updater; \<^theory_text>\<open>Playground_Chat\<close> has one for a simulation and interprets it on
  the request hook.

  \<^bold>\<open>State and operations.\<close> A hook or a dialog is a record of its state variables; a handler or an effect
  is a function on this record, with the guards and early returns of the source. An exception that the
  source does not catch is a left value of a sum. Callbacks, replies of the server, the clock, texts of
  the user interface and the success of a write to the storage are arguments. Sequences of handlers are
  step relations (\<open>editor_step\<close> of the pricing editor, \<open>override_step\<close> of the override dialog, \<open>sync_step\<close>
  of the price synchronisation, \<open>list_step\<close> of the channel list, \<open>token_reach\<close> of the token list) or functions over lists of events
  (\<open>pg_run\<close>, \<open>test_run\<close>, \<open>update_run\<close>, \<open>affinity_run\<close>). Where requests overlap, the state has the list of those under way
  and an answer may come for any of them; a function that outlives its render carries the values it
  has captured.

  \<^bold>\<open>What is shown.\<close>
    \<^item> Round trips: rule sets, billing expressions, tiers, status code rules, override rules,
      affinity rules and their options, connection texts, the conversation and the configuration are read back from the
      text they are written as.
    \<^item> Invariants of all runs: names and selection of the pricing editor; rules, ids, selection and modes of
      the override dialog; the list of messages under stream events; the shape of tiers under edits; the
      ticks of the price synchronisation; the calls for model updates; text and table of the affinity rules.
    \<^item> Overlapping requests: superseded loads change nothing, batches keep their bound on open requests,
      the key of a token is requested once for all who wait for it, and a save writes what was ticked.
    \<^item> Refinement: the request hook implements the abstract chat, and none of its events makes it throw.
    \<^item> Ends: which events of a stream settle its message and which leave it open, a settled message does
      not change, the two synchronisation effects come to rest after two commits, a batch of tests that is
      left alone ends with a result for every model, and the spinner of the list stops when requests and
      batch deletions have been answered.
    \<^item> Functional behaviour and errors of the single operations, on every branch.
    \<^item> Behaviour that is likely not meant, as theorems beside the properties: rules and prices that are
      lost, edits without effect, inputs that throw.

  \<^bold>\<open>Fuel.\<close> The readers of JSON and of expressions, the matcher's repetition and the search for all matches
  count down from the length of the text; each step consumes a character, and the round trips show that
  this is enough. All other recursion is structural or has a measure.

  \<^bold>\<open>Not modelled.\<close> Markup, styles, toasts and clipboard; translation (a text of the interface is an argument
  or a constant of its bytes); messages of other shapes than the page makes (an id that is no text, reasoning
  that is no text, a null item in an array of content); the sharing of one answer by equal requests under way
  (every call has its own answer, shared ones are the special case of answers that come together); the evaluation of an expression by the host's function constructor in the
  cost estimator of the tiered editor and its display texts; HTTP itself; the pages that only show tables;
  the server in Go and the desktop shell.
\<close>

end
